(* ===== verification/TF_Prelude.thy ===== *)
theory TF_Prelude
  imports Main "HOL-Library.Word" "HOL-Library.Monad_Syntax"
begin

unbundle bit_operations_syntax

section \<open>Shared vocabulary of the development\<close>

text \<open>
  Names for the machine integers of the AArch64 build, the option monad in which every
  operation of the firmware is written, checked array accesses, and the generic lemmas the
  component theories share.

  The result \<^term>\<open>None\<close> of an operation stands for an execution that does not continue:
  a call of \<^verbatim>\<open>panic()\<close>, a failed \<^verbatim>\<open>assert()\<close>, the use of a null hook, or an access outside
  the bounds of an array. C error codes are ordinary values of type \<^typ>\<open>int\<close>.
\<close>

type_synonym u8 = "8 word"
type_synonym u16 = "16 word"
type_synonym u32 = "32 word"
type_synonym u64 = "64 word"

subsection \<open>Checked primitives\<close>

definition assert_c :: "bool \<Rightarrow> unit option" where
  "assert_c b = (if b then Some () else None)"

definition aread :: "'a list \<Rightarrow> nat \<Rightarrow> 'a option" where
  "aread xs i = (if i < length xs then Some (xs ! i) else None)"

definition awrite :: "'a list \<Rightarrow> nat \<Rightarrow> 'a \<Rightarrow> 'a list option" where
  "awrite xs i v = (if i < length xs then Some (xs[i := v]) else None)"

text \<open>An outcome of a call that may never give control back to its caller.\<close>

datatype 'a outcome = Returned 'a | No_Return

named_theorems loop_simps \<open>unfolding equations of the loops\<close>
named_theorems frame \<open>fields an operation leaves alone\<close>

subsection \<open>Lemmas on the primitives\<close>

lemma assert_c_simps [simp]:
  "assert_c True = Some ()" "assert_c False = None"
  by (simp_all add: assert_c_def)

lemma assert_c_Some [simp]: "assert_c b = Some u \<longleftrightarrow> b"
  by (simp add: assert_c_def)

lemma aread_Some [simp]: "aread xs i = Some x \<longleftrightarrow> i < length xs \<and> x = xs ! i"
  by (auto simp: aread_def)

lemma aread_in [simp]: "i < length xs \<Longrightarrow> aread xs i = Some (xs ! i)"
  by (simp add: aread_def)

lemma awrite_Some [simp]: "awrite xs i v = Some ys \<longleftrightarrow> i < length xs \<and> ys = xs[i := v]"
  by (auto simp: awrite_def)

lemma awrite_in [simp]: "i < length xs \<Longrightarrow> awrite xs i v = Some (xs[i := v])"
  by (simp add: awrite_def)

lemma aread_eval [simp]:
  "aread [] i = None" "aread (x # xs) 0 = Some x" "aread (x # xs) (Suc i) = aread xs i"
  by (simp_all add: aread_def)

lemma aread_numeral [simp]:
  "aread (x # xs) (numeral k) = aread xs (pred_numeral k)" "aread (x # xs) 1 = aread xs 0"
  by (simp_all add: aread_def numeral_eq_Suc)

lemmas bind_Some_iff = Option.bind_eq_Some_conv

lemma bind_assert_c_Some [simp]:
  "Option.bind (assert_c b) f = Some y \<longleftrightarrow> b \<and> f () = Some y"
  by (cases b) auto

lemma bind_aread_Some [simp]:
  "Option.bind (aread xs i) f = Some y \<longleftrightarrow> i < length xs \<and> f (xs ! i) = Some y"
  by (auto simp: aread_def)

lemma bind_awrite_Some [simp]:
  "Option.bind (awrite xs i v) f = Some y \<longleftrightarrow> i < length xs \<and> f (xs[i := v]) = Some y"
  by (auto simp: awrite_def)

text \<open>Words: the only unsigned value not above zero is zero.\<close>

lemma word_not_gt_0 [simp]: "\<not> 0 < (w :: 'a::len word) \<longleftrightarrow> w = 0"
  by (simp add: word_neq_0_conv[symmetric])

lemma unat_bound: "unat (w :: 'a::len word) < 2 ^ LENGTH('a)"
  by (rule unsigned_less)

lemma small_bit: "x < 2 ^ m \<Longrightarrow> bit (x :: 'a::len word) k \<Longrightarrow> k < m"
  by (metis bit_and_iff bit_mask_iff less_mask_eq)

subsection \<open>Searches\<close>

text \<open>The first element of an array with a property.\<close>

fun find_index :: "('a \<Rightarrow> bool) \<Rightarrow> 'a list \<Rightarrow> nat option" where
  "find_index P [] = None"
| "find_index P (x # xs) = (if P x then Some 0 else map_option Suc (find_index P xs))"

lemma find_index_Some:
  "find_index P xs = Some i \<Longrightarrow> i < length xs \<and> P (xs ! i)"
  by (induction xs arbitrary: i) (auto split: if_split_asm)

lemma find_index_None: "find_index P xs = None \<longleftrightarrow> (\<forall>x \<in> set xs. \<not> P x)"
  by (induction xs) auto

lemma find_index_update:
  "i < length xs \<Longrightarrow> P y = P (xs ! i) \<Longrightarrow> find_index P (xs[i := y]) = find_index P xs"
  by (induction xs arbitrary: i) (auto split: nat.split simp: nth_Cons')

text \<open>\<^verbatim>\<open>__builtin_ctz()\<close>: the number of zero bits below the lowest one, the width at zero.\<close>

definition builtin_ctz :: "'a::len word \<Rightarrow> nat" where
  "builtin_ctz w = length (takeWhile (\<lambda>i. \<not> bit w i) [0..<LENGTH('a)])"

subsection \<open>Systems with an invariant\<close>

text \<open>What a system of CPUs has to show for each step to know it of every reachable state.\<close>

locale step_invariant =
  fixes step :: "'s \<Rightarrow> 's \<Rightarrow> bool" and inv :: "'s \<Rightarrow> bool"
  assumes step_inv: "step x y \<Longrightarrow> inv x \<Longrightarrow> inv y"
begin

lemma reach_inv: "step\<^sup>*\<^sup>* x y \<Longrightarrow> inv x \<Longrightarrow> inv y"
  by (induction rule: rtranclp_induct) (auto intro: step_inv)

end

end
