(* ===== verification/TF_Arch.thy ===== *)
theory TF_Arch
  imports TF_Prelude
begin

section \<open>Architecture and calling convention\<close>

text \<open>
  The macros of \<^verbatim>\<open>include/lib/smccc.h\<close>, \<^verbatim>\<open>include/arch/aarch64/arch.h\<close>, \<^verbatim>\<open>include/common/ep_info.h\<close>
  and \<^verbatim>\<open>include/lib/utils_def.h\<close> that the components use: fields of an SMC function identifier,
  saved program status words, attributes of an entry point, overflow checks on pointers.
\<close>

unbundle bit_operations_syntax

subsection \<open>SMC function identifiers\<close>

definition GET_SMC_TYPE :: "u32 \<Rightarrow> u32" where
  "GET_SMC_TYPE fid = drop_bit 31 fid AND 0x1"

definition GET_SMC_CC :: "u32 \<Rightarrow> u32" where
  "GET_SMC_CC fid = drop_bit 30 fid AND 0x1"

definition GET_SMC_OEN :: "u32 \<Rightarrow> u32" where
  "GET_SMC_OEN fid = drop_bit 24 fid AND 0x3f"

definition SMC_32 :: u32 where "SMC_32 = 0"
definition SMC_64 :: u32 where "SMC_64 = 1"
definition SMC_TYPE_FAST :: u32 where "SMC_TYPE_FAST = 1"
definition SMC_TYPE_YIELD :: u32 where "SMC_TYPE_YIELD = 0"
definition SMC_UNK :: u64 where "SMC_UNK = -1"
definition OEN_STD_START :: u32 where "OEN_STD_START = 4"
definition SMCCC_VERSION :: u32 where "SMCCC_VERSION = 0x80000000"

definition is_caller_non_secure :: "u64 \<Rightarrow> bool" where
  "is_caller_non_secure f \<longleftrightarrow> f AND 1 \<noteq> 0"

definition is_caller_secure :: "u64 \<Rightarrow> bool" where
  "is_caller_secure f \<longleftrightarrow> \<not> is_caller_non_secure f"

definition is_std_svc_call :: "u32 \<Rightarrow> bool" where
  "is_std_svc_call fid \<longleftrightarrow> GET_SMC_OEN fid = OEN_STD_START"

definition is_valid_fast_smc :: "u32 \<Rightarrow> bool" where
  "is_valid_fast_smc fid \<longleftrightarrow>
     drop_bit 16 fid AND 0xff = 0 \<and> GET_SMC_TYPE fid = SMC_TYPE_FAST"

text \<open>Error numbers of \<^verbatim>\<open>include/lib/libc/errno.h\<close>.\<close>

definition EPERM :: int where "EPERM = 1"
definition ENOMEM :: int where "ENOMEM = 12"
definition EINVAL :: int where "EINVAL = 22"
definition EALREADY :: int where "EALREADY = 37"
definition EAUTH :: int where "EAUTH = 80"

lemmas smc_fid_defs =
  GET_SMC_TYPE_def GET_SMC_CC_def GET_SMC_OEN_def SMC_32_def SMC_64_def SMC_TYPE_FAST_def
  SMC_TYPE_YIELD_def OEN_STD_START_def is_std_svc_call_def is_valid_fast_smc_def
  SMCCC_VERSION_def

subsection \<open>Entry points and saved program status\<close>

definition SECURE :: u32 where "SECURE = 0"
definition NON_SECURE :: u32 where "NON_SECURE = 1"
definition EP_ST_DISABLE :: u32 where "EP_ST_DISABLE = 0"
definition EP_EE_BIG :: u32 where "EP_EE_BIG = 2"
definition PARAM_EP :: u8 where "PARAM_EP = 1"
definition VERSION_1 :: u8 where "VERSION_1 = 1"

definition SCR_HCE_BIT :: u64 where "SCR_HCE_BIT = push_bit 8 1"
definition SCR_RW_BIT :: u64 where "SCR_RW_BIT = push_bit 10 1"
definition SCTLR_EE_BIT :: u64 where "SCTLR_EE_BIT = push_bit 25 1"

definition MODE_EL1 :: u32 where "MODE_EL1 = 1"
definition MODE_EL2 :: u32 where "MODE_EL2 = 2"
definition MODE_SP_ELX :: u32 where "MODE_SP_ELX = 1"
definition MODE32_svc :: u32 where "MODE32_svc = 0x3"
definition MODE32_hyp :: u32 where "MODE32_hyp = 0xa"
definition DAIF_FIQ_BIT :: u32 where "DAIF_FIQ_BIT = 1"
definition DAIF_IRQ_BIT :: u32 where "DAIF_IRQ_BIT = 2"
definition DAIF_ABT_BIT :: u32 where "DAIF_ABT_BIT = 4"
definition DAIF_DBG_BIT :: u32 where "DAIF_DBG_BIT = 8"

definition DISABLE_ALL_EXCEPTIONS :: u32 where
  "DISABLE_ALL_EXCEPTIONS = DAIF_FIQ_BIT OR DAIF_IRQ_BIT OR DAIF_ABT_BIT OR DAIF_DBG_BIT"

definition SPSR_64 :: "u32 \<Rightarrow> u32 \<Rightarrow> u32 \<Rightarrow> u32" where
  "SPSR_64 el sp daif =
     push_bit 2 (el AND 0x3) OR (sp AND 0x1) OR push_bit 6 (daif AND 0xf)"

definition SPSR_MODE32 :: "u32 \<Rightarrow> u32 \<Rightarrow> u32 \<Rightarrow> u32 \<Rightarrow> u32" where
  "SPSR_MODE32 mode isa endian aif =
     push_bit 4 1 OR (mode AND 0xf) OR push_bit 5 (isa AND 0x1) OR
     push_bit 9 (endian AND 0x1) OR push_bit 6 (aif AND 0x7)"

definition MPIDR_AFFINITY_MASK :: u64 where "MPIDR_AFFINITY_MASK = 0xff00ffffff"

subsection \<open>Overflow checks\<close>

definition check_uptr_overflow :: "u64 \<Rightarrow> u64 \<Rightarrow> bool" where
  "check_uptr_overflow ptr inc \<longleftrightarrow> ptr > (-1 - inc)"

definition check_u32_overflow :: "u32 \<Rightarrow> u32 \<Rightarrow> bool" where
  "check_u32_overflow x inc \<longleftrightarrow> x > (-1 - inc)"

text \<open>The check is exact: it holds if and only if the addition wraps around.\<close>

lemma word_max_minus: "unat (-1 - inc :: 'a::len word) = 2 ^ LENGTH('a) - 1 - unat inc"
proof -
  have "inc \<le> (-1 :: 'a word)" by simp
  then have "unat (-1 - inc) = unat (-1 :: 'a word) - unat inc"
    by (simp add: unat_sub)
  then show ?thesis by (simp add: unsigned_minus_1_eq_mask mask_eq_exp_minus_1)
qed

lemma check_uptr_overflow_iff:
  "check_uptr_overflow p inc \<longleftrightarrow> 2 ^ 64 \<le> unat p + unat inc"
  using unat_bound[of inc] by (auto simp: check_uptr_overflow_def word_less_nat_alt word_max_minus)

lemma check_u32_overflow_iff:
  "check_u32_overflow x inc \<longleftrightarrow> 2 ^ 32 \<le> unat x + unat inc"
  using unat_bound[of inc] by (auto simp: check_u32_overflow_def word_less_nat_alt word_max_minus)

end
