(* ===== verification/PSCI_Types.thy ===== *)
theory PSCI_Types
  imports TF_Arch
begin

section \<open>PSCI: constants, data and environment\<close>

text \<open>
  The data of \<^verbatim>\<open>include/lib/psci/psci.h\<close>, \<^verbatim>\<open>psci_lib.h\<close> and \<^verbatim>\<open>lib/psci/psci_private.h\<close>: error
  codes, function identifiers, power-state fields, the power domain tree, the per-CPU data and
  the hook tables. A platform port fixes constants and functions that the generic code only
  calls; they are the record \<open>psci_env\<close>, an argument of the operations. Hooks that return a
  value may depend on everything that happened before, so they take the event log.
\<close>

unbundle bit_operations_syntax

subsection \<open>Constants\<close>

definition PSCI_CPU_PWR_LVL :: nat where "PSCI_CPU_PWR_LVL = 0"
definition PSCI_MAX_PWR_LVL :: nat where "PSCI_MAX_PWR_LVL = 3"

definition PSCI_VERSION :: u32 where "PSCI_VERSION = 0x84000000"
definition PSCI_CPU_SUSPEND_AARCH32 :: u32 where "PSCI_CPU_SUSPEND_AARCH32 = 0x84000001"
definition PSCI_CPU_SUSPEND_AARCH64 :: u32 where "PSCI_CPU_SUSPEND_AARCH64 = 0xc4000001"
definition PSCI_CPU_OFF :: u32 where "PSCI_CPU_OFF = 0x84000002"
definition PSCI_CPU_ON_AARCH32 :: u32 where "PSCI_CPU_ON_AARCH32 = 0x84000003"
definition PSCI_CPU_ON_AARCH64 :: u32 where "PSCI_CPU_ON_AARCH64 = 0xc4000003"
definition PSCI_AFFINITY_INFO_AARCH32 :: u32 where "PSCI_AFFINITY_INFO_AARCH32 = 0x84000004"
definition PSCI_AFFINITY_INFO_AARCH64 :: u32 where "PSCI_AFFINITY_INFO_AARCH64 = 0xc4000004"
definition PSCI_MIG_AARCH32 :: u32 where "PSCI_MIG_AARCH32 = 0x84000005"
definition PSCI_MIG_AARCH64 :: u32 where "PSCI_MIG_AARCH64 = 0xc4000005"
definition PSCI_MIG_INFO_TYPE :: u32 where "PSCI_MIG_INFO_TYPE = 0x84000006"
definition PSCI_MIG_INFO_UP_CPU_AARCH32 :: u32 where "PSCI_MIG_INFO_UP_CPU_AARCH32 = 0x84000007"
definition PSCI_MIG_INFO_UP_CPU_AARCH64 :: u32 where "PSCI_MIG_INFO_UP_CPU_AARCH64 = 0xc4000007"
definition PSCI_SYSTEM_OFF :: u32 where "PSCI_SYSTEM_OFF = 0x84000008"
definition PSCI_SYSTEM_RESET :: u32 where "PSCI_SYSTEM_RESET = 0x84000009"
definition PSCI_FEATURES :: u32 where "PSCI_FEATURES = 0x8400000A"
definition PSCI_NODE_HW_STATE_AARCH32 :: u32 where "PSCI_NODE_HW_STATE_AARCH32 = 0x8400000d"
definition PSCI_NODE_HW_STATE_AARCH64 :: u32 where "PSCI_NODE_HW_STATE_AARCH64 = 0xc400000d"
definition PSCI_SYSTEM_SUSPEND_AARCH32 :: u32 where "PSCI_SYSTEM_SUSPEND_AARCH32 = 0x8400000E"
definition PSCI_SYSTEM_SUSPEND_AARCH64 :: u32 where "PSCI_SYSTEM_SUSPEND_AARCH64 = 0xc400000E"
definition PSCI_STAT_RESIDENCY_AARCH32 :: u32 where "PSCI_STAT_RESIDENCY_AARCH32 = 0x84000010"
definition PSCI_STAT_RESIDENCY_AARCH64 :: u32 where "PSCI_STAT_RESIDENCY_AARCH64 = 0xc4000010"
definition PSCI_STAT_COUNT_AARCH32 :: u32 where "PSCI_STAT_COUNT_AARCH32 = 0x84000011"
definition PSCI_STAT_COUNT_AARCH64 :: u32 where "PSCI_STAT_COUNT_AARCH64 = 0xc4000011"
definition PSCI_SYSTEM_RESET2_AARCH32 :: u32 where "PSCI_SYSTEM_RESET2_AARCH32 = 0x84000012"
definition PSCI_SYSTEM_RESET2_AARCH64 :: u32 where "PSCI_SYSTEM_RESET2_AARCH64 = 0xc4000012"
definition PSCI_MEM_PROTECT :: u32 where "PSCI_MEM_PROTECT = 0x84000013"
definition PSCI_MEM_CHK_RANGE_AARCH32 :: u32 where "PSCI_MEM_CHK_RANGE_AARCH32 = 0x84000014"
definition PSCI_MEM_CHK_RANGE_AARCH64 :: u32 where "PSCI_MEM_CHK_RANGE_AARCH64 = 0xc4000014"

lemmas psci_fid_defs =
  PSCI_VERSION_def PSCI_CPU_SUSPEND_AARCH32_def PSCI_CPU_SUSPEND_AARCH64_def PSCI_CPU_OFF_def
  PSCI_CPU_ON_AARCH32_def PSCI_CPU_ON_AARCH64_def PSCI_AFFINITY_INFO_AARCH32_def
  PSCI_AFFINITY_INFO_AARCH64_def PSCI_MIG_AARCH32_def PSCI_MIG_AARCH64_def
  PSCI_MIG_INFO_TYPE_def PSCI_MIG_INFO_UP_CPU_AARCH32_def PSCI_MIG_INFO_UP_CPU_AARCH64_def
  PSCI_SYSTEM_OFF_def PSCI_SYSTEM_RESET_def PSCI_FEATURES_def PSCI_NODE_HW_STATE_AARCH32_def
  PSCI_NODE_HW_STATE_AARCH64_def PSCI_SYSTEM_SUSPEND_AARCH32_def
  PSCI_SYSTEM_SUSPEND_AARCH64_def PSCI_STAT_RESIDENCY_AARCH32_def
  PSCI_STAT_RESIDENCY_AARCH64_def PSCI_STAT_COUNT_AARCH32_def PSCI_STAT_COUNT_AARCH64_def
  PSCI_SYSTEM_RESET2_AARCH32_def PSCI_SYSTEM_RESET2_AARCH64_def PSCI_MEM_PROTECT_def
  PSCI_MEM_CHK_RANGE_AARCH32_def PSCI_MEM_CHK_RANGE_AARCH64_def

definition PSCI_E_SUCCESS :: int where "PSCI_E_SUCCESS = 0"
definition PSCI_E_NOT_SUPPORTED :: int where "PSCI_E_NOT_SUPPORTED = -1"
definition PSCI_E_INVALID_PARAMS :: int where "PSCI_E_INVALID_PARAMS = -2"
definition PSCI_E_DENIED :: int where "PSCI_E_DENIED = -3"
definition PSCI_E_ALREADY_ON :: int where "PSCI_E_ALREADY_ON = -4"
definition PSCI_E_ON_PENDING :: int where "PSCI_E_ON_PENDING = -5"
definition PSCI_E_INTERN_FAIL :: int where "PSCI_E_INTERN_FAIL = -6"
definition PSCI_E_NOT_PRESENT :: int where "PSCI_E_NOT_PRESENT = -7"
definition PSCI_E_DISABLED :: int where "PSCI_E_DISABLED = -8"
definition PSCI_E_INVALID_ADDRESS :: int where "PSCI_E_INVALID_ADDRESS = -9"

lemmas psci_err_defs =
  PSCI_E_SUCCESS_def PSCI_E_NOT_SUPPORTED_def PSCI_E_INVALID_PARAMS_def PSCI_E_DENIED_def
  PSCI_E_ALREADY_ON_def PSCI_E_ON_PENDING_def PSCI_E_INTERN_FAIL_def PSCI_E_NOT_PRESENT_def
  PSCI_E_DISABLED_def PSCI_E_INVALID_ADDRESS_def

definition PSCI_TOS_UP_MIG_CAP :: int where "PSCI_TOS_UP_MIG_CAP = 0"
definition PSCI_TOS_NOT_UP_MIG_CAP :: int where "PSCI_TOS_NOT_UP_MIG_CAP = 1"
definition PSCI_TOS_NOT_PRESENT_MP :: int where "PSCI_TOS_NOT_PRESENT_MP = 2"

definition PSCI_INVALID_MPIDR :: u64 where "PSCI_INVALID_MPIDR = NOT 0"

definition HW_ON :: int where "HW_ON = 0"
definition HW_OFF :: int where "HW_OFF = 1"
definition HW_STANDBY :: int where "HW_STANDBY = 2"

definition PSTATE_TYPE_STANDBY :: u32 where "PSTATE_TYPE_STANDBY = 0"
definition PSTATE_TYPE_POWERDOWN :: u32 where "PSTATE_TYPE_POWERDOWN = 1"
definition PSTATE_TYPE_MASK :: u32 where "PSTATE_TYPE_MASK = 1"

definition PSCI_MAJOR_VER :: u32 where "PSCI_MAJOR_VER = push_bit 16 1"
definition PSCI_MINOR_VER :: u32 where "PSCI_MINOR_VER = 1"

definition PSCI_RESET2_SYSTEM_WARM_RESET :: u32 where "PSCI_RESET2_SYSTEM_WARM_RESET = 0"

subsection \<open>Local power states\<close>

type_synonym plat_local_state = u8
type_synonym psci_power_state = "plat_local_state list"

definition PSCI_LOCAL_STATE_RUN :: plat_local_state where "PSCI_LOCAL_STATE_RUN = 0"

datatype aff_info_state = AFF_STATE_ON | AFF_STATE_OFF | AFF_STATE_ON_PENDING

text \<open>The numbers of the C enumeration, which AFFINITY_INFO returns to its caller.\<close>

fun aff_info_val :: "aff_info_state \<Rightarrow> int" where
  "aff_info_val AFF_STATE_ON = 0"
| "aff_info_val AFF_STATE_OFF = 1"
| "aff_info_val AFF_STATE_ON_PENDING = 2"

subsection \<open>Entry point information\<close>

record param_header =
  ph_type :: u8
  ph_version :: u8
  ph_attr :: u32

record entry_point_info =
  ep_h :: param_header
  ep_pc :: u64
  ep_spsr :: u32
  ep_arg0 :: u64

subsection \<open>Events visible outside the library\<close>

text \<open>
  Every call that leaves the library (platform hooks, hooks of the secure payload dispatcher,
  context management, locks, the final wait-for-interrupt) is recorded with its arguments, in
  order, and with the CPU that made it.
\<close>

datatype psci_event =
    Ev_lock_get nat | Ev_lock_release nat
  | Ev_spin_lock_cpu nat | Ev_spin_unlock_cpu nat
  | Ev_cpu_standby plat_local_state
  | Ev_pwr_domain_on u64
  | Ev_pwr_domain_off psci_power_state
  | Ev_pwr_domain_suspend_pwrdown_early psci_power_state
  | Ev_pwr_domain_suspend psci_power_state
  | Ev_pwr_domain_on_finish psci_power_state
  | Ev_pwr_domain_suspend_finish psci_power_state
  | Ev_pwr_domain_pwr_down_wfi psci_power_state
  | Ev_psci_power_down_wfi
  | Ev_wfi
  | Ev_prepare_cpu_pwr_dwn nat
  | Ev_do_pwrdown_cache_maintenance nat
  | Ev_psci_arch_setup
  | Ev_write_cntfrq
  | Ev_publish_cpu_on_finish | Ev_publish_suspend_pwrdown_start
  | Ev_publish_suspend_pwrdown_finish
  | Ev_cm_init_context nat entry_point_info
  | Ev_cm_set_context nat
  | Ev_cm_prepare_el3_exit
  | Ev_svc_on u64 | Ev_svc_off | Ev_svc_suspend nat | Ev_svc_on_finish
  | Ev_svc_suspend_finish nat | Ev_svc_migrate u64 u64 | Ev_svc_migrate_info
  | Ev_svc_system_off | Ev_svc_system_reset
  | Ev_console_flush
  | Ev_system_off | Ev_system_reset | Ev_system_reset2 bool u32 u64
  | Ev_validate_power_state u32 | Ev_get_sys_suspend_power_state
  | Ev_validate_ns_entrypoint u64
  | Ev_get_node_hw_state u64 nat
  | Ev_read_mem_protect | Ev_write_mem_protect u32 | Ev_mem_protect_chk u64 u64
  | Ev_program_mailbox

type_synonym psci_log = "(nat \<times> psci_event) list"

subsection \<open>Hook tables\<close>

text \<open>
  A hook without a result is a truth value (non-null); a hook with one is an optional function
  of the log and of its arguments. A hook that fills a power state through a pointer takes the
  old array and returns the new one.
\<close>

record plat_psci_ops =
  cpu_standby :: bool
  pwr_domain_on :: "(psci_log \<Rightarrow> u64 \<Rightarrow> int) option"
  pwr_domain_off :: bool
  pwr_domain_suspend_pwrdown_early :: bool
  pwr_domain_suspend :: bool
  pwr_domain_on_finish :: bool
  pwr_domain_suspend_finish :: bool
  pwr_domain_pwr_down_wfi :: bool
  system_off :: bool
  system_reset :: bool
  validate_power_state ::
    "(psci_log \<Rightarrow> u32 \<Rightarrow> psci_power_state \<Rightarrow> int \<times> psci_power_state) option"
  validate_ns_entrypoint :: "(psci_log \<Rightarrow> u64 \<Rightarrow> int) option"
  get_sys_suspend_power_state ::
    "(psci_log \<Rightarrow> psci_power_state \<Rightarrow> psci_power_state) option"
  get_pwr_lvl_state_idx :: "(plat_local_state \<Rightarrow> nat \<Rightarrow> int) option"
  translate_power_state_by_mpidr ::
    "(psci_log \<Rightarrow> u64 \<Rightarrow> u32 \<Rightarrow> psci_power_state \<Rightarrow> int \<times> psci_power_state) option"
  get_node_hw_state :: "(psci_log \<Rightarrow> u64 \<Rightarrow> nat \<Rightarrow> int) option"
  mem_protect_chk :: "(psci_log \<Rightarrow> u64 \<Rightarrow> u64 \<Rightarrow> int option) option"
  read_mem_protect :: "(psci_log \<Rightarrow> int \<times> int) option"
  write_mem_protect :: "(psci_log \<Rightarrow> u32 \<Rightarrow> int) option"
  system_reset2 :: "(psci_log \<Rightarrow> bool \<Rightarrow> u32 \<Rightarrow> u64 \<Rightarrow> int) option"

record spd_pm_ops =
  svc_on :: bool
  svc_off :: "(psci_log \<Rightarrow> int) option"
  svc_suspend :: bool
  svc_on_finish :: bool
  svc_suspend_finish :: bool
  svc_migrate :: "(psci_log \<Rightarrow> u64 \<Rightarrow> u64 \<Rightarrow> int) option"
  svc_migrate_info :: "(psci_log \<Rightarrow> int \<times> u64) option"
  svc_system_off :: bool
  svc_system_reset :: bool

subsection \<open>The power domain tree, per-CPU data and the state of the library\<close>

record non_cpu_pd_node =
  cpu_start_idx :: nat
  ncpus :: nat
  nd_parent_node :: u32
  nd_local_state :: plat_local_state
  nd_level :: nat
  lock_index :: nat

record cpu_pd_node =
  cpu_mpidr :: u64
  cpu_parent_node :: u32

record psci_cpu_data =
  aff_info_state_f :: aff_info_state
  target_pwrlvl :: nat
  cpu_local_state :: plat_local_state

record psci_stat =
  residency :: u64
  stat_count :: u64

record psci_state =
  psci_req_local_pwr_states :: "plat_local_state list list"
  psci_non_cpu_pd_nodes :: "non_cpu_pd_node list"
  psci_cpu_pd_nodes :: "cpu_pd_node list"
  psci_svc_cpu_data :: "psci_cpu_data list"
  psci_plat_pm_ops :: "plat_psci_ops option"
  psci_spd_pm :: "spd_pm_ops option"
  psci_caps :: u32
  last_cpu_in_non_cpu_pd :: "int list"
  psci_cpu_stat :: "psci_stat list list"
  psci_non_cpu_stat :: "psci_stat list list"
  ts_enter_low_pwr :: "u64 list"
  ts_exit_low_pwr :: "u64 list"
  psci_log :: psci_log

subsection \<open>The platform port\<close>

record psci_env =
  PLATFORM_CORE_COUNT :: nat
  PSCI_NUM_NON_CPU_PWR_DOMAINS :: nat
  PLAT_MAX_PWR_LVL :: nat
  PLAT_MAX_RET_STATE :: plat_local_state
  PLAT_MAX_OFF_STATE :: plat_local_state
  PLAT_MAX_PWR_LVL_STATES :: nat
  PSCI_EXTENDED_STATE_ID :: bool
  ENABLE_PSCI_STAT :: bool
  HW_ASSISTED_COHERENCY :: bool
  plat_core_pos_by_mpidr :: "u64 \<Rightarrow> int"
  plat_get_power_domain_tree_desc :: "nat list"
  plat_setup_psci_ops :: plat_psci_ops
  coordinate ::
    "nat \<Rightarrow> plat_local_state list \<Rightarrow> nat \<Rightarrow> plat_local_state option"
  read_mpidr :: "nat \<Rightarrow> u64"
  read_scr_el3 :: "psci_log \<Rightarrow> nat \<Rightarrow> u64"
  read_sctlr_el1 :: "psci_log \<Rightarrow> nat \<Rightarrow> u64"
  read_sctlr_el2 :: "psci_log \<Rightarrow> nat \<Rightarrow> u64"
  read_isr_el1 :: "psci_log \<Rightarrow> nat \<Rightarrow> u64"
  read_cntfrq_el0 :: u64
  pmf_timestamp :: "psci_log \<Rightarrow> nat \<Rightarrow> u64"
  aff_update_lost :: "psci_log \<Rightarrow> bool"

text \<open>
  \<open>coordinate\<close> is the porting function \<^verbatim>\<open>plat_get_target_pwr_state\<close>, of which
  \<^verbatim>\<open>plat/common/plat_psci_common.c\<close> has the default and some ports their own;
  \<open>aff_update_lost\<close> says whether the cache line invalidation by a CPU that powers down
  discards the update of its affinity state that another CPU has just made, the race that
  \<^verbatim>\<open>psci_cpu_on_start()\<close> describes and repairs. System registers and the time stamp counter may
  change between two reads, so they depend on the log.
\<close>

definition PSCI_INVALID_PWR_LVL :: "psci_env \<Rightarrow> nat" where
  "PSCI_INVALID_PWR_LVL e = PLAT_MAX_PWR_LVL e + 1"

subsection \<open>Inline helpers of the headers\<close>

definition define_psci_cap :: "u32 \<Rightarrow> u32" where
  "define_psci_cap x = push_bit (unat (x AND 0x1f)) 1"

definition PSTATE_VALID_MASK :: "psci_env \<Rightarrow> u32" where
  "PSTATE_VALID_MASK e = (if PSCI_EXTENDED_STATE_ID e then 0xB0000000 else 0xFCFE0000)"

definition PSTATE_TYPE_SHIFT :: "psci_env \<Rightarrow> nat" where
  "PSTATE_TYPE_SHIFT e = (if PSCI_EXTENDED_STATE_ID e then 30 else 16)"

definition PSTATE_ID_MASK :: "psci_env \<Rightarrow> u32" where
  "PSTATE_ID_MASK e = (if PSCI_EXTENDED_STATE_ID e then 0xfffffff else 0xffff)"

definition psci_get_pstate_id :: "psci_env \<Rightarrow> u32 \<Rightarrow> u32" where
  "psci_get_pstate_id e power_state = power_state AND PSTATE_ID_MASK e"

definition psci_get_pstate_type :: "psci_env \<Rightarrow> u32 \<Rightarrow> u32" where
  "psci_get_pstate_type e power_state =
     drop_bit (PSTATE_TYPE_SHIFT e) power_state AND PSTATE_TYPE_MASK"

definition psci_get_pstate_pwrlvl :: "u32 \<Rightarrow> u32" where
  "psci_get_pstate_pwrlvl power_state = drop_bit 24 power_state AND 0x3"

definition psci_check_power_state :: "psci_env \<Rightarrow> u32 \<Rightarrow> u32" where
  "psci_check_power_state e power_state = power_state AND PSTATE_VALID_MASK e"

definition is_local_state_run :: "plat_local_state \<Rightarrow> bool" where
  "is_local_state_run st \<longleftrightarrow> st = PSCI_LOCAL_STATE_RUN"

definition is_local_state_retn :: "psci_env \<Rightarrow> plat_local_state \<Rightarrow> bool" where
  "is_local_state_retn e st \<longleftrightarrow> PSCI_LOCAL_STATE_RUN < st \<and> st \<le> PLAT_MAX_RET_STATE e"

definition is_local_state_off :: "psci_env \<Rightarrow> plat_local_state \<Rightarrow> bool" where
  "is_local_state_off e st \<longleftrightarrow> PLAT_MAX_RET_STATE e < st \<and> st \<le> PLAT_MAX_OFF_STATE e"

definition is_cpu_standby_req :: "u32 \<Rightarrow> nat \<Rightarrow> bool" where
  "is_cpu_standby_req is_power_down_state retn_lvl \<longleftrightarrow>
     is_power_down_state = 0 \<and> retn_lvl = 0"

subsection \<open>Accessors of the per-CPU data and of the nodes\<close>

definition emit :: "nat \<Rightarrow> psci_event \<Rightarrow> psci_state \<Rightarrow> psci_state" where
  "emit me ev s = s\<lparr>psci_log := psci_log s @ [(me, ev)]\<rparr>"

definition psci_get_aff_info_state_by_idx ::
  "nat \<Rightarrow> psci_state \<Rightarrow> aff_info_state option" where
  "psci_get_aff_info_state_by_idx i s = map_option aff_info_state_f (aread (psci_svc_cpu_data s) i)"

definition psci_set_aff_info_state_by_idx ::
  "nat \<Rightarrow> aff_info_state \<Rightarrow> psci_state \<Rightarrow> psci_state option" where
  "psci_set_aff_info_state_by_idx i a s = do {
     d \<leftarrow> aread (psci_svc_cpu_data s) i;
     Some (s\<lparr>psci_svc_cpu_data := (psci_svc_cpu_data s)[i := d\<lparr>aff_info_state_f := a\<rparr>]\<rparr>)
   }"

definition psci_get_suspend_pwrlvl :: "nat \<Rightarrow> psci_state \<Rightarrow> nat option" where
  "psci_get_suspend_pwrlvl me s = map_option target_pwrlvl (aread (psci_svc_cpu_data s) me)"

definition psci_set_suspend_pwrlvl :: "nat \<Rightarrow> nat \<Rightarrow> psci_state \<Rightarrow> psci_state option" where
  "psci_set_suspend_pwrlvl me lvl s = do {
     d \<leftarrow> aread (psci_svc_cpu_data s) me;
     Some (s\<lparr>psci_svc_cpu_data := (psci_svc_cpu_data s)[me := d\<lparr>target_pwrlvl := lvl\<rparr>]\<rparr>)
   }"

definition psci_get_cpu_local_state_by_idx ::
  "nat \<Rightarrow> psci_state \<Rightarrow> plat_local_state option" where
  "psci_get_cpu_local_state_by_idx i s = map_option cpu_local_state (aread (psci_svc_cpu_data s) i)"

definition psci_set_cpu_local_state ::
  "nat \<Rightarrow> plat_local_state \<Rightarrow> psci_state \<Rightarrow> psci_state option" where
  "psci_set_cpu_local_state me st s = do {
     d \<leftarrow> aread (psci_svc_cpu_data s) me;
     Some (s\<lparr>psci_svc_cpu_data := (psci_svc_cpu_data s)[me := d\<lparr>cpu_local_state := st\<rparr>]\<rparr>)
   }"

text \<open>The lock of a node is the one at its \<open>lock_index\<close>.\<close>

definition psci_lock_get :: "nat \<Rightarrow> u32 \<Rightarrow> psci_state \<Rightarrow> psci_state option" where
  "psci_lock_get me p s = do {
     nd \<leftarrow> aread (psci_non_cpu_pd_nodes s) (unat p);
     Some (emit me (Ev_lock_get (lock_index nd)) s)
   }"

definition psci_lock_release :: "nat \<Rightarrow> u32 \<Rightarrow> psci_state \<Rightarrow> psci_state option" where
  "psci_lock_release me p s = do {
     nd \<leftarrow> aread (psci_non_cpu_pd_nodes s) (unat p);
     Some (emit me (Ev_lock_release (lock_index nd)) s)
   }"

end
