(* ===== verification/PSCI_Common.thy ===== *)
theory PSCI_Common
  imports PSCI_Types
begin

section \<open>PSCI: the common routines\<close>

text \<open>
  \<^verbatim>\<open>lib/psci/psci_common.c\<close> and the default coordination function of
  \<^verbatim>\<open>plat/common/plat_psci_common.c\<close>. A loop over power levels is a recursive function whose
  first numeric argument counts the levels that are left. Cache maintenance has no effect on
  the coherent memory of the model. The entry points that use the power-on and power-off
  routines (\<^verbatim>\<open>psci_warmboot_entrypoint\<close>) are in the theory of those routines.
\<close>

unbundle bit_operations_syntax

subsection \<open>Categories of local states, validation\<close>

datatype plat_local_state_type = STATE_TYPE_RUN | STATE_TYPE_RETN | STATE_TYPE_OFF

fun state_type_val :: "plat_local_state_type \<Rightarrow> nat" where
  "state_type_val STATE_TYPE_RUN = 0"
| "state_type_val STATE_TYPE_RETN = 1"
| "state_type_val STATE_TYPE_OFF = 2"

definition find_local_state_type :: "psci_env \<Rightarrow> plat_local_state \<Rightarrow> plat_local_state_type" where
  "find_local_state_type e state =
     (if state \<noteq> 0
      then (if state > PLAT_MAX_RET_STATE e then STATE_TYPE_OFF else STATE_TYPE_RETN)
      else STATE_TYPE_RUN)"

definition psci_validate_power_state ::
  "psci_env \<Rightarrow> nat \<Rightarrow> u32 \<Rightarrow> psci_power_state \<Rightarrow> psci_state
     \<Rightarrow> (int \<times> psci_power_state \<times> psci_state) option" where
  "psci_validate_power_state e me power_state state_info s =
     (if psci_check_power_state e power_state \<noteq> 0
      then Some (PSCI_E_INVALID_PARAMS, state_info, s)
      else do {
        ops \<leftarrow> psci_plat_pm_ops s;
        f \<leftarrow> validate_power_state ops;
        let (rc, state_info) = f (psci_log s) power_state state_info;
        Some (rc, state_info, emit me (Ev_validate_power_state power_state) s)
      })"

definition psci_query_sys_suspend_pwrstate ::
  "nat \<Rightarrow> psci_power_state \<Rightarrow> psci_state \<Rightarrow> (psci_power_state \<times> psci_state) option" where
  "psci_query_sys_suspend_pwrstate me state_info s = do {
     ops \<leftarrow> psci_plat_pm_ops s;
     f \<leftarrow> get_sys_suspend_power_state ops;
     Some (f (psci_log s) state_info, emit me Ev_get_sys_suspend_power_state s)
   }"

fun psci_is_last_on_cpu_loop ::
  "nat \<Rightarrow> nat list \<Rightarrow> psci_state \<Rightarrow> bool option" where
  "psci_is_last_on_cpu_loop my_idx [] s = Some True"
| "psci_is_last_on_cpu_loop my_idx (cpu_idx # rest) s = do {
     a \<leftarrow> psci_get_aff_info_state_by_idx cpu_idx s;
     if cpu_idx = my_idx
     then do {
       assert_c (a = AFF_STATE_ON);
       psci_is_last_on_cpu_loop my_idx rest s
     }
     else if a \<noteq> AFF_STATE_OFF then Some False
     else psci_is_last_on_cpu_loop my_idx rest s
   }"

definition psci_is_last_on_cpu :: "psci_env \<Rightarrow> nat \<Rightarrow> psci_state \<Rightarrow> bool option" where
  "psci_is_last_on_cpu e me s = psci_is_last_on_cpu_loop me [0..<PLATFORM_CORE_COUNT e] s"

definition get_power_on_target_pwrlvl :: "psci_env \<Rightarrow> nat \<Rightarrow> psci_state \<Rightarrow> nat option" where
  "get_power_on_target_pwrlvl e me s = do {
     pwrlvl \<leftarrow> psci_get_suspend_pwrlvl me s;
     Some (if pwrlvl = PSCI_INVALID_PWR_LVL e then PLAT_MAX_PWR_LVL e else pwrlvl)
   }"

subsection \<open>Requested states\<close>

definition psci_set_req_local_pwr_state ::
  "nat \<Rightarrow> nat \<Rightarrow> plat_local_state \<Rightarrow> psci_state \<Rightarrow> psci_state option" where
  "psci_set_req_local_pwr_state pwrlvl cpu_idx req_pwr_state s = do {
     assert_c (pwrlvl > PSCI_CPU_PWR_LVL);
     row \<leftarrow> aread (psci_req_local_pwr_states s) (pwrlvl - 1);
     row' \<leftarrow> awrite row cpu_idx req_pwr_state;
     Some (s\<lparr>psci_req_local_pwr_states := (psci_req_local_pwr_states s)[pwrlvl - 1 := row']\<rparr>)
   }"

definition psci_init_req_local_pwr_states :: "psci_env \<Rightarrow> psci_state \<Rightarrow> psci_state" where
  "psci_init_req_local_pwr_states e s =
     s\<lparr>psci_req_local_pwr_states :=
         replicate (PLAT_MAX_PWR_LVL e) (replicate (PLATFORM_CORE_COUNT e) (PLAT_MAX_OFF_STATE e))\<rparr>"

text \<open>
  The reference that the C function returns is read for \<open>n\<close> entries by its only caller; the
  model returns those entries.
\<close>

definition psci_get_req_local_pwr_states ::
  "nat \<Rightarrow> nat \<Rightarrow> nat \<Rightarrow> psci_state \<Rightarrow> plat_local_state list option" where
  "psci_get_req_local_pwr_states pwrlvl cpu_idx n s = do {
     assert_c (pwrlvl > PSCI_CPU_PWR_LVL);
     row \<leftarrow> aread (psci_req_local_pwr_states s) (pwrlvl - 1);
     assert_c (cpu_idx + n \<le> length row);
     Some (take n (drop cpu_idx row))
   }"

subsection \<open>Local states of the nodes\<close>

definition get_non_cpu_pd_node_local_state ::
  "u32 \<Rightarrow> psci_state \<Rightarrow> plat_local_state option" where
  "get_non_cpu_pd_node_local_state parent_idx s =
     map_option nd_local_state (aread (psci_non_cpu_pd_nodes s) (unat parent_idx))"

definition set_non_cpu_pd_node_local_state ::
  "u32 \<Rightarrow> plat_local_state \<Rightarrow> psci_state \<Rightarrow> psci_state option" where
  "set_non_cpu_pd_node_local_state parent_idx state s = do {
     nd \<leftarrow> aread (psci_non_cpu_pd_nodes s) (unat parent_idx);
     Some (s\<lparr>psci_non_cpu_pd_nodes :=
               (psci_non_cpu_pd_nodes s)[unat parent_idx := nd\<lparr>nd_local_state := state\<rparr>]\<rparr>)
   }"

fun psci_get_target_loop ::
  "nat \<Rightarrow> nat \<Rightarrow> u32 \<Rightarrow> psci_power_state \<Rightarrow> psci_state \<Rightarrow> psci_power_state option" where
  "psci_get_target_loop 0 lvl parent_idx pd_state s = Some pd_state"
| "psci_get_target_loop (Suc n) lvl parent_idx pd_state s = do {
     st \<leftarrow> get_non_cpu_pd_node_local_state parent_idx s;
     pd_state \<leftarrow> awrite pd_state lvl st;
     nd \<leftarrow> aread (psci_non_cpu_pd_nodes s) (unat parent_idx);
     psci_get_target_loop n (Suc lvl) (nd_parent_node nd) pd_state s
   }"

definition psci_get_target_local_pwr_states ::
  "psci_env \<Rightarrow> nat \<Rightarrow> nat \<Rightarrow> psci_power_state \<Rightarrow> psci_state \<Rightarrow> psci_power_state option" where
  "psci_get_target_local_pwr_states e me end_pwrlvl target_state s = do {
     c \<leftarrow> psci_get_cpu_local_state_by_idx me s;
     pd_state \<leftarrow> awrite target_state PSCI_CPU_PWR_LVL c;
     cn \<leftarrow> aread (psci_cpu_pd_nodes s) me;
     pd_state \<leftarrow> psci_get_target_loop end_pwrlvl (PSCI_CPU_PWR_LVL + 1) (cpu_parent_node cn)
                   pd_state s;
     Some (take (Suc end_pwrlvl) pd_state
             @ replicate (PLAT_MAX_PWR_LVL e - end_pwrlvl) PSCI_LOCAL_STATE_RUN)
   }"

fun psci_set_target_loop ::
  "nat \<Rightarrow> nat \<Rightarrow> u32 \<Rightarrow> psci_power_state \<Rightarrow> psci_state \<Rightarrow> psci_state option" where
  "psci_set_target_loop 0 lvl parent_idx pd_state s = Some s"
| "psci_set_target_loop (Suc n) lvl parent_idx pd_state s = do {
     st \<leftarrow> aread pd_state lvl;
     s \<leftarrow> set_non_cpu_pd_node_local_state parent_idx st s;
     nd \<leftarrow> aread (psci_non_cpu_pd_nodes s) (unat parent_idx);
     psci_set_target_loop n (Suc lvl) (nd_parent_node nd) pd_state s
   }"

definition psci_set_target_local_pwr_states ::
  "nat \<Rightarrow> nat \<Rightarrow> psci_power_state \<Rightarrow> psci_state \<Rightarrow> psci_state option" where
  "psci_set_target_local_pwr_states me end_pwrlvl target_state s = do {
     c \<leftarrow> aread target_state PSCI_CPU_PWR_LVL;
     s \<leftarrow> psci_set_cpu_local_state me c s;
     cn \<leftarrow> aread (psci_cpu_pd_nodes s) me;
     psci_set_target_loop end_pwrlvl 1 (cpu_parent_node cn) target_state s
   }"

subsection \<open>Ancestors of a CPU\<close>

fun psci_parent_nodes_loop :: "nat \<Rightarrow> u32 \<Rightarrow> psci_state \<Rightarrow> u32 list option" where
  "psci_parent_nodes_loop 0 parent_node s = Some []"
| "psci_parent_nodes_loop (Suc n) parent_node s = do {
     nd \<leftarrow> aread (psci_non_cpu_pd_nodes s) (unat parent_node);
     rest \<leftarrow> psci_parent_nodes_loop n (nd_parent_node nd) s;
     Some (parent_node # rest)
   }"

definition psci_get_parent_pwr_domain_nodes ::
  "nat \<Rightarrow> nat \<Rightarrow> psci_state \<Rightarrow> u32 list option" where
  "psci_get_parent_pwr_domain_nodes cpu_idx end_lvl s = do {
     cn \<leftarrow> aread (psci_cpu_pd_nodes s) cpu_idx;
     psci_parent_nodes_loop end_lvl (cpu_parent_node cn) s
   }"

fun psci_to_run_loop ::
  "nat \<Rightarrow> nat \<Rightarrow> u32 \<Rightarrow> nat \<Rightarrow> psci_state \<Rightarrow> psci_state option" where
  "psci_to_run_loop 0 lvl parent_idx cpu_idx s = Some s"
| "psci_to_run_loop (Suc n) lvl parent_idx cpu_idx s = do {
     s \<leftarrow> set_non_cpu_pd_node_local_state parent_idx PSCI_LOCAL_STATE_RUN s;
     s \<leftarrow> psci_set_req_local_pwr_state lvl cpu_idx PSCI_LOCAL_STATE_RUN s;
     nd \<leftarrow> aread (psci_non_cpu_pd_nodes s) (unat parent_idx);
     psci_to_run_loop n (Suc lvl) (nd_parent_node nd) cpu_idx s
   }"

definition psci_set_pwr_domains_to_run ::
  "nat \<Rightarrow> nat \<Rightarrow> psci_state \<Rightarrow> psci_state option" where
  "psci_set_pwr_domains_to_run me end_pwrlvl s = do {
     cn \<leftarrow> aread (psci_cpu_pd_nodes s) me;
     s \<leftarrow> psci_to_run_loop end_pwrlvl (PSCI_CPU_PWR_LVL + 1) (cpu_parent_node cn) me s;
     s \<leftarrow> psci_set_aff_info_state_by_idx me AFF_STATE_ON s;
     psci_set_cpu_local_state me PSCI_LOCAL_STATE_RUN s
   }"

subsection \<open>State coordination\<close>

text \<open>
  The default porting function: the minimum of the requested states, starting from the deepest
  state. The C loop reads \<open>ncpu\<close> entries of the array.
\<close>

fun plat_get_target_loop :: "plat_local_state \<Rightarrow> plat_local_state list \<Rightarrow> plat_local_state" where
  "plat_get_target_loop target [] = target"
| "plat_get_target_loop target (temp # st) =
     plat_get_target_loop (if temp < target then temp else target) st"

definition plat_get_target_pwr_state ::
  "plat_local_state \<Rightarrow> nat \<Rightarrow> plat_local_state list \<Rightarrow> nat \<Rightarrow> plat_local_state option" where
  "plat_get_target_pwr_state max_off_state lvl states ncpu = do {
     assert_c (ncpu > 0);
     assert_c (ncpu \<le> length states);
     Some (plat_get_target_loop max_off_state (take ncpu states))
   }"

text \<open>
  The first loop of \<^verbatim>\<open>psci_do_state_coordination()\<close> returns the level at which it stopped (its
  break, or one past the end), the second one continues from the next level.
\<close>

fun psci_coord_loop ::
  "psci_env \<Rightarrow> nat \<Rightarrow> nat \<Rightarrow> nat \<Rightarrow> u32 \<Rightarrow> psci_power_state \<Rightarrow> psci_state
     \<Rightarrow> (nat \<times> psci_power_state \<times> psci_state) option" where
  "psci_coord_loop e cpu_idx 0 lvl parent_idx state_info s = Some (lvl, state_info, s)"
| "psci_coord_loop e cpu_idx (Suc n) lvl parent_idx state_info s = do {
     req \<leftarrow> aread state_info lvl;
     s \<leftarrow> psci_set_req_local_pwr_state lvl cpu_idx req s;
     nd \<leftarrow> aread (psci_non_cpu_pd_nodes s) (unat parent_idx);
     req_states \<leftarrow> psci_get_req_local_pwr_states lvl (cpu_start_idx nd) (ncpus nd) s;
     target_state \<leftarrow> coordinate e lvl req_states (ncpus nd);
     state_info \<leftarrow> awrite state_info lvl target_state;
     if is_local_state_run target_state
     then Some (lvl, state_info, s)
     else psci_coord_loop e cpu_idx n (Suc lvl) (nd_parent_node nd) state_info s
   }"

fun psci_coord_rest_loop ::
  "nat \<Rightarrow> nat \<Rightarrow> nat \<Rightarrow> psci_power_state \<Rightarrow> psci_state
     \<Rightarrow> (psci_power_state \<times> psci_state) option" where
  "psci_coord_rest_loop cpu_idx 0 lvl state_info s = Some (state_info, s)"
| "psci_coord_rest_loop cpu_idx (Suc n) lvl state_info s = do {
     req \<leftarrow> aread state_info lvl;
     s \<leftarrow> psci_set_req_local_pwr_state lvl cpu_idx req s;
     state_info \<leftarrow> awrite state_info lvl PSCI_LOCAL_STATE_RUN;
     psci_coord_rest_loop cpu_idx n (Suc lvl) state_info s
   }"

definition psci_do_state_coordination ::
  "psci_env \<Rightarrow> nat \<Rightarrow> nat \<Rightarrow> psci_power_state \<Rightarrow> psci_state
     \<Rightarrow> (psci_power_state \<times> psci_state) option" where
  "psci_do_state_coordination e me end_pwrlvl state_info s = do {
     assert_c (end_pwrlvl \<le> PLAT_MAX_PWR_LVL e);
     cn \<leftarrow> aread (psci_cpu_pd_nodes s) me;
     (lvl, state_info, s) \<leftarrow>
       psci_coord_loop e me end_pwrlvl (PSCI_CPU_PWR_LVL + 1) (cpu_parent_node cn) state_info s;
     (state_info, s) \<leftarrow> psci_coord_rest_loop me (end_pwrlvl - lvl) (lvl + 1) state_info s;
     s \<leftarrow> psci_set_target_local_pwr_states me end_pwrlvl state_info s;
     Some (state_info, s)
   }"

subsection \<open>Levels of a request\<close>

text \<open>The two downward searches, from the highest level; \<open>n\<close> counts the levels that are left.\<close>

fun psci_find_max_off_loop ::
  "psci_env \<Rightarrow> nat \<Rightarrow> psci_power_state \<Rightarrow> nat option" where
  "psci_find_max_off_loop e 0 state_info = Some (PSCI_INVALID_PWR_LVL e)"
| "psci_find_max_off_loop e (Suc i) state_info = do {
     st \<leftarrow> aread state_info i;
     if is_local_state_off e st then Some i else psci_find_max_off_loop e i state_info
   }"

definition psci_find_max_off_lvl :: "psci_env \<Rightarrow> psci_power_state \<Rightarrow> nat option" where
  "psci_find_max_off_lvl e state_info =
     psci_find_max_off_loop e (Suc (PLAT_MAX_PWR_LVL e)) state_info"

fun psci_find_target_suspend_loop ::
  "psci_env \<Rightarrow> nat \<Rightarrow> psci_power_state \<Rightarrow> nat option" where
  "psci_find_target_suspend_loop e 0 state_info = Some (PSCI_INVALID_PWR_LVL e)"
| "psci_find_target_suspend_loop e (Suc i) state_info = do {
     st \<leftarrow> aread state_info i;
     if \<not> is_local_state_run st then Some i else psci_find_target_suspend_loop e i state_info
   }"

definition psci_find_target_suspend_lvl :: "psci_env \<Rightarrow> psci_power_state \<Rightarrow> nat option" where
  "psci_find_target_suspend_lvl e state_info =
     psci_find_target_suspend_loop e (Suc (PLAT_MAX_PWR_LVL e)) state_info"

text \<open>
  The loop of \<^verbatim>\<open>psci_validate_suspend_req()\<close>: true when it ends without the early return. Its
  last argument is the deepest category met so far.
\<close>

fun psci_validate_suspend_loop ::
  "psci_env \<Rightarrow> nat \<Rightarrow> psci_power_state \<Rightarrow> plat_local_state_type \<Rightarrow> bool option" where
  "psci_validate_suspend_loop e 0 state_info deepest = Some True"
| "psci_validate_suspend_loop e (Suc i) state_info deepest = do {
     state \<leftarrow> aread state_info i;
     let req_state_type = find_local_state_type e state;
     if state_type_val req_state_type < state_type_val deepest then Some False
     else psci_validate_suspend_loop e i state_info req_state_type
   }"

definition psci_validate_suspend_req ::
  "psci_env \<Rightarrow> psci_power_state \<Rightarrow> u32 \<Rightarrow> int option" where
  "psci_validate_suspend_req e state_info is_power_down_state = do {
     target_lvl \<leftarrow> psci_find_target_suspend_lvl e state_info;
     if target_lvl = PSCI_INVALID_PWR_LVL e then Some PSCI_E_INVALID_PARAMS
     else do {
       ok \<leftarrow> psci_validate_suspend_loop e (Suc target_lvl) state_info STATE_TYPE_RUN;
       if \<not> ok then Some PSCI_E_INVALID_PARAMS
       else do {
         max_off_lvl \<leftarrow> psci_find_max_off_lvl e state_info;
         let max_retn_lvl =
           (if target_lvl \<noteq> max_off_lvl then target_lvl else PSCI_INVALID_PWR_LVL e);
         if is_power_down_state = 0 \<and>
            (max_off_lvl \<noteq> PSCI_INVALID_PWR_LVL e \<or> max_retn_lvl = PSCI_INVALID_PWR_LVL e)
         then Some PSCI_E_INVALID_PARAMS
         else Some PSCI_E_SUCCESS
       }
     }
   }"

subsection \<open>Locks of the power domains\<close>

fun psci_acquire_loop :: "nat \<Rightarrow> nat \<Rightarrow> u32 \<Rightarrow> psci_state \<Rightarrow> psci_state option" where
  "psci_acquire_loop me 0 parent_idx s = Some s"
| "psci_acquire_loop me (Suc n) parent_idx s = do {
     s \<leftarrow> psci_lock_get me parent_idx s;
     nd \<leftarrow> aread (psci_non_cpu_pd_nodes s) (unat parent_idx);
     psci_acquire_loop me n (nd_parent_node nd) s
   }"

definition psci_acquire_pwr_domain_locks ::
  "nat \<Rightarrow> nat \<Rightarrow> nat \<Rightarrow> psci_state \<Rightarrow> psci_state option" where
  "psci_acquire_pwr_domain_locks me end_pwrlvl cpu_idx s = do {
     cn \<leftarrow> aread (psci_cpu_pd_nodes s) cpu_idx;
     psci_acquire_loop me end_pwrlvl (cpu_parent_node cn) s
   }"

fun psci_release_loop :: "nat \<Rightarrow> nat \<Rightarrow> u32 list \<Rightarrow> psci_state \<Rightarrow> psci_state option" where
  "psci_release_loop me 0 parent_nodes s = Some s"
| "psci_release_loop me (Suc level) parent_nodes s = do {
     parent_idx \<leftarrow> aread parent_nodes level;
     s \<leftarrow> psci_lock_release me parent_idx s;
     psci_release_loop me level parent_nodes s
   }"

definition psci_release_pwr_domain_locks ::
  "nat \<Rightarrow> nat \<Rightarrow> nat \<Rightarrow> psci_state \<Rightarrow> psci_state option" where
  "psci_release_pwr_domain_locks me end_pwrlvl cpu_idx s = do {
     parent_nodes \<leftarrow> psci_get_parent_pwr_domain_nodes cpu_idx end_pwrlvl s;
     psci_release_loop me end_pwrlvl parent_nodes s
   }"

subsection \<open>Entry points\<close>

definition psci_validate_mpidr :: "psci_env \<Rightarrow> u64 \<Rightarrow> int" where
  "psci_validate_mpidr e mpidr =
     (if plat_core_pos_by_mpidr e mpidr < 0 then PSCI_E_INVALID_PARAMS else PSCI_E_SUCCESS)"

text \<open>
  The AArch64 variant. The header, the program counter and the argument are written before the
  check of the address, so they are also part of the result when it fails; \<open>ep0\<close> gives the
  value the status word had before.
\<close>

definition psci_get_ns_ep_info ::
  "psci_env \<Rightarrow> nat \<Rightarrow> entry_point_info \<Rightarrow> u64 \<Rightarrow> u64 \<Rightarrow> psci_state
     \<Rightarrow> int \<times> entry_point_info" where
  "psci_get_ns_ep_info e me ep0 entrypoint context_id s =
     (let ns_scr_el3 = read_scr_el3 e (psci_log s) me;
          ns_sctlr_el1 = read_sctlr_el1 e (psci_log s) me;
          sctlr = (if ns_scr_el3 AND SCR_HCE_BIT \<noteq> 0
                   then read_sctlr_el2 e (psci_log s) me else ns_sctlr_el1);
          big = (sctlr AND SCTLR_EE_BIT \<noteq> 0);
          ee = (if big then 1 else 0);
          ep_attr = NON_SECURE OR EP_ST_DISABLE OR (if big then EP_EE_BIG else 0);
          ep = ep0\<lparr>ep_h := \<lparr>ph_type = PARAM_EP, ph_version = VERSION_1, ph_attr = ep_attr\<rparr>,
                   ep_pc := entrypoint, ep_arg0 := context_id\<rparr>
      in if ns_scr_el3 AND SCR_RW_BIT \<noteq> 0
         then (if entrypoint AND 1 \<noteq> 0 then (PSCI_E_INVALID_ADDRESS, ep)
               else let mode = (if ns_scr_el3 AND SCR_HCE_BIT \<noteq> 0 then MODE_EL2 else MODE_EL1)
                    in (PSCI_E_SUCCESS,
                        ep\<lparr>ep_spsr := SPSR_64 mode MODE_SP_ELX DISABLE_ALL_EXCEPTIONS\<rparr>))
         else let mode = (if ns_scr_el3 AND SCR_HCE_BIT \<noteq> 0 then MODE32_hyp else MODE32_svc);
                  daif = DAIF_ABT_BIT OR DAIF_IRQ_BIT OR DAIF_FIQ_BIT
              in (PSCI_E_SUCCESS,
                  ep\<lparr>ep_spsr := SPSR_MODE32 mode (ucast (entrypoint AND 1)) ee daif\<rparr>))"

definition ep_uninit :: entry_point_info where
  "ep_uninit = \<lparr>ep_h = \<lparr>ph_type = 0, ph_version = 0, ph_attr = 0\<rparr>,
                ep_pc = 0, ep_spsr = 0, ep_arg0 = 0\<rparr>"

definition psci_validate_entry_point ::
  "psci_env \<Rightarrow> nat \<Rightarrow> u64 \<Rightarrow> u64 \<Rightarrow> psci_state
     \<Rightarrow> (int \<times> entry_point_info \<times> psci_state) option" where
  "psci_validate_entry_point e me entrypoint context_id s = do {
     ops \<leftarrow> psci_plat_pm_ops s;
     let (ok, s) = (case validate_ns_entrypoint ops of
                      None \<Rightarrow> (True, s)
                    | Some f \<Rightarrow> (f (psci_log s) entrypoint = PSCI_E_SUCCESS,
                                 emit me (Ev_validate_ns_entrypoint entrypoint) s));
     if \<not> ok then Some (PSCI_E_INVALID_ADDRESS, ep_uninit, s)
     else (let (rc, ep) = psci_get_ns_ep_info e me ep_uninit entrypoint context_id s
           in Some (rc, ep, s))
   }"

subsection \<open>Hooks of the secure payload dispatcher\<close>

definition psci_register_spd_pm_hook :: "spd_pm_ops \<Rightarrow> psci_state \<Rightarrow> psci_state" where
  "psci_register_spd_pm_hook pm s =
     (let s = s\<lparr>psci_spd_pm := Some pm\<rparr>;
          s = (if svc_migrate pm \<noteq> None
               then s\<lparr>psci_caps := psci_caps s OR define_psci_cap PSCI_MIG_AARCH64\<rparr> else s)
      in if svc_migrate_info pm \<noteq> None
         then s\<lparr>psci_caps := psci_caps s OR (define_psci_cap PSCI_MIG_INFO_UP_CPU_AARCH64
                                              OR define_psci_cap PSCI_MIG_INFO_TYPE)\<rparr>
         else s)"

definition psci_spd_migrate_info ::
  "nat \<Rightarrow> psci_state \<Rightarrow> (int \<times> u64 \<times> psci_state) option" where
  "psci_spd_migrate_info me s =
     (case psci_spd_pm s of
        None \<Rightarrow> Some (PSCI_E_NOT_SUPPORTED, 0, s)
      | Some pm \<Rightarrow>
          (case svc_migrate_info pm of
             None \<Rightarrow> Some (PSCI_E_NOT_SUPPORTED, 0, s)
           | Some f \<Rightarrow> do {
               let (rc, mpidr) = f (psci_log s);
               assert_c (rc = PSCI_TOS_UP_MIG_CAP \<or> rc = PSCI_TOS_NOT_UP_MIG_CAP \<or>
                         rc = PSCI_TOS_NOT_PRESENT_MP \<or> rc = PSCI_E_NOT_SUPPORTED);
               Some (rc, mpidr, emit me Ev_svc_migrate_info s)
             }))"

definition psci_secondaries_brought_up :: "psci_state \<Rightarrow> int option" where
  "psci_secondaries_brought_up s = do {
     let n_valid =
       length (filter (\<lambda>cn. cpu_mpidr cn \<noteq> PSCI_INVALID_MPIDR) (psci_cpu_pd_nodes s));
     assert_c (n_valid > 0);
     Some (if n_valid > 1 then 1 else 0)
   }"

definition psci_do_pwrdown_sequence ::
  "psci_env \<Rightarrow> nat \<Rightarrow> nat \<Rightarrow> psci_state \<Rightarrow> psci_state" where
  "psci_do_pwrdown_sequence e me power_level s =
     (if HW_ASSISTED_COHERENCY e then emit me (Ev_prepare_cpu_pwr_dwn power_level) s
      else emit me (Ev_do_pwrdown_cache_maintenance power_level) s)"

end
