(* ===== verification/PSCI_Stat.thy ===== *)
theory PSCI_Stat
  imports PSCI_Common
begin

section \<open>PSCI: residency statistics\<close>

text \<open>
  \<^verbatim>\<open>lib/psci/psci_stat.c\<close> and the time stamp accounting of \<^verbatim>\<open>plat/common/plat_psci_common.c\<close>.
  The two time stamps of the performance measurement framework are arrays with one entry per
  CPU; the counter itself is part of the environment.
\<close>

subsection \<open>Accounting\<close>

text \<open>A step that is compiled in when \<^verbatim>\<open>ENABLE_PSCI_STAT\<close> is set.\<close>

definition if_stat ::
  "psci_env \<Rightarrow> (psci_state \<Rightarrow> psci_state option) \<Rightarrow> psci_state \<Rightarrow> psci_state option" where
  "if_stat e f s = (if ENABLE_PSCI_STAT e then f s else Some s)"

definition MHZ_TICKS_PER_SEC :: u64 where "MHZ_TICKS_PER_SEC = 1000000"
definition MAX_TS :: u64 where "MAX_TS = -1"

definition calc_stat_residency :: "psci_env \<Rightarrow> u64 \<Rightarrow> u64 \<Rightarrow> u64 option" where
  "calc_stat_residency e pwrupts pwrdnts = do {
     let residency_div = read_cntfrq_el0 e div MHZ_TICKS_PER_SEC;
     assert_c (residency_div > 0);
     let res = (if pwrupts < pwrdnts then MAX_TS - pwrdnts + pwrupts else pwrupts - pwrdnts);
     Some (res div residency_div)
   }"

definition plat_psci_stat_accounting_start ::
  "psci_env \<Rightarrow> nat \<Rightarrow> psci_state \<Rightarrow> psci_state option" where
  "plat_psci_stat_accounting_start e me s = do {
     ts \<leftarrow> awrite (ts_enter_low_pwr s) me (pmf_timestamp e (psci_log s) me);
     Some (s\<lparr>ts_enter_low_pwr := ts\<rparr>)
   }"

definition plat_psci_stat_accounting_stop ::
  "psci_env \<Rightarrow> nat \<Rightarrow> psci_state \<Rightarrow> psci_state option" where
  "plat_psci_stat_accounting_stop e me s = do {
     ts \<leftarrow> awrite (ts_exit_low_pwr s) me (pmf_timestamp e (psci_log s) me);
     Some (s\<lparr>ts_exit_low_pwr := ts\<rparr>)
   }"

definition plat_psci_stat_get_residency ::
  "psci_env \<Rightarrow> nat \<Rightarrow> nat \<Rightarrow> psci_power_state \<Rightarrow> int \<Rightarrow> psci_state \<Rightarrow> u64 option" where
  "plat_psci_stat_get_residency e me lvl state_info last_cpu_idx s = do {
     assert_c (lvl \<le> PLAT_MAX_PWR_LVL e);
     assert_c (last_cpu_idx \<le> int (PLATFORM_CORE_COUNT e));
     assert_c (lvl = PSCI_CPU_PWR_LVL \<longrightarrow> last_cpu_idx = int me);
     state \<leftarrow> aread state_info PSCI_CPU_PWR_LVL;
     assert_c (is_local_state_off e state \<or> is_local_state_retn e state);
     assert_c (0 \<le> last_cpu_idx);
     pwrdn_ts \<leftarrow> aread (ts_enter_low_pwr s) (nat last_cpu_idx);
     pwrup_ts \<leftarrow> aread (ts_exit_low_pwr s) me;
     calc_stat_residency e pwrup_ts pwrdn_ts
   }"

subsection \<open>Statistics\<close>

definition get_stat_idx :: "psci_env \<Rightarrow> plat_local_state \<Rightarrow> nat \<Rightarrow> psci_state \<Rightarrow> nat option" where
  "get_stat_idx e local_state pwr_lvl s = do {
     ops \<leftarrow> psci_plat_pm_ops s;
     (case get_pwr_lvl_state_idx ops of
        None \<Rightarrow> do {
          assert_c (PLAT_MAX_PWR_LVL_STATES e = 2);
          if is_local_state_retn e local_state then Some 0
          else do {
            assert_c (is_local_state_off e local_state);
            Some 1
          }
        }
      | Some f \<Rightarrow> do {
          let idx = f local_state pwr_lvl;
          assert_c (0 \<le> idx \<and> idx < int (PLAT_MAX_PWR_LVL_STATES e));
          Some (nat idx)
        })
   }"

fun psci_stats_down_loop ::
  "nat \<Rightarrow> nat \<Rightarrow> nat \<Rightarrow> u32 \<Rightarrow> psci_power_state \<Rightarrow> psci_state \<Rightarrow> psci_state option" where
  "psci_stats_down_loop me 0 lvl parent_idx state_info s = Some s"
| "psci_stats_down_loop me (Suc n) lvl parent_idx state_info s = do {
     st \<leftarrow> aread state_info lvl;
     if is_local_state_run st then Some s
     else do {
       l \<leftarrow> awrite (last_cpu_in_non_cpu_pd s) (unat parent_idx) (int me);
       let s = s\<lparr>last_cpu_in_non_cpu_pd := l\<rparr>;
       nd \<leftarrow> aread (psci_non_cpu_pd_nodes s) (unat parent_idx);
       psci_stats_down_loop me n (Suc lvl) (nd_parent_node nd) state_info s
     }
   }"

definition psci_stats_update_pwr_down ::
  "psci_env \<Rightarrow> nat \<Rightarrow> nat \<Rightarrow> psci_power_state \<Rightarrow> psci_state \<Rightarrow> psci_state option" where
  "psci_stats_update_pwr_down e me end_pwrlvl state_info s = do {
     assert_c (end_pwrlvl \<le> PLAT_MAX_PWR_LVL e);
     cn \<leftarrow> aread (psci_cpu_pd_nodes s) me;
     psci_stats_down_loop me end_pwrlvl (PSCI_CPU_PWR_LVL + 1) (cpu_parent_node cn) state_info s
   }"

definition bump_stat :: "u64 \<Rightarrow> nat \<Rightarrow> nat \<Rightarrow> psci_stat list list \<Rightarrow> psci_stat list list option" where
  "bump_stat r i j m = do {
     row \<leftarrow> aread m i;
     st \<leftarrow> aread row j;
     Some (m[i := row[j := st\<lparr>residency := residency st + r, stat_count := stat_count st + 1\<rparr>]])
   }"

fun psci_stats_up_loop ::
  "psci_env \<Rightarrow> nat \<Rightarrow> nat \<Rightarrow> nat \<Rightarrow> u32 \<Rightarrow> psci_power_state \<Rightarrow> psci_state \<Rightarrow> psci_state option" where
  "psci_stats_up_loop e me 0 lvl parent_idx state_info s = Some s"
| "psci_stats_up_loop e me (Suc n) lvl parent_idx state_info s = do {
     local_state \<leftarrow> aread state_info lvl;
     if is_local_state_run local_state then Some s
     else do {
       last \<leftarrow> aread (last_cpu_in_non_cpu_pd s) (unat parent_idx);
       assert_c (last \<noteq> -1);
       r \<leftarrow> plat_psci_stat_get_residency e me lvl state_info last s;
       let s = s\<lparr>last_cpu_in_non_cpu_pd := (last_cpu_in_non_cpu_pd s)[unat parent_idx := -1]\<rparr>;
       stat_idx \<leftarrow> get_stat_idx e local_state lvl s;
       m \<leftarrow> bump_stat r (unat parent_idx) stat_idx (psci_non_cpu_stat s);
       let s = s\<lparr>psci_non_cpu_stat := m\<rparr>;
       nd \<leftarrow> aread (psci_non_cpu_pd_nodes s) (unat parent_idx);
       psci_stats_up_loop e me n (Suc lvl) (nd_parent_node nd) state_info s
     }
   }"

definition psci_stats_update_pwr_up ::
  "psci_env \<Rightarrow> nat \<Rightarrow> nat \<Rightarrow> psci_power_state \<Rightarrow> psci_state \<Rightarrow> psci_state option" where
  "psci_stats_update_pwr_up e me end_pwrlvl state_info s = do {
     assert_c (end_pwrlvl \<le> PLAT_MAX_PWR_LVL e);
     local_state \<leftarrow> aread state_info PSCI_CPU_PWR_LVL;
     stat_idx \<leftarrow> get_stat_idx e local_state PSCI_CPU_PWR_LVL s;
     r \<leftarrow> plat_psci_stat_get_residency e me PSCI_CPU_PWR_LVL state_info (int me) s;
     m \<leftarrow> bump_stat r me stat_idx (psci_cpu_stat s);
     let s = s\<lparr>psci_cpu_stat := m\<rparr>;
     cn \<leftarrow> aread (psci_cpu_pd_nodes s) me;
     last \<leftarrow> aread (last_cpu_in_non_cpu_pd s) (unat (cpu_parent_node cn));
     if last = -1 then Some s
     else psci_stats_up_loop e me end_pwrlvl (PSCI_CPU_PWR_LVL + 1) (cpu_parent_node cn)
            state_info s
   }"

fun psci_stat_parent_loop :: "nat \<Rightarrow> u32 \<Rightarrow> psci_state \<Rightarrow> u32 option" where
  "psci_stat_parent_loop 0 parent_idx s = Some parent_idx"
| "psci_stat_parent_loop (Suc n) parent_idx s = do {
     nd \<leftarrow> aread (psci_non_cpu_pd_nodes s) (unat parent_idx);
     psci_stat_parent_loop n (nd_parent_node nd) s
   }"

definition psci_get_stat ::
  "psci_env \<Rightarrow> nat \<Rightarrow> u64 \<Rightarrow> u32 \<Rightarrow> psci_state \<Rightarrow> (int \<times> psci_stat option \<times> psci_state) option" where
  "psci_get_stat e me target_cpu power_state s =
     (if plat_core_pos_by_mpidr e target_cpu = -1 then Some (PSCI_E_INVALID_PARAMS, None, s)
      else do {
        let target_idx = nat (plat_core_pos_by_mpidr e target_cpu mod 2 ^ 32);
        let info0 = replicate (Suc (PLAT_MAX_PWR_LVL e)) PSCI_LOCAL_STATE_RUN;
        ops \<leftarrow> psci_plat_pm_ops s;
        (rc, state_info, s) \<leftarrow>
          (case translate_power_state_by_mpidr ops of
             None \<Rightarrow> psci_validate_power_state e me power_state info0 s
           | Some f \<Rightarrow> (let (rc, info) = f (psci_log s) target_cpu power_state info0
                        in Some (rc, info, s)));
        if rc \<noteq> PSCI_E_SUCCESS then Some (PSCI_E_INVALID_PARAMS, None, s)
        else do {
          pwrlvl \<leftarrow> psci_find_target_suspend_lvl e state_info;
          assert_c (pwrlvl \<noteq> PSCI_INVALID_PWR_LVL e);
          local_state \<leftarrow> aread state_info pwrlvl;
          stat_idx \<leftarrow> get_stat_idx e local_state pwrlvl s;
          if pwrlvl > PSCI_CPU_PWR_LVL
          then do {
            cn \<leftarrow> aread (psci_cpu_pd_nodes s) target_idx;
            parent_idx \<leftarrow> psci_stat_parent_loop (pwrlvl - 1) (cpu_parent_node cn) s;
            row \<leftarrow> aread (psci_non_cpu_stat s) (unat parent_idx);
            st \<leftarrow> aread row stat_idx;
            Some (PSCI_E_SUCCESS, Some st, s)
          }
          else do {
            row \<leftarrow> aread (psci_cpu_stat s) target_idx;
            st \<leftarrow> aread row stat_idx;
            Some (PSCI_E_SUCCESS, Some st, s)
          }
        }
      })"

definition psci_stat_residency ::
  "psci_env \<Rightarrow> nat \<Rightarrow> u64 \<Rightarrow> u32 \<Rightarrow> psci_state \<Rightarrow> (u64 \<times> psci_state) option" where
  "psci_stat_residency e me target_cpu power_state s = do {
     (rc, st, s) \<leftarrow> psci_get_stat e me target_cpu power_state s;
     Some (case st of Some st \<Rightarrow> residency st | None \<Rightarrow> 0, s)
   }"

definition psci_stat_count ::
  "psci_env \<Rightarrow> nat \<Rightarrow> u64 \<Rightarrow> u32 \<Rightarrow> psci_state \<Rightarrow> (u64 \<times> psci_state) option" where
  "psci_stat_count e me target_cpu power_state s = do {
     (rc, st, s) \<leftarrow> psci_get_stat e me target_cpu power_state s;
     Some (case st of Some st \<Rightarrow> stat_count st | None \<Rightarrow> 0, s)
   }"

end
