(* ===== verification/PSCI_Power.thy ===== *)
theory PSCI_Power
  imports PSCI_Stat
begin

section \<open>PSCI: turning CPUs on and off, suspending and resuming them\<close>

unbundle bit_operations_syntax

text \<open>
  \<^verbatim>\<open>lib/psci/psci_on.c\<close>, \<^verbatim>\<open>psci_off.c\<close>, \<^verbatim>\<open>psci_suspend.c\<close> and \<^verbatim>\<open>psci_warmboot_entrypoint()\<close> of
  \<^verbatim>\<open>psci_common.c\<close>. A function that ends in a wait-for-interrupt from which the CPU restarts at
  the warm boot entry point returns \<^const>\<open>No_Return\<close>. \<^verbatim>\<open>psci_do_cpu_off()\<close> and
  \<^verbatim>\<open>psci_cpu_suspend_start()\<close> are composed of the part that runs with the power domain locks held
  and the part after their release, so that other CPUs can run in between.
\<close>

text \<open>A hook of the dispatcher without a result is called when both pointers are non-null.\<close>

definition spd_call ::
  "(spd_pm_ops \<Rightarrow> bool) \<Rightarrow> nat \<Rightarrow> psci_event \<Rightarrow> psci_state \<Rightarrow> psci_state" where
  "spd_call hook me ev s =
     (case psci_spd_pm s of
        None \<Rightarrow> s
      | Some pm \<Rightarrow> (if hook pm then emit me ev s else s))"

subsection \<open>CPU_ON\<close>

fun cpu_on_validate_state :: "aff_info_state \<Rightarrow> int" where
  "cpu_on_validate_state AFF_STATE_ON = PSCI_E_ALREADY_ON"
| "cpu_on_validate_state AFF_STATE_ON_PENDING = PSCI_E_ON_PENDING"
| "cpu_on_validate_state AFF_STATE_OFF = PSCI_E_SUCCESS"

text \<open>
  The update of the affinity state with the retry: the line may be invalidated between the
  first write and the read that follows it.
\<close>

definition cpu_on_mark_pending :: "psci_env \<Rightarrow> nat \<Rightarrow> psci_state \<Rightarrow> psci_state option" where
  "cpu_on_mark_pending e i s = do {
     s \<leftarrow> psci_set_aff_info_state_by_idx i AFF_STATE_ON_PENDING s;
     s \<leftarrow> (if aff_update_lost e (psci_log s)
          then psci_set_aff_info_state_by_idx i AFF_STATE_OFF s else Some s);
     target_aff_state \<leftarrow> psci_get_aff_info_state_by_idx i s;
     if target_aff_state \<noteq> AFF_STATE_ON_PENDING
     then do {
       assert_c (target_aff_state = AFF_STATE_OFF);
       s \<leftarrow> psci_set_aff_info_state_by_idx i AFF_STATE_ON_PENDING s;
       a \<leftarrow> psci_get_aff_info_state_by_idx i s;
       assert_c (a = AFF_STATE_ON_PENDING);
       Some s
     }
     else Some s
   }"

definition psci_cpu_on_start ::
  "psci_env \<Rightarrow> nat \<Rightarrow> u64 \<Rightarrow> entry_point_info \<Rightarrow> psci_state \<Rightarrow> (int \<times> psci_state) option" where
  "psci_cpu_on_start e me target_cpu ep s = do {
     assert_c (0 \<le> plat_core_pos_by_mpidr e target_cpu);
     let target_idx = nat (plat_core_pos_by_mpidr e target_cpu);
     ops \<leftarrow> psci_plat_pm_ops s;
     on \<leftarrow> pwr_domain_on ops;
     assert_c (pwr_domain_on_finish ops);
     let s = emit me (Ev_spin_lock_cpu target_idx) s;
     a \<leftarrow> psci_get_aff_info_state_by_idx target_idx s;
     let rc = cpu_on_validate_state a;
     if rc \<noteq> PSCI_E_SUCCESS
     then Some (rc, emit me (Ev_spin_unlock_cpu target_idx) s)
     else do {
       let s = spd_call svc_on me (Ev_svc_on target_cpu) s;
       s \<leftarrow> cpu_on_mark_pending e target_idx s;
       let rc = on (psci_log s) target_cpu;
       let s = emit me (Ev_pwr_domain_on target_cpu) s;
       assert_c (rc = PSCI_E_SUCCESS \<or> rc = PSCI_E_INTERN_FAIL);
       s \<leftarrow> (if rc = PSCI_E_SUCCESS then Some (emit me (Ev_cm_init_context target_idx ep) s)
            else psci_set_aff_info_state_by_idx target_idx AFF_STATE_OFF s);
       Some (rc, emit me (Ev_spin_unlock_cpu target_idx) s)
     }
   }"

definition psci_cpu_on_finish ::
  "psci_env \<Rightarrow> nat \<Rightarrow> psci_power_state \<Rightarrow> psci_state \<Rightarrow> psci_state option" where
  "psci_cpu_on_finish e cpu_idx state_info s = do {
     ops \<leftarrow> psci_plat_pm_ops s;
     assert_c (pwr_domain_on_finish ops);
     let s = emit cpu_idx (Ev_pwr_domain_on_finish state_info) s;
     let s = emit cpu_idx Ev_psci_arch_setup s;
     let s = emit cpu_idx (Ev_spin_lock_cpu cpu_idx) s;
     let s = emit cpu_idx (Ev_spin_unlock_cpu cpu_idx) s;
     a \<leftarrow> psci_get_aff_info_state_by_idx cpu_idx s;
     assert_c (a = AFF_STATE_ON_PENDING);
     let s = spd_call svc_on_finish cpu_idx Ev_svc_on_finish s;
     let s = emit cpu_idx Ev_publish_cpu_on_finish s;
     cn \<leftarrow> aread (psci_cpu_pd_nodes s) cpu_idx;
     let s = s\<lparr>psci_cpu_pd_nodes := (psci_cpu_pd_nodes s)
                 [cpu_idx := cn\<lparr>cpu_mpidr := read_mpidr e cpu_idx AND MPIDR_AFFINITY_MASK\<rparr>]\<rparr>;
     Some (emit cpu_idx Ev_cm_prepare_el3_exit s)
   }"

subsection \<open>CPU_OFF\<close>

definition psci_set_power_off_state :: "psci_env \<Rightarrow> psci_power_state" where
  "psci_set_power_off_state e = replicate (Suc (PLAT_MAX_PWR_LVL e)) (PLAT_MAX_OFF_STATE e)"

text \<open>The call of the dispatcher before a CPU turns itself off.\<close>

definition spd_svc_off :: "nat \<Rightarrow> psci_state \<Rightarrow> int \<times> psci_state" where
  "spd_svc_off idx s =
     (case psci_spd_pm s of
        None \<Rightarrow> (PSCI_E_SUCCESS, s)
      | Some pm \<Rightarrow> (case svc_off pm of
                      None \<Rightarrow> (PSCI_E_SUCCESS, s)
                    | Some f \<Rightarrow> (f (psci_log s), emit idx Ev_svc_off s)))"

text \<open>
  From the start to the release of the locks; the result is the code of the dispatcher and the
  negotiated power state.
\<close>

definition psci_do_cpu_off_locked ::
  "psci_env \<Rightarrow> nat \<Rightarrow> nat \<Rightarrow> psci_state \<Rightarrow> (int \<times> psci_power_state \<times> psci_state) option" where
  "psci_do_cpu_off_locked e idx end_pwrlvl s = do {
     ops \<leftarrow> psci_plat_pm_ops s;
     assert_c (pwr_domain_off ops);
     let state_info = psci_set_power_off_state e;
     s \<leftarrow> psci_acquire_pwr_domain_locks idx end_pwrlvl idx s;
     let (rc, s) = spd_svc_off idx s;
     (state_info, s) \<leftarrow>
       (if rc \<noteq> 0 then Some (state_info, s)
        else do {
          (state_info, s) \<leftarrow> psci_do_state_coordination e idx end_pwrlvl state_info s;
          s \<leftarrow> if_stat e (psci_stats_update_pwr_down e idx end_pwrlvl state_info) s;
          max_off_lvl \<leftarrow> psci_find_max_off_lvl e state_info;
          let s = psci_do_pwrdown_sequence e idx max_off_lvl s;
          let s = emit idx (Ev_pwr_domain_off state_info) s;
          s \<leftarrow> if_stat e (plat_psci_stat_accounting_start e idx) s;
          Some (state_info, s)
        });
     s \<leftarrow> psci_release_pwr_domain_locks idx end_pwrlvl idx s;
     Some (rc, state_info, s)
   }"

text \<open>After the release of the locks.\<close>

definition psci_do_cpu_off_final ::
  "nat \<Rightarrow> int \<Rightarrow> psci_power_state \<Rightarrow> psci_state \<Rightarrow> (int outcome \<times> psci_state) option" where
  "psci_do_cpu_off_final idx rc state_info s =
     (if rc = PSCI_E_SUCCESS
      then do {
        s \<leftarrow> psci_set_aff_info_state_by_idx idx AFF_STATE_OFF s;
        ops \<leftarrow> psci_plat_pm_ops s;
        Some (No_Return,
              emit idx (if pwr_domain_pwr_down_wfi ops
                        then Ev_pwr_domain_pwr_down_wfi state_info
                        else Ev_psci_power_down_wfi) s)
      }
      else Some (Returned rc, s))"

definition psci_do_cpu_off ::
  "psci_env \<Rightarrow> nat \<Rightarrow> nat \<Rightarrow> psci_state \<Rightarrow> (int outcome \<times> psci_state) option" where
  "psci_do_cpu_off e idx end_pwrlvl s = do {
     (rc, state_info, s) \<leftarrow> psci_do_cpu_off_locked e idx end_pwrlvl s;
     psci_do_cpu_off_final idx rc state_info s
   }"

subsection \<open>CPU_SUSPEND\<close>

definition psci_suspend_to_standby_finisher ::
  "psci_env \<Rightarrow> nat \<Rightarrow> nat \<Rightarrow> psci_state \<Rightarrow> psci_state option" where
  "psci_suspend_to_standby_finisher e cpu_idx end_pwrlvl s = do {
     s \<leftarrow> psci_acquire_pwr_domain_locks cpu_idx end_pwrlvl cpu_idx s;
     state_info \<leftarrow> psci_get_target_local_pwr_states e cpu_idx end_pwrlvl
       (replicate (Suc (PLAT_MAX_PWR_LVL e)) PSCI_LOCAL_STATE_RUN) s;
     s \<leftarrow> if_stat e (plat_psci_stat_accounting_stop e cpu_idx) s;
     s \<leftarrow> if_stat e (psci_stats_update_pwr_up e cpu_idx end_pwrlvl state_info) s;
     ops \<leftarrow> psci_plat_pm_ops s;
     assert_c (pwr_domain_suspend_finish ops);
     let s = emit cpu_idx (Ev_pwr_domain_suspend_finish state_info) s;
     s \<leftarrow> psci_set_pwr_domains_to_run cpu_idx end_pwrlvl s;
     psci_release_pwr_domain_locks cpu_idx end_pwrlvl cpu_idx s
   }"

definition psci_suspend_to_pwrdown_start ::
  "psci_env \<Rightarrow> nat \<Rightarrow> nat \<Rightarrow> entry_point_info \<Rightarrow> psci_power_state \<Rightarrow> psci_state
     \<Rightarrow> psci_state option" where
  "psci_suspend_to_pwrdown_start e me end_pwrlvl ep state_info s = do {
     max_off_lvl \<leftarrow> psci_find_max_off_lvl e state_info;
     let s = emit me Ev_publish_suspend_pwrdown_start s;
     s \<leftarrow> psci_set_suspend_pwrlvl me end_pwrlvl s;
     let s = spd_call svc_suspend me (Ev_svc_suspend max_off_lvl) s;
     ops \<leftarrow> psci_plat_pm_ops s;
     let s = (if \<not> HW_ASSISTED_COHERENCY e \<and> pwr_domain_suspend_pwrdown_early ops
              then emit me (Ev_pwr_domain_suspend_pwrdown_early state_info) s else s);
     let s = emit me (Ev_cm_init_context me ep) s;
     Some (psci_do_pwrdown_sequence e me max_off_lvl s)
   }"

text \<open>
  From the start of \<^verbatim>\<open>psci_cpu_suspend_start()\<close> to the point where the CPU stops: it skipped the
  wait because an interrupt was pending, it powered down, or it waits in a retention state.
\<close>

datatype suspend_status = Skip_WFI | Powered_Down | In_Standby

definition psci_cpu_suspend_enter ::
  "psci_env \<Rightarrow> nat \<Rightarrow> entry_point_info \<Rightarrow> nat \<Rightarrow> psci_power_state \<Rightarrow> u32 \<Rightarrow> psci_state
     \<Rightarrow> (suspend_status \<times> psci_state) option" where
  "psci_cpu_suspend_enter e idx ep end_pwrlvl state_info is_power_down_state s = do {
     ops \<leftarrow> psci_plat_pm_ops s;
     assert_c (pwr_domain_suspend ops \<and> pwr_domain_suspend_finish ops);
     s \<leftarrow> psci_acquire_pwr_domain_locks idx end_pwrlvl idx s;
     if read_isr_el1 e (psci_log s) idx \<noteq> 0
     then do {
       s \<leftarrow> psci_release_pwr_domain_locks idx end_pwrlvl idx s;
       Some (Skip_WFI, s)
     }
     else do {
       (state_info, s) \<leftarrow> psci_do_state_coordination e idx end_pwrlvl state_info s;
       s \<leftarrow> if_stat e (psci_stats_update_pwr_down e idx end_pwrlvl state_info) s;
       s \<leftarrow> (if is_power_down_state \<noteq> 0
            then psci_suspend_to_pwrdown_start e idx end_pwrlvl ep state_info s else Some s);
       let s = emit idx (Ev_pwr_domain_suspend state_info) s;
       s \<leftarrow> if_stat e (plat_psci_stat_accounting_start e idx) s;
       s \<leftarrow> psci_release_pwr_domain_locks idx end_pwrlvl idx s;
       if is_power_down_state \<noteq> 0
       then Some (Powered_Down,
                  emit idx (if pwr_domain_pwr_down_wfi ops
                            then Ev_pwr_domain_pwr_down_wfi state_info
                            else Ev_psci_power_down_wfi) s)
       else Some (In_Standby, emit idx Ev_wfi s)
     }
   }"

text \<open>
  The whole function. What the other CPUs do while this one waits in a retention state is the
  argument \<open>others\<close>.
\<close>

definition psci_cpu_suspend_start ::
  "(psci_state \<Rightarrow> psci_state) \<Rightarrow> psci_env \<Rightarrow> nat \<Rightarrow> entry_point_info \<Rightarrow> nat
     \<Rightarrow> psci_power_state \<Rightarrow> u32 \<Rightarrow> psci_state \<Rightarrow> (unit outcome \<times> psci_state) option" where
  "psci_cpu_suspend_start others e idx ep end_pwrlvl state_info is_power_down_state s = do {
     (status, s) \<leftarrow> psci_cpu_suspend_enter e idx ep end_pwrlvl state_info is_power_down_state s;
     (case status of
        Skip_WFI \<Rightarrow> Some (Returned (), s)
      | Powered_Down \<Rightarrow> Some (No_Return, s)
      | In_Standby \<Rightarrow> do {
          s \<leftarrow> psci_suspend_to_standby_finisher e idx end_pwrlvl (others s);
          Some (Returned (), s)
        })
   }"

definition psci_cpu_suspend_finish ::
  "psci_env \<Rightarrow> nat \<Rightarrow> psci_power_state \<Rightarrow> psci_state \<Rightarrow> psci_state option" where
  "psci_cpu_suspend_finish e cpu_idx state_info s = do {
     a \<leftarrow> psci_get_aff_info_state_by_idx cpu_idx s;
     c \<leftarrow> aread state_info PSCI_CPU_PWR_LVL;
     assert_c (a = AFF_STATE_ON \<and> is_local_state_off e c);
     ops \<leftarrow> psci_plat_pm_ops s;
     assert_c (pwr_domain_suspend_finish ops);
     let s = emit cpu_idx (Ev_pwr_domain_suspend_finish state_info) s;
     let s = emit cpu_idx Ev_write_cntfrq s;
     s \<leftarrow> (case psci_spd_pm s of
            None \<Rightarrow> Some s
          | Some pm \<Rightarrow>
              (if svc_suspend_finish pm
               then do {
                 max_off_lvl \<leftarrow> psci_find_max_off_lvl e state_info;
                 assert_c (max_off_lvl \<noteq> PSCI_INVALID_PWR_LVL e);
                 Some (emit cpu_idx (Ev_svc_suspend_finish max_off_lvl) s)
               }
               else Some s));
     s \<leftarrow> psci_set_suspend_pwrlvl cpu_idx (PSCI_INVALID_PWR_LVL e) s;
     let s = emit cpu_idx Ev_publish_suspend_pwrdown_finish s;
     Some (emit cpu_idx Ev_cm_prepare_el3_exit s)
   }"

subsection \<open>Warm boot\<close>

definition psci_warmboot_entrypoint :: "psci_env \<Rightarrow> nat \<Rightarrow> psci_state \<Rightarrow> psci_state option" where
  "psci_warmboot_entrypoint e cpu_idx s = do {
     a \<leftarrow> psci_get_aff_info_state_by_idx cpu_idx s;
     assert_c (a \<noteq> AFF_STATE_OFF);
     end_pwrlvl \<leftarrow> get_power_on_target_pwrlvl e cpu_idx s;
     s \<leftarrow> psci_acquire_pwr_domain_locks cpu_idx end_pwrlvl cpu_idx s;
     state_info \<leftarrow> psci_get_target_local_pwr_states e cpu_idx end_pwrlvl
       (replicate (Suc (PLAT_MAX_PWR_LVL e)) PSCI_LOCAL_STATE_RUN) s;
     s \<leftarrow> if_stat e (plat_psci_stat_accounting_stop e cpu_idx) s;
     s \<leftarrow> (if a = AFF_STATE_ON_PENDING
          then psci_cpu_on_finish e cpu_idx state_info s
          else psci_cpu_suspend_finish e cpu_idx state_info s);
     s \<leftarrow> psci_set_pwr_domains_to_run cpu_idx end_pwrlvl s;
     s \<leftarrow> if_stat e (psci_stats_update_pwr_up e cpu_idx end_pwrlvl state_info) s;
     psci_release_pwr_domain_locks cpu_idx end_pwrlvl cpu_idx s
   }"

end
