(* ===== verification/PSCI_Main.thy ===== *)
theory PSCI_Main
  imports PSCI_Power
begin

section \<open>PSCI: the calls of the interface and the SMC handler\<close>

text \<open>
  \<^verbatim>\<open>lib/psci/psci_main.c\<close>, \<^verbatim>\<open>psci_system_off.c\<close> and \<^verbatim>\<open>psci_mem_protect.c\<close>. An \<^verbatim>\<open>int\<close> result that the
  handler casts to \<^verbatim>\<open>u_register_t\<close> is sign-extended (\<^term>\<open>word_of_int\<close>).
\<close>

unbundle bit_operations_syntax

subsection \<open>Power management calls\<close>

definition psci_cpu_on ::
  "psci_env \<Rightarrow> nat \<Rightarrow> u64 \<Rightarrow> u64 \<Rightarrow> u64 \<Rightarrow> psci_state \<Rightarrow> (int \<times> psci_state) option" where
  "psci_cpu_on e me target_cpu entrypoint context_id s =
     (if psci_validate_mpidr e target_cpu \<noteq> PSCI_E_SUCCESS then Some (PSCI_E_INVALID_PARAMS, s)
      else do {
        (rc, ep, s) \<leftarrow> psci_validate_entry_point e me entrypoint context_id s;
        if rc \<noteq> PSCI_E_SUCCESS then Some (rc, s)
        else psci_cpu_on_start e me target_cpu ep s
      })"

definition psci_version :: u32 where
  "psci_version = PSCI_MAJOR_VER OR PSCI_MINOR_VER"

text \<open>
  The part of \<^verbatim>\<open>psci_cpu_suspend()\<close> that validates the request, and its fast path for a CPU
  level standby. The first component of the result is the answer of the call when it ends here;
  otherwise the call goes on with the suspend routine.
\<close>

definition psci_cpu_standby ::
  "psci_env \<Rightarrow> nat \<Rightarrow> psci_power_state \<Rightarrow> psci_state \<Rightarrow> (int \<times> psci_state) option" where
  "psci_cpu_standby e me state_info s = do {
     ops \<leftarrow> psci_plat_pm_ops s;
     if \<not> cpu_standby ops then Some (PSCI_E_INVALID_PARAMS, s)
     else do {
       cpu_pd_state \<leftarrow> aread state_info PSCI_CPU_PWR_LVL;
       s \<leftarrow> psci_set_cpu_local_state me cpu_pd_state s;
       s \<leftarrow> if_stat e (plat_psci_stat_accounting_start e me) s;
       let s = emit me (Ev_cpu_standby cpu_pd_state) s;
       s \<leftarrow> psci_set_cpu_local_state me PSCI_LOCAL_STATE_RUN s;
       s \<leftarrow> if_stat e (plat_psci_stat_accounting_stop e me) s;
       s \<leftarrow> if_stat e (psci_stats_update_pwr_up e me PSCI_CPU_PWR_LVL state_info) s;
       Some (PSCI_E_SUCCESS, s)
     }
   }"

datatype suspend_request =
    Suspend_Answer int
  | Suspend_Start entry_point_info nat psci_power_state u32

definition psci_cpu_suspend_prepare ::
  "psci_env \<Rightarrow> nat \<Rightarrow> u32 \<Rightarrow> u64 \<Rightarrow> u64 \<Rightarrow> psci_state
     \<Rightarrow> (suspend_request \<times> psci_state) option" where
  "psci_cpu_suspend_prepare e me power_state entrypoint context_id s = do {
     (rc, state_info, s) \<leftarrow> psci_validate_power_state e me power_state
       (replicate (Suc (PLAT_MAX_PWR_LVL e)) PSCI_LOCAL_STATE_RUN) s;
     if rc \<noteq> PSCI_E_SUCCESS
     then do {
       assert_c (rc = PSCI_E_INVALID_PARAMS);
       Some (Suspend_Answer rc, s)
     }
     else do {
       let is_power_down_state = psci_get_pstate_type e power_state;
       v \<leftarrow> psci_validate_suspend_req e state_info is_power_down_state;
       assert_c (v = PSCI_E_SUCCESS);
       target_pwrlvl \<leftarrow> psci_find_target_suspend_lvl e state_info;
       assert_c (target_pwrlvl \<noteq> PSCI_INVALID_PWR_LVL e);
       if is_cpu_standby_req is_power_down_state target_pwrlvl
       then do {
         (rc, s) \<leftarrow> psci_cpu_standby e me state_info s;
         Some (Suspend_Answer rc, s)
       }
       else if is_power_down_state \<noteq> 0
       then do {
         (rc, ep, s) \<leftarrow> psci_validate_entry_point e me entrypoint context_id s;
         if rc \<noteq> PSCI_E_SUCCESS then Some (Suspend_Answer rc, s)
         else Some (Suspend_Start ep target_pwrlvl state_info is_power_down_state, s)
       }
       else Some (Suspend_Start ep_uninit target_pwrlvl state_info is_power_down_state, s)
     }
   }"

definition psci_cpu_suspend ::
  "(psci_state \<Rightarrow> psci_state) \<Rightarrow> psci_env \<Rightarrow> nat \<Rightarrow> u32 \<Rightarrow> u64 \<Rightarrow> u64 \<Rightarrow> psci_state
     \<Rightarrow> (int outcome \<times> psci_state) option" where
  "psci_cpu_suspend others e me power_state entrypoint context_id s = do {
     (r, s) \<leftarrow> psci_cpu_suspend_prepare e me power_state entrypoint context_id s;
     (case r of
        Suspend_Answer rc \<Rightarrow> Some (Returned rc, s)
      | Suspend_Start ep lvl state_info pd \<Rightarrow> do {
          (oc, s) \<leftarrow> psci_cpu_suspend_start others e me ep lvl state_info pd s;
          Some (case oc of Returned _ \<Rightarrow> Returned PSCI_E_SUCCESS | No_Return \<Rightarrow> No_Return, s)
        })
   }"

definition psci_system_suspend_prepare ::
  "psci_env \<Rightarrow> nat \<Rightarrow> u64 \<Rightarrow> u64 \<Rightarrow> psci_state \<Rightarrow> (suspend_request \<times> psci_state) option" where
  "psci_system_suspend_prepare e me entrypoint context_id s = do {
     last \<leftarrow> psci_is_last_on_cpu e me s;
     if \<not> last then Some (Suspend_Answer PSCI_E_DENIED, s)
     else do {
       (rc, ep, s) \<leftarrow> psci_validate_entry_point e me entrypoint context_id s;
       if rc \<noteq> PSCI_E_SUCCESS then Some (Suspend_Answer rc, s)
       else do {
         (state_info, s) \<leftarrow> psci_query_sys_suspend_pwrstate me
           (replicate (Suc (PLAT_MAX_PWR_LVL e)) PSCI_LOCAL_STATE_RUN) s;
         lvl \<leftarrow> psci_find_target_suspend_lvl e state_info;
         if lvl < PLAT_MAX_PWR_LVL e then Some (Suspend_Answer PSCI_E_DENIED, s)
         else do {
           v \<leftarrow> psci_validate_suspend_req e state_info PSTATE_TYPE_POWERDOWN;
           assert_c (v = PSCI_E_SUCCESS);
           st \<leftarrow> aread state_info (PLAT_MAX_PWR_LVL e);
           assert_c (is_local_state_off e st);
           Some (Suspend_Start ep (PLAT_MAX_PWR_LVL e) state_info PSTATE_TYPE_POWERDOWN, s)
         }
       }
     }
   }"

definition psci_system_suspend ::
  "(psci_state \<Rightarrow> psci_state) \<Rightarrow> psci_env \<Rightarrow> nat \<Rightarrow> u64 \<Rightarrow> u64 \<Rightarrow> psci_state
     \<Rightarrow> (int outcome \<times> psci_state) option" where
  "psci_system_suspend others e me entrypoint context_id s = do {
     (r, s) \<leftarrow> psci_system_suspend_prepare e me entrypoint context_id s;
     (case r of
        Suspend_Answer rc \<Rightarrow> Some (Returned rc, s)
      | Suspend_Start ep lvl state_info pd \<Rightarrow> do {
          (oc, s) \<leftarrow> psci_cpu_suspend_start others e me ep lvl state_info pd s;
          Some (case oc of Returned _ \<Rightarrow> Returned PSCI_E_SUCCESS | No_Return \<Rightarrow> No_Return, s)
        })
   }"

definition psci_cpu_off ::
  "psci_env \<Rightarrow> nat \<Rightarrow> psci_state \<Rightarrow> (int outcome \<times> psci_state) option" where
  "psci_cpu_off e me s = do {
     (oc, s) \<leftarrow> psci_do_cpu_off e me (PLAT_MAX_PWR_LVL e) s;
     (case oc of
        No_Return \<Rightarrow> Some (No_Return, s)
      | Returned rc \<Rightarrow> do {
          assert_c (rc = PSCI_E_DENIED);
          Some (Returned rc, s)
        })
   }"

subsection \<open>Queries\<close>

definition psci_affinity_info :: "psci_env \<Rightarrow> u64 \<Rightarrow> u32 \<Rightarrow> psci_state \<Rightarrow> int option" where
  "psci_affinity_info e target_affinity lowest_affinity_level s =
     (if unat lowest_affinity_level > PSCI_CPU_PWR_LVL then Some PSCI_E_INVALID_PARAMS
      else if plat_core_pos_by_mpidr e target_affinity = -1 then Some PSCI_E_INVALID_PARAMS
      else do {
        a \<leftarrow> psci_get_aff_info_state_by_idx
              (nat (plat_core_pos_by_mpidr e target_affinity mod 2 ^ 32)) s;
        Some (aff_info_val a)
      })"

definition psci_migrate ::
  "psci_env \<Rightarrow> nat \<Rightarrow> u64 \<Rightarrow> psci_state \<Rightarrow> (int \<times> psci_state) option" where
  "psci_migrate e me target_cpu s = do {
     (rc, resident_cpu_mpidr, s) \<leftarrow> psci_spd_migrate_info me s;
     if rc \<noteq> PSCI_TOS_UP_MIG_CAP
     then Some (if rc = PSCI_TOS_NOT_UP_MIG_CAP then PSCI_E_DENIED else PSCI_E_NOT_SUPPORTED, s)
     else if resident_cpu_mpidr \<noteq> read_mpidr e me then Some (PSCI_E_NOT_PRESENT, s)
     else if psci_validate_mpidr e target_cpu \<noteq> PSCI_E_SUCCESS
     then Some (PSCI_E_INVALID_PARAMS, s)
     else do {
       pm \<leftarrow> psci_spd_pm s;
       f \<leftarrow> svc_migrate pm;
       let rc = f (psci_log s) (read_mpidr e me) target_cpu;
       assert_c (rc = PSCI_E_SUCCESS \<or> rc = PSCI_E_INTERN_FAIL);
       Some (rc, emit me (Ev_svc_migrate (read_mpidr e me) target_cpu) s)
     }
   }"

definition psci_migrate_info_type :: "nat \<Rightarrow> psci_state \<Rightarrow> (int \<times> psci_state) option" where
  "psci_migrate_info_type me s = do {
     (rc, resident_cpu_mpidr, s) \<leftarrow> psci_spd_migrate_info me s;
     Some (rc, s)
   }"

definition psci_migrate_info_up_cpu :: "nat \<Rightarrow> psci_state \<Rightarrow> (u64 \<times> psci_state) option" where
  "psci_migrate_info_up_cpu me s = do {
     (rc, resident_cpu_mpidr, s) \<leftarrow> psci_spd_migrate_info me s;
     Some (if rc \<noteq> PSCI_TOS_NOT_UP_MIG_CAP \<and> rc \<noteq> PSCI_TOS_UP_MIG_CAP
           then word_of_int PSCI_E_INVALID_PARAMS else resident_cpu_mpidr, s)
   }"

definition psci_node_hw_state ::
  "psci_env \<Rightarrow> nat \<Rightarrow> u64 \<Rightarrow> u32 \<Rightarrow> psci_state \<Rightarrow> (int \<times> psci_state) option" where
  "psci_node_hw_state e me target_cpu power_level s =
     (if psci_validate_mpidr e target_cpu \<noteq> PSCI_E_SUCCESS then Some (PSCI_E_INVALID_PARAMS, s)
      else if unat power_level > PLAT_MAX_PWR_LVL e then Some (PSCI_E_INVALID_PARAMS, s)
      else do {
        ops \<leftarrow> psci_plat_pm_ops s;
        f \<leftarrow> get_node_hw_state ops;
        let rc = f (psci_log s) target_cpu (unat power_level);
        assert_c ((HW_ON \<le> rc \<and> rc \<le> HW_STANDBY) \<or> rc = PSCI_E_NOT_SUPPORTED
                  \<or> rc = PSCI_E_INVALID_PARAMS);
        Some (rc, emit me (Ev_get_node_hw_state target_cpu (unat power_level)) s)
      })"

definition PSCI_CAP_64BIT_MASK :: u32 where
  "PSCI_CAP_64BIT_MASK =
     define_psci_cap PSCI_CPU_SUSPEND_AARCH64 OR define_psci_cap PSCI_CPU_ON_AARCH64 OR
     define_psci_cap PSCI_AFFINITY_INFO_AARCH64 OR define_psci_cap PSCI_MIG_AARCH64 OR
     define_psci_cap PSCI_MIG_INFO_UP_CPU_AARCH64 OR define_psci_cap PSCI_NODE_HW_STATE_AARCH64 OR
     define_psci_cap PSCI_SYSTEM_SUSPEND_AARCH64 OR define_psci_cap PSCI_STAT_RESIDENCY_AARCH64 OR
     define_psci_cap PSCI_STAT_COUNT_AARCH64 OR define_psci_cap PSCI_SYSTEM_RESET2_AARCH64 OR
     define_psci_cap PSCI_MEM_CHK_RANGE_AARCH64"

definition is_psci_fid :: "u32 \<Rightarrow> bool" where
  "is_psci_fid fid \<longleftrightarrow> fid AND 0xffe0 = 0"

text \<open>FF_PSTATE is the format flag of the power state parameter, shifted to bit 1.\<close>

definition psci_features :: "psci_env \<Rightarrow> u32 \<Rightarrow> psci_state \<Rightarrow> int" where
  "psci_features e psci_fid s =
     (if psci_fid = SMCCC_VERSION then PSCI_E_SUCCESS
      else let local_caps = (if GET_SMC_CC psci_fid = SMC_64
                             then psci_caps s AND PSCI_CAP_64BIT_MASK else psci_caps s)
           in if \<not> (is_std_svc_call psci_fid \<and> is_valid_fast_smc psci_fid \<and> is_psci_fid psci_fid)
              then PSCI_E_NOT_SUPPORTED
              else if local_caps AND define_psci_cap psci_fid = 0 then PSCI_E_NOT_SUPPORTED
              else if psci_fid = PSCI_CPU_SUSPEND_AARCH32 \<or> psci_fid = PSCI_CPU_SUSPEND_AARCH64
              then (if PSCI_EXTENDED_STATE_ID e then 2 else 0)
              else PSCI_E_SUCCESS)"

subsection \<open>System calls, memory protection\<close>

definition psci_system_off :: "nat \<Rightarrow> psci_state \<Rightarrow> psci_state option" where
  "psci_system_off me s = do {
     ops \<leftarrow> psci_plat_pm_ops s;
     assert_c (system_off ops);
     let s = spd_call svc_system_off me Ev_svc_system_off s;
     let s = emit me Ev_console_flush s;
     Some (emit me Ev_system_off s)
   }"

definition psci_system_reset :: "nat \<Rightarrow> psci_state \<Rightarrow> psci_state option" where
  "psci_system_reset me s = do {
     ops \<leftarrow> psci_plat_pm_ops s;
     assert_c (system_reset ops);
     let s = spd_call svc_system_reset me Ev_svc_system_reset s;
     let s = emit me Ev_console_flush s;
     Some (emit me Ev_system_reset s)
   }"

definition psci_system_reset2 ::
  "nat \<Rightarrow> u32 \<Rightarrow> u64 \<Rightarrow> psci_state \<Rightarrow> (u64 \<times> psci_state) option" where
  "psci_system_reset2 me reset_type cookie s = do {
     ops \<leftarrow> psci_plat_pm_ops s;
     f \<leftarrow> system_reset2 ops;
     let is_vendor = (drop_bit 31 reset_type AND 1 \<noteq> 0);
     if \<not> is_vendor \<and> reset_type \<noteq> PSCI_RESET2_SYSTEM_WARM_RESET
     then Some (word_of_int PSCI_E_INVALID_PARAMS, s)
     else do {
       let (refused, s) =
         (case (is_vendor, write_mem_protect ops) of
            (False, Some w) \<Rightarrow> (w (psci_log s) 0 < 0, emit me (Ev_write_mem_protect 0) s)
          | _ \<Rightarrow> (False, s));
       if refused then Some (word_of_int PSCI_E_NOT_SUPPORTED, s)
       else do {
         let s = spd_call svc_system_reset me Ev_svc_system_reset s;
         let s = emit me Ev_console_flush s;
         let rc = f (psci_log s) is_vendor reset_type cookie;
         Some (word_of_int rc, emit me (Ev_system_reset2 is_vendor reset_type cookie) s)
       }
     }
   }"

definition psci_mem_protect :: "nat \<Rightarrow> u32 \<Rightarrow> psci_state \<Rightarrow> (u64 \<times> psci_state) option" where
  "psci_mem_protect me enable s = do {
     ops \<leftarrow> psci_plat_pm_ops s;
     rd \<leftarrow> read_mem_protect ops;
     wr \<leftarrow> write_mem_protect ops;
     let (rc, val) = rd (psci_log s);
     let s = emit me Ev_read_mem_protect s;
     if rc < 0 then Some (word_of_int PSCI_E_NOT_SUPPORTED, s)
     else do {
       let rc = wr (psci_log s) enable;
       let s = emit me (Ev_write_mem_protect enable) s;
       if rc < 0 then Some (word_of_int PSCI_E_NOT_SUPPORTED, s)
       else Some (if val \<noteq> 0 then 1 else 0, s)
     }
   }"

definition psci_mem_chk_range ::
  "nat \<Rightarrow> u64 \<Rightarrow> u64 \<Rightarrow> psci_state \<Rightarrow> (u64 \<times> psci_state) option" where
  "psci_mem_chk_range me base len s = do {
     ops \<leftarrow> psci_plat_pm_ops s;
     f \<leftarrow> mem_protect_chk ops;
     if len = 0 \<or> check_uptr_overflow base (len - 1)
     then Some (word_of_int PSCI_E_DENIED, s)
     else do {
       ret \<leftarrow> f (psci_log s) base len;
       Some (if ret < 0 then word_of_int PSCI_E_DENIED else word_of_int PSCI_E_SUCCESS,
             emit me (Ev_mem_protect_chk base len) s)
     }
   }"

subsection \<open>The SMC handler\<close>

text \<open>How a call with an \<^verbatim>\<open>int\<close> result, or with a register, ends.\<close>

definition ret_int :: "(int \<times> psci_state) option \<Rightarrow> (u64 outcome \<times> psci_state) option" where
  "ret_int r = map_option (\<lambda>(rc, s). (Returned (word_of_int rc), s)) r"

definition ret_reg :: "(u64 \<times> psci_state) option \<Rightarrow> (u64 outcome \<times> psci_state) option" where
  "ret_reg r = map_option (\<lambda>(v, s). (Returned v, s)) r"

definition ret_oc :: "(int outcome \<times> psci_state) option \<Rightarrow> (u64 outcome \<times> psci_state) option" where
  "ret_oc r = map_option (\<lambda>(oc, s). (map_outcome word_of_int oc, s)) r"

definition no_ret :: "psci_state option \<Rightarrow> (u64 outcome \<times> psci_state) option" where
  "no_ret r = map_option (\<lambda>s. (No_Return, s)) r"

definition psci_smc32 ::
  "(psci_state \<Rightarrow> psci_state) \<Rightarrow> psci_env \<Rightarrow> nat \<Rightarrow> u32 \<Rightarrow> u64 \<Rightarrow> u64 \<Rightarrow> u64 \<Rightarrow> psci_state
     \<Rightarrow> (u64 outcome \<times> psci_state) option" where
  "psci_smc32 others e me smc_fid x1 x2 x3 s =
     (let r1 = ucast x1 :: u32; r2 = ucast x2 :: u32; r3 = ucast x3 :: u32 in
      if smc_fid = PSCI_VERSION then Some (Returned (ucast psci_version), s)
      else if smc_fid = PSCI_CPU_OFF then ret_oc (psci_cpu_off e me s)
      else if smc_fid = PSCI_CPU_SUSPEND_AARCH32
      then ret_oc (psci_cpu_suspend others e me r1 (ucast r2) (ucast r3) s)
      else if smc_fid = PSCI_CPU_ON_AARCH32
      then ret_int (psci_cpu_on e me (ucast r1) (ucast r2) (ucast r3) s)
      else if smc_fid = PSCI_AFFINITY_INFO_AARCH32
      then ret_int (map_option (\<lambda>a. (a, s)) (psci_affinity_info e (ucast r1) r2 s))
      else if smc_fid = PSCI_MIG_AARCH32 then ret_int (psci_migrate e me (ucast r1) s)
      else if smc_fid = PSCI_MIG_INFO_TYPE then ret_int (psci_migrate_info_type me s)
      else if smc_fid = PSCI_MIG_INFO_UP_CPU_AARCH32 then ret_reg (psci_migrate_info_up_cpu me s)
      else if smc_fid = PSCI_NODE_HW_STATE_AARCH32
      then ret_int (psci_node_hw_state e me (ucast r1) r2 s)
      else if smc_fid = PSCI_SYSTEM_SUSPEND_AARCH32
      then ret_oc (psci_system_suspend others e me (ucast r1) (ucast r2) s)
      else if smc_fid = PSCI_SYSTEM_OFF then no_ret (psci_system_off me s)
      else if smc_fid = PSCI_SYSTEM_RESET then no_ret (psci_system_reset me s)
      else if smc_fid = PSCI_FEATURES then ret_int (Some (psci_features e r1 s, s))
      else if ENABLE_PSCI_STAT e \<and> smc_fid = PSCI_STAT_RESIDENCY_AARCH32
      then ret_reg (psci_stat_residency e me (ucast r1) r2 s)
      else if ENABLE_PSCI_STAT e \<and> smc_fid = PSCI_STAT_COUNT_AARCH32
      then ret_reg (psci_stat_count e me (ucast r1) r2 s)
      else if smc_fid = PSCI_MEM_PROTECT then ret_reg (psci_mem_protect me r1 s)
      else if smc_fid = PSCI_MEM_CHK_RANGE_AARCH32
      then ret_reg (psci_mem_chk_range me (ucast r1) (ucast r2) s)
      else if smc_fid = PSCI_SYSTEM_RESET2_AARCH32
      then ret_reg (psci_system_reset2 me r1 (ucast r2) s)
      else Some (Returned SMC_UNK, s))"

definition psci_smc64 ::
  "(psci_state \<Rightarrow> psci_state) \<Rightarrow> psci_env \<Rightarrow> nat \<Rightarrow> u32 \<Rightarrow> u64 \<Rightarrow> u64 \<Rightarrow> u64 \<Rightarrow> psci_state
     \<Rightarrow> (u64 outcome \<times> psci_state) option" where
  "psci_smc64 others e me smc_fid x1 x2 x3 s =
     (if smc_fid = PSCI_CPU_SUSPEND_AARCH64
      then ret_oc (psci_cpu_suspend others e me (ucast x1) x2 x3 s)
      else if smc_fid = PSCI_CPU_ON_AARCH64 then ret_int (psci_cpu_on e me x1 x2 x3 s)
      else if smc_fid = PSCI_AFFINITY_INFO_AARCH64
      then ret_int (map_option (\<lambda>a. (a, s)) (psci_affinity_info e x1 (ucast x2) s))
      else if smc_fid = PSCI_MIG_AARCH64 then ret_int (psci_migrate e me x1 s)
      else if smc_fid = PSCI_MIG_INFO_UP_CPU_AARCH64 then ret_reg (psci_migrate_info_up_cpu me s)
      else if smc_fid = PSCI_NODE_HW_STATE_AARCH64
      then ret_int (psci_node_hw_state e me x1 (ucast x2) s)
      else if smc_fid = PSCI_SYSTEM_SUSPEND_AARCH64
      then ret_oc (psci_system_suspend others e me x1 x2 s)
      else if ENABLE_PSCI_STAT e \<and> smc_fid = PSCI_STAT_RESIDENCY_AARCH64
      then ret_reg (psci_stat_residency e me x1 (ucast x2) s)
      else if ENABLE_PSCI_STAT e \<and> smc_fid = PSCI_STAT_COUNT_AARCH64
      then ret_reg (psci_stat_count e me x1 (ucast x2) s)
      else if smc_fid = PSCI_MEM_CHK_RANGE_AARCH64 then ret_reg (psci_mem_chk_range me x1 x2 s)
      else if smc_fid = PSCI_SYSTEM_RESET2_AARCH64
      then ret_reg (psci_system_reset2 me (ucast x1) x2 s)
      else Some (Returned SMC_UNK, s))"

definition psci_smc_handler ::
  "(psci_state \<Rightarrow> psci_state) \<Rightarrow> psci_env \<Rightarrow> nat \<Rightarrow> u32 \<Rightarrow> u64 \<Rightarrow> u64 \<Rightarrow> u64 \<Rightarrow> u64
     \<Rightarrow> psci_state \<Rightarrow> (u64 outcome \<times> psci_state) option" where
  "psci_smc_handler others e me smc_fid x1 x2 x3 flags s =
     (if is_caller_secure flags then Some (Returned SMC_UNK, s)
      else if psci_caps s AND define_psci_cap smc_fid = 0 then Some (Returned SMC_UNK, s)
      else if GET_SMC_CC smc_fid = SMC_32
      then psci_smc32 others e me smc_fid x1 x2 x3 s
      else psci_smc64 others e me smc_fid x1 x2 x3 s)"

end
