(* ===== verification/PSCI_Setup.thy ===== *)
theory PSCI_Setup
  imports PSCI_Main
begin

section \<open>PSCI: setup of the library\<close>

text \<open>
  \<^verbatim>\<open>lib/psci/psci_setup.c\<close>: the power domain tree built from the platform's breadth-first
  description, the CPU ranges of its nodes, and the capabilities derived from the hooks.
\<close>

unbundle bit_operations_syntax

subsection \<open>The power domain tree\<close>

text \<open>
  \<open>node_idx\<close> and \<open>level\<close> are \<^verbatim>\<open>unsigned char\<close>; the parent of a root is \<^verbatim>\<open>(unsigned int) -1\<close>.
\<close>

definition psci_init_pwr_domain_node ::
  "psci_env \<Rightarrow> nat \<Rightarrow> nat \<Rightarrow> u32 \<Rightarrow> nat \<Rightarrow> psci_state \<Rightarrow> psci_state option" where
  "psci_init_pwr_domain_node e me node_idx parent_idx level s =
     (if level > PSCI_CPU_PWR_LVL
      then do {
        nd \<leftarrow> aread (psci_non_cpu_pd_nodes s) node_idx;
        Some (s\<lparr>psci_non_cpu_pd_nodes := (psci_non_cpu_pd_nodes s)
                  [node_idx := nd\<lparr>nd_level := level, lock_index := node_idx,
                                  nd_parent_node := parent_idx,
                                  nd_local_state := PLAT_MAX_OFF_STATE e\<rparr>]\<rparr>)
      }
      else do {
        cn \<leftarrow> aread (psci_cpu_pd_nodes s) node_idx;
        cd \<leftarrow> aread (psci_svc_cpu_data s) node_idx;
        let s = s\<lparr>psci_cpu_pd_nodes := (psci_cpu_pd_nodes s)
                    [node_idx := cn\<lparr>cpu_parent_node := parent_idx,
                                    cpu_mpidr := PSCI_INVALID_MPIDR\<rparr>],
                  psci_svc_cpu_data := (psci_svc_cpu_data s)
                    [node_idx := cd\<lparr>aff_info_state_f := AFF_STATE_OFF,
                                    target_pwrlvl := PSCI_INVALID_PWR_LVL e,
                                    cpu_local_state := PLAT_MAX_OFF_STATE e\<rparr>]\<rparr>;
        Some (emit me (Ev_cm_set_context node_idx) s)
      })"

fun init_children ::
  "psci_env \<Rightarrow> nat \<Rightarrow> nat list \<Rightarrow> u32 \<Rightarrow> nat \<Rightarrow> psci_state \<Rightarrow> psci_state option" where
  "init_children e me [] parent_idx level s = Some s"
| "init_children e me (j # js) parent_idx level s = do {
     s \<leftarrow> psci_init_pwr_domain_node e me (j mod 256) parent_idx level s;
     init_children e me js parent_idx level s
   }"

text \<open>
  The loop over the \<open>n\<close> entries of one level: the state is the first free node, the number of
  nodes found for the next level and the index of the next entry of the description.
\<close>

fun populate_level ::
  "psci_env \<Rightarrow> nat \<Rightarrow> nat list \<Rightarrow> nat \<Rightarrow> nat \<Rightarrow> nat \<Rightarrow> nat \<Rightarrow> nat \<Rightarrow> psci_state
     \<Rightarrow> (nat \<times> nat \<times> nat \<times> psci_state) option" where
  "populate_level e me topology level 0 node_index next parent_node_index s =
     Some (node_index, next, parent_node_index, s)"
| "populate_level e me topology level (Suc n) node_index next parent_node_index s = do {
     assert_c (parent_node_index \<le> PSCI_NUM_NON_CPU_PWR_DOMAINS e);
     num_children \<leftarrow> aread topology parent_node_index;
     let parent_idx = (of_nat parent_node_index - 1 :: u32);
     s \<leftarrow> init_children e me [node_index..<node_index + num_children] parent_idx level s;
     populate_level e me topology level n (node_index + num_children) (next + num_children)
       (parent_node_index + 1) s
   }"

text \<open>
  The loop over the levels, downwards; \<open>lv\<close> is one more than the current level. It returns the
  value of \<open>j\<close> that the sanity check of the C function inspects.
\<close>

fun populate_levels ::
  "psci_env \<Rightarrow> nat \<Rightarrow> nat list \<Rightarrow> nat \<Rightarrow> nat \<Rightarrow> nat \<Rightarrow> nat \<Rightarrow> nat \<Rightarrow> psci_state
     \<Rightarrow> (nat \<times> psci_state) option" where
  "populate_levels e me topology 0 num_nodes node_index parent_node_index j s = Some (j, s)"
| "populate_levels e me topology (Suc level) num_nodes node_index parent_node_index j s = do {
     (j', next, parent_node_index, s) \<leftarrow>
       populate_level e me topology level num_nodes node_index 0 parent_node_index s;
     let node_index = (if level = PSCI_CPU_PWR_LVL + 1 then 0 else j');
     populate_levels e me topology level next node_index parent_node_index
       (if num_nodes = 0 then j else j') s
   }"

definition populate_power_domain_tree ::
  "psci_env \<Rightarrow> nat \<Rightarrow> nat list \<Rightarrow> psci_state \<Rightarrow> psci_state option" where
  "populate_power_domain_tree e me topology s = do {
     (j, s) \<leftarrow> populate_levels e me topology (Suc (PLAT_MAX_PWR_LVL e)) 1 0 0 0 s;
     assert_c (j = PLATFORM_CORE_COUNT e);
     Some s
   }"

subsection \<open>CPU ranges of the nodes\<close>

text \<open>One CPU: the levels downwards; \<open>j\<close> counts the levels that are left.\<close>

fun update_limits_cpu ::
  "nat \<Rightarrow> nat \<Rightarrow> u32 list \<Rightarrow> u32 list \<Rightarrow> psci_state \<Rightarrow> (u32 list \<times> psci_state) option" where
  "update_limits_cpu cpu_idx 0 temp_index nodes_idx s = Some (nodes_idx, s)"
| "update_limits_cpu cpu_idx (Suc j) temp_index nodes_idx s = do {
     t \<leftarrow> aread temp_index j;
     old \<leftarrow> aread nodes_idx j;
     nd \<leftarrow> aread (psci_non_cpu_pd_nodes s) (unat t);
     let nd = (if t \<noteq> old then nd\<lparr>cpu_start_idx := cpu_idx\<rparr> else nd);
     let s = s\<lparr>psci_non_cpu_pd_nodes := (psci_non_cpu_pd_nodes s)[unat t := nd\<lparr>ncpus := ncpus nd + 1\<rparr>]\<rparr>;
     update_limits_cpu cpu_idx j temp_index (nodes_idx[j := t]) s
   }"

fun update_limits ::
  "psci_env \<Rightarrow> nat list \<Rightarrow> u32 list \<Rightarrow> psci_state \<Rightarrow> psci_state option" where
  "update_limits e [] nodes_idx s = Some s"
| "update_limits e (cpu_idx # rest) nodes_idx s = do {
     temp_index \<leftarrow> psci_get_parent_pwr_domain_nodes cpu_idx (PLAT_MAX_PWR_LVL e) s;
     (nodes_idx, s) \<leftarrow> update_limits_cpu cpu_idx (PLAT_MAX_PWR_LVL e) temp_index nodes_idx s;
     update_limits e rest nodes_idx s
   }"

definition psci_update_pwrlvl_limits :: "psci_env \<Rightarrow> psci_state \<Rightarrow> psci_state option" where
  "psci_update_pwrlvl_limits e s =
     update_limits e [0..<PLATFORM_CORE_COUNT e] (replicate (PLAT_MAX_PWR_LVL e) 0) s"

subsection \<open>Capabilities and setup\<close>

definition PSCI_GENERIC_CAP :: u32 where
  "PSCI_GENERIC_CAP = define_psci_cap PSCI_VERSION OR define_psci_cap PSCI_AFFINITY_INFO_AARCH64
     OR define_psci_cap PSCI_FEATURES"

definition cap_if :: "bool \<Rightarrow> u32 \<Rightarrow> u32" where
  "cap_if b fid = (if b then define_psci_cap fid else 0)"

definition psci_init_caps :: "psci_env \<Rightarrow> plat_psci_ops \<Rightarrow> u32" where
  "psci_init_caps e ops =
     PSCI_GENERIC_CAP
     OR cap_if (pwr_domain_off ops) PSCI_CPU_OFF
     OR cap_if (pwr_domain_on ops \<noteq> None \<and> pwr_domain_on_finish ops) PSCI_CPU_ON_AARCH32
     OR cap_if (pwr_domain_suspend ops \<and> pwr_domain_suspend_finish ops) PSCI_CPU_SUSPEND_AARCH32
     OR cap_if (pwr_domain_suspend ops \<and> pwr_domain_suspend_finish ops
                \<and> get_sys_suspend_power_state ops \<noteq> None) PSCI_SYSTEM_SUSPEND_AARCH32
     OR cap_if (system_off ops) PSCI_SYSTEM_OFF
     OR cap_if (system_reset ops) PSCI_SYSTEM_RESET
     OR cap_if (get_node_hw_state ops \<noteq> None) PSCI_NODE_HW_STATE_AARCH32
     OR cap_if (read_mem_protect ops \<noteq> None \<and> write_mem_protect ops \<noteq> None) PSCI_MEM_PROTECT
     OR cap_if (mem_protect_chk ops \<noteq> None) PSCI_MEM_CHK_RANGE_AARCH32
     OR cap_if (system_reset2 ops \<noteq> None) PSCI_SYSTEM_RESET2_AARCH32
     OR cap_if (ENABLE_PSCI_STAT e) PSCI_STAT_RESIDENCY_AARCH32
     OR cap_if (ENABLE_PSCI_STAT e) PSCI_STAT_COUNT_AARCH32"

definition psci_setup :: "psci_env \<Rightarrow> nat \<Rightarrow> psci_state \<Rightarrow> psci_state option" where
  "psci_setup e me s = do {
     let s = emit me Ev_psci_arch_setup s;
     s \<leftarrow> populate_power_domain_tree e me (plat_get_power_domain_tree_desc e) s;
     s \<leftarrow> psci_update_pwrlvl_limits e s;
     cn \<leftarrow> aread (psci_cpu_pd_nodes s) me;
     let s = s\<lparr>psci_cpu_pd_nodes := (psci_cpu_pd_nodes s)
                 [me := cn\<lparr>cpu_mpidr := read_mpidr e me AND MPIDR_AFFINITY_MASK\<rparr>]\<rparr>;
     let s = psci_init_req_local_pwr_states e s;
     s \<leftarrow> psci_set_pwr_domains_to_run me (PLAT_MAX_PWR_LVL e) s;
     let ops = plat_setup_psci_ops e;
     let s = emit me Ev_program_mailbox (s\<lparr>psci_plat_pm_ops := Some ops\<rparr>);
     Some (s\<lparr>psci_caps := psci_init_caps e ops\<rparr>)
   }"

text \<open>The library's data as the C runtime leaves it: zero, or the static initialisers.\<close>

definition psci_cold_state :: "psci_env \<Rightarrow> psci_state" where
  "psci_cold_state e =
     \<lparr>psci_req_local_pwr_states =
        replicate (PLAT_MAX_PWR_LVL e) (replicate (PLATFORM_CORE_COUNT e) 0),
      psci_non_cpu_pd_nodes = replicate (PSCI_NUM_NON_CPU_PWR_DOMAINS e)
        \<lparr>cpu_start_idx = 0, ncpus = 0, nd_parent_node = 0, nd_local_state = 0, nd_level = 0,
         lock_index = 0\<rparr>,
      psci_cpu_pd_nodes = replicate (PLATFORM_CORE_COUNT e)
        \<lparr>cpu_mpidr = 0, cpu_parent_node = 0\<rparr>,
      psci_svc_cpu_data = replicate (PLATFORM_CORE_COUNT e)
        \<lparr>aff_info_state_f = AFF_STATE_ON, target_pwrlvl = 0, cpu_local_state = 0\<rparr>,
      psci_plat_pm_ops = None, psci_spd_pm = None, psci_caps = 0,
      last_cpu_in_non_cpu_pd = replicate (PSCI_NUM_NON_CPU_PWR_DOMAINS e) (-1),
      psci_cpu_stat = replicate (PLATFORM_CORE_COUNT e)
        (replicate (PLAT_MAX_PWR_LVL_STATES e) \<lparr>residency = 0, stat_count = 0\<rparr>),
      psci_non_cpu_stat = replicate (PSCI_NUM_NON_CPU_PWR_DOMAINS e)
        (replicate (PLAT_MAX_PWR_LVL_STATES e) \<lparr>residency = 0, stat_count = 0\<rparr>),
      ts_enter_low_pwr = replicate (PLATFORM_CORE_COUNT e) 0,
      ts_exit_low_pwr = replicate (PLATFORM_CORE_COUNT e) 0,
      psci_log = []\<rparr>"

end
