(* ===== verification/PSCI_Tree.thy ===== *)
theory PSCI_Tree
  imports PSCI_Common
begin

section \<open>The power domain tree\<close>

text \<open>
  The tree that the arrays of nodes of \<^verbatim>\<open>lib/psci/psci_common.c\<close> describe: the ancestors of a CPU, the
  states of nodes and the requests of CPUs as functions of the state, and what a well-formed tree
  is. The loops of state coordination are shown to compute the negotiation of the requests of each
  ancestor. The locale \<open>pwr_coordinator\<close> is the contract of \<^verbatim>\<open>plat_get_target_pwr_state()\<close>; the
  default function of \<^verbatim>\<open>plat/common/plat_psci_common.c\<close> provides it.
\<close>

fun node_up :: "u32 list \<Rightarrow> u32 \<Rightarrow> nat \<Rightarrow> u32" where
  "node_up parents p 0 = p"
| "node_up parents p (Suc k) = node_up parents (parents ! unat p) k"

definition parents :: "psci_state \<Rightarrow> u32 list" where
  "parents s = map nd_parent_node (psci_non_cpu_pd_nodes s)"

definition cpu_parent :: "psci_state \<Rightarrow> nat \<Rightarrow> u32" where
  "cpu_parent s i = map cpu_parent_node (psci_cpu_pd_nodes s) ! i"

definition anc :: "psci_state \<Rightarrow> nat \<Rightarrow> nat \<Rightarrow> nat" where
  "anc s i l = unat (node_up (parents s) (cpu_parent s i) (l - 1))"

definition node_state :: "psci_state \<Rightarrow> nat \<Rightarrow> plat_local_state" where
  "node_state s q = nd_local_state (psci_non_cpu_pd_nodes s ! q)"

definition req_state :: "psci_state \<Rightarrow> nat \<Rightarrow> nat \<Rightarrow> plat_local_state" where
  "req_state s l i = psci_req_local_pwr_states s ! (l - 1) ! i"

definition aff :: "psci_state \<Rightarrow> nat \<Rightarrow> aff_info_state" where
  "aff s i = aff_info_state_f (psci_svc_cpu_data s ! i)"

definition cpu_state :: "psci_state \<Rightarrow> nat \<Rightarrow> plat_local_state" where
  "cpu_state s i = cpu_local_state (psci_svc_cpu_data s ! i)"

definition suspend_lvl :: "psci_state \<Rightarrow> nat \<Rightarrow> nat" where
  "suspend_lvl s i = target_pwrlvl (psci_svc_cpu_data s ! i)"

definition domain_ok :: "psci_env \<Rightarrow> psci_state \<Rightarrow> nat \<Rightarrow> nat \<Rightarrow> bool" where
  "domain_ok e s i l \<longleftrightarrow>
     (let q = anc s i l; nd = psci_non_cpu_pd_nodes s ! q in
      q < length (psci_non_cpu_pd_nodes s) \<and> nd_level nd = l \<and>
      cpu_start_idx nd \<le> i \<and> i < cpu_start_idx nd + ncpus nd \<and>
      cpu_start_idx nd + ncpus nd \<le> PLATFORM_CORE_COUNT e \<and>
      (\<forall>j<PLATFORM_CORE_COUNT e.
         (cpu_start_idx nd \<le> j \<and> j < cpu_start_idx nd + ncpus nd) = (anc s j l = q)))"

definition wf_tree :: "psci_env \<Rightarrow> psci_state \<Rightarrow> bool" where
  "wf_tree e s \<longleftrightarrow>
     length (psci_cpu_pd_nodes s) = PLATFORM_CORE_COUNT e \<and>
     length (psci_svc_cpu_data s) = PLATFORM_CORE_COUNT e \<and>
     length (psci_req_local_pwr_states s) = PLAT_MAX_PWR_LVL e \<and>
     (\<forall>l<PLAT_MAX_PWR_LVL e. length (psci_req_local_pwr_states s ! l) = PLATFORM_CORE_COUNT e) \<and>
     (\<forall>i<PLATFORM_CORE_COUNT e. \<forall>l<PLAT_MAX_PWR_LVL e. domain_ok e s i (Suc l))"

subsection \<open>Shape\<close>

definition node_shape :: "non_cpu_pd_node \<Rightarrow> nat \<times> nat \<times> u32 \<times> nat \<times> nat" where
  "node_shape nd = (cpu_start_idx nd, ncpus nd, nd_parent_node nd, nd_level nd, lock_index nd)"

definition shape ::
  "psci_state \<Rightarrow> (nat \<times> nat \<times> u32 \<times> nat \<times> nat) list \<times> u32 list \<times> nat \<times> nat list" where
  "shape s = (map node_shape (psci_non_cpu_pd_nodes s), map cpu_parent_node (psci_cpu_pd_nodes s),
     length (psci_svc_cpu_data s), map length (psci_req_local_pwr_states s))"

lemma parents_shape: "parents s = map (\<lambda>(_, _, p, _). p) (fst (shape s))"
  by (simp add: parents_def shape_def node_shape_def)

lemma anc_shape: "shape s' = shape s \<Longrightarrow> anc s' = anc s"
  by (intro ext) (simp add: anc_def parents_shape cpu_parent_def, simp add: shape_def)

lemma wf_tree_shape:
  assumes "shape s' = shape s"
  shows "wf_tree e s' = wf_tree e s"
proof -
  have len: "length (psci_non_cpu_pd_nodes s') = length (psci_non_cpu_pd_nodes s)"
    "length (psci_cpu_pd_nodes s') = length (psci_cpu_pd_nodes s)"
    "length (psci_svc_cpu_data s') = length (psci_svc_cpu_data s)"
    "length (psci_req_local_pwr_states s') = length (psci_req_local_pwr_states s)"
    using assms unfolding shape_def by (auto dest: map_eq_imp_length_eq)
  have row: "length (psci_req_local_pwr_states s' ! l) = length (psci_req_local_pwr_states s ! l)"
    if "l < length (psci_req_local_pwr_states s)" for l
    using assms len that unfolding shape_def by (metis nth_map prod.inject)
  have nd: "node_shape (psci_non_cpu_pd_nodes s' ! q) = node_shape (psci_non_cpu_pd_nodes s ! q)"
    if "q < length (psci_non_cpu_pd_nodes s)" for q
    using assms len that unfolding shape_def by (metis nth_map prod.inject)
  have "domain_ok e s' i l = domain_ok e s i l" for i l
    using nd[of "anc s i l"] len
    by (auto simp: domain_ok_def Let_def anc_shape[OF assms] node_shape_def)
  then show ?thesis using len row by (auto simp: wf_tree_def)
qed

subsection \<open>Bulk updates\<close>

definition put_states ::
  "non_cpu_pd_node list \<Rightarrow> (nat \<times> plat_local_state) list \<Rightarrow> non_cpu_pd_node list" where
  "put_states nds qs = fold (\<lambda>(q, v) nds. nds[q := (nds ! q)\<lparr>nd_local_state := v\<rparr>]) qs nds"

lemma put_states_simps [simp]:
  "put_states nds [] = nds"
  "put_states nds ((q, v) # qs) = put_states (nds[q := (nds ! q)\<lparr>nd_local_state := v\<rparr>]) qs"
  by (simp_all add: put_states_def)

lemma map_upd_same: "f x = f (nds ! q) \<Longrightarrow> map f (nds[q := x]) = map f nds"
  by (metis list_update_id map_update)

lemma node_shape_upd [simp]: "node_shape (nd\<lparr>nd_local_state := v\<rparr>) = node_shape nd"
  by (simp add: node_shape_def)

lemma length_put_states [simp]: "length (put_states nds qs) = length nds"
  by (induction qs arbitrary: nds) auto

lemma map_node_shape_put [simp]: "map node_shape (put_states nds qs) = map node_shape nds"
  by (induction qs arbitrary: nds) (auto simp: map_upd_same)

lemma put_states_other: "q \<notin> fst ` set qs \<Longrightarrow> put_states nds qs ! q = nds ! q"
  by (induction qs arbitrary: nds) auto

lemma put_states_hit:
  "distinct (map fst qs) \<Longrightarrow> (q, v) \<in> set qs \<Longrightarrow> q < length nds \<Longrightarrow>
   nd_local_state (put_states nds qs ! q) = v"
proof (induction qs arbitrary: nds)
  case (Cons a qs)
  obtain q' v' where a: "a = (q', v')" by force
  show ?case
  proof (cases "(q, v) = a")
    case True
    with Cons.prems a have "q \<notin> fst ` set qs" by auto
    with True a Cons.prems show ?thesis by (simp add: put_states_other)
  next
    case False
    with Cons.prems a show ?thesis using Cons.IH by (auto simp: image_iff)
  qed
qed simp

fun put_reqs ::
  "plat_local_state list list \<Rightarrow> nat \<Rightarrow> nat \<Rightarrow> plat_local_state list \<Rightarrow> plat_local_state list list" where
  "put_reqs rq lvl i [] = rq"
| "put_reqs rq lvl i (v # vs) = put_reqs (rq[lvl - 1 := (rq ! (lvl - 1))[i := v]]) (Suc lvl) i vs"

lemma map_length_put_reqs [simp]: "map length (put_reqs rq lvl i vs) = map length rq"
  by (induction rq lvl i vs rule: put_reqs.induct) (auto simp: map_upd_same)

lemma length_put_reqs [simp]: "length (put_reqs rq lvl i vs) = length rq"
  by (induction rq lvl i vs rule: put_reqs.induct) auto

lemma put_reqs_nth:
  "0 < lvl \<Longrightarrow> lvl + length vs \<le> Suc (length rq) \<Longrightarrow> 
   (\<And>l. l < length rq \<Longrightarrow> i < length (rq ! l)) \<Longrightarrow> 0 < l \<Longrightarrow> l \<le> length rq \<Longrightarrow>
   put_reqs rq lvl i vs ! (l - 1) ! j =
     (if lvl \<le> l \<and> l < lvl + length vs \<and> j = i then vs ! (l - lvl) else rq ! (l - 1) ! j)"
proof (induction rq lvl i vs rule: put_reqs.induct)
  case (2 rq lvl i v vs)
  let ?rq = "rq[lvl - 1 := (rq ! (lvl - 1))[i := v]]"
  have "put_reqs ?rq (Suc lvl) i vs ! (l - 1) ! j =
     (if Suc lvl \<le> l \<and> l < Suc lvl + length vs \<and> j = i then vs ! (l - Suc lvl) else ?rq ! (l - 1) ! j)"
    using 2 by (intro "2.IH") (auto simp: nth_list_update)
  moreover have "(v # vs) ! (l - lvl) = vs ! (l - Suc lvl)" if "lvl < l"
    using that by (simp add: nth_Cons')
  moreover have "?rq ! (l - 1) ! j = (if l = lvl \<and> j = i then v else rq ! (l - 1) ! j)"
    using 2(2-) by (cases "l = lvl") (auto simp: nth_list_update)
  ultimately show ?case using 2(2) by (cases "l = lvl") auto
qed auto


subsection \<open>Closed forms of the loops\<close>

definition path :: "u32 list \<Rightarrow> u32 \<Rightarrow> nat \<Rightarrow> nat list" where
  "path ps p n = map (\<lambda>k. unat (node_up ps p k)) [0..<n]"

lemma path_simps [simp]:
  "path ps p 0 = []" "path ps p (Suc n) = unat p # path ps (ps ! unat p) n"
  by (simp_all add: path_def upt_conv_Cons map_Suc_upt[symmetric] o_def del: upt_Suc)

lemma length_path [simp]: "length (path ps p n) = n"
  by (simp add: path_def)

abbreviation (input) path_ok :: "psci_state \<Rightarrow> u32 \<Rightarrow> nat \<Rightarrow> bool" where
  "path_ok s p n \<equiv> \<forall>q\<in>set (path (parents s) p n). q < length (psci_non_cpu_pd_nodes s)"

lemma parents_nth [simp]:
  "q < length (psci_non_cpu_pd_nodes s) \<Longrightarrow>
   parents s ! q = nd_parent_node (psci_non_cpu_pd_nodes s ! q)"
  by (simp add: parents_def)

lemma parents_upd [simp]:
  "nd_parent_node x = nd_parent_node (psci_non_cpu_pd_nodes s ! q) \<Longrightarrow>
   parents (s\<lparr>psci_non_cpu_pd_nodes := (psci_non_cpu_pd_nodes s)[q := x]\<rparr>) = parents s"
  by (simp add: parents_def map_upd_same)

lemma parents_frame [simp]:
  "parents (s\<lparr>psci_req_local_pwr_states := rq\<rparr>) = parents s"
  "parents (s\<lparr>psci_svc_cpu_data := d\<rparr>) = parents s"
  "parents (s\<lparr>psci_log := x\<rparr>) = parents s"
  "parents (emit me ev s) = parents s"
  by (simp_all add: parents_def emit_def)

lemma psci_set_target_loop_eq:
  "path_ok s p n \<Longrightarrow> lvl + n \<le> length info \<Longrightarrow>
   psci_set_target_loop n lvl p info s =
     Some (s\<lparr>psci_non_cpu_pd_nodes := put_states (psci_non_cpu_pd_nodes s)
                (zip (path (parents s) p n) (drop lvl info))\<rparr>)"
proof (induction n arbitrary: lvl p s)
  case (Suc n)
  then show ?case
    by (simp add: set_non_cpu_pd_node_local_state_def Cons_nth_drop_Suc[symmetric])
qed simp

lemma psci_parent_nodes_loop_eq:
  "path_ok s p n \<Longrightarrow>
   psci_parent_nodes_loop n p s = Some (map (node_up (parents s) p) [0..<n])"
  by (induction n arbitrary: p)
     (simp_all add: upt_conv_Cons map_Suc_upt[symmetric] o_def del: upt_Suc)

definition reqs_ok :: "plat_local_state list list \<Rightarrow> nat \<Rightarrow> nat \<Rightarrow> nat \<Rightarrow> bool" where
  "reqs_ok rq i lvl n \<longleftrightarrow> 0 < lvl \<and> lvl + n \<le> Suc (length rq) \<and> (\<forall>row\<in>set rq. i < length row)"

lemma psci_set_req_eq:
  "reqs_ok (psci_req_local_pwr_states s) i lvl (Suc n) \<Longrightarrow>
   psci_set_req_local_pwr_state lvl i v s =
     Some (s\<lparr>psci_req_local_pwr_states := (psci_req_local_pwr_states s)
              [lvl - 1 := (psci_req_local_pwr_states s ! (lvl - 1))[i := v]]\<rparr>)"
  by (auto simp: reqs_ok_def psci_set_req_local_pwr_state_def PSCI_CPU_PWR_LVL_def)

lemma set_upd_length:
  assumes "\<forall>row\<in>set rq. i < length row" "k < length rq"
  shows "\<forall>row\<in>set (rq[k := (rq ! k)[i := v]]). i < length row"
  using assms set_update_subset_insert[of rq k "(rq ! k)[i := v]"] by auto

lemma reqs_ok_step [simp]:
  "reqs_ok rq i lvl (Suc n) \<Longrightarrow>
   reqs_ok (rq[lvl - Suc 0 := (rq ! (lvl - Suc 0))[i := v]]) i (Suc lvl) n"
  using set_upd_length[where k = "lvl - 1" and v = v] by (auto simp: reqs_ok_def)

lemma psci_to_run_loop_eq:
  "path_ok s p n \<Longrightarrow> reqs_ok (psci_req_local_pwr_states s) i lvl n \<Longrightarrow>
   psci_to_run_loop n lvl p i s =
     Some (s\<lparr>psci_non_cpu_pd_nodes := put_states (psci_non_cpu_pd_nodes s)
                (map (\<lambda>q. (q, PSCI_LOCAL_STATE_RUN)) (path (parents s) p n)),
              psci_req_local_pwr_states := put_reqs (psci_req_local_pwr_states s) lvl i
                (replicate n PSCI_LOCAL_STATE_RUN)\<rparr>)"
proof (induction n arbitrary: lvl p s)
  case (Suc n)
  then show ?case
    by (simp add: set_non_cpu_pd_node_local_state_def psci_set_req_eq[where n = n])
qed simp

lemma psci_coord_rest_loop_eq:
  "reqs_ok (psci_req_local_pwr_states s) i lvl n \<Longrightarrow> lvl + n \<le> length info \<Longrightarrow>
   psci_coord_rest_loop i n lvl info s =
     Some (take lvl info @ replicate n PSCI_LOCAL_STATE_RUN @ drop (lvl + n) info,
           s\<lparr>psci_req_local_pwr_states := put_reqs (psci_req_local_pwr_states s) lvl i
                (take n (drop lvl info))\<rparr>)"
proof (induction n arbitrary: lvl info s)
  case (Suc n)
  have t: "take (Suc lvl) (info[lvl := v]) = take lvl info @ [v]" for v
    using Suc.prems by (simp add: take_Suc_conv_app_nth)
  show ?case using Suc.prems
    by (simp add: psci_set_req_eq[where n = n] Suc.IH t Cons_nth_drop_Suc[symmetric])
qed simp

definition coord_at ::
  "psci_env \<Rightarrow> non_cpu_pd_node list \<Rightarrow> plat_local_state list list \<Rightarrow> nat \<Rightarrow> nat \<Rightarrow> plat_local_state" where
  "coord_at e nds rq q l =
     (let nd = nds ! q in
      the (coordinate e l (take (ncpus nd) (drop (cpu_start_idx nd) (rq ! (l - 1)))) (ncpus nd)))"

fun targets ::
  "psci_env \<Rightarrow> non_cpu_pd_node list \<Rightarrow> plat_local_state list list \<Rightarrow> nat list \<Rightarrow> nat
     \<Rightarrow> plat_local_state list" where
  "targets e nds rq [] l = []"
| "targets e nds rq (q # qs) l =
     (let t = coord_at e nds rq q l in
      t # (if t = PSCI_LOCAL_STATE_RUN then replicate (length qs) PSCI_LOCAL_STATE_RUN
           else targets e nds rq qs (Suc l)))"

lemma length_targets [simp]: "length (targets e nds rq qs l) = length qs"
  by (induction qs arbitrary: l) (auto simp: Let_def)

lemma targets_nth:
  "k < length qs \<Longrightarrow> targets e nds rq qs l ! k =
     (if \<forall>m<k. coord_at e nds rq (qs ! m) (l + m) \<noteq> PSCI_LOCAL_STATE_RUN
      then coord_at e nds rq (qs ! k) (l + k) else PSCI_LOCAL_STATE_RUN)"
proof (induction qs arbitrary: k l)
  case (Cons q qs)
  show ?case
  proof (cases k)
    case (Suc k')
    have "(\<forall>m<k. coord_at e nds rq ((q # qs) ! m) (l + m) \<noteq> PSCI_LOCAL_STATE_RUN) \<longleftrightarrow>
      coord_at e nds rq q l \<noteq> PSCI_LOCAL_STATE_RUN \<and>
      (\<forall>m<k'. coord_at e nds rq (qs ! m) (Suc l + m) \<noteq> PSCI_LOCAL_STATE_RUN)"
      unfolding Suc by (subst All_less_Suc2) simp
    then show ?thesis using Cons.prems Suc Cons.IH[of k' "Suc l"] by (auto simp: Let_def)
  qed (simp add: Let_def)
qed simp

locale pwr_coordinator =
  fixes coord :: "nat \<Rightarrow> plat_local_state list \<Rightarrow> nat \<Rightarrow> plat_local_state option"
  assumes coord_total: "0 < n \<Longrightarrow> n \<le> length rs \<Longrightarrow> \<exists>t. coord l rs n = Some t"
    and run_wins: "coord l rs n = Some t \<Longrightarrow> PSCI_LOCAL_STATE_RUN \<in> set (take n rs) \<Longrightarrow>
      t = PSCI_LOCAL_STATE_RUN"

lemma put_reqs_below: "0 < lvl \<Longrightarrow> k < lvl - 1 \<Longrightarrow> put_reqs rq lvl i vs ! k = rq ! k"
  by (induction rq lvl i vs rule: put_reqs.induct) auto

definition coord_all where
  "coord_all e i n lvl p info s = do {
     (l, info, s) \<leftarrow> psci_coord_loop e i n lvl p info s;
     psci_coord_rest_loop i (lvl + n - 1 - l) (l + 1) info s }"

lemma coord_all_eq:
  assumes "pwr_coordinator (coordinate e)"
  shows "path_ok s p n \<Longrightarrow> reqs_ok (psci_req_local_pwr_states s) i lvl n \<Longrightarrow>
   lvl + n \<le> length info \<Longrightarrow>
   (\<forall>q\<in>set (path (parents s) p n). 0 < ncpus (psci_non_cpu_pd_nodes s ! q) \<and>
     (\<forall>row\<in>set (psci_req_local_pwr_states s). cpu_start_idx (psci_non_cpu_pd_nodes s ! q) + ncpus (psci_non_cpu_pd_nodes s ! q) \<le> length row)) \<Longrightarrow>
   rq' = put_reqs (psci_req_local_pwr_states s) lvl i (take n (drop lvl info)) \<Longrightarrow>
   coord_all e i n lvl p info s =
     Some (take lvl info @ targets e (psci_non_cpu_pd_nodes s) rq' (path (parents s) p n) lvl @ drop (lvl + n) info,
           s\<lparr>psci_req_local_pwr_states := rq'\<rparr>)"
proof (induction n arbitrary: lvl p s info rq')
  case 0
  then show ?case by (auto simp: coord_all_def reqs_ok_def)
next
  case (Suc n)
  let ?rq = "psci_req_local_pwr_states s" and ?q = "unat p"
  let ?row = "(?rq ! (lvl - Suc 0))[i := info ! lvl]" and ?nd = "psci_non_cpu_pd_nodes s ! ?q"
  let ?nds = "psci_non_cpu_pd_nodes s"
  let ?s1 = "s\<lparr>psci_req_local_pwr_states := ?rq[lvl - Suc 0 := ?row]\<rparr>"
  let ?sel = "take (ncpus ?nd) (drop (cpu_start_idx ?nd) ?row)"
  have lv: "0 < lvl" "lvl - Suc 0 < length ?rq" using Suc.prems(2) by (auto simp: reqs_ok_def)
  have q: "?q < length (psci_non_cpu_pd_nodes s)" using Suc.prems(1) by simp
  have rng: "0 < ncpus ?nd" "cpu_start_idx ?nd + ncpus ?nd \<le> length ?row"
    using Suc.prems(4) lv by auto
  have "ncpus ?nd \<le> length ?sel" using rng by simp
  then obtain t where t: "coordinate e lvl ?sel (ncpus ?nd) = Some t"
    using pwr_coordinator.coord_total[OF assms] rng(1) by blast
  have rq': "rq' = put_reqs (?rq[lvl - Suc 0 := ?row]) (Suc lvl) i (take n (drop (Suc lvl) info))"
    using Suc.prems(3,5) by (simp add: Cons_nth_drop_Suc[symmetric])
  have "rq' ! (lvl - Suc 0) = ?row"
    unfolding rq' using lv by (subst put_reqs_below) auto
  then have ca: "coord_at e ?nds rq' ?q lvl = t" using t by (simp add: coord_at_def Let_def)
  have get: "psci_get_req_local_pwr_states lvl (cpu_start_idx ?nd) (ncpus ?nd) ?s1 = Some ?sel"
    using lv rng by (simp add: psci_get_req_local_pwr_states_def PSCI_CPU_PWR_LVL_def)
  have ok1: "reqs_ok (psci_req_local_pwr_states ?s1) i (Suc lvl) n" using Suc.prems(2) by simp
  have tk: "take (Suc lvl) (info[lvl := t]) = take lvl info @ [t]"
    using Suc.prems(3) by (simp add: take_Suc_conv_app_nth)
  have li: "lvl < length info" using Suc.prems(3) by simp
  note step = li psci_set_req_eq[OF Suc.prems(2)] q get t Suc.prems(3) coord_all_def
  show ?case
  proof (cases "t = PSCI_LOCAL_STATE_RUN")
    case True
    then show ?thesis using Suc.prems(3) ok1 tk ca
      by (simp add: step rq' is_local_state_run_def psci_coord_rest_loop_eq)
  next
    case False
    have rows: "\<forall>q\<in>set (path (parents ?s1) (nd_parent_node ?nd) n). 0 < ncpus (psci_non_cpu_pd_nodes s ! q) \<and>
     (\<forall>row\<in>set (psci_req_local_pwr_states ?s1). cpu_start_idx (psci_non_cpu_pd_nodes s ! q) + ncpus (psci_non_cpu_pd_nodes s ! q) \<le> length row)"
      using Suc.prems(4) q lv
      by (auto dest!: subsetD[OF set_update_subset_insert])
    have "coord_all e i (Suc n) lvl p info s =
      coord_all e i n (Suc lvl) (nd_parent_node ?nd) (info[lvl := t]) ?s1"
      using False by (simp add: step is_local_state_run_def)
    also have "\<dots> = Some (take (Suc lvl) (info[lvl := t]) @
        targets e (psci_non_cpu_pd_nodes ?s1) rq' (path (parents ?s1) (nd_parent_node ?nd) n) (Suc lvl) @
        drop (Suc lvl + n) (info[lvl := t]), ?s1\<lparr>psci_req_local_pwr_states := rq'\<rparr>)"
      using Suc.prems ok1 rows rq' q by (intro Suc.IH) auto
    finally show ?thesis using False ca tk q by simp
  qed
qed

subsection \<open>Well-formed trees\<close>

lemma path_anc: "path (parents s) (cpu_parent s i) n = map (anc s i) [1..<Suc n]"
  by (simp add: path_def anc_def o_def map_Suc_upt[symmetric] del: upt_Suc)

lemma wf_tree_domain:
  "wf_tree e s \<Longrightarrow> i < PLATFORM_CORE_COUNT e \<Longrightarrow> 0 < l \<Longrightarrow> l \<le> PLAT_MAX_PWR_LVL e \<Longrightarrow> domain_ok e s i l"
  unfolding wf_tree_def by (metis Suc_diff_1 Suc_le_lessD)

lemma wf_tree_anc:
  assumes "wf_tree e s" "i < PLATFORM_CORE_COUNT e" "0 < l" "l \<le> PLAT_MAX_PWR_LVL e"
  shows "anc s i l < length (psci_non_cpu_pd_nodes s)"
    and "nd_level (psci_non_cpu_pd_nodes s ! anc s i l) = l"
  using wf_tree_domain[OF assms] by (simp_all add: domain_ok_def Let_def)

lemma wf_tree_path_ok:
  "wf_tree e s \<Longrightarrow> i < PLATFORM_CORE_COUNT e \<Longrightarrow> n \<le> PLAT_MAX_PWR_LVL e \<Longrightarrow> path_ok s (cpu_parent s i) n"
  unfolding path_anc by (auto intro: wf_tree_anc(1))

lemma wf_tree_reqs_ok:
  "wf_tree e s \<Longrightarrow> i < PLATFORM_CORE_COUNT e \<Longrightarrow> n \<le> PLAT_MAX_PWR_LVL e \<Longrightarrow>
   reqs_ok (psci_req_local_pwr_states s) i 1 n"
  by (auto simp: wf_tree_def reqs_ok_def in_set_conv_nth)

lemma anc_inj_level:
  "wf_tree e s \<Longrightarrow> i < PLATFORM_CORE_COUNT e \<Longrightarrow> j < PLATFORM_CORE_COUNT e \<Longrightarrow>
   0 < l \<Longrightarrow> l \<le> PLAT_MAX_PWR_LVL e \<Longrightarrow> 0 < k \<Longrightarrow> k \<le> PLAT_MAX_PWR_LVL e \<Longrightarrow>
   anc s i l = anc s j k \<Longrightarrow> l = k"
  by (metis wf_tree_anc(2))

lemma wf_tree_distinct:
  assumes "wf_tree e s" "i < PLATFORM_CORE_COUNT e" "n \<le> PLAT_MAX_PWR_LVL e"
  shows "distinct (path (parents s) (cpu_parent s i) n)"
  using anc_inj_level[OF assms(1,2,2)] assms(3)
  by (auto simp: path_anc distinct_map intro!: inj_onI)

lemma shape_upd:
  assumes "map node_shape nds = map node_shape (psci_non_cpu_pd_nodes s)"
    "length d = length (psci_svc_cpu_data s)"
    "map length rq = map length (psci_req_local_pwr_states s)"
  shows "shape (s\<lparr>psci_non_cpu_pd_nodes := nds, psci_req_local_pwr_states := rq,
           psci_svc_cpu_data := d\<rparr>) = shape s"
  using assms by (simp add: shape_def)

text \<open>The state that the domain at level \<open>l\<close> above CPU \<open>i\<close> gets from the recorded requests.\<close>

definition domain_vote :: "psci_env \<Rightarrow> psci_state \<Rightarrow> nat \<Rightarrow> nat \<Rightarrow> plat_local_state" where
  "domain_vote e s i l =
     coord_at e (psci_non_cpu_pd_nodes s) (psci_req_local_pwr_states s) (anc s i l) l"

definition negotiated :: "psci_env \<Rightarrow> psci_state \<Rightarrow> nat \<Rightarrow> nat \<Rightarrow> plat_local_state" where
  "negotiated e s i l =
     (if \<forall>k<l. 0 < k \<longrightarrow> domain_vote e s i k \<noteq> PSCI_LOCAL_STATE_RUN
      then domain_vote e s i l else PSCI_LOCAL_STATE_RUN)"

lemma wf_tree_rows:
  assumes "wf_tree e s" "i < PLATFORM_CORE_COUNT e" "n \<le> PLAT_MAX_PWR_LVL e"
  shows "\<forall>q\<in>set (path (parents s) (cpu_parent s i) n).
    0 < ncpus (psci_non_cpu_pd_nodes s ! q) \<and>
     (\<forall>row\<in>set (psci_req_local_pwr_states s).
        cpu_start_idx (psci_non_cpu_pd_nodes s ! q) + ncpus (psci_non_cpu_pd_nodes s ! q) \<le> length row)"
proof -
  have "length row = PLATFORM_CORE_COUNT e" if "row \<in> set (psci_req_local_pwr_states s)" for row
    using that assms(1) by (auto simp: wf_tree_def in_set_conv_nth)
  moreover have "0 < ncpus (psci_non_cpu_pd_nodes s ! anc s i l)"
    "cpu_start_idx (psci_non_cpu_pd_nodes s ! anc s i l) + ncpus (psci_non_cpu_pd_nodes s ! anc s i l)
      \<le> PLATFORM_CORE_COUNT e" if "0 < l" "l \<le> n" for l
    using wf_tree_domain[OF assms(1,2), of l] assms(3) that by (auto simp: domain_ok_def Let_def)
  ultimately show ?thesis by (auto simp: path_anc)
qed

lemma psci_do_state_coordination_eq:
  assumes c: "pwr_coordinator (coordinate e)" and wf: "wf_tree e s" "i < PLATFORM_CORE_COUNT e"
    and n: "n \<le> PLAT_MAX_PWR_LVL e" "length info = Suc (PLAT_MAX_PWR_LVL e)"
    and rq: "rq = put_reqs (psci_req_local_pwr_states s) 1 i (take n (drop 1 info))"
    and pth: "pth = path (parents s) (cpu_parent s i) n"
    and ts: "ts = targets e (psci_non_cpu_pd_nodes s) rq pth 1"
  shows "psci_do_state_coordination e i n info s =
    Some (info ! 0 # ts @ drop (Suc n) info,
      s\<lparr>psci_req_local_pwr_states := rq,
        psci_svc_cpu_data := (psci_svc_cpu_data s)
          [i := (psci_svc_cpu_data s ! i)\<lparr>cpu_local_state := info ! 0\<rparr>],
        psci_non_cpu_pd_nodes := put_states (psci_non_cpu_pd_nodes s) (zip pth ts)\<rparr>)"
proof -
  have len: "length (psci_cpu_pd_nodes s) = PLATFORM_CORE_COUNT e"
    "length (psci_svc_cpu_data s) = PLATFORM_CORE_COUNT e" using wf by (auto simp: wf_tree_def)
  have par: "cpu_parent_node (psci_cpu_pd_nodes s ! i) = cpu_parent s i"
    using len wf(2) by (simp add: cpu_parent_def)
  let ?info = "info ! 0 # ts @ drop (Suc n) info"
  let ?s1 = "s\<lparr>psci_req_local_pwr_states := rq\<rparr>"
  have "take 1 info = [info ! 0]" using n(2) by (cases info) auto
  then have ca: "coord_all e i n 1 (cpu_parent s i) info s = Some (?info, ?s1)"
    using coord_all_eq[OF c wf_tree_path_ok[OF wf n(1)] wf_tree_reqs_ok[OF wf n(1)] _
        wf_tree_rows[OF wf n(1)] rq] n by (simp add: ts pth)
  have "psci_do_state_coordination e i n info s =
    Option.bind (coord_all e i n 1 (cpu_parent s i) info s) (\<lambda>(info, s).
      Option.bind (psci_set_target_local_pwr_states i n info s) (\<lambda>s. Some (info, s)))"
    using n len wf(2) par
    by (simp add: psci_do_state_coordination_def coord_all_def PSCI_CPU_PWR_LVL_def
        split_def Option.bind_assoc)
  also have "\<dots> = Option.bind (psci_set_target_local_pwr_states i n ?info ?s1) (\<lambda>s. Some (?info, s))"
    unfolding ca by simp
  finally show ?thesis
    using wf len par n wf_tree_path_ok[OF wf n(1)] 
    by (simp add: psci_set_target_local_pwr_states_def PSCI_CPU_PWR_LVL_def
        psci_set_cpu_local_state_def psci_set_target_loop_eq ts pth zip_append2)
qed

definition coordinated ::
  "psci_env \<Rightarrow> nat \<Rightarrow> nat \<Rightarrow> psci_power_state \<Rightarrow> psci_state \<Rightarrow> psci_power_state \<Rightarrow> psci_state \<Rightarrow> bool" where
  "coordinated e i n info s info' s' \<longleftrightarrow>
     shape s' = shape s \<and>
     (\<forall>l j. 0 < l \<and> l \<le> PLAT_MAX_PWR_LVL e \<longrightarrow>
        req_state s' l j = (if j = i \<and> l \<le> n then info ! l else req_state s l j)) \<and>
     (\<forall>l. 0 < l \<and> l \<le> n \<longrightarrow> info' ! l = negotiated e s' i l \<and>
        node_state s' (anc s i l) = negotiated e s' i l) \<and>
     (\<forall>q. q \<notin> anc s i ` {1..n} \<longrightarrow> node_state s' q = node_state s q) \<and>
     info' ! 0 = info ! 0 \<and> (\<forall>l>n. l \<le> PLAT_MAX_PWR_LVL e \<longrightarrow> info' ! l = info ! l) \<and>
     length info' = length info \<and>
     (\<forall>j. cpu_state s' j = (if j = i then info ! 0 else cpu_state s j) \<and>
          aff s' j = aff s j \<and> suspend_lvl s' j = suspend_lvl s j)"

lemma coord_at_shape:
  assumes "map node_shape nds' = map node_shape nds" "q < length nds"
  shows "coord_at e nds' rq q l = coord_at e nds rq q l"
proof -
  have "node_shape (nds' ! q) = node_shape (nds ! q)" using assms by (metis length_map nth_map)
  then show ?thesis by (simp add: coord_at_def node_shape_def Let_def)
qed

lemma put_reqs_view:
  assumes "wf_tree e s" "i < PLATFORM_CORE_COUNT e" "length vs \<le> PLAT_MAX_PWR_LVL e"
    "0 < l" "l \<le> PLAT_MAX_PWR_LVL e"
  shows "put_reqs (psci_req_local_pwr_states s) 1 i vs ! (l - 1) ! j =
    (if l \<le> length vs \<and> j = i then vs ! (l - 1) else req_state s l j)"
  using assms by (subst put_reqs_nth) (auto simp: wf_tree_def req_state_def)

lemma state_coordination_spec:
  assumes c: "pwr_coordinator (coordinate e)" and wf: "wf_tree e s" "i < PLATFORM_CORE_COUNT e"
    and n: "n \<le> PLAT_MAX_PWR_LVL e" "length info = Suc (PLAT_MAX_PWR_LVL e)"
  obtains info' s' where "psci_do_state_coordination e i n info s = Some (info', s')"
    and "coordinated e i n info s info' s'"
    and "\<exists>rq svc nds. s' = s\<lparr>psci_req_local_pwr_states := rq, psci_svc_cpu_data := svc,
                              psci_non_cpu_pd_nodes := nds\<rparr>"
proof -
  define rq where "rq = put_reqs (psci_req_local_pwr_states s) 1 i (take n (drop 1 info))"
  define pth where "pth = path (parents s) (cpu_parent s i) n"
  define ts where "ts = targets e (psci_non_cpu_pd_nodes s) rq pth 1"
  define info' where "info' = info ! 0 # ts @ drop (Suc n) info"
  define s' where "s' = s\<lparr>psci_req_local_pwr_states := rq,
        psci_svc_cpu_data := (psci_svc_cpu_data s)
          [i := (psci_svc_cpu_data s ! i)\<lparr>cpu_local_state := info ! 0\<rparr>],
        psci_non_cpu_pd_nodes := put_states (psci_non_cpu_pd_nodes s) (zip pth ts)\<rparr>"
  have eq: "psci_do_state_coordination e i n info s = Some (info', s')"
    unfolding info'_def s'_def
    by (rule psci_do_state_coordination_eq[OF c wf n rq_def pth_def ts_def])
  have shp: "shape s' = shape s" by (simp add: s'_def shape_def rq_def)
  have pth: "pth = map (anc s i) [1..<Suc n]" by (simp add: pth_def path_anc)
  have len: "length pth = n" "length ts = n" by (simp_all add: pth ts_def)
  have vote: "coord_at e (psci_non_cpu_pd_nodes s) rq (pth ! k) (1 + k) = domain_vote e s' i (Suc k)"
    if "k < n" for k
  proof -
    have "anc s i (Suc k) < length (psci_non_cpu_pd_nodes s)"
      using wf_tree_anc(1)[OF wf] that n(1) by simp
    moreover have "pth ! k = anc s i (Suc k)" using that by (simp add: pth del: upt_Suc)
    moreover have "map node_shape (psci_non_cpu_pd_nodes s') = map node_shape (psci_non_cpu_pd_nodes s)"
      "psci_req_local_pwr_states s' = rq" by (simp_all add: s'_def)
    ultimately show ?thesis
      using coord_at_shape[of "psci_non_cpu_pd_nodes s'" "psci_non_cpu_pd_nodes s"]
      by (simp add: domain_vote_def anc_shape[OF shp])
  qed
  have neg: "ts ! k = negotiated e s' i (Suc k)" if "k < n" for k
  proof -
    have "(\<forall>m<k. domain_vote e s' i (Suc m) \<noteq> PSCI_LOCAL_STATE_RUN) \<longleftrightarrow>
      (\<forall>m<Suc k. 0 < m \<longrightarrow> domain_vote e s' i m \<noteq> PSCI_LOCAL_STATE_RUN)"
      by (simp add: All_less_Suc2)
    then show ?thesis
      using that vote by (auto simp: ts_def targets_nth len negotiated_def)
  qed
  have nodes: "node_state s' (anc s i l) = ts ! (l - 1)" if "0 < l" "l \<le> n" for l
  proof -
    have "(anc s i l, ts ! (l - 1)) \<in> set (zip pth ts)"
      using that len by (auto simp: in_set_zip pth simp del: upt_Suc intro!: exI[of _ "l - 1"])
    then show ?thesis using wf_tree_distinct[OF wf n(1)] wf_tree_anc(1)[OF wf] that n(1) len
      by (auto simp: node_state_def s'_def pth_def intro!: put_states_hit)
  qed
  have other: "node_state s' q = node_state s q" if "q \<notin> anc s i ` {1..n}" for q
  proof -
    have "q \<notin> fst ` set (zip pth ts)"
      using that by (auto simp: pth dest!: set_zip_leftD)
    then show ?thesis by (simp add: node_state_def s'_def put_states_other)
  qed
  have "coordinated e i n info s info' s'"
    unfolding coordinated_def
  proof (intro conjI allI impI)
    fix l j assume "0 < l \<and> l \<le> PLAT_MAX_PWR_LVL e"
    then show "req_state s' l j = (if j = i \<and> l \<le> n then info ! l else req_state s l j)"
      using put_reqs_view[OF wf, of "take n (drop 1 info)" l j] n
      by (auto simp: s'_def rq_def req_state_def)
  next
    fix l assume l: "0 < l \<and> l \<le> n"
    then show "info' ! l = negotiated e s' i l" "node_state s' (anc s i l) = negotiated e s' i l"
      using neg[of "l - 1"] nodes[of l] len by (auto simp: info'_def nth_Cons' nth_append)
  next
    fix l assume "n < l" "l \<le> PLAT_MAX_PWR_LVL e"
    then show "info' ! l = info ! l" using n len by (auto simp: info'_def nth_Cons' nth_append)
  qed (use shp other n len wf in \<open>auto simp: info'_def s'_def cpu_state_def aff_def suspend_lvl_def
      wf_tree_def nth_list_update\<close>)
  then show thesis using eq that s'_def by blast
qed


definition run_restored :: "psci_env \<Rightarrow> nat \<Rightarrow> nat \<Rightarrow> psci_state \<Rightarrow> psci_state \<Rightarrow> bool" where
  "run_restored e i n s s' \<longleftrightarrow>
     shape s' = shape s \<and>
     (\<forall>l j. 0 < l \<and> l \<le> PLAT_MAX_PWR_LVL e \<longrightarrow>
        req_state s' l j = (if j = i \<and> l \<le> n then PSCI_LOCAL_STATE_RUN else req_state s l j)) \<and>
     (\<forall>q. node_state s' q =
            (if q \<in> anc s i ` {1..n} then PSCI_LOCAL_STATE_RUN else node_state s q)) \<and>
     (\<forall>j. cpu_state s' j = (if j = i then PSCI_LOCAL_STATE_RUN else cpu_state s j) \<and>
          aff s' j = (if j = i then AFF_STATE_ON else aff s j) \<and>
          suspend_lvl s' j = suspend_lvl s j)"

lemma set_pwr_domains_to_run_spec:
  assumes wf: "wf_tree e s" "i < PLATFORM_CORE_COUNT e" and n: "n \<le> PLAT_MAX_PWR_LVL e"
  obtains s' where "psci_set_pwr_domains_to_run i n s = Some s'"
    and "run_restored e i n s s'"
    and "\<exists>rq svc nds. s' = s\<lparr>psci_req_local_pwr_states := rq, psci_svc_cpu_data := svc,
                              psci_non_cpu_pd_nodes := nds\<rparr>"
proof -
  define rq where "rq = put_reqs (psci_req_local_pwr_states s) 1 i (replicate n PSCI_LOCAL_STATE_RUN)"
  define pth where "pth = path (parents s) (cpu_parent s i) n"
  define nds where "nds = put_states (psci_non_cpu_pd_nodes s) (map (\<lambda>q. (q, PSCI_LOCAL_STATE_RUN)) pth)"
  define svc where "svc = (psci_svc_cpu_data s)[i := (psci_svc_cpu_data s ! i)
    \<lparr>aff_info_state_f := AFF_STATE_ON, cpu_local_state := PSCI_LOCAL_STATE_RUN\<rparr>]"
  define s' where "s' = s\<lparr>psci_req_local_pwr_states := rq, psci_svc_cpu_data := svc,
                          psci_non_cpu_pd_nodes := nds\<rparr>"
  have len: "length (psci_cpu_pd_nodes s) = PLATFORM_CORE_COUNT e"
    "length (psci_svc_cpu_data s) = PLATFORM_CORE_COUNT e" using wf by (auto simp: wf_tree_def)
  have par: "cpu_parent_node (psci_cpu_pd_nodes s ! i) = cpu_parent s i"
    using len wf(2) by (simp add: cpu_parent_def)
  have eq: "psci_set_pwr_domains_to_run i n s = Some s'"
    using wf(2) len par psci_to_run_loop_eq[OF wf_tree_path_ok[OF wf n] wf_tree_reqs_ok[OF wf n]]
    by (simp add: psci_set_pwr_domains_to_run_def PSCI_CPU_PWR_LVL_def s'_def rq_def nds_def pth_def
        svc_def psci_set_aff_info_state_by_idx_def psci_set_cpu_local_state_def)
  have pth: "set pth = anc s i ` {1..n}"
    by (simp add: pth_def path_anc atLeastLessThanSuc_atLeastAtMost del: upt_Suc)
  have st: "node_state s' q =
      (if q \<in> set pth then PSCI_LOCAL_STATE_RUN else node_state s q)" for q
  proof (cases "q \<in> set pth")
    case True
    then show ?thesis
      using wf_tree_distinct[OF wf n] wf_tree_path_ok[OF wf n]
      by (auto simp: node_state_def s'_def nds_def pth_def o_def intro!: put_states_hit)
  next
    case False
    then have "q \<notin> fst ` set (map (\<lambda>q. (q, PSCI_LOCAL_STATE_RUN)) pth)" by auto
    with False show ?thesis by (simp add: node_state_def s'_def nds_def put_states_other)
  qed
  have rq: "req_state s' l j = (if j = i \<and> l \<le> n then PSCI_LOCAL_STATE_RUN else req_state s l j)"
    if "0 < l \<and> l \<le> PLAT_MAX_PWR_LVL e" for l j
    using put_reqs_view[OF wf, of "replicate n PSCI_LOCAL_STATE_RUN" l j] n that
    by (auto simp: s'_def rq_def req_state_def)
  have "shape s' = shape s" by (simp add: s'_def shape_def rq_def nds_def svc_def)
  then have "run_restored e i n s s'"
    using st rq len wf(2) by (simp add: run_restored_def pth s'_def svc_def cpu_state_def aff_def
        suspend_lvl_def nth_list_update)
  then show thesis using eq that s'_def by blast
qed


subsection \<open>The default coordination function\<close>

lemma plat_get_target_loop_Min:
  "plat_get_target_loop t rs = Min (insert t (set rs))"
proof (induction rs arbitrary: t)
  case (Cons r rs)
  have "(if r < t then r else t) = min t r" by (auto simp: min_def)
  then show ?case using Cons.IH by (cases "rs = []") (simp_all add: min.assoc)
qed simp

lemma plat_get_target_pwr_state_Some:
  "plat_get_target_pwr_state m l rs n = Some t \<longleftrightarrow>
   0 < n \<and> n \<le> length rs \<and> t = Min (insert m (set (take n rs)))"
  by (auto simp: plat_get_target_pwr_state_def plat_get_target_loop_Min)

interpretation min_coord: pwr_coordinator "plat_get_target_pwr_state m" for m
proof
  fix l rs n t
  assume "plat_get_target_pwr_state m l rs n = Some t" "PSCI_LOCAL_STATE_RUN \<in> set (take n rs)"
  then have "t \<le> PSCI_LOCAL_STATE_RUN"
    by (auto simp: plat_get_target_pwr_state_Some intro!: Min_le)
  then show "t = PSCI_LOCAL_STATE_RUN" by (simp add: PSCI_LOCAL_STATE_RUN_def)
qed (simp add: plat_get_target_pwr_state_Some)

end
