(* ===== verification/PSCI_Levels.thy ===== *)
theory PSCI_Levels
  imports PSCI_Common
begin

section \<open>PSCI: levels of a composite power state\<close>

text \<open>
  What the two downward searches for a level find, and a declarative form of the validation of
  a suspend request, the function \<^verbatim>\<open>psci_validate_suspend_req()\<close>.
\<close>


text \<open>The highest of the first \<open>k\<close> levels whose state satisfies \<open>P\<close>, or else \<open>d\<close>.\<close>

definition highest :: "(plat_local_state \<Rightarrow> bool) \<Rightarrow> nat \<Rightarrow> nat \<Rightarrow> psci_power_state \<Rightarrow> nat" where
  "highest P d k info = (if \<exists>l<k. P (info ! l) then Max {l. l < k \<and> P (info ! l)} else d)"

lemma highest_simps [simp]:
  "highest P d 0 info = d"
  "highest P d (Suc k) info = (if P (info ! k) then k else highest P d k info)"
proof -
  show "highest P d 0 info = d" by (simp add: highest_def)
  have "Max {l. l < Suc k \<and> P (info ! l)} = k" if "P (info ! k)"
    using that by (intro Max_eqI) auto
  moreover have "{l. l < Suc k \<and> P (info ! l)} = {l. l < k \<and> P (info ! l)}" if "\<not> P (info ! k)"
    using that by (auto simp: less_Suc_eq)
  ultimately show "highest P d (Suc k) info = (if P (info ! k) then k else highest P d k info)"
    by (auto simp: highest_def less_Suc_eq)
qed

lemma highest_cases:
  "(\<forall>l<k. \<not> P (info ! l)) \<and> highest P d k info = d \<or>
   highest P d k info < k \<and> P (info ! highest P d k info) \<and>
     (\<forall>l<k. highest P d k info < l \<longrightarrow> \<not> P (info ! l))"
  by (induction k) (auto simp: less_Suc_eq)

lemma psci_find_max_off_loop_eq:
  "k \<le> length info \<Longrightarrow>
   psci_find_max_off_loop e k info = Some (highest (is_local_state_off e) (PSCI_INVALID_PWR_LVL e) k info)"
  by (induction k) auto

lemma psci_find_target_suspend_loop_eq:
  "k \<le> length info \<Longrightarrow>
   psci_find_target_suspend_loop e k info =
     Some (highest (\<lambda>st. \<not> is_local_state_run st) (PSCI_INVALID_PWR_LVL e) k info)"
  by (induction k) auto

abbreviation (input) state_depth :: "psci_env \<Rightarrow> plat_local_state \<Rightarrow> nat" where
  "state_depth e st \<equiv> state_type_val (find_local_state_type e st)"

lemma psci_validate_suspend_loop_eq:
  "k \<le> length info \<Longrightarrow>
   psci_validate_suspend_loop e k info d =
     Some (\<forall>i<k. state_type_val d \<le> state_depth e (info ! i) \<and>
             (\<forall>j<k. i \<le> j \<longrightarrow> state_depth e (info ! j) \<le> state_depth e (info ! i)))"
proof (induction k arbitrary: d)
  case (Suc k)
  let ?t = "\<lambda>l. state_depth e (info ! l)"
  have "(\<forall>i<Suc k. state_type_val d \<le> ?t i \<and> (\<forall>j<Suc k. i \<le> j \<longrightarrow> ?t j \<le> ?t i)) \<longleftrightarrow>
    state_type_val d \<le> ?t k \<and> (\<forall>i<k. ?t k \<le> ?t i \<and> (\<forall>j<k. i \<le> j \<longrightarrow> ?t j \<le> ?t i))"
    by (auto simp: less_Suc_eq)
  then show ?case using Suc by (auto simp: Let_def not_less)
qed simp

lemma state_depth_run: "state_depth e st = 0 \<longleftrightarrow> is_local_state_run st"
  by (auto simp: find_local_state_type_def is_local_state_run_def PSCI_LOCAL_STATE_RUN_def)

definition suspend_req_valid :: "psci_env \<Rightarrow> psci_power_state \<Rightarrow> u32 \<Rightarrow> bool" where
  "suspend_req_valid e info pd \<longleftrightarrow>
     (\<exists>l\<le>PLAT_MAX_PWR_LVL e. \<not> is_local_state_run (info ! l)) \<and>
     (\<forall>j\<le>PLAT_MAX_PWR_LVL e. \<forall>i\<le>j. state_depth e (info ! j) \<le> state_depth e (info ! i)) \<and>
     (pd = 0 \<longrightarrow> (\<forall>l\<le>PLAT_MAX_PWR_LVL e. \<not> is_local_state_off e (info ! l)))"

lemma validate_suspend_req_spec:
  assumes len: "length info = Suc (PLAT_MAX_PWR_LVL e)"
  shows "psci_validate_suspend_req e info pd =
    Some (if suspend_req_valid e info pd then PSCI_E_SUCCESS else PSCI_E_INVALID_PARAMS)"
proof -
  let ?M = "PLAT_MAX_PWR_LVL e" and ?I = "PSCI_INVALID_PWR_LVL e"
  define T where "T = highest (\<lambda>st. \<not> is_local_state_run st) ?I (Suc ?M) info"
  define F where "F = highest (is_local_state_off e) ?I (Suc ?M) info"
  define mono where "mono \<longleftrightarrow> (\<forall>j\<le>?M. \<forall>i\<le>j. state_depth e (info ! j) \<le> state_depth e (info ! i))"
  have fT: "psci_find_target_suspend_lvl e info = Some T" and fF: "psci_find_max_off_lvl e info = Some F"
    using len psci_find_target_suspend_loop_eq[of "Suc ?M" info e] psci_find_max_off_loop_eq[of "Suc ?M" info e]
    unfolding psci_find_target_suspend_lvl_def psci_find_max_off_lvl_def T_def F_def by auto
  have T: "(\<forall>l\<le>?M. is_local_state_run (info ! l)) \<and> T = ?I \<or> T \<le> ?M \<and> \<not> is_local_state_run (info ! T) \<and>
      (\<forall>l\<le>?M. T < l \<longrightarrow> is_local_state_run (info ! l))"
    using highest_cases[of "Suc ?M" "\<lambda>st. \<not> is_local_state_run st" info ?I]
    unfolding T_def[symmetric] by (auto simp: less_Suc_eq_le)
  have F: "F = ?I \<longleftrightarrow> (\<forall>l\<le>?M. \<not> is_local_state_off e (info ! l))"
    using highest_cases[of "Suc ?M" "is_local_state_off e" info ?I]
    unfolding F_def[symmetric] by (auto simp: less_Suc_eq_le PSCI_INVALID_PWR_LVL_def)
  have valid: "suspend_req_valid e info pd \<longleftrightarrow> T \<noteq> ?I \<and> mono \<and> (pd = 0 \<longrightarrow> F = ?I)"
    using T unfolding suspend_req_valid_def mono_def F by (auto simp: PSCI_INVALID_PWR_LVL_def)
  have loop: "psci_validate_suspend_loop e (Suc T) info STATE_TYPE_RUN = Some mono" if "T \<noteq> ?I"
  proof -
    have t: "T \<le> ?M" and above: "state_depth e (info ! l) = 0" if "l \<le> ?M" "T < l" for l
      using T \<open>T \<noteq> ?I\<close> that by (auto simp: state_depth_run)
    have "(\<forall>i<Suc T. \<forall>j<Suc T. i \<le> j \<longrightarrow> state_depth e (info ! j) \<le> state_depth e (info ! i)) = mono"
      unfolding mono_def
    proof (intro iffI allI impI)
      fix j i
      assume "\<forall>i<Suc T. \<forall>j<Suc T. i \<le> j \<longrightarrow> state_depth e (info ! j) \<le> state_depth e (info ! i)"
        and "j \<le> ?M" "i \<le> j"
      then show "state_depth e (info ! j) \<le> state_depth e (info ! i)"
        using above[of j] by (cases "j \<le> T") (simp_all add: less_Suc_eq_le)
    qed (use T that in \<open>auto simp: less_Suc_eq_le\<close>)
    moreover have "Suc T \<le> length info" using T that len by auto
    ultimately show ?thesis
      using psci_validate_suspend_loop_eq[of "Suc T" info e STATE_TYPE_RUN] by simp
  qed
  show ?thesis
    unfolding psci_validate_suspend_req_def fT fF valid using loop
    by (cases "T = ?I"; cases mono) (simp_all add: Let_def)
qed

end
