(* ===== verification/PSCI_Effects.thy ===== *)
theory PSCI_Effects
  imports PSCI_Setup PSCI_Tree PSCI_Levels
begin

section \<open>PSCI: what the operations do to the power domains\<close>

text \<open>
  The effect of every operation that changes power states, on the views of the state: the
  requests, the states of the domains and of the CPUs. The operations are sequences of small
  steps most of which only log, lock, or count; the \<^emph>\<open>core\<close> of the state is the part those steps
  keep.
\<close>

subsection \<open>The core of the state\<close>

type_synonym psci_core =
  "plat_local_state list list \<times> non_cpu_pd_node list \<times> u32 list \<times> psci_cpu_data list
   \<times> plat_psci_ops option \<times> spd_pm_ops option"

definition core :: "psci_state \<Rightarrow> psci_core" where
  "core s = (psci_req_local_pwr_states s, psci_non_cpu_pd_nodes s,
     map cpu_parent_node (psci_cpu_pd_nodes s), psci_svc_cpu_data s, psci_plat_pm_ops s, psci_spd_pm s)"

lemma core_views:
  assumes "core s' = core s"
  shows "shape s' = shape s" "req_state s' = req_state s" "node_state s' = node_state s"
    "aff s' = aff s" "cpu_state s' = cpu_state s" "suspend_lvl s' = suspend_lvl s"
    "anc s' = anc s" "wf_tree e s' = wf_tree e s" "psci_plat_pm_ops s' = psci_plat_pm_ops s"
    "psci_spd_pm s' = psci_spd_pm s"
proof -
  show sh: "shape s' = shape s" using assms by (auto simp: core_def shape_def)
  show "req_state s' = req_state s" "node_state s' = node_state s" "aff s' = aff s"
    "cpu_state s' = cpu_state s" "suspend_lvl s' = suspend_lvl s"
    "psci_plat_pm_ops s' = psci_plat_pm_ops s" "psci_spd_pm s' = psci_spd_pm s"
    using assms by (auto simp: core_def fun_eq_iff req_state_def node_state_def aff_def
        cpu_state_def suspend_lvl_def)
  show "anc s' = anc s" using sh by (rule anc_shape)
  show "wf_tree e s' = wf_tree e s" using sh by (rule wf_tree_shape)
qed

named_theorems core_frame \<open>operations that keep the core of the state\<close>

lemma core_emit [simp]: "core (emit me ev s) = core s"
  by (simp add: core_def emit_def)

lemma core_spd_call [simp]: "core (spd_call hook me ev s) = core s"
  by (simp add: spd_call_def split: option.split)

lemma core_pwrdown_sequence [simp]: "core (psci_do_pwrdown_sequence e me l s) = core s"
  by (simp add: psci_do_pwrdown_sequence_def)

lemma core_lock [core_frame]:
  "psci_lock_get me p s = Some s' \<Longrightarrow> core s' = core s"
  "psci_lock_release me p s = Some s' \<Longrightarrow> core s' = core s"
  by (auto simp: psci_lock_get_def psci_lock_release_def)

lemma core_acquire_loop: "psci_acquire_loop me n p s = Some s' \<Longrightarrow> core s' = core s"
  by (induction me n p s rule: psci_acquire_loop.induct) (auto simp: bind_Some_iff core_lock)

lemma core_release_loop: "psci_release_loop me n ps s = Some s' \<Longrightarrow> core s' = core s"
  by (induction me n ps s rule: psci_release_loop.induct) (auto simp: bind_Some_iff core_lock)

lemma core_locks [core_frame]:
  "psci_acquire_pwr_domain_locks me n i s = Some s' \<Longrightarrow> core s' = core s"
  "psci_release_pwr_domain_locks me n i s = Some s' \<Longrightarrow> core s' = core s"
  by (auto simp: psci_acquire_pwr_domain_locks_def psci_release_pwr_domain_locks_def bind_Some_iff
      intro: core_acquire_loop core_release_loop)

lemma core_other_fields [simp]:
  "core (s\<lparr>last_cpu_in_non_cpu_pd := a\<rparr>) = core s" "core (s\<lparr>psci_cpu_stat := b\<rparr>) = core s"
  "core (s\<lparr>psci_non_cpu_stat := b\<rparr>) = core s" "core (s\<lparr>ts_enter_low_pwr := c\<rparr>) = core s"
  "core (s\<lparr>ts_exit_low_pwr := c\<rparr>) = core s" "core (s\<lparr>psci_caps := d\<rparr>) = core s"
  by (simp_all add: core_def)

lemma core_stats_down_loop: "psci_stats_down_loop me n l p info s = Some s' \<Longrightarrow> core s' = core s"
  by (induction n arbitrary: l p s) (fastforce simp: Let_def split: if_splits)+

lemma core_stats_up_loop: "psci_stats_up_loop e me n l p info s = Some s' \<Longrightarrow> core s' = core s"
  by (induction n arbitrary: l p s) (fastforce simp: bind_Some_iff Let_def split: if_splits)+

lemma core_stats [core_frame]:
  "psci_stats_update_pwr_down e me n info s = Some s' \<Longrightarrow> core s' = core s"
  "psci_stats_update_pwr_up e me n info s = Some s' \<Longrightarrow> core s' = core s"
  "plat_psci_stat_accounting_start e me s = Some s' \<Longrightarrow> core s' = core s"
  "plat_psci_stat_accounting_stop e me s = Some s' \<Longrightarrow> core s' = core s"
  by (auto simp: psci_stats_update_pwr_down_def psci_stats_update_pwr_up_def bind_Some_iff Let_def
      plat_psci_stat_accounting_start_def plat_psci_stat_accounting_stop_def
      dest!: core_stats_down_loop core_stats_up_loop split: if_splits)

lemma core_if_stat [core_frame]:
  "if_stat e (psci_stats_update_pwr_down e me n info) s = Some s' \<Longrightarrow> core s' = core s"
  "if_stat e (psci_stats_update_pwr_up e me n info) s = Some s' \<Longrightarrow> core s' = core s"
  "if_stat e (plat_psci_stat_accounting_start e me) s = Some s' \<Longrightarrow> core s' = core s"
  "if_stat e (plat_psci_stat_accounting_stop e me) s = Some s' \<Longrightarrow> core s' = core s"
  by (auto simp: if_stat_def dest: core_stats split: if_splits)

lemma core_spd_svc_off [simp]: "core (snd (spd_svc_off i s)) = core s"
  by (simp add: spd_svc_off_def split: option.split)

lemma core_validate [core_frame]:
  "psci_validate_entry_point e me pc ctx s = Some (rc, ep, s') \<Longrightarrow> core s' = core s"
  "psci_validate_power_state e me ps info s = Some (rc, info', s') \<Longrightarrow> core s' = core s"
  "psci_query_sys_suspend_pwrstate me info s = Some (info', s') \<Longrightarrow> core s' = core s"
  by (auto simp: psci_validate_entry_point_def psci_validate_power_state_def
      psci_query_sys_suspend_pwrstate_def bind_Some_iff split_def Let_def
      split: option.splits if_splits)

subsection \<open>Votes and requests\<close>

lemma domain_vote_run:
  assumes c: "pwr_coordinator (coordinate e)" and wf: "wf_tree e s"
    and ij: "i < PLATFORM_CORE_COUNT e" "j < PLATFORM_CORE_COUNT e"
    and l: "0 < l" "l \<le> PLAT_MAX_PWR_LVL e"
    and same: "anc s j l = anc s i l" and run: "req_state s l j = PSCI_LOCAL_STATE_RUN"
  shows "domain_vote e s i l = PSCI_LOCAL_STATE_RUN"
proof -
  let ?nd = "psci_non_cpu_pd_nodes s ! anc s i l" and ?row = "psci_req_local_pwr_states s ! (l - 1)"
  let ?rs = "take (ncpus ?nd) (drop (cpu_start_idx ?nd) ?row)"
  have dom: "cpu_start_idx ?nd \<le> j" "j < cpu_start_idx ?nd + ncpus ?nd"
    "cpu_start_idx ?nd + ncpus ?nd \<le> PLATFORM_CORE_COUNT e"
    using wf_tree_domain[OF wf ij(1) l] ij(2) same by (auto simp: domain_ok_def Let_def)
  have len: "length ?row = PLATFORM_CORE_COUNT e" using wf l unfolding wf_tree_def by auto
  then have n: "0 < ncpus ?nd" "ncpus ?nd \<le> length ?rs" using dom by auto
  then obtain t where t: "coordinate e l ?rs (ncpus ?nd) = Some t"
    using pwr_coordinator.coord_total[OF c] by blast
  have "?rs ! (j - cpu_start_idx ?nd) = PSCI_LOCAL_STATE_RUN"
    using dom len run by (simp add: req_state_def)
  moreover have "j - cpu_start_idx ?nd < length ?rs" using dom len by simp
  ultimately have "PSCI_LOCAL_STATE_RUN \<in> set ?rs" using nth_mem[of "j - cpu_start_idx ?nd" ?rs] by simp
  then have "t = PSCI_LOCAL_STATE_RUN"
    by (intro pwr_coordinator.run_wins[OF c t]) (simp add: min_def)
  then show ?thesis using t unfolding domain_vote_def coord_at_def Let_def by (metis option.sel)
qed

definition requests_honoured :: "psci_env \<Rightarrow> psci_state \<Rightarrow> bool" where
  "requests_honoured e s \<longleftrightarrow>
     (\<forall>i<PLATFORM_CORE_COUNT e. \<forall>l\<le>PLAT_MAX_PWR_LVL e. 0 < l \<longrightarrow>
        req_state s l i = PSCI_LOCAL_STATE_RUN \<longrightarrow> node_state s (anc s i l) = PSCI_LOCAL_STATE_RUN)"

lemma coordinatedD:
  assumes "coordinated e i n info s info' s'"
  shows "shape s' = shape s"
    and "0 < l \<Longrightarrow> l \<le> PLAT_MAX_PWR_LVL e \<Longrightarrow>
      req_state s' l j = (if j = i \<and> l \<le> n then info ! l else req_state s l j)"
    and "0 < l \<Longrightarrow> l \<le> n \<Longrightarrow> info' ! l = negotiated e s' i l"
    and "0 < l \<Longrightarrow> l \<le> n \<Longrightarrow> node_state s' (anc s i l) = negotiated e s' i l"
    and "q \<notin> anc s i ` {1..n} \<Longrightarrow> node_state s' q = node_state s q"
    and "info' ! 0 = info ! 0" and "length info' = length info"
    and "cpu_state s' j = (if j = i then info ! 0 else cpu_state s j)"
    and "aff s' = aff s" and "suspend_lvl s' = suspend_lvl s"
  using assms by (simp_all add: coordinated_def fun_eq_iff)

lemma run_restoredD:
  assumes "run_restored e i n s s'"
  shows "shape s' = shape s"
    and "0 < l \<Longrightarrow> l \<le> PLAT_MAX_PWR_LVL e \<Longrightarrow>
      req_state s' l j = (if j = i \<and> l \<le> n then PSCI_LOCAL_STATE_RUN else req_state s l j)"
    and "node_state s' q =
      (if q \<in> anc s i ` {1..n} then PSCI_LOCAL_STATE_RUN else node_state s q)"
    and "cpu_state s' = (cpu_state s)(i := PSCI_LOCAL_STATE_RUN)"
    and "aff s' = (aff s)(i := AFF_STATE_ON)" and "suspend_lvl s' = suspend_lvl s"
  using assms by (simp_all add: run_restored_def fun_eq_iff)

lemma coordinated_honoured:
  assumes c: "pwr_coordinator (coordinate e)" and wf: "wf_tree e s" "i < PLATFORM_CORE_COUNT e"
    and n: "n \<le> PLAT_MAX_PWR_LVL e" and h: "requests_honoured e s"
    and co: "coordinated e i n info s info' s'"
  shows "requests_honoured e s'"
  unfolding requests_honoured_def
proof (intro allI impI)
  fix j l
  assume j: "j < PLATFORM_CORE_COUNT e" and l: "l \<le> PLAT_MAX_PWR_LVL e" "0 < l"
    and r: "req_state s' l j = PSCI_LOCAL_STATE_RUN"
  note sh = coordinatedD(1)[OF co]
  note a = anc_shape[OF sh]
  have wf': "wf_tree e s'" using wf wf_tree_shape[OF sh] by simp
  show "node_state s' (anc s' j l) = PSCI_LOCAL_STATE_RUN"
  proof (cases "l \<le> n \<and> anc s j l = anc s i l")
    case True
    then have "domain_vote e s' i l = PSCI_LOCAL_STATE_RUN"
      using domain_vote_run[OF c wf' wf(2) j l(2,1) _ r] a by simp
    then show ?thesis using coordinatedD(4)[OF co] True l a by (simp add: negotiated_def)
  next
    case False
    have "anc s j l \<notin> anc s i ` {1..n}"
    proof
      assume "anc s j l \<in> anc s i ` {1..n}"
      then obtain k where k: "anc s j l = anc s i k" "1 \<le> k" "k \<le> n" by auto
      then show False using anc_inj_level[OF wf(1) j wf(2) l(2,1) _ _ k(1)] False n by auto
    qed
    moreover have "req_state s l j = PSCI_LOCAL_STATE_RUN"
      using coordinatedD(2)[OF co l(2,1), of j] r False by (auto split: if_splits)
    ultimately show ?thesis
      using coordinatedD(5)[OF co] h j l a by (simp add: requests_honoured_def)
  qed
qed

lemma run_restored_honoured:
  assumes wf: "wf_tree e s" "i < PLATFORM_CORE_COUNT e"
    and h: "requests_honoured e s" and rr: "run_restored e i n s s'"
  shows "requests_honoured e s'"
proof -
  have sh: "shape s' = shape s" using rr by (simp add: run_restored_def)
  show ?thesis using rr h
    by (auto simp: run_restored_def requests_honoured_def anc_shape[OF sh] split: if_splits)
qed

lemma honoured_core:
  assumes "core s' = core s"
  shows "requests_honoured e s' = requests_honoured e s"
  by (simp add: requests_honoured_def core_views[OF assms])

subsection \<open>Changes of the per-CPU data\<close>

text \<open>What a change of the per-CPU data alone keeps.\<close>

lemma svc_upd_views [simp]:
  "req_state (s\<lparr>psci_svc_cpu_data := d\<rparr>) = req_state s"
  "node_state (s\<lparr>psci_svc_cpu_data := d\<rparr>) = node_state s"
  "anc (s\<lparr>psci_svc_cpu_data := d\<rparr>) = anc s"
  by (simp_all add: fun_eq_iff req_state_def node_state_def anc_def parents_def cpu_parent_def)

definition svc_step ::
  "psci_state \<Rightarrow> (nat \<Rightarrow> aff_info_state) \<Rightarrow> (nat \<Rightarrow> plat_local_state) \<Rightarrow> (nat \<Rightarrow> nat) \<Rightarrow> psci_state \<Rightarrow> bool" where
  "svc_step s a c l s' \<longleftrightarrow>
     shape s' = shape s \<and> req_state s' = req_state s \<and> node_state s' = node_state s \<and>
     psci_plat_pm_ops s' = psci_plat_pm_ops s \<and> aff s' = a \<and> cpu_state s' = c \<and> suspend_lvl s' = l"

lemma svc_step_core: "core s' = core s \<Longrightarrow> svc_step s (aff s) (cpu_state s) (suspend_lvl s) s'"
  unfolding svc_step_def using core_views by blast

lemma svc_step_trans:
  "svc_step s a c l t \<Longrightarrow> svc_step t a' c' l' u \<Longrightarrow> svc_step s a' c' l' u"
  by (simp add: svc_step_def)

lemma svc_step_core_right:
  assumes "svc_step s a c l t" "core s' = core t"
  shows "svc_step s a c l s'"
  using assms(1) by (simp add: svc_step_def core_views[OF assms(2)])

lemma svc_step_core_left:
  assumes "svc_step t a c l s'" "core t = core s"
  shows "svc_step s a c l s'"
  using assms(1) by (simp add: svc_step_def core_views[OF assms(2)])

lemma svc_step_honoured:
  assumes "svc_step s a c l s'"
  shows "requests_honoured e s' = requests_honoured e s"
  using assms anc_shape[of s' s] by (simp add: svc_step_def requests_honoured_def)

lemma set_aff_spec:
  "psci_set_aff_info_state_by_idx i a s = Some s' \<Longrightarrow>
   svc_step s ((aff s)(i := a)) (cpu_state s) (suspend_lvl s) s'"
  by (auto simp: psci_set_aff_info_state_by_idx_def svc_step_def shape_def aff_def
      cpu_state_def suspend_lvl_def fun_eq_iff nth_list_update)

lemma set_suspend_lvl_spec:
  "psci_set_suspend_pwrlvl i l s = Some s' \<Longrightarrow>
   svc_step s (aff s) (cpu_state s) ((suspend_lvl s)(i := l)) s'"
  by (auto simp: psci_set_suspend_pwrlvl_def svc_step_def shape_def aff_def
      cpu_state_def suspend_lvl_def fun_eq_iff nth_list_update)

lemma set_cpu_state_spec:
  "psci_set_cpu_local_state i v s = Some s' \<Longrightarrow>
   svc_step s (aff s) ((cpu_state s)(i := v)) (suspend_lvl s) s'"
  by (auto simp: psci_set_cpu_local_state_def svc_step_def shape_def aff_def
      cpu_state_def suspend_lvl_def fun_eq_iff nth_list_update)

subsection \<open>The platform contract, and the results of the operations\<close>

lemma anc_core: "core s' = core s \<Longrightarrow> anc s' = anc s"
  by (rule core_views)

lemma coordinated_core:
  assumes "core t = core s" "core t' = core s'"
  shows "coordinated e i n info t info' t' = coordinated e i n info s info' s'"
proof -
  have "negotiated e t' i l = negotiated e s' i l" for l
    using assms(2) anc_core[OF assms(2)] by (auto simp: negotiated_def domain_vote_def core_def)
  then show ?thesis
    by (simp add: coordinated_def core_views[OF assms(1)] core_views[OF assms(2)])
qed

lemma run_restored_core:
  assumes "core t = core s" "core t' = core s'"
  shows "run_restored e i n t t' = run_restored e i n s s'"
  by (simp add: run_restored_def core_views[OF assms(1)] core_views[OF assms(2)])

text \<open>
  What the porting guide asks of a platform: a coordination function that is total and lets a
  request to run win, hooks that fill in a whole composite state, CPU states that are off when
  the request was a power down, and retention states below the off states.
\<close>

locale psci_platform =
  fixes e :: psci_env
  assumes coordinator: "pwr_coordinator (coordinate e)"
    and validate_length: "validate_power_state (plat_setup_psci_ops e) = Some f \<Longrightarrow>
      length (snd (f log ps info)) = length info"
    and validate_off: "validate_power_state (plat_setup_psci_ops e) = Some f \<Longrightarrow>
      length info = Suc (PLAT_MAX_PWR_LVL e) \<Longrightarrow>
      fst (f log ps info) = PSCI_E_SUCCESS \<Longrightarrow> psci_get_pstate_type e ps \<noteq> 0 \<Longrightarrow>
      is_local_state_off e (snd (f log ps info) ! 0)"
    and sys_suspend_length: "get_sys_suspend_power_state (plat_setup_psci_ops e) = Some g \<Longrightarrow>
      length (g log info) = length info"
    and sys_suspend_states: "get_sys_suspend_power_state (plat_setup_psci_ops e) = Some g \<Longrightarrow>
      length info = Suc (PLAT_MAX_PWR_LVL e) \<Longrightarrow> st \<in> set (g log info) \<Longrightarrow> st \<le> PLAT_MAX_OFF_STATE e"
    and ret_less_off: "PLAT_MAX_RET_STATE e < PLAT_MAX_OFF_STATE e"

context psci_platform
begin

lemma coordination_result:
  assumes "wf_tree e s" "i < PLATFORM_CORE_COUNT e" "n \<le> PLAT_MAX_PWR_LVL e"
    "length info = Suc (PLAT_MAX_PWR_LVL e)"
    "psci_do_state_coordination e i n info s = Some (info', s')"
  shows "coordinated e i n info s info' s'" "psci_plat_pm_ops s' = psci_plat_pm_ops s"
proof -
  obtain info1 s1 where *: "psci_do_state_coordination e i n info s = Some (info1, s1)"
    "coordinated e i n info s info1 s1"
    "\<exists>rq svc nds. s1 = s\<lparr>psci_req_local_pwr_states := rq, psci_svc_cpu_data := svc,
                              psci_non_cpu_pd_nodes := nds\<rparr>"
    by (rule state_coordination_spec[OF coordinator assms(1-4)])
  then show "coordinated e i n info s info' s'" "psci_plat_pm_ops s' = psci_plat_pm_ops s"
    using assms(5) by auto
qed

lemma to_run_result:
  assumes "wf_tree e s" "i < PLATFORM_CORE_COUNT e" "n \<le> PLAT_MAX_PWR_LVL e"
    "psci_set_pwr_domains_to_run i n s = Some s'"
  shows "run_restored e i n s s'" "psci_plat_pm_ops s' = psci_plat_pm_ops s"
proof -
  obtain s1 where *: "psci_set_pwr_domains_to_run i n s = Some s1" "run_restored e i n s s1"
    "\<exists>rq svc nds. s1 = s\<lparr>psci_req_local_pwr_states := rq, psci_svc_cpu_data := svc,
                              psci_non_cpu_pd_nodes := nds\<rparr>"
    by (rule set_pwr_domains_to_run_spec[OF assms(1-3)])
  then show "run_restored e i n s s'" "psci_plat_pm_ops s' = psci_plat_pm_ops s"
    using assms(4) by auto
qed

lemma cpu_off_locked_result:
  assumes wf: "wf_tree e s" "i < PLATFORM_CORE_COUNT e" "n \<le> PLAT_MAX_PWR_LVL e"
    and op: "psci_do_cpu_off_locked e i n s = Some (rc, info, s')"
  shows "if rc = 0 then coordinated e i n (psci_set_power_off_state e) s info s' \<and>
      psci_plat_pm_ops s' = psci_plat_pm_ops s else core s' = core s"
proof -
  from op have body: "(if rc \<noteq> 0 then core s' = core s
      else \<exists>s2 s3. core s2 = core s \<and> core s' = core s3 \<and>
             psci_do_state_coordination e i n (psci_set_power_off_state e) s2 = Some (info, s3))"
    by (auto simp: psci_do_cpu_off_locked_def bind_Some_iff Let_def split_def dest!: core_frame
        split: if_splits) (metis core_spd_svc_off)+
  show ?thesis
  proof (cases "rc = 0")
    case True
    with body obtain s2 s3 where c: "core s2 = core s" "core s' = core s3"
      and co: "psci_do_state_coordination e i n (psci_set_power_off_state e) s2 = Some (info, s3)"
      by auto
    have w2: "wf_tree e s2" using wf core_views(8)[OF c(1)] by simp
    have len: "length (psci_set_power_off_state e) = Suc (PLAT_MAX_PWR_LVL e)"
      by (simp add: psci_set_power_off_state_def)
    show ?thesis
      using True coordinated_core[OF c(1) c(2)[symmetric]]
        coordination_result[OF w2 wf(2,3) len co] core_views(9)[OF c(1)] core_views(9)[OF c(2)] by simp
  qed (use body in simp)
qed

lemma pwrdown_start_result:
  assumes "psci_suspend_to_pwrdown_start e i n ep info s = Some s'"
  shows "svc_step s (aff s) (cpu_state s) ((suspend_lvl s)(i := n)) s'"
proof -
  let ?t = "emit i Ev_publish_suspend_pwrdown_start s"
  from assms obtain u where u: "psci_set_suspend_pwrlvl i n ?t = Some u" and c: "core s' = core u"
    by (auto simp: psci_suspend_to_pwrdown_start_def bind_Some_iff Let_def split: if_split_asm)
  have t: "core ?t = core s" by simp
  show ?thesis
    using svc_step_core_right[OF svc_step_core_left[OF set_suspend_lvl_spec[OF u] t] c]
    by (simp add: core_views[OF t])
qed

lemma suspend_enter_result:
  assumes wf: "wf_tree e s" "i < PLATFORM_CORE_COUNT e" "n \<le> PLAT_MAX_PWR_LVL e"
    and len: "length info = Suc (PLAT_MAX_PWR_LVL e)"
    and op: "psci_cpu_suspend_enter e i ep n info pd s = Some (st, s')"
  shows "if st = Skip_WFI then core s' = core s
    else \<exists>t info'. coordinated e i n info s info' t \<and> psci_plat_pm_ops t = psci_plat_pm_ops s \<and>
      (st = Powered_Down \<longleftrightarrow> pd \<noteq> 0) \<and> svc_step t (aff s) (cpu_state t)
        (if st = Powered_Down then (suspend_lvl s)(i := n) else suspend_lvl s) s'"
proof (cases "st = Skip_WFI")
  case True
  then show ?thesis using op
    by (auto simp: psci_cpu_suspend_enter_def bind_Some_iff Let_def split_def dest!: core_frame
        split: if_splits)
next
  case False
  with op obtain s1 info' s3 s4 s5 s6 s7 where ac: "psci_acquire_pwr_domain_locks i n i s = Some s1"
    and co: "psci_do_state_coordination e i n info s1 = Some (info', s3)"
    and down: "if_stat e (psci_stats_update_pwr_down e i n info') s3 = Some s4"
    and pd: "(if pd \<noteq> 0 then psci_suspend_to_pwrdown_start e i n ep info' s4 else Some s4) = Some s5"
    and start: "if_stat e (plat_psci_stat_accounting_start e i) (emit i (Ev_pwr_domain_suspend info') s5) = Some s6"
    and rel: "psci_release_pwr_domain_locks i n i s6 = Some s7"
    and fin: "st = (if pd \<noteq> 0 then Powered_Down else In_Standby)" "core s' = core s7"
    by (cases "pd = 0") (auto simp: psci_cpu_suspend_enter_def bind_Some_iff Let_def split_def split: if_split_asm)
  have c1: "core s1 = core s" using ac by (rule core_frame)
  have c4: "core s4 = core s3" using down by (rule core_frame)
  have c5: "core s' = core s5" using core_if_stat(3)[OF start] core_locks(2)[OF rel] fin by simp
  have w1: "wf_tree e s1" using wf core_views(8)[OF c1] by simp
  note coord = coordination_result[OF w1 wf(2,3) len co]
  have "coordinated e i n info s info' s4"
    using coord(1) coordinated_core[OF c1 c4[symmetric]] by simp
  moreover from this have "aff s4 = aff s" "suspend_lvl s4 = suspend_lvl s" by (rule coordinatedD)+
  moreover have "svc_step s4 (aff s4) (cpu_state s4)
      (if pd \<noteq> 0 then (suspend_lvl s4)(i := n) else suspend_lvl s4) s'"
    using pd svc_step_core[of s4 s4]
    by (auto intro!: svc_step_core_right[OF _ c5] dest!: pwrdown_start_result split: if_split_asm)
  ultimately show ?thesis
    using fin False coord(2) core_views(9)[OF c4] core_views(9)[OF c1] by (auto split: if_split_asm)
qed

lemma standby_finisher_result:
  assumes wf: "wf_tree e s" "i < PLATFORM_CORE_COUNT e" "n \<le> PLAT_MAX_PWR_LVL e"
    and op: "psci_suspend_to_standby_finisher e i n s = Some s'"
  shows "run_restored e i n s s'" "psci_plat_pm_ops s' = psci_plat_pm_ops s"
proof -
  from op obtain t u where c: "core t = core s" "core s' = core u"
    and u: "psci_set_pwr_domains_to_run i n t = Some u"
    by (auto simp: psci_suspend_to_standby_finisher_def bind_Some_iff Let_def dest!: core_frame)
       (metis core_emit)
  have "wf_tree e t" using wf core_views(8)[OF c(1)] by simp
  note r = to_run_result[OF this wf(2,3) u]
  show "run_restored e i n s s'" using r(1) run_restored_core[OF c(1) c(2)[symmetric]] by simp
  show "psci_plat_pm_ops s' = psci_plat_pm_ops s"
    using r(2) core_views(9)[OF c(1)] core_views(9)[OF c(2)] by simp
qed

lemma cpu_on_finish_result:
  "psci_cpu_on_finish e i info s = Some s' \<Longrightarrow> core s' = core s \<and> aff s i = AFF_STATE_ON_PENDING"
  by (auto simp: psci_cpu_on_finish_def bind_Some_iff Let_def psci_get_aff_info_state_by_idx_def
      core_def emit_def spd_call_def aff_def map_upd_same split: option.splits if_split_asm)

lemma cpu_suspend_finish_result:
  assumes "psci_cpu_suspend_finish e i info s = Some s'"
  shows "svc_step s (aff s) (cpu_state s) ((suspend_lvl s)(i := PSCI_INVALID_PWR_LVL e)) s'"
    "aff s i = AFF_STATE_ON"
proof -
  from assms obtain t u where t: "core t = core s"
    and u: "psci_set_suspend_pwrlvl i (PSCI_INVALID_PWR_LVL e) t = Some u" and c: "core s' = core u"
    and a: "aff s i = AFF_STATE_ON"
    by (auto simp: psci_cpu_suspend_finish_def bind_Some_iff Let_def psci_get_aff_info_state_by_idx_def
        aff_def split: if_split_asm option.splits) (metis core_emit)+
  show "svc_step s (aff s) (cpu_state s) ((suspend_lvl s)(i := PSCI_INVALID_PWR_LVL e)) s'"
    using svc_step_core_right[OF svc_step_core_left[OF set_suspend_lvl_spec[OF u] t] c]
    by (simp add: core_views[OF t])
  show "aff s i = AFF_STATE_ON" by (rule a)
qed

end

subsection \<open>Turning CPUs on, warm boot\<close>

definition wake_level :: "psci_env \<Rightarrow> psci_state \<Rightarrow> nat \<Rightarrow> nat" where
  "wake_level e s i = (if suspend_lvl s i = PSCI_INVALID_PWR_LVL e then PLAT_MAX_PWR_LVL e
     else suspend_lvl s i)"

lemma get_aff_Some [simp]:
  "psci_get_aff_info_state_by_idx i s = Some a \<longleftrightarrow> i < length (psci_svc_cpu_data s) \<and> a = aff s i"
  by (auto simp: psci_get_aff_info_state_by_idx_def aff_def)

lemma get_power_on_target_Some [simp]:
  "get_power_on_target_pwrlvl e i s = Some n \<longleftrightarrow>
   i < length (psci_svc_cpu_data s) \<and> n = wake_level e s i"
  by (auto simp: get_power_on_target_pwrlvl_def psci_get_suspend_pwrlvl_def bind_Some_iff
      wake_level_def suspend_lvl_def)

lemma cpu_off_final_result:
  assumes "psci_do_cpu_off_final i PSCI_E_SUCCESS info s = Some (oc, s')"
  shows "svc_step s ((aff s)(i := AFF_STATE_OFF)) (cpu_state s) (suspend_lvl s) s'" "oc = No_Return"
  using assms
  by (auto simp: psci_do_cpu_off_final_def bind_Some_iff intro!: svc_step_core_right[OF set_aff_spec])

lemma cpu_on_mark_pending_result:
  assumes "cpu_on_mark_pending e i s = Some s'"
  shows "svc_step s ((aff s)(i := AFF_STATE_ON_PENDING)) (cpu_state s) (suspend_lvl s) s'"
proof -
  have tr: "svc_step s ((aff s)(i := b)) (cpu_state s) (suspend_lvl s) u"
    if "psci_set_aff_info_state_by_idx i a s = Some t" "psci_set_aff_info_state_by_idx i b t = Some u"
    for a b s t u
    using set_aff_spec[OF that(1)] set_aff_spec[OF that(2)] by (simp add: svc_step_def)
  show ?thesis
    using assms
    by (auto simp: cpu_on_mark_pending_def bind_Some_iff psci_get_aff_info_state_by_idx_def
        psci_set_aff_info_state_by_idx_def svc_step_def aff_def cpu_state_def suspend_lvl_def shape_def
        nth_list_update fun_eq_iff
        split: if_split_asm)
qed

lemma cpu_on_start_result:
  assumes op: "psci_cpu_on_start e me t ep s = Some (rc, s')"
    and i: "i = nat (plat_core_pos_by_mpidr e t)"
  shows "0 \<le> plat_core_pos_by_mpidr e t" "i < length (psci_svc_cpu_data s)"
    and "aff s i = AFF_STATE_ON \<Longrightarrow> rc = PSCI_E_ALREADY_ON"
    and "aff s i = AFF_STATE_ON_PENDING \<Longrightarrow> rc = PSCI_E_ON_PENDING"
    and "aff s i = AFF_STATE_OFF \<Longrightarrow> rc = PSCI_E_SUCCESS \<or> rc = PSCI_E_INTERN_FAIL"
    and "svc_step s (if rc = PSCI_E_SUCCESS then (aff s)(i := AFF_STATE_ON_PENDING) else aff s)
           (cpu_state s) (suspend_lvl s) s'"
proof -
  show *: "0 \<le> plat_core_pos_by_mpidr e t" "i < length (psci_svc_cpu_data s)"
    using op i by (auto simp: psci_cpu_on_start_def bind_Some_iff Let_def emit_def)
  let ?s1 = "emit me (Ev_spin_lock_cpu i) s"
  have c1: "core ?s1 = core s" by simp
  have aff: "aff ?s1 i = aff s i" by (simp add: core_views[OF c1])
  have on: "rc = cpu_on_validate_state (aff s i)" "core s' = core s" if "aff s i \<noteq> AFF_STATE_OFF"
    using op that aff
    by (cases "aff s i"; auto simp: psci_cpu_on_start_def bind_Some_iff Let_def i[symmetric] psci_err_defs)+
  show "aff s i = AFF_STATE_ON \<Longrightarrow> rc = PSCI_E_ALREADY_ON"
    "aff s i = AFF_STATE_ON_PENDING \<Longrightarrow> rc = PSCI_E_ON_PENDING"
    using on(1) by auto
  have off: "\<exists>s2 s3 s4. core s2 = core s \<and> cpu_on_mark_pending e i s2 = Some s3 \<and>
      core s' = core s4 \<and> (rc = PSCI_E_SUCCESS \<and> core s4 = core s3 \<or>
        rc = PSCI_E_INTERN_FAIL \<and> psci_set_aff_info_state_by_idx i AFF_STATE_OFF
          (emit me (Ev_pwr_domain_on t) s3) = Some s4)" if z: "aff s i = AFF_STATE_OFF"
  proof -
    obtain s3 where *: "cpu_on_mark_pending e i (spd_call svc_on me (Ev_svc_on t) ?s1) = Some s3"
      "rc = PSCI_E_SUCCESS \<and> core s' = core s3 \<or>
       (\<exists>s4. core s' = core s4 \<and> rc = PSCI_E_INTERN_FAIL \<and>
         psci_set_aff_info_state_by_idx i AFF_STATE_OFF (emit me (Ev_pwr_domain_on t) s3) = Some s4)"
      using op z aff
      by (cases "rc = PSCI_E_SUCCESS")
         (auto simp: psci_cpu_on_start_def bind_Some_iff Let_def i[symmetric] psci_err_defs)
    have "core (spd_call svc_on me (Ev_svc_on t) ?s1) = core s" by simp
    with * show ?thesis by blast
  qed
  then show "aff s i = AFF_STATE_OFF \<Longrightarrow> rc = PSCI_E_SUCCESS \<or> rc = PSCI_E_INTERN_FAIL" by auto
  show "svc_step s (if rc = PSCI_E_SUCCESS then (aff s)(i := AFF_STATE_ON_PENDING) else aff s)
           (cpu_state s) (suspend_lvl s) s'"
  proof (cases "aff s i = AFF_STATE_OFF")
    case False
    then show ?thesis using on svc_step_core[of s' s]
      by (cases "aff s i") (auto simp: psci_err_defs)
  next
    case True
    from off[OF this] obtain s2 s3 s4 where c: "core s2 = core s" "core s' = core s4"
      and m: "cpu_on_mark_pending e i s2 = Some s3"
      and r: "rc = PSCI_E_SUCCESS \<and> core s4 = core s3 \<or> rc = PSCI_E_INTERN_FAIL \<and>
        psci_set_aff_info_state_by_idx i AFF_STATE_OFF (emit me (Ev_pwr_domain_on t) s3) = Some s4"
      by blast
    have s3: "svc_step s ((aff s)(i := AFF_STATE_ON_PENDING)) (cpu_state s) (suspend_lvl s) s3"
      using svc_step_core_left[OF cpu_on_mark_pending_result[OF m] c(1)] core_views[OF c(1)] by simp
    have e3: "core (emit me (Ev_pwr_domain_on t) s3) = core s3" by simp
    from r show ?thesis
    proof
      assume "rc = PSCI_E_SUCCESS \<and> core s4 = core s3"
      then show ?thesis using s3 c(2) svc_step_core_right by fastforce
    next
      assume *: "rc = PSCI_E_INTERN_FAIL \<and>
        psci_set_aff_info_state_by_idx i AFF_STATE_OFF (emit me (Ev_pwr_domain_on t) s3) = Some s4"
      have "svc_step s3 ((aff s3)(i := AFF_STATE_OFF)) (cpu_state s3) (suspend_lvl s3) s4"
        using svc_step_core_left[OF set_aff_spec e3] * core_views[OF e3] by fastforce
      then have "svc_step s (aff s) (cpu_state s) (suspend_lvl s) s4"
        using s3 True by (auto simp: svc_step_def fun_eq_iff)
      then show ?thesis using * svc_step_core_right[OF _ c(2)] by (simp add: psci_err_defs)
    qed
  qed
qed

context psci_platform
begin

lemma warmboot_result:
  assumes wf: "wf_tree e s" "i < PLATFORM_CORE_COUNT e" "wake_level e s i \<le> PLAT_MAX_PWR_LVL e"
    and op: "psci_warmboot_entrypoint e i s = Some s'"
  shows "aff s i \<noteq> AFF_STATE_OFF"
    "\<exists>t. svc_step s (aff s) (cpu_state s) (if aff s i = AFF_STATE_ON
             then (suspend_lvl s)(i := PSCI_INVALID_PWR_LVL e) else suspend_lvl s) t \<and>
      run_restored e i (wake_level e s i) t s'"
    "psci_plat_pm_ops s' = psci_plat_pm_ops s"
proof -
  let ?n = "wake_level e s i" and ?a = "aff s i"
  from op obtain s1 info s2 s3 s4 s5 where
    "?a \<noteq> AFF_STATE_OFF" and ac: "psci_acquire_pwr_domain_locks i ?n i s = Some s1"
    and stop: "if_stat e (plat_psci_stat_accounting_stop e i) s1 = Some s2"
    and fin: "(if ?a = AFF_STATE_ON_PENDING then psci_cpu_on_finish e i info s2
               else psci_cpu_suspend_finish e i info s2) = Some s3"
    and run: "psci_set_pwr_domains_to_run i ?n s3 = Some s4"
    and up: "if_stat e (psci_stats_update_pwr_up e i ?n info) s4 = Some s5"
    and rel: "psci_release_pwr_domain_locks i ?n i s5 = Some s'"
    by (auto simp: psci_warmboot_entrypoint_def bind_Some_iff)
  then show "aff s i \<noteq> AFF_STATE_OFF" by simp
  have c2: "core s2 = core s" using core_locks(1)[OF ac] core_if_stat(4)[OF stop] by simp
  have c5: "core s' = core s4" using core_if_stat(2)[OF up] core_locks(2)[OF rel] by simp
  let ?l = "if ?a = AFF_STATE_ON then (suspend_lvl s)(i := PSCI_INVALID_PWR_LVL e) else suspend_lvl s"
  have "svc_step s2 (aff s2) (cpu_state s2) ?l s3"
    using fin \<open>?a \<noteq> AFF_STATE_OFF\<close> core_views[OF c2]
    by (cases ?a) (auto dest!: cpu_on_finish_result cpu_suspend_finish_result(1) svc_step_core split: if_split_asm)
  then have s3: "svc_step s (aff s) (cpu_state s) ?l s3"
    using svc_step_core_left[OF _ c2] core_views[OF c2] by simp
  then have w3: "wf_tree e s3" using wf wf_tree_shape[of s3 s] by (simp add: svc_step_def)
  note r = to_run_result[OF w3 wf(2,3) run]
  have "run_restored e i ?n s3 s'" using r(1) run_restored_core[OF refl c5] by blast
  with s3 show "\<exists>t. svc_step s (aff s) (cpu_state s) ?l t \<and> run_restored e i ?n t s'" by blast
  show "psci_plat_pm_ops s' = psci_plat_pm_ops s"
    using r(2) s3 core_views(9)[OF c5] by (simp add: svc_step_def)
qed

end

end
