(* ===== verification/PSCI_System.thy ===== *)
theory PSCI_System
  imports PSCI_Effects
begin

section \<open>PSCI: the system of all CPUs\<close>

text \<open>
  The CPUs of the platform as one transition system. A CPU is in one of five phases; a step is
  one section of a PSCI call that runs without interference: the part under the power domain
  locks, the part after their release, the warm boot. The invariant ties the phases to the data
  of the library; every step keeps it, and the state that \<^verbatim>\<open>psci_setup()\<close> leaves behind has it.
\<close>

subsection \<open>Steps\<close>

datatype cpu_phase = Running | Leaving psci_power_state | Stopped | Suspended | Standby nat

type_synonym psci_system = "(nat \<Rightarrow> cpu_phase) \<times> psci_state"

fun after_suspend :: "nat \<Rightarrow> suspend_status \<Rightarrow> cpu_phase" where
  "after_suspend n Skip_WFI = Running"
| "after_suspend n Powered_Down = Suspended"
| "after_suspend n In_Standby = Standby n"

definition power_fids :: "u32 set" where
  "power_fids = {PSCI_CPU_OFF, PSCI_CPU_SUSPEND_AARCH32, PSCI_CPU_SUSPEND_AARCH64,
     PSCI_CPU_ON_AARCH32, PSCI_CPU_ON_AARCH64, PSCI_SYSTEM_SUSPEND_AARCH32,
     PSCI_SYSTEM_SUSPEND_AARCH64}"

inductive psci_step :: "psci_env \<Rightarrow> psci_system \<Rightarrow> psci_system \<Rightarrow> bool" for e where
  step_cpu_on:
    "\<lbrakk>i < PLATFORM_CORE_COUNT e; ph i = Running; psci_cpu_on e i t pc ctx s = Some (rc, s')\<rbrakk>
     \<Longrightarrow> psci_step e (ph, s) (ph, s')"
| step_off_locked:
    "\<lbrakk>i < PLATFORM_CORE_COUNT e; ph i = Running;
      psci_do_cpu_off_locked e i (PLAT_MAX_PWR_LVL e) s = Some (rc, info, s')\<rbrakk>
     \<Longrightarrow> psci_step e (ph, s) (ph(i := if rc = 0 then Leaving info else Running), s')"
| step_off_final:
    "\<lbrakk>i < PLATFORM_CORE_COUNT e; ph i = Leaving info;
      psci_do_cpu_off_final i PSCI_E_SUCCESS info s = Some (oc, s')\<rbrakk>
     \<Longrightarrow> psci_step e (ph, s) (ph(i := Stopped), s')"
| step_suspend_refused:
    "\<lbrakk>i < PLATFORM_CORE_COUNT e; ph i = Running;
      psci_cpu_suspend_prepare e i ps pc ctx s = Some (Suspend_Answer rc, s') \<or>
      psci_system_suspend_prepare e i pc ctx s = Some (Suspend_Answer rc, s')\<rbrakk>
     \<Longrightarrow> psci_step e (ph, s) (ph, s')"
| step_suspend:
    "\<lbrakk>i < PLATFORM_CORE_COUNT e; ph i = Running;
      psci_cpu_suspend_prepare e i ps pc ctx s = Some (Suspend_Start ep n info pd, s1) \<or>
      psci_system_suspend_prepare e i pc ctx s = Some (Suspend_Start ep n info pd, s1);
      psci_cpu_suspend_enter e i ep n info pd s1 = Some (st, s')\<rbrakk>
     \<Longrightarrow> psci_step e (ph, s) (ph(i := after_suspend n st), s')"
| step_standby_wake:
    "\<lbrakk>i < PLATFORM_CORE_COUNT e; ph i = Standby n;
      psci_suspend_to_standby_finisher e i n s = Some s'\<rbrakk>
     \<Longrightarrow> psci_step e (ph, s) (ph(i := Running), s')"
| step_warmboot:
    "\<lbrakk>i < PLATFORM_CORE_COUNT e; ph i = Stopped \<or> ph i = Suspended;
      psci_warmboot_entrypoint e i s = Some s'\<rbrakk>
     \<Longrightarrow> psci_step e (ph, s) (ph(i := Running), s')"
| step_other_call:
    "\<lbrakk>i < PLATFORM_CORE_COUNT e; ph i = Running; fid \<notin> power_fids;
      psci_smc_handler others e i fid x1 x2 x3 flags s = Some (Returned v, s')\<rbrakk>
     \<Longrightarrow> psci_step e (ph, s) (ph, s')"

definition phase_ok :: "psci_env \<Rightarrow> psci_state \<Rightarrow> nat \<Rightarrow> cpu_phase \<Rightarrow> bool" where
  "phase_ok e s i p \<longleftrightarrow>
     (case p of
        Running \<Rightarrow> aff s i = AFF_STATE_ON \<and> cpu_state s i = PSCI_LOCAL_STATE_RUN \<and>
          suspend_lvl s i = PSCI_INVALID_PWR_LVL e \<and>
          (\<forall>l\<le>PLAT_MAX_PWR_LVL e. 0 < l \<longrightarrow> req_state s l i = PSCI_LOCAL_STATE_RUN)
      | Leaving _ \<Rightarrow> aff s i = AFF_STATE_ON \<and> suspend_lvl s i = PSCI_INVALID_PWR_LVL e
      | Stopped \<Rightarrow> aff s i \<noteq> AFF_STATE_ON \<and> suspend_lvl s i = PSCI_INVALID_PWR_LVL e
      | Suspended \<Rightarrow> aff s i = AFF_STATE_ON \<and> is_local_state_off e (cpu_state s i) \<and>
          suspend_lvl s i \<le> PLAT_MAX_PWR_LVL e \<and>
          (\<forall>l\<le>PLAT_MAX_PWR_LVL e. suspend_lvl s i < l \<longrightarrow> req_state s l i = PSCI_LOCAL_STATE_RUN)
      | Standby n \<Rightarrow> aff s i = AFF_STATE_ON \<and> suspend_lvl s i = PSCI_INVALID_PWR_LVL e \<and>
          n \<le> PLAT_MAX_PWR_LVL e \<and>
          (\<forall>l\<le>PLAT_MAX_PWR_LVL e. n < l \<longrightarrow> req_state s l i = PSCI_LOCAL_STATE_RUN))"

definition psci_inv :: "psci_env \<Rightarrow> psci_system \<Rightarrow> bool" where
  "psci_inv e = (\<lambda>(ph, s).
     wf_tree e s \<and> psci_plat_pm_ops s = Some (plat_setup_psci_ops e) \<and> requests_honoured e s \<and>
     (\<forall>i<PLATFORM_CORE_COUNT e. phase_ok e s i (ph i)))"

lemma find_target_suspend_bound:
  "psci_find_target_suspend_loop e k info = Some n \<Longrightarrow> n < k \<or> n = PSCI_INVALID_PWR_LVL e"
  by (induction k) (auto split: if_split_asm)

lemma core_other_calls:
  "psci_migrate e me t s = Some (rc, s') \<Longrightarrow> core s' = core s"
  "psci_migrate_info_type me s = Some (rc, s') \<Longrightarrow> core s' = core s"
  "psci_migrate_info_up_cpu me s = Some (v, s') \<Longrightarrow> core s' = core s"
  "psci_node_hw_state e me t l s = Some (rc, s') \<Longrightarrow> core s' = core s"
  "psci_system_reset2 me rt ck s = Some (v, s') \<Longrightarrow> core s' = core s"
  "psci_mem_protect me en s = Some (v, s') \<Longrightarrow> core s' = core s"
  "psci_mem_chk_range me b ln s = Some (v, s') \<Longrightarrow> core s' = core s"
  by (auto simp: psci_migrate_def psci_migrate_info_type_def psci_migrate_info_up_cpu_def
      psci_node_hw_state_def psci_system_reset2_def psci_mem_protect_def psci_mem_chk_range_def
      psci_spd_migrate_info_def bind_Some_iff Let_def split_def
      split: if_split_asm option.splits bool.splits)

lemma core_get_stat: "psci_get_stat e me t ps s = Some (rc, st, s') \<Longrightarrow> core s' = core s"
  by (auto simp: psci_get_stat_def bind_Some_iff Let_def split_def dest!: core_frame
      split: if_split_asm option.splits)

lemma core_stat_calls:
  "psci_stat_residency e me t ps s = Some (v, s') \<Longrightarrow> core s' = core s"
  "psci_stat_count e me t ps s = Some (v, s') \<Longrightarrow> core s' = core s"
  by (auto simp: psci_stat_residency_def psci_stat_count_def bind_Some_iff dest!: core_get_stat)

lemma core_smc_other:
  assumes "fid \<notin> power_fids" "psci_smc_handler others e i fid x1 x2 x3 flags s = Some (Returned v, s')"
  shows "core s' = core s"
  using assms
  by (auto simp: power_fids_def psci_smc_handler_def psci_smc32_def psci_smc64_def Let_def
      ret_int_def ret_reg_def no_ret_def dest!: core_other_calls core_stat_calls split: if_split_asm)

lemma cpu_standby_result:
  assumes "psci_cpu_standby e i info s = Some (rc, s')"
  shows "\<exists>c. svc_step s (aff s) c (suspend_lvl s) s' \<and>
    (c = cpu_state s \<or> c = (cpu_state s)(i := PSCI_LOCAL_STATE_RUN))"
proof (cases "rc = PSCI_E_SUCCESS")
  case True
  with assms obtain s1 s2 s3 where s1: "psci_set_cpu_local_state i (info ! PSCI_CPU_PWR_LVL) s = Some s1"
    and s2: "core s2 = core s1" and s3: "psci_set_cpu_local_state i PSCI_LOCAL_STATE_RUN s2 = Some s3"
    and s4: "core s' = core s3"
    by (auto simp: psci_cpu_standby_def bind_Some_iff Let_def psci_err_defs dest!: core_frame
        split: if_split_asm) (metis core_emit)
  have "svc_step s2 (aff s1) ((cpu_state s1)(i := PSCI_LOCAL_STATE_RUN)) (suspend_lvl s1) s'"
    using svc_step_core_right[OF set_cpu_state_spec[OF s3] s4] by (simp add: core_views[OF s2])
  then have "svc_step s (aff s) ((cpu_state s)(i := PSCI_LOCAL_STATE_RUN)) (suspend_lvl s) s'"
    using set_cpu_state_spec[OF s1] core_views[OF s2] by (simp add: svc_step_def)
  then show ?thesis by blast
next
  case False
  with assms have "s' = s"
    by (auto simp: psci_cpu_standby_def bind_Some_iff Let_def split: if_split_asm)
  then show ?thesis using svc_step_core[of s s] by blast
qed

context psci_platform
begin

lemma suspend_prepare_answer:
  assumes "psci_cpu_suspend_prepare e i ps pc ctx s = Some (Suspend_Answer rc, s') \<or>
      psci_system_suspend_prepare e i pc ctx s = Some (Suspend_Answer rc, s')"
  shows "\<exists>c. svc_step s (aff s) c (suspend_lvl s) s' \<and>
    (c = cpu_state s \<or> c = (cpu_state s)(i := PSCI_LOCAL_STATE_RUN))"
  using assms
proof
  assume "psci_cpu_suspend_prepare e i ps pc ctx s = Some (Suspend_Answer rc, s')"
  then consider "core s' = core s" | t info where "core t = core s" "psci_cpu_standby e i info t = Some (rc, s')"
    by (auto simp: psci_cpu_suspend_prepare_def bind_Some_iff Let_def dest!: core_frame
        split: if_split_asm)
  then show ?thesis
  proof cases
    case 2
    show ?thesis using cpu_standby_result[OF 2(2)] unfolding core_views[OF 2(1)]
      by (blast intro: svc_step_core_left[OF _ 2(1)])
  qed (use svc_step_core in blast)
next
  assume "psci_system_suspend_prepare e i pc ctx s = Some (Suspend_Answer rc, s')"
  then have "core s' = core s"
    by (auto simp: psci_system_suspend_prepare_def bind_Some_iff Let_def dest!: core_frame
        split: if_split_asm)
  then show ?thesis using svc_step_core by blast
qed

lemma validated_state:
  assumes "psci_plat_pm_ops s = Some (plat_setup_psci_ops e)"
    and "psci_validate_power_state e i ps (replicate (Suc (PLAT_MAX_PWR_LVL e)) PSCI_LOCAL_STATE_RUN) s
      = Some (PSCI_E_SUCCESS, info, t)"
  shows "length info = Suc (PLAT_MAX_PWR_LVL e)"
    and "psci_get_pstate_type e ps \<noteq> 0 \<Longrightarrow> is_local_state_off e (info ! 0)"
proof -
  obtain f where f: "validate_power_state (plat_setup_psci_ops e) = Some f"
    and r: "f (psci_log s) ps (replicate (Suc (PLAT_MAX_PWR_LVL e)) PSCI_LOCAL_STATE_RUN) = (PSCI_E_SUCCESS, info)"
    using assms by (auto simp: psci_validate_power_state_def bind_Some_iff Let_def split_def
        prod_eq_iff psci_err_defs split: if_split_asm)
  show "length info = Suc (PLAT_MAX_PWR_LVL e)" using validate_length[OF f] r by (metis snd_conv length_replicate)
  show "psci_get_pstate_type e ps \<noteq> 0 \<Longrightarrow> is_local_state_off e (info ! 0)"
    using validate_off[OF f, of "replicate (Suc (PLAT_MAX_PWR_LVL e)) PSCI_LOCAL_STATE_RUN" "psci_log s" ps] r
    by (simp del: replicate.simps)
qed

lemma sys_suspend_state:
  assumes "psci_plat_pm_ops s = Some (plat_setup_psci_ops e)"
    and "psci_query_sys_suspend_pwrstate i (replicate (Suc (PLAT_MAX_PWR_LVL e)) PSCI_LOCAL_STATE_RUN) s
      = Some (info, t)"
    and "psci_validate_suspend_req e info pd = Some PSCI_E_SUCCESS"
    and "is_local_state_off e (info ! PLAT_MAX_PWR_LVL e)"
  shows "length info = Suc (PLAT_MAX_PWR_LVL e)" "is_local_state_off e (info ! 0)"
proof -
  obtain g where g: "get_sys_suspend_power_state (plat_setup_psci_ops e) = Some g"
    and r: "info = g (psci_log s) (replicate (Suc (PLAT_MAX_PWR_LVL e)) PSCI_LOCAL_STATE_RUN)"
    using assms by (auto simp: psci_query_sys_suspend_pwrstate_def bind_Some_iff)
  show len: "length info = Suc (PLAT_MAX_PWR_LVL e)" using sys_suspend_length[OF g] r by simp
  then have v: "suspend_req_valid e info pd"
    using validate_suspend_req_spec[OF len, of pd] assms(3) by (auto simp: psci_err_defs split: if_split_asm)
  then have "state_type_val (find_local_state_type e (info ! PLAT_MAX_PWR_LVL e))
      \<le> state_type_val (find_local_state_type e (info ! 0))"
    by (simp add: suspend_req_valid_def)
  then have "PLAT_MAX_RET_STATE e < info ! 0"
    using assms(4) by (auto simp: find_local_state_type_def is_local_state_off_def split: if_split_asm)
  moreover have "info ! 0 \<le> PLAT_MAX_OFF_STATE e"
    using sys_suspend_states[OF g, of "replicate (Suc (PLAT_MAX_PWR_LVL e)) PSCI_LOCAL_STATE_RUN" "info ! 0" "psci_log s"]
      len r by (metis length_replicate nth_mem zero_less_Suc)
  ultimately show "is_local_state_off e (info ! 0)" by (simp add: is_local_state_off_def)
qed

lemma suspend_prepare_start:
  assumes ops: "psci_plat_pm_ops s = Some (plat_setup_psci_ops e)"
    and op: "psci_cpu_suspend_prepare e i ps pc ctx s = Some (Suspend_Start ep n info pd, s') \<or>
      psci_system_suspend_prepare e i pc ctx s = Some (Suspend_Start ep n info pd, s')"
  shows "core s' = core s" "n \<le> PLAT_MAX_PWR_LVL e"
    and "length info = Suc (PLAT_MAX_PWR_LVL e)" "pd \<noteq> 0 \<Longrightarrow> is_local_state_off e (info ! 0)"
proof -
  from op show "core s' = core s"
    by (auto simp: psci_cpu_suspend_prepare_def psci_system_suspend_prepare_def bind_Some_iff Let_def
        dest!: core_frame split: if_split_asm)
  from op show "n \<le> PLAT_MAX_PWR_LVL e"
    by (auto simp: psci_cpu_suspend_prepare_def psci_system_suspend_prepare_def bind_Some_iff Let_def
        psci_find_target_suspend_lvl_def dest!: find_target_suspend_bound split: if_split_asm)
  let ?r = "replicate (Suc (PLAT_MAX_PWR_LVL e)) PSCI_LOCAL_STATE_RUN"
  from op consider
    (cpu) t where "psci_validate_power_state e i ps ?r s = Some (PSCI_E_SUCCESS, info, t)"
      "pd = psci_get_pstate_type e ps"
  | (sys) t u where "core t = core s" "psci_query_sys_suspend_pwrstate i ?r t = Some (info, u)"
      "psci_validate_suspend_req e info pd = Some PSCI_E_SUCCESS"
      "is_local_state_off e (info ! PLAT_MAX_PWR_LVL e)"
    by (fastforce simp: psci_cpu_suspend_prepare_def psci_system_suspend_prepare_def bind_Some_iff Let_def
        simp del: replicate.simps dest: core_frame split: if_split_asm)
  then have "length info = Suc (PLAT_MAX_PWR_LVL e) \<and> (pd \<noteq> 0 \<longrightarrow> is_local_state_off e (info ! 0))"
  proof cases
    case cpu
    then show ?thesis using validated_state[OF ops cpu(1)] by simp
  next
    case sys
    have "psci_plat_pm_ops t = Some (plat_setup_psci_ops e)" using ops core_views(9)[OF sys(1)] by simp
    from sys_suspend_state[OF this sys(2-4)] show ?thesis by simp
  qed
  then show "length info = Suc (PLAT_MAX_PWR_LVL e)" "pd \<noteq> 0 \<Longrightarrow> is_local_state_off e (info ! 0)" by auto
qed

text \<open>The phases of the other CPUs do not depend on a step of one CPU.\<close>

lemma phase_ok_cong:
  assumes "aff s' j = aff s j" "cpu_state s' j = cpu_state s j" "suspend_lvl s' j = suspend_lvl s j"
    "\<And>l. 0 < l \<Longrightarrow> l \<le> PLAT_MAX_PWR_LVL e \<Longrightarrow> req_state s' l j = req_state s l j"
  shows "phase_ok e s' j p = phase_ok e s j p"
  using assms by (auto simp: phase_ok_def split: cpu_phase.split)

lemma inv_svc_step:
  assumes inv: "psci_inv e (ph, s)" and st: "svc_step s a c l s'"
    and ok: "\<And>j. j < PLATFORM_CORE_COUNT e \<Longrightarrow> phase_ok e s j (ph j) \<Longrightarrow> phase_ok e s' j (ph' j)"
  shows "psci_inv e (ph', s')"
  using inv st ok svc_step_honoured[OF st] wf_tree_shape[of s' s]
  by (auto simp: psci_inv_def svc_step_def)

lemma inv_core:
  assumes "psci_inv e (ph, s)" "core s' = core s"
  shows "psci_inv e (ph, s')"
  using inv_svc_step[OF assms(1) svc_step_core[OF assms(2)]] 
    phase_ok_cong[of s' _ s] core_views[OF assms(2)] by auto

lemma inv_coordinated:
  assumes inv: "psci_inv e (ph, s)" and i: "i < PLATFORM_CORE_COUNT e" "n \<le> PLAT_MAX_PWR_LVL e"
    and co: "coordinated e i n info s info' s'" and ops: "psci_plat_pm_ops s' = psci_plat_pm_ops s"
    and ok: "phase_ok e s' i p"
  shows "psci_inv e (ph(i := p), s')"
proof -
  have s: "wf_tree e s" "requests_honoured e s" using inv by (auto simp: psci_inv_def)
  note D = coordinatedD[OF co]
  have "phase_ok e s' j (ph j)" if "j < PLATFORM_CORE_COUNT e" "j \<noteq> i" for j
    using inv that phase_ok_cong[of s' j s] D(2,8,9,10) by (auto simp: psci_inv_def)
  then show ?thesis
    using s inv coordinated_honoured[OF coordinator s(1) i s(2) co] wf_tree_shape[OF D(1)] ok ops
    by (auto simp: psci_inv_def)
qed

lemma inv_run_restored:
  assumes inv: "psci_inv e (ph, s)" and i: "i < PLATFORM_CORE_COUNT e"
    and rr: "run_restored e i n s s'" and ops: "psci_plat_pm_ops s' = psci_plat_pm_ops s"
    and above: "\<And>l. l \<le> PLAT_MAX_PWR_LVL e \<Longrightarrow> n < l \<Longrightarrow> req_state s l i = PSCI_LOCAL_STATE_RUN"
    and lvl: "suspend_lvl s i = PSCI_INVALID_PWR_LVL e"
  shows "psci_inv e (ph(i := Running), s')"
proof -
  have s: "wf_tree e s" "requests_honoured e s" using inv by (auto simp: psci_inv_def)
  note D = run_restoredD[OF rr]
  have "phase_ok e s' j (ph j)" if "j < PLATFORM_CORE_COUNT e" "j \<noteq> i" for j
    using inv that phase_ok_cong[of s' j s] D(2,4,5,6) by (auto simp: psci_inv_def)
  moreover have "phase_ok e s' i Running"
    using D(2,4,5,6) above lvl by (auto simp: phase_ok_def not_le)
  ultimately show ?thesis
    using s inv run_restored_honoured[OF s(1) i s(2) rr] wf_tree_shape[OF D(1)] ops
    by (auto simp: psci_inv_def)
qed

lemma inv_cpu_on:
  assumes inv: "psci_inv e (ph, s)" and op: "psci_cpu_on e i t pc ctx s = Some (rc, s')"
  shows "psci_inv e (ph, s')"
proof -
  from op consider "core s' = core s" | u ep where "core u = core s" "psci_cpu_on_start e i t ep u = Some (rc, s')"
    by (auto simp: psci_cpu_on_def bind_Some_iff dest!: core_frame split: if_split_asm)
  then show ?thesis
  proof cases
    case 2
    let ?k = "nat (plat_core_pos_by_mpidr e t)"
    note r = cpu_on_start_result[OF 2(2) refl] and u = core_views[OF 2(1)]
    have st: "svc_step s (if rc = PSCI_E_SUCCESS then (aff s)(?k := AFF_STATE_ON_PENDING) else aff s)
        (cpu_state s) (suspend_lvl s) s'"
      using svc_step_core_left[OF r(6) 2(1)] unfolding u .
    have off: "aff s ?k = AFF_STATE_OFF" if "rc = PSCI_E_SUCCESS"
      using r(3,4) that by (cases "aff s ?k") (auto simp: u psci_err_defs)
    show ?thesis
    proof (rule inv_svc_step[OF inv st])
      fix j assume "phase_ok e s j (ph j)"
      then show "phase_ok e s' j (ph j)"
        using st off by (cases "j = ?k")
          (auto simp: svc_step_def phase_ok_def split: cpu_phase.splits if_split_asm)
    qed
  qed (rule inv_core[OF inv])
qed

lemma inv_off_locked:
  assumes inv: "psci_inv e (ph, s)" and i: "i < PLATFORM_CORE_COUNT e" "ph i = Running"
    and op: "psci_do_cpu_off_locked e i (PLAT_MAX_PWR_LVL e) s = Some (rc, info, s')"
  shows "psci_inv e (ph(i := if rc = 0 then Leaving info else Running), s')"
proof -
  have wf: "wf_tree e s" and ok: "phase_ok e s i Running" using inv i by (auto simp: psci_inv_def)
  note r = cpu_off_locked_result[OF wf i(1) order_refl op]
  show ?thesis
  proof (cases "rc = 0")
    case True
    with r have co: "coordinated e i (PLAT_MAX_PWR_LVL e) (psci_set_power_off_state e) s info s'"
      and ops: "psci_plat_pm_ops s' = psci_plat_pm_ops s" by auto
    have "phase_ok e s' i (Leaving info)"
      using ok coordinatedD(9,10)[OF co] by (simp add: phase_ok_def)
    then show ?thesis using True inv_coordinated[OF inv i(1) order_refl co ops] by simp
  next
    case False
    have "ph(i := Running) = ph" using i by auto
    then show ?thesis using False r inv_core[OF inv] by simp
  qed
qed

lemma inv_suspend:
  assumes inv: "psci_inv e (ph, s)" and i: "i < PLATFORM_CORE_COUNT e" "ph i = Running"
    and n: "n \<le> PLAT_MAX_PWR_LVL e" "length info = Suc (PLAT_MAX_PWR_LVL e)"
    and off: "pd \<noteq> 0 \<Longrightarrow> is_local_state_off e (info ! 0)"
    and op: "psci_cpu_suspend_enter e i ep n info pd s = Some (st, s')"
  shows "psci_inv e (ph(i := after_suspend n st), s')"
proof -
  have wf: "wf_tree e s" and ok: "phase_ok e s i Running" using inv i by (auto simp: psci_inv_def)
  note r = suspend_enter_result[OF wf i(1) n op]
  show ?thesis
  proof (cases "st = Skip_WFI")
    case True
    have "ph(i := Running) = ph" using i by auto
    then show ?thesis using True r inv_core[OF inv] by simp
  next
    case False
    with r obtain t info' where co: "coordinated e i n info s info' t"
      and ops: "psci_plat_pm_ops t = psci_plat_pm_ops s" and pd: "st = Powered_Down \<longleftrightarrow> pd \<noteq> 0"
      and sv: "svc_step t (aff s) (cpu_state t)
        (if st = Powered_Down then (suspend_lvl s)(i := n) else suspend_lvl s) s'" by auto
    have D: "aff t = aff s" "suspend_lvl t = suspend_lvl s" by (rule coordinatedD[OF co])+
    have req: "req_state t l i = PSCI_LOCAL_STATE_RUN" if "l \<le> PLAT_MAX_PWR_LVL e" "n < l" for l
      using ok that coordinatedD(2)[OF co, of l i] by (simp add: phase_ok_def)
    have "phase_ok e t i (Standby n)" using ok n D req by (simp add: phase_ok_def)
    then have *: "psci_inv e (ph(i := Standby n), t)" by (rule inv_coordinated[OF inv i(1) n(1) co ops])
    show ?thesis
    proof (rule inv_svc_step[OF * sv])
      fix j assume j: "phase_ok e t j ((ph(i := Standby n)) j)"
      show "phase_ok e s' j ((ph(i := after_suspend n st)) j)"
      proof (cases "j = i")
        case True
        have "is_local_state_off e (cpu_state t i)" if "st = Powered_Down"
          using off pd coordinatedD(8)[OF co, of i] that by simp
        then show ?thesis using True j sv D req False
          by (cases st) (auto simp: svc_step_def phase_ok_def)
      next
        case False
        then show ?thesis using j sv D phase_ok_cong[of s' j t] by (auto simp: svc_step_def)
      qed
    qed
  qed
qed

lemma inv_standby_wake:
  assumes inv: "psci_inv e (ph, s)" and i: "i < PLATFORM_CORE_COUNT e" "ph i = Standby n"
    and op: "psci_suspend_to_standby_finisher e i n s = Some s'"
  shows "psci_inv e (ph(i := Running), s')"
proof -
  have wf: "wf_tree e s" and ok: "phase_ok e s i (Standby n)" using inv i by (auto simp: psci_inv_def)
  have n: "n \<le> PLAT_MAX_PWR_LVL e" using ok by (simp add: phase_ok_def)
  show ?thesis using ok
    by (intro inv_run_restored[OF inv i(1) standby_finisher_result[OF wf i(1) n op]])
       (auto simp: phase_ok_def)
qed

lemma inv_warmboot:
  assumes inv: "psci_inv e (ph, s)" and i: "i < PLATFORM_CORE_COUNT e" "ph i = Stopped \<or> ph i = Suspended"
    and op: "psci_warmboot_entrypoint e i s = Some s'"
  shows "psci_inv e (ph(i := Running), s')"
proof -
  let ?n = "wake_level e s i"
  have wf: "wf_tree e s" and ok: "phase_ok e s i (ph i)" using inv i by (auto simp: psci_inv_def)
  have n: "?n \<le> PLAT_MAX_PWR_LVL e"
    using ok i by (auto simp: phase_ok_def wake_level_def)
  note r = warmboot_result[OF wf i(1) n op]
  then obtain t where sv: "svc_step s (aff s) (cpu_state s) (if aff s i = AFF_STATE_ON
             then (suspend_lvl s)(i := PSCI_INVALID_PWR_LVL e) else suspend_lvl s) t"
    and rr: "run_restored e i ?n t s'" by blast
  have ops: "psci_plat_pm_ops s' = psci_plat_pm_ops t" using r(3) sv by (simp add: svc_step_def)
  have same: "phase_ok e t j p = phase_ok e s j p" if "j \<noteq> i \<or> aff s i \<noteq> AFF_STATE_ON" for j p
    using sv that by (intro phase_ok_cong) (auto simp: svc_step_def)
  show ?thesis
  proof (cases "ph i = Stopped")
    case True
    then have a: "aff s i \<noteq> AFF_STATE_ON" "suspend_lvl s i = PSCI_INVALID_PWR_LVL e" "?n = PLAT_MAX_PWR_LVL e"
      using ok by (auto simp: phase_ok_def wake_level_def)
    have "psci_inv e (ph, t)" by (rule inv_svc_step[OF inv sv]) (use same a in auto)
    then show ?thesis
      by (rule inv_run_restored[OF _ i(1) rr ops]) (use a sv in \<open>auto simp: svc_step_def\<close>)
  next
    case False
    with i ok have a: "aff s i = AFF_STATE_ON" "?n = suspend_lvl s i" "?n \<le> PLAT_MAX_PWR_LVL e"
      "\<And>l. l \<le> PLAT_MAX_PWR_LVL e \<Longrightarrow> ?n < l \<Longrightarrow> req_state s l i = PSCI_LOCAL_STATE_RUN"
      by (auto simp: phase_ok_def wake_level_def PSCI_INVALID_PWR_LVL_def)
    have ti: "phase_ok e t i (Standby ?n)" using a sv by (auto simp: svc_step_def phase_ok_def)
    have "psci_inv e (ph(i := Standby ?n), t)"
      by (rule inv_svc_step[OF inv sv]) (use same ti in auto)
    then have "psci_inv e (ph(i := Standby ?n, i := Running), s')"
      by (rule inv_run_restored[OF _ i(1) rr ops]) (use a sv in \<open>auto simp: svc_step_def\<close>)
    then show ?thesis by simp
  qed
qed

lemma psci_step_inv:
  "psci_step e x y \<Longrightarrow> psci_inv e x \<Longrightarrow> psci_inv e y"
proof (induction rule: psci_step.induct)
  case (step_off_final i ph info s oc s')
  note r = cpu_off_final_result(1)[OF step_off_final(3)]
  show ?case
  proof (rule inv_svc_step[OF step_off_final(4) r])
    fix j assume "phase_ok e s j (ph j)"
    then show "phase_ok e s' j ((ph(i := Stopped)) j)"
      using r step_off_final(2) phase_ok_cong[of s' j s]
      by (cases "j = i") (auto simp: svc_step_def phase_ok_def)
  qed
next
  case (step_suspend_refused i ph ps pc ctx s rc s')
  from suspend_prepare_answer[OF step_suspend_refused(3)]
  obtain c where st: "svc_step s (aff s) c (suspend_lvl s) s'"
    and c: "c = cpu_state s \<or> c = (cpu_state s)(i := PSCI_LOCAL_STATE_RUN)" by blast
  show ?case
  proof (rule inv_svc_step[OF step_suspend_refused(4) st])
    fix j assume j: "phase_ok e s j (ph j)"
    have "cpu_state s' j = cpu_state s j"
      using c st j step_suspend_refused(2) by (cases "j = i") (auto simp: svc_step_def phase_ok_def)
    then show "phase_ok e s' j (ph j)" using j st phase_ok_cong[of s' j s] by (auto simp: svc_step_def)
  qed
next
  case (step_suspend i ph ps pc ctx s ep n info pd s1 st s')
  have ops: "psci_plat_pm_ops s = Some (plat_setup_psci_ops e)"
    using step_suspend(5) by (simp add: psci_inv_def)
  note p = suspend_prepare_start[OF ops step_suspend(3)]
  show ?case by (rule inv_suspend[OF inv_core[OF step_suspend(5) p(1)] step_suspend(1,2) p(2-4) step_suspend(4)])
qed (blast intro: inv_cpu_on inv_off_locked inv_standby_wake inv_warmboot inv_core core_smc_other)+

end

sublocale psci_platform \<subseteq> system: step_invariant "psci_step e" "psci_inv e"
  by unfold_locales (rule psci_step_inv)

subsection \<open>Boot\<close>

lemma to_run_loop_shape: "psci_to_run_loop n lvl p i s = Some s' \<Longrightarrow> shape s' = shape s"
proof (induction n arbitrary: lvl p s)
  case (Suc n)
  then obtain t where "psci_to_run_loop n (Suc lvl) (nd_parent_node (psci_non_cpu_pd_nodes s ! unat p)) i t = Some s'"
    "shape t = shape s"
    by (auto simp: bind_Some_iff set_non_cpu_pd_node_local_state_def psci_set_req_local_pwr_state_def
        shape_def map_upd_same)
  then show ?case using Suc.IH by metis
qed simp

lemma to_run_shape: "psci_set_pwr_domains_to_run i n s = Some s' \<Longrightarrow> shape s' = shape s"
  by (auto simp: psci_set_pwr_domains_to_run_def bind_Some_iff psci_set_aff_info_state_by_idx_def
      psci_set_cpu_local_state_def shape_def dest!: to_run_loop_shape)

definition boot_ok :: "psci_env \<Rightarrow> nat \<Rightarrow> psci_state \<Rightarrow> bool" where
  "boot_ok e me s \<longleftrightarrow> wf_tree e s \<and> me < PLATFORM_CORE_COUNT e \<and>
     (\<forall>i<PLATFORM_CORE_COUNT e. suspend_lvl s i = PSCI_INVALID_PWR_LVL e \<and>
        (i \<noteq> me \<longrightarrow> aff s i = AFF_STATE_OFF))"

definition boot_phases :: "nat \<Rightarrow> nat \<Rightarrow> cpu_phase" where
  "boot_phases me = (\<lambda>i. if i = me then Running else Stopped)"

context psci_platform
begin

lemma boot_inv:
  assumes op: "psci_setup e me s0 = Some s" and ok: "boot_ok e me s"
  shows "psci_inv e (boot_phases me, s)"
proof -
  let ?M = "PLAT_MAX_PWR_LVL e" and ?N = "PLATFORM_CORE_COUNT e"
  from op obtain t u where t: "psci_set_pwr_domains_to_run me ?M (psci_init_req_local_pwr_states e t) = Some u"
    and s: "s = (emit me Ev_program_mailbox (u\<lparr>psci_plat_pm_ops := Some (plat_setup_psci_ops e)\<rparr>))
               \<lparr>psci_caps := psci_init_caps e (plat_setup_psci_ops e)\<rparr>"
    by (auto simp: psci_setup_def bind_Some_iff Let_def)
  let ?t = "psci_init_req_local_pwr_states e t"
  have views: "shape s = shape u" "req_state s = req_state u" "node_state s = node_state u"
    "aff s = aff u" "cpu_state s = cpu_state u" "suspend_lvl s = suspend_lvl u"
    by (simp_all add: s emit_def shape_def fun_eq_iff req_state_def node_state_def aff_def
        cpu_state_def suspend_lvl_def)
  have wf: "wf_tree e s" "me < ?N" using ok by (auto simp: boot_ok_def)
  have wft: "wf_tree e ?t" using wf wf_tree_shape[OF views(1)] wf_tree_shape[OF to_run_shape[OF t]] by simp
  note D = run_restoredD[OF to_run_result(1)[OF wft wf(2) order_refl t]]
  have off: "PLAT_MAX_OFF_STATE e \<noteq> PSCI_LOCAL_STATE_RUN"
    using ret_less_off by (auto simp: PSCI_LOCAL_STATE_RUN_def)
  have req: "req_state s l j = (if j = me then PSCI_LOCAL_STATE_RUN else PLAT_MAX_OFF_STATE e)"
    if "0 < l" "l \<le> ?M" "j < ?N" for l j
    using that D(2)[of l j] by (simp add: views req_state_def psci_init_req_local_pwr_states_def)
  have "requests_honoured e s"
    using req off D(3) views anc_shape[OF views(1)] anc_shape[OF D(1)]
    by (auto simp: requests_honoured_def)
  moreover have "phase_ok e s i (boot_phases me i)" if "i < ?N" for i
    using that ok req D(4,5) views by (auto simp: phase_ok_def boot_phases_def boot_ok_def)
  moreover have "psci_plat_pm_ops s = Some (plat_setup_psci_ops e)" by (simp add: s emit_def)
  ultimately show ?thesis using wf by (simp add: psci_inv_def)
qed

lemma reachable_inv:
  assumes "psci_setup e me s0 = Some s" "boot_ok e me s" "(psci_step e)\<^sup>*\<^sup>* (boot_phases me, s) y"
  shows "psci_inv e y"
  using system.reach_inv[OF assms(3) boot_inv[OF assms(1,2)]] .

end

subsection \<open>Locks, and the absence of panics\<close>

lemma lock_loop_emit [simp]:
  "psci_non_cpu_pd_nodes (emit me ev s) = psci_non_cpu_pd_nodes s"
  "psci_cpu_pd_nodes (emit me ev s) = psci_cpu_pd_nodes s"
  "psci_svc_cpu_data (emit me ev s) = psci_svc_cpu_data s"
  "psci_plat_pm_ops (emit me ev s) = psci_plat_pm_ops s"
  "psci_spd_pm (emit me ev s) = psci_spd_pm s"
  "psci_log (emit me ev s) = psci_log s @ [(me, ev)]"
  by (simp_all add: emit_def)

definition lock_events :: "nat \<Rightarrow> (nat \<Rightarrow> psci_event) \<Rightarrow> psci_state \<Rightarrow> nat list \<Rightarrow> psci_log" where
  "lock_events me ev s qs = map (\<lambda>q. (me, ev (lock_index (psci_non_cpu_pd_nodes s ! q)))) qs"

lemma lock_events_emit [simp]: "lock_events me ev (emit i x s) = lock_events me ev s"
  by (simp add: lock_events_def fun_eq_iff)

lemma psci_acquire_loop_eq:
  "path_ok s p n \<Longrightarrow> psci_acquire_loop me n p s =
     Some (s\<lparr>psci_log := psci_log s @ lock_events me Ev_lock_get s (path (parents s) p n)\<rparr>)"
proof (induction n arbitrary: p s)
  case (Suc n)
  let ?q = "unat p" let ?s1 = "emit me (Ev_lock_get (lock_index (psci_non_cpu_pd_nodes s ! ?q))) s"
  have "psci_acquire_loop me (Suc n) p s =
      psci_acquire_loop me n (nd_parent_node (psci_non_cpu_pd_nodes s ! ?q)) ?s1"
    using Suc.prems by (simp add: psci_lock_get_def)
  also have "\<dots> = Some (?s1\<lparr>psci_log := psci_log ?s1 @ lock_events me Ev_lock_get ?s1
      (path (parents ?s1) (nd_parent_node (psci_non_cpu_pd_nodes s ! ?q)) n)\<rparr>)"
    using Suc.prems by (intro Suc.IH) simp
  also have "\<dots> = Some (s\<lparr>psci_log := psci_log s @ lock_events me Ev_lock_get s (path (parents s) p (Suc n))\<rparr>)"
    using Suc.prems by (simp add: emit_def lock_events_def)
  finally show ?case .
qed (simp add: lock_events_def)

lemma psci_release_loop_eq:
  "n \<le> length ps \<Longrightarrow> \<forall>p\<in>set ps. unat p < length (psci_non_cpu_pd_nodes s) \<Longrightarrow>
   psci_release_loop me n ps s =
     Some (s\<lparr>psci_log := psci_log s @ lock_events me Ev_lock_release s (rev (map unat (take n ps)))\<rparr>)"
proof (induction n arbitrary: s)
  case (Suc n)
  let ?q = "unat (ps ! n)"
  let ?s1 = "emit me (Ev_lock_release (lock_index (psci_non_cpu_pd_nodes s ! ?q))) s"
  have "psci_release_loop me (Suc n) ps s = psci_release_loop me n ps ?s1"
    using Suc.prems by (simp add: psci_lock_release_def)
  also have "\<dots> = Some (?s1\<lparr>psci_log := psci_log ?s1 @ lock_events me Ev_lock_release ?s1 (rev (map unat (take n ps)))\<rparr>)"
    using Suc.prems by (intro Suc.IH) auto
  also have "\<dots> = Some (s\<lparr>psci_log := psci_log s @ lock_events me Ev_lock_release s (rev (map unat (take (Suc n) ps)))\<rparr>)"
    using Suc.prems by (simp add: emit_def lock_events_def take_Suc_conv_app_nth)
  finally show ?case .
qed (simp add: lock_events_def)

lemma cpu_parent_nth:
  assumes "wf_tree e s" "i < PLATFORM_CORE_COUNT e"
  shows "i < length (psci_cpu_pd_nodes s)" "cpu_parent_node (psci_cpu_pd_nodes s ! i) = cpu_parent s i"
  using assms by (simp_all add: wf_tree_def cpu_parent_def)

lemma acquire_locks_eq:
  assumes "wf_tree e s" "i < PLATFORM_CORE_COUNT e" "n \<le> PLAT_MAX_PWR_LVL e"
  shows "psci_acquire_pwr_domain_locks me n i s =
    Some (s\<lparr>psci_log := psci_log s @ lock_events me Ev_lock_get s (map (anc s i) [1..<Suc n])\<rparr>)"
  using psci_acquire_loop_eq[OF wf_tree_path_ok[OF assms]] cpu_parent_nth[OF assms(1,2)]
  by (simp add: psci_acquire_pwr_domain_locks_def path_anc del: upt_Suc)

lemma release_locks_eq:
  assumes "wf_tree e s" "i < PLATFORM_CORE_COUNT e" "n \<le> PLAT_MAX_PWR_LVL e"
  shows "psci_release_pwr_domain_locks me n i s =
    Some (s\<lparr>psci_log := psci_log s @ lock_events me Ev_lock_release s (rev (map (anc s i) [1..<Suc n]))\<rparr>)"
proof -
  let ?ps = "map (node_up (parents s) (cpu_parent s i)) [0..<n]"
  have m: "map unat ?ps = map (anc s i) [1..<Suc n]"
    using path_anc[of s i n] by (simp add: path_def o_def)
  have "psci_get_parent_pwr_domain_nodes i n s = Some ?ps"
    using psci_parent_nodes_loop_eq[OF wf_tree_path_ok[OF assms]] cpu_parent_nth[OF assms(1,2)]
    by (simp add: psci_get_parent_pwr_domain_nodes_def)
  moreover have "\<forall>p\<in>set ?ps. unat p < length (psci_non_cpu_pd_nodes s)"
    using wf_tree_path_ok[OF assms] by (simp add: path_def)
  ultimately show ?thesis
    using psci_release_loop_eq[of n ?ps s me] m
    by (simp add: psci_release_pwr_domain_locks_def del: upt_Suc map_map)
qed

lemma psci_get_target_loop_eq:
  "path_ok s p n \<Longrightarrow> lvl + n \<le> length info \<Longrightarrow>
   psci_get_target_loop n lvl p info s =
     Some (take lvl info @ map (node_state s) (path (parents s) p n) @ drop (lvl + n) info)"
proof (induction n arbitrary: lvl p info)
  case (Suc n)
  have t: "take (Suc lvl) (info[lvl := v]) = take lvl info @ [v]" for v
    using Suc.prems by (simp add: take_Suc_conv_app_nth)
  show ?case using Suc.prems
    by (simp add: get_non_cpu_pd_node_local_state_def Suc.IH t node_state_def)
qed simp

lemma get_target_states_eq:
  assumes "wf_tree e s" "i < PLATFORM_CORE_COUNT e" "n \<le> PLAT_MAX_PWR_LVL e"
    "length info = Suc (PLAT_MAX_PWR_LVL e)"
  shows "psci_get_target_local_pwr_states e i n info s =
    Some (cpu_state s i # map (\<lambda>l. node_state s (anc s i l)) [1..<Suc n]
            @ replicate (PLAT_MAX_PWR_LVL e - n) PSCI_LOCAL_STATE_RUN)"
proof -
  have i: "i < length (psci_svc_cpu_data s)" using assms by (simp add: wf_tree_def)
  have "take 1 (info[0 := c]) = [c]" for c using assms(4) by (cases info) auto
  then show ?thesis
    using psci_get_target_loop_eq[OF wf_tree_path_ok[OF assms(1-3)], of 1 "info[0 := cpu_state s i]"]
      cpu_parent_nth[OF assms(1,2)] i assms(3,4)
    by (simp add: psci_get_target_local_pwr_states_def psci_get_cpu_local_state_by_idx_def
        cpu_state_def PSCI_CPU_PWR_LVL_def path_anc o_def del: upt_Suc)
qed


lemma core_log [simp]: "core (s\<lparr>psci_log := x\<rparr>) = core s"
  by (simp add: core_def)

lemma set_suspend_lvl_total:
  "i < length (psci_svc_cpu_data s) \<Longrightarrow> \<exists>s'. psci_set_suspend_pwrlvl i l s = Some s'"
  by (simp add: psci_set_suspend_pwrlvl_def)

lemma wf_tree_len: "wf_tree e s \<Longrightarrow> i < PLATFORM_CORE_COUNT e \<Longrightarrow> i < length (psci_svc_cpu_data s)"
  by (simp add: wf_tree_def)

lemma find_max_off_cpu:
  assumes len: "length info = Suc (PLAT_MAX_PWR_LVL e)" and off: "is_local_state_off e (info ! 0)"
  shows "\<exists>l\<le>PLAT_MAX_PWR_LVL e. psci_find_max_off_lvl e info = Some l"
proof -
  define M where "M = PLAT_MAX_PWR_LVL e"
  define h where "h = highest (is_local_state_off e) (PSCI_INVALID_PWR_LVL e) (Suc M) info"
  have "h < Suc M"
    using highest_cases[of "Suc M" "is_local_state_off e" info "PSCI_INVALID_PWR_LVL e"] off
    unfolding h_def by (metis zero_less_Suc)
  moreover have "psci_find_max_off_lvl e info = Some h"
    unfolding psci_find_max_off_lvl_def h_def M_def using len by (intro psci_find_max_off_loop_eq) simp
  ultimately show ?thesis unfolding M_def by (auto simp: less_Suc_eq_le)
qed

context psci_platform
begin

lemma cpu_on_finish_total:
  assumes "psci_plat_pm_ops s = Some ops" "pwr_domain_on_finish ops"
    and "aff s i = AFF_STATE_ON_PENDING" "i < length (psci_svc_cpu_data s)" "i < length (psci_cpu_pd_nodes s)"
  shows "\<exists>s'. psci_cpu_on_finish e i info s = Some s'"
  using assms by (auto simp: psci_cpu_on_finish_def Let_def psci_get_aff_info_state_by_idx_def aff_def
      spd_call_def split: option.split)

lemma cpu_suspend_finish_total:
  assumes "psci_plat_pm_ops s = Some ops" "pwr_domain_suspend_finish ops"
    and "aff s i = AFF_STATE_ON" "i < length (psci_svc_cpu_data s)"
    and info: "length info = Suc (PLAT_MAX_PWR_LVL e)" "is_local_state_off e (info ! 0)"
  shows "\<exists>s'. psci_cpu_suspend_finish e i info s = Some s'"
proof -
  obtain l where "l \<le> PLAT_MAX_PWR_LVL e" "psci_find_max_off_lvl e info = Some l"
    using find_max_off_cpu[OF info] by blast
  then show ?thesis using assms
    by (auto simp: psci_cpu_suspend_finish_def Let_def psci_get_aff_info_state_by_idx_def aff_def
      psci_set_suspend_pwrlvl_def PSCI_CPU_PWR_LVL_def PSCI_INVALID_PWR_LVL_def split: option.split)
qed

lemma warmboot_total:
  assumes inv: "psci_inv e (ph, s)" and i: "i < PLATFORM_CORE_COUNT e" and stat: "\<not> ENABLE_PSCI_STAT e"
    and ph: "ph i = Stopped \<and> aff s i = AFF_STATE_ON_PENDING \<and> pwr_domain_on_finish (plat_setup_psci_ops e) \<or>
      ph i = Suspended \<and> pwr_domain_suspend_finish (plat_setup_psci_ops e)"
  shows "\<exists>s'. psci_warmboot_entrypoint e i s = Some s'"
proof -
  let ?n = "wake_level e s i" and ?a = "aff s i"
  have wf: "wf_tree e s" and ops: "psci_plat_pm_ops s = Some (plat_setup_psci_ops e)"
    and ok: "phase_ok e s i (ph i)" using inv i by (auto simp: psci_inv_def)
  have n: "?n \<le> PLAT_MAX_PWR_LVL e" using ok ph by (auto simp: phase_ok_def wake_level_def)
  have a: "?a \<noteq> AFF_STATE_OFF" using ok ph by (auto simp: phase_ok_def)
  let ?r = "replicate (Suc (PLAT_MAX_PWR_LVL e)) PSCI_LOCAL_STATE_RUN"
  obtain s1 where s1: "psci_acquire_pwr_domain_locks i ?n i s = Some s1" and c1: "core s1 = core s"
    using acquire_locks_eq[OF wf i n] by simp
  have wf1: "wf_tree e s1" using wf core_views(8)[OF c1] by simp
  define info where "info = cpu_state s1 i # map (\<lambda>l. node_state s1 (anc s1 i l)) [1..<Suc ?n]
            @ replicate (PLAT_MAX_PWR_LVL e - ?n) PSCI_LOCAL_STATE_RUN"
  have get: "psci_get_target_local_pwr_states e i ?n ?r s1 = Some info"
    unfolding info_def using get_target_states_eq[OF wf1 i n] by simp
  have len: "length info = Suc (PLAT_MAX_PWR_LVL e)" using n by (simp add: info_def del: upt_Suc)
  have ops1: "psci_plat_pm_ops s1 = Some (plat_setup_psci_ops e)" using ops core_views(9)[OF c1] by simp
  have fin: "\<exists>s3. (if ?a = AFF_STATE_ON_PENDING then psci_cpu_on_finish e i info s1
      else psci_cpu_suspend_finish e i info s1) = Some s3"
  proof (cases "ph i = Suspended")
    case True
    then have "is_local_state_off e (info ! 0)" "?a = AFF_STATE_ON"
      using ok by (auto simp: phase_ok_def info_def core_views[OF c1])
    then show ?thesis
      using cpu_suspend_finish_total[OF ops1 _ _ wf_tree_len[OF wf1 i] len] ph True
      by (simp add: core_views[OF c1])
  next
    case False
    then show ?thesis
      using cpu_on_finish_total[OF ops1 _ _ wf_tree_len[OF wf1 i] cpu_parent_nth(1)[OF wf1 i]] ph
      by (simp add: core_views[OF c1])
  qed
  then obtain s3 where s3: "(if ?a = AFF_STATE_ON_PENDING then psci_cpu_on_finish e i info s1
      else psci_cpu_suspend_finish e i info s1) = Some s3" ..
  have "shape s3 = shape s1"
  proof (cases "?a = AFF_STATE_ON_PENDING")
    case True
    then have "psci_cpu_on_finish e i info s1 = Some s3" using s3 by simp
    then have "core s3 = core s1" by (blast dest: cpu_on_finish_result)
    then show ?thesis by (rule core_views)
  next
    case False
    then have "psci_cpu_suspend_finish e i info s1 = Some s3" using s3 by simp
    from cpu_suspend_finish_result(1)[OF this] show ?thesis by (simp add: svc_step_def)
  qed
  from wf_tree_shape[OF this] have wf3: "wf_tree e s3" using wf1 by simp
  obtain s4 where s4: "psci_set_pwr_domains_to_run i ?n s3 = Some s4" and rr: "run_restored e i ?n s3 s4"
    using set_pwr_domains_to_run_spec[OF wf3 i n] by blast
  have wf4: "wf_tree e s4" using wf3 wf_tree_shape[OF run_restoredD(1)[OF rr]] by simp
  obtain s5 where s5: "psci_release_pwr_domain_locks i ?n i s4 = Some s5"
    using release_locks_eq[OF wf4 i n] by simp
  have l: "i < length (psci_svc_cpu_data s)" by (rule wf_tree_len[OF wf i])
  have pre: "psci_get_aff_info_state_by_idx i s = Some ?a" "get_power_on_target_pwrlvl e i s = Some ?n"
    "assert_c (?a \<noteq> AFF_STATE_OFF) = Some ()" using l a by simp_all
  have "psci_warmboot_entrypoint e i s = Some s5"
    unfolding psci_warmboot_entrypoint_def pre Option.bind.bind_lunit s1 get if_stat_def
    using stat s3 s4 s5 by simp
  then show ?thesis ..
qed

end

subsection \<open>Turning a CPU off\<close>

lemma lock_events_shape:
  assumes "shape s' = shape s" "\<forall>q\<in>set qs. q < length (psci_non_cpu_pd_nodes s)"
  shows "lock_events me ev s' qs = lock_events me ev s qs"
proof -
  have m: "map node_shape (psci_non_cpu_pd_nodes s') = map node_shape (psci_non_cpu_pd_nodes s)"
    using assms(1) by (simp add: shape_def)
  have "lock_index (psci_non_cpu_pd_nodes s' ! q) = lock_index (psci_non_cpu_pd_nodes s ! q)"
    if "q \<in> set qs" for q
  proof -
    have "node_shape (psci_non_cpu_pd_nodes s' ! q) = node_shape (psci_non_cpu_pd_nodes s ! q)"
      using m assms(2) that by (metis length_map nth_map)
    then show ?thesis by (simp add: node_shape_def)
  qed
  then show ?thesis by (simp add: lock_events_def)
qed

lemma anc_in_range:
  assumes "wf_tree e s" "i < PLATFORM_CORE_COUNT e" "n \<le> PLAT_MAX_PWR_LVL e"
  shows "\<forall>q\<in>set (map (anc s i) [1..<Suc n]). q < length (psci_non_cpu_pd_nodes s)"
  using wf_tree_path_ok[OF assms] by (simp add: path_anc del: upt_Suc)

definition held_locks :: "psci_state \<Rightarrow> nat \<Rightarrow> nat \<Rightarrow> nat list" where
  "held_locks s i n = map (anc s i) [1..<Suc n]"

context psci_platform
begin

lemma cpu_off_denied_exec:
  assumes wf: "wf_tree e s" "i < PLATFORM_CORE_COUNT e" "n \<le> PLAT_MAX_PWR_LVL e"
    and ops: "psci_plat_pm_ops s = Some ops" "pwr_domain_off ops"
    and s1: "psci_acquire_pwr_domain_locks i n i s = Some s1" and rc: "fst (spd_svc_off i s1) = rc" "rc \<noteq> 0"
  obtains info s3 where "psci_do_cpu_off_locked e i n s = Some (rc, info, s3)" "core s3 = core s"
proof -
  have c2: "core (snd (spd_svc_off i s1)) = core s" using core_locks(1)[OF s1] by simp
  have wf2: "wf_tree e (snd (spd_svc_off i s1))" using wf core_views(8)[OF c2] by simp
  obtain s3 where s3: "psci_release_pwr_domain_locks i n i (snd (spd_svc_off i s1)) = Some s3"
    using release_locks_eq[OF wf2 wf(2,3)] by simp
  have "psci_do_cpu_off_locked e i n s = Some (rc, psci_set_power_off_state e, s3)"
    using ops s1 s3 rc by (simp add: psci_do_cpu_off_locked_def split_def)
  moreover have "core s3 = core s" using core_locks(2)[OF s3] c2 by simp
  ultimately show thesis by (rule that)
qed

lemma cpu_off_exec:
  assumes wf: "wf_tree e s" "i < PLATFORM_CORE_COUNT e" "n \<le> PLAT_MAX_PWR_LVL e" and stat: "\<not> ENABLE_PSCI_STAT e"
    and ops: "psci_plat_pm_ops s = Some ops" "pwr_domain_off ops"
    and s1: "psci_acquire_pwr_domain_locks i n i s = Some s1" and rc: "fst (spd_svc_off i s1) = 0"
  obtains info s3 l where "psci_do_cpu_off_locked e i n s = Some (0, info, s3)"
    "coordinated e i n (psci_set_power_off_state e) s info s3" "psci_plat_pm_ops s3 = Some ops"
    "psci_find_max_off_lvl e info = Some l"
    "psci_log s3 = psci_log (snd (spd_svc_off i s1)) @
         [(i, if HW_ASSISTED_COHERENCY e then Ev_prepare_cpu_pwr_dwn l else Ev_do_pwrdown_cache_maintenance l), (i, Ev_pwr_domain_off info)] @
         lock_events i Ev_lock_release s (rev (held_locks s i n))"
proof -
  let ?s2 = "snd (spd_svc_off i s1)" and ?off = "psci_set_power_off_state e"
  have c2: "core ?s2 = core s" using core_locks(1)[OF s1] by simp
  have wf2: "wf_tree e ?s2" using wf core_views(8)[OF c2] by simp
  have len: "length ?off = Suc (PLAT_MAX_PWR_LVL e)" by (simp add: psci_set_power_off_state_def)
  obtain info t where t: "psci_do_state_coordination e i n ?off ?s2 = Some (info, t)"
    and co: "coordinated e i n ?off ?s2 info t"
    and eq: "\<exists>rq svc nds. t = ?s2\<lparr>psci_req_local_pwr_states := rq, psci_svc_cpu_data := svc,
                              psci_non_cpu_pd_nodes := nds\<rparr>"
    by (rule state_coordination_spec[OF coordinator wf2 wf(2,3) len])
  have tops: "psci_plat_pm_ops t = Some ops" "psci_log t = psci_log ?s2"
    using eq ops core_views(9)[OF c2] by auto
  have "is_local_state_off e (info ! 0)"
    using coordinatedD(6)[OF co] ret_less_off
    by (simp add: psci_set_power_off_state_def is_local_state_off_def)
  then obtain l where l: "psci_find_max_off_lvl e info = Some l"
    using find_max_off_cpu[of info e] coordinatedD(7)[OF co] len by auto
  let ?t1 = "emit i (Ev_pwr_domain_off info) (psci_do_pwrdown_sequence e i l t)"
  have ct: "core ?t1 = core t" by simp
  have sh: "shape ?t1 = shape s"
    using core_views(1)[OF ct] coordinatedD(1)[OF co] core_views(1)[OF c2] by simp
  have wft: "wf_tree e ?t1" using wf wf_tree_shape[OF sh] by simp
  define s3 where "s3 = ?t1\<lparr>psci_log := psci_log ?t1 @
     lock_events i Ev_lock_release ?t1 (rev (map (anc ?t1 i) [1..<Suc n]))\<rparr>"
  have rel: "psci_release_pwr_domain_locks i n i ?t1 = Some s3"
    unfolding s3_def by (rule release_locks_eq[OF wft wf(2,3)])
  have "psci_do_cpu_off_locked e i n s = Some (0, info, s3)"
    using ops s1 rc t l rel stat by (simp add: psci_do_cpu_off_locked_def split_def if_stat_def)
  moreover have "coordinated e i n ?off s info s3"
    using co coordinated_core[OF c2, of t s3] by (simp add: s3_def)
  moreover have "psci_plat_pm_ops s3 = Some ops"
    using tops by (simp add: s3_def psci_do_pwrdown_sequence_def)
  moreover have "psci_log s3 = psci_log ?s2 @
         [(i, if HW_ASSISTED_COHERENCY e then Ev_prepare_cpu_pwr_dwn l else Ev_do_pwrdown_cache_maintenance l), (i, Ev_pwr_domain_off info)] @
         lock_events i Ev_lock_release s (rev (held_locks s i n))"
  proof -
    have le: "lock_events i Ev_lock_release ?t1 (rev (map (anc ?t1 i) [1..<Suc n])) =
        lock_events i Ev_lock_release s (rev (held_locks s i n))"
      unfolding held_locks_def anc_shape[OF sh]
      by (rule lock_events_shape[OF sh]) (use anc_in_range[OF wf] in simp)
    have "psci_log s3 = psci_log ?t1 @ lock_events i Ev_lock_release s (rev (held_locks s i n))"
      unfolding s3_def le by simp
    then show ?thesis using tops by (simp add: psci_do_pwrdown_sequence_def)
  qed
  ultimately show thesis using l by (intro that)
qed

lemma cpu_off_total:
  assumes inv: "psci_inv e (ph, s)" and i: "i < PLATFORM_CORE_COUNT e" "ph i = Running"
    and stat: "\<not> ENABLE_PSCI_STAT e" and hook: "pwr_domain_off (plat_setup_psci_ops e)"
    and spd: "\<And>pm f log. psci_spd_pm s = Some pm \<Longrightarrow> svc_off pm = Some f \<Longrightarrow>
      f log = PSCI_E_SUCCESS \<or> f log = PSCI_E_DENIED"
  shows "\<exists>oc s'. psci_cpu_off e i s = Some (oc, s') \<and>
    (oc = No_Return \<and> aff s' i = AFF_STATE_OFF \<or> oc = Returned PSCI_E_DENIED \<and> core s' = core s)"
proof -
  have wf: "wf_tree e s" and ops: "psci_plat_pm_ops s = Some (plat_setup_psci_ops e)"
    using inv by (auto simp: psci_inv_def)
  obtain s1 where s1: "psci_acquire_pwr_domain_locks i (PLAT_MAX_PWR_LVL e) i s = Some s1"
    using acquire_locks_eq[OF wf i(1) order_refl] by simp
  have "psci_spd_pm s1 = psci_spd_pm s" by (rule core_views(10)[OF core_locks(1)[OF s1]])
  then have rc: "fst (spd_svc_off i s1) = PSCI_E_SUCCESS \<or> fst (spd_svc_off i s1) = PSCI_E_DENIED"
    using spd by (auto simp: spd_svc_off_def split: option.split)
  show ?thesis
  proof (cases "fst (spd_svc_off i s1) = 0")
    case True
    obtain info s3 l where s3: "psci_do_cpu_off_locked e i (PLAT_MAX_PWR_LVL e) s = Some (0, info, s3)"
      and co: "coordinated e i (PLAT_MAX_PWR_LVL e) (psci_set_power_off_state e) s info s3"
      and o3: "psci_plat_pm_ops s3 = Some (plat_setup_psci_ops e)"
      by (rule cpu_off_exec[OF wf i(1) order_refl stat ops hook s1 True])
    have "wf_tree e s3" using wf wf_tree_shape[OF coordinatedD(1)[OF co]] by simp
    from wf_tree_len[OF this i(1)] obtain s4 where s4: "psci_set_aff_info_state_by_idx i AFF_STATE_OFF s3 = Some s4"
      by (auto simp: psci_set_aff_info_state_by_idx_def)
    note sv = set_aff_spec[OF s4]
    then have o4: "psci_plat_pm_ops s4 = Some (plat_setup_psci_ops e)" using o3 by (simp add: svc_step_def)
    let ?ev = "if pwr_domain_pwr_down_wfi (plat_setup_psci_ops e) then Ev_pwr_domain_pwr_down_wfi info
               else Ev_psci_power_down_wfi"
    have "psci_cpu_off e i s = Some (No_Return, emit i ?ev s4)"
      using s3 s4 o4 by (simp add: psci_cpu_off_def psci_do_cpu_off_def psci_do_cpu_off_final_def psci_err_defs)
    moreover have "aff (emit i ?ev s4) i = AFF_STATE_OFF"
      using sv core_views(4)[OF core_emit, of i ?ev s4] by (simp add: svc_step_def)
    ultimately show ?thesis by blast
  next
    case False
    obtain info s3 where "psci_do_cpu_off_locked e i (PLAT_MAX_PWR_LVL e) s = Some (PSCI_E_DENIED, info, s3)"
      "core s3 = core s"
      using cpu_off_denied_exec[OF wf i(1) order_refl ops hook s1 _ False] rc False by (auto simp: psci_err_defs)
    then show ?thesis
      by (simp add: psci_cpu_off_def psci_do_cpu_off_def psci_do_cpu_off_final_def psci_err_defs)
  qed
qed

end

end
