(* ===== verification/Mem_Region.thy ===== *)
theory Mem_Region
  imports TF_Arch
begin

section \<open>Memory regions\<close>

text \<open>
  \<^verbatim>\<open>lib/utils/mem_region.c\<close>: the check that a region is covered by one of the regions of a table,
  and the clearing of the regions with static and with dynamic mappings. A table is a list; the
  pointers of the C functions are never null. The memory is a function from addresses to
  bytes; \<^verbatim>\<open>zero_normalmem()\<close> writes zeros.
\<close>

record mem_region =
  mr_base :: u64
  nbytes :: u64

fun mem_region_chk_loop :: "u64 \<Rightarrow> u64 \<Rightarrow> mem_region list \<Rightarrow> int option" where
  "mem_region_chk_loop region_start region_end [] = Some (-1)"
| "mem_region_chk_loop region_start region_end (r # tbl) = do {
     assert_c (nbytes r > 0);
     assert_c (\<not> check_uptr_overflow (mr_base r) (nbytes r - 1));
     if region_start \<ge> mr_base r \<and> region_end \<le> mr_base r + (nbytes r - 1) then Some 0
     else mem_region_chk_loop region_start region_end tbl
   }"

definition mem_region_in_array_chk :: "mem_region list \<Rightarrow> u64 \<Rightarrow> u64 \<Rightarrow> int option" where
  "mem_region_in_array_chk tbl addr nb = do {
     assert_c (nb > 0);
     assert_c (\<not> check_uptr_overflow addr (nb - 1));
     mem_region_chk_loop addr (addr + (nb - 1)) tbl
   }"

type_synonym memory = "u64 \<Rightarrow> u8"

definition zero_normalmem :: "u64 \<Rightarrow> u64 \<Rightarrow> memory \<Rightarrow> memory" where
  "zero_normalmem a n m = (\<lambda>x. if x - a < n then 0 else m x)"

fun clear_mem_loop :: "mem_region list \<Rightarrow> memory \<Rightarrow> memory option" where
  "clear_mem_loop [] m = Some m"
| "clear_mem_loop (r # tbl) m = do {
     assert_c (nbytes r > 0);
     assert_c (\<not> check_uptr_overflow (mr_base r) (nbytes r - 1));
     clear_mem_loop tbl (zero_normalmem (mr_base r) (nbytes r) m)
   }"

definition clear_mem_regions :: "mem_region list \<Rightarrow> memory \<Rightarrow> memory option" where
  "clear_mem_regions tbl m = do {
     assert_c (tbl \<noteq> []);
     clear_mem_loop tbl m
   }"

subsection \<open>Regions as sets of addresses\<close>

definition region_addrs :: "u64 \<Rightarrow> u64 \<Rightarrow> nat set" where
  "region_addrs a n = {unat a ..< unat a + unat n}"

definition mem_region_ok :: "mem_region \<Rightarrow> bool" where
  "mem_region_ok r \<longleftrightarrow> nbytes r > 0 \<and> unat (mr_base r) + unat (nbytes r) \<le> 2 ^ 64"

lemma unat_last:
  assumes "(n :: u64) > 0" "\<not> check_uptr_overflow a (n - 1)"
  shows "unat (a + (n - 1)) = unat a + unat n - 1" "unat a + unat n \<le> 2 ^ 64" "0 < unat n"
proof -
  have n: "unat (n - 1) = unat n - 1" "0 < unat n"
    using assms(1) by (simp_all add: unat_minus_one word_gt_0 unat_gt_0)
  have b: "unat a + (unat n - 1) < 2 ^ 64" using assms(2) n by (simp add: check_uptr_overflow_iff)
  then have "unat (a + (n - 1)) = unat a + unat (n - 1)"
    by (simp add: unat_word_ariths n)
  then show "unat (a + (n - 1)) = unat a + unat n - 1" "unat a + unat n \<le> 2 ^ 64" "0 < unat n"
    using n b by auto
qed

lemma mem_region_ok_iff:
  "mem_region_ok r \<longleftrightarrow> nbytes r > 0 \<and> \<not> check_uptr_overflow (mr_base r) (nbytes r - 1)"
proof (cases "nbytes r > 0")
  case True
  then have "unat (nbytes r - 1) = unat (nbytes r) - 1" "0 < unat (nbytes r)"
    by (simp_all add: unat_minus_one word_gt_0 unat_gt_0)
  then show ?thesis using True by (auto simp: mem_region_ok_def check_uptr_overflow_iff)
qed (simp add: mem_region_ok_def)

lemma region_addrs_iff:
  assumes "mem_region_ok r"
  shows "unat x \<in> region_addrs (mr_base r) (nbytes r) \<longleftrightarrow> x - mr_base r < nbytes r"
proof (cases "mr_base r \<le> x")
  case True
  then have "unat (x - mr_base r) = unat x - unat (mr_base r)" by (rule unat_sub)
  then show ?thesis
    using True by (auto simp: region_addrs_def word_less_nat_alt word_le_nat_alt)
next
  case False
  have "unat (x - mr_base r) = unat x + 2 ^ 64 - unat (mr_base r)"
    using False unat_sub_if'[of x "mr_base r"] by (simp add: word_le_nat_alt)
  then show ?thesis
    using False assms
    by (auto simp: region_addrs_def mem_region_ok_def word_less_nat_alt word_le_nat_alt)
qed

lemma mem_region_chk_loop_eq:
  assumes "\<forall>r\<in>set tbl. mem_region_ok r"
  shows "mem_region_chk_loop a b tbl =
    Some (if \<exists>r\<in>set tbl. mr_base r \<le> a \<and> b \<le> mr_base r + (nbytes r - 1) then 0 else -1)"
  using assms by (induction tbl) (auto simp: mem_region_ok_iff)

lemma region_covered_iff:
  assumes "mem_region_ok r" "(n :: u64) > 0" "\<not> check_uptr_overflow a (n - 1)"
  shows "mr_base r \<le> a \<and> a + (n - 1) \<le> mr_base r + (nbytes r - 1) \<longleftrightarrow>
    region_addrs a n \<subseteq> region_addrs (mr_base r) (nbytes r)"
proof -
  have r: "nbytes r > 0" "\<not> check_uptr_overflow (mr_base r) (nbytes r - 1)"
    using assms(1) by (simp_all add: mem_region_ok_iff)
  show ?thesis
    using unat_last[OF assms(2,3)] unat_last[OF r]
    by (auto simp: word_le_nat_alt region_addrs_def atLeastLessThan_subset_iff)
qed

lemma clear_mem_loop_eq:
  "\<forall>r\<in>set tbl. mem_region_ok r \<Longrightarrow>
   clear_mem_loop tbl m =
     Some (\<lambda>x. if \<exists>r\<in>set tbl. unat x \<in> region_addrs (mr_base r) (nbytes r) then 0 else m x)"
proof (induction tbl arbitrary: m)
  case (Cons r tbl)
  then have "clear_mem_loop (r # tbl) m = clear_mem_loop tbl (zero_normalmem (mr_base r) (nbytes r) m)"
    by (simp add: mem_region_ok_iff)
  then show ?case
    using Cons by (auto simp: zero_normalmem_def region_addrs_iff fun_eq_iff)
qed simp

subsection \<open>The two operations\<close>

text \<open>(C31) The check of a memory range answers 0 exactly when all its addresses lie in one region of
  the table, and -1 otherwise; it never fails an assertion on a range that does not wrap around
  and a table of well-formed regions.\<close>

theorem mem_region_chk_exact:
  assumes "\<forall>r\<in>set tbl. mem_region_ok r" and "0 < n" and "unat a + unat n \<le> 2 ^ 64"
  shows "mem_region_in_array_chk tbl a n =
    Some (if \<exists>r\<in>set tbl. region_addrs a n \<subseteq> region_addrs (mr_base r) (nbytes r) then 0 else -1)"
proof -
  have o: "\<not> check_uptr_overflow a (n - 1)"
    using assms(2,3) mem_region_ok_iff[of "\<lparr>mr_base = a, nbytes = n\<rparr>"] by (simp add: mem_region_ok_def)
  show ?thesis
    using assms(1,2) o region_covered_iff[OF _ assms(2) o]
    by (auto simp: mem_region_in_array_chk_def mem_region_chk_loop_eq)
qed

theorem mem_region_chk_exact_witness:
  "mem_region_in_array_chk [\<lparr>mr_base = 0x1000, nbytes = 0x1000\<rparr>] 0x1800 0x100 = Some 0 \<and>
   mem_region_in_array_chk [\<lparr>mr_base = 0x1000, nbytes = 0x1000\<rparr>] 0x1800 0x1000 = Some (-1)"
  using mem_region_chk_exact[of "[\<lparr>mr_base = 0x1000, nbytes = 0x1000\<rparr>]" "0x100" "0x1800"]
    mem_region_chk_exact[of "[\<lparr>mr_base = 0x1000, nbytes = 0x1000\<rparr>]" "0x1000" "0x1800"]
  by (simp add: mem_region_ok_def region_addrs_def)

text \<open>(C32) Clearing a table of regions writes zero to every address of every region and to no
  other address.\<close>

theorem clear_mem_exact:
  assumes "\<forall>r\<in>set tbl. mem_region_ok r" and "tbl \<noteq> []"
  shows "clear_mem_regions tbl m =
     Some (\<lambda>x. if \<exists>r\<in>set tbl. unat x \<in> region_addrs (mr_base r) (nbytes r) then 0 else m x)"
  using assms clear_mem_loop_eq[OF assms(1)] by (simp add: clear_mem_regions_def)

theorem clear_mem_exact_witness:
  "map_option (\<lambda>m. (m 0x10ff, m 0x1100))
     (clear_mem_regions [\<lparr>mr_base = 0x1000, nbytes = 0x100\<rparr>] (\<lambda>x. 7)) = Some (0, 7)"
  using clear_mem_exact[of "[\<lparr>mr_base = 0x1000, nbytes = 0x100\<rparr>]" "\<lambda>x. 7"]
  by (simp add: mem_region_ok_def region_addrs_def)

end
