(* ===== verification/Plat_Arm.thy ===== *)
theory Plat_Arm
  imports PSCI_Effects Mem_Region
begin

section \<open>Platform ports: the FVP and the devkit E7\<close>

text \<open>
  The parts of the platform layer that the PSCI library calls: \<^verbatim>\<open>plat/arm/common/arm_pm.c\<close>,
  \<^verbatim>\<open>arm_nor_psci_mem_protect.c\<close>, the FVP port (\<^verbatim>\<open>plat/arm/board/fvp/fvp_pm.c\<close> and
  \<^verbatim>\<open>fvp_topology.c\<close>), and the port of the Alif devkit E7 (\<^verbatim>\<open>plat/arm/board/devkit_e7/e7_pm.c\<close>
  with the topology of the Corstone-700). The power controller, the NOR flash and the system
  registers are hardware: they are fields of the record of the board. The configuration is the
  default one of the build (two clusters of four CPUs on the FVP, no recommended state-id
  encoding).
\<close>

unbundle bit_operations_syntax

definition ARM_LOCAL_STATE_RUN :: plat_local_state where "ARM_LOCAL_STATE_RUN = 0"
definition ARM_LOCAL_STATE_RET :: plat_local_state where "ARM_LOCAL_STATE_RET = 1"
definition ARM_LOCAL_STATE_OFF :: plat_local_state where "ARM_LOCAL_STATE_OFF = 2"

lemmas arm_state_defs = ARM_LOCAL_STATE_RUN_def ARM_LOCAL_STATE_RET_def ARM_LOCAL_STATE_OFF_def

subsection \<open>ARM standard platforms\<close>

definition arm_validate_power_state ::
  "psci_env \<Rightarrow> u32 \<Rightarrow> psci_power_state \<Rightarrow> int \<times> psci_power_state" where
  "arm_validate_power_state e power_state rstate =
     (let pstate = psci_get_pstate_type e power_state;
          pwr_lvl = unat (psci_get_pstate_pwrlvl power_state)
      in if pwr_lvl > PLAT_MAX_PWR_LVL e then (PSCI_E_INVALID_PARAMS, rstate)
         else if pstate = PSTATE_TYPE_STANDBY \<and> pwr_lvl \<noteq> 0
         then (PSCI_E_INVALID_PARAMS, rstate)
         else let rstate =
                (if pstate = PSTATE_TYPE_STANDBY then rstate[0 := ARM_LOCAL_STATE_RET]
                 else foldl (\<lambda>r i. r[i := ARM_LOCAL_STATE_OFF]) rstate [0..<Suc pwr_lvl])
              in if psci_get_pstate_id e power_state \<noteq> 0
                 then (PSCI_E_INVALID_PARAMS, rstate)
                 else (PSCI_E_SUCCESS, rstate))"

definition ARM_NS_DRAM1_BASE :: u64 where "ARM_NS_DRAM1_BASE = 0x80000000"
definition ARM_NS_DRAM1_SIZE :: u64 where "ARM_NS_DRAM1_SIZE = 0x80000000 - 0x01000000"
definition ARM_DRAM2_BASE :: u64 where "ARM_DRAM2_BASE = 0x880000000"
definition PLAT_ARM_DRAM2_SIZE :: u64 where "PLAT_ARM_DRAM2_SIZE = 0x80000000"

lemmas arm_dram_defs =
  ARM_NS_DRAM1_BASE_def ARM_NS_DRAM1_SIZE_def ARM_DRAM2_BASE_def PLAT_ARM_DRAM2_SIZE_def

definition arm_validate_ns_entrypoint :: "u64 \<Rightarrow> int" where
  "arm_validate_ns_entrypoint entrypoint =
     (if entrypoint \<ge> ARM_NS_DRAM1_BASE \<and> entrypoint < ARM_NS_DRAM1_BASE + ARM_NS_DRAM1_SIZE
      then 0
      else if entrypoint \<ge> ARM_DRAM2_BASE \<and> entrypoint < ARM_DRAM2_BASE + PLAT_ARM_DRAM2_SIZE
      then 0 else -1)"

definition arm_validate_psci_entrypoint :: "u64 \<Rightarrow> int" where
  "arm_validate_psci_entrypoint entrypoint =
     (if arm_validate_ns_entrypoint entrypoint = 0 then PSCI_E_SUCCESS else PSCI_E_INVALID_ADDRESS)"

text \<open>The area that the non-secure images use is not protected.\<close>

definition DRAM1_NS_IMAGE_LIMIT :: u64 where
  "DRAM1_NS_IMAGE_LIMIT = (ARM_NS_DRAM1_BASE + 0x8000000) + push_bit 21 32"

definition arm_ram_ranges :: "mem_region list" where
  "arm_ram_ranges =
     [\<lparr>mr_base = DRAM1_NS_IMAGE_LIMIT,
       nbytes = (ARM_NS_DRAM1_BASE + ARM_NS_DRAM1_SIZE - 1) + 1 - DRAM1_NS_IMAGE_LIMIT\<rparr>,
      \<lparr>mr_base = ARM_DRAM2_BASE, nbytes = push_bit 30 1\<rparr>]"

definition arm_psci_mem_protect_chk :: "u64 \<Rightarrow> u64 \<Rightarrow> int option" where
  "arm_psci_mem_protect_chk base len = mem_region_in_array_chk arm_ram_ranges base len"

subsection \<open>The FVP\<close>

text \<open>
  \<open>psysr\<close> is the register of the power controller for a CPU, \<open>fvp_absent\<close> says for which MPIDR
  it reads as invalid, \<open>shifted_aff\<close> is the configuration flag for shifted affinity fields and
  \<open>mt_bit\<close> the multi-threading bit of the current CPU. The last fields are the memory
  protection word in the NOR flash and the results of the flash driver.
\<close>

record fvp_board =
  psysr :: "psci_log \<Rightarrow> u64 \<Rightarrow> u32"
  fvp_absent :: "u64 \<Rightarrow> bool"
  shifted_aff :: bool
  mt_bit :: u64
  mem_prot_word :: "psci_log \<Rightarrow> u32"
  nor_unlock :: "psci_log \<Rightarrow> int"
  nor_erase :: "psci_log \<Rightarrow> int"
  nor_word_program :: "psci_log \<Rightarrow> u64 \<Rightarrow> int"

definition FVP_CLUSTER_COUNT :: nat where "FVP_CLUSTER_COUNT = 2"
definition FVP_MAX_CPUS_PER_CLUSTER :: nat where "FVP_MAX_CPUS_PER_CLUSTER = 4"
definition FVP_MAX_PE_PER_CPU :: nat where "FVP_MAX_PE_PER_CPU = 1"

lemmas fvp_config_defs = FVP_CLUSTER_COUNT_def FVP_MAX_CPUS_PER_CLUSTER_def FVP_MAX_PE_PER_CPU_def

definition PSYSR_AFF_L0 :: u32 where "PSYSR_AFF_L0 = push_bit 29 1"
definition PSYSR_AFF_L1 :: u32 where "PSYSR_AFF_L1 = push_bit 30 1"
definition PSYSR_INVALID :: u32 where "PSYSR_INVALID = 0xffffffff"

definition fvp_power_domain_tree_desc :: "nat list" where
  "fvp_power_domain_tree_desc =
     [1, FVP_CLUSTER_COUNT] @ replicate FVP_CLUSTER_COUNT FVP_MAX_CPUS_PER_CLUSTER"

definition mpidr_aff :: "nat \<Rightarrow> u64 \<Rightarrow> nat" where
  "mpidr_aff n mpidr = unat (drop_bit (8 * n) mpidr AND 0xff)"

definition MPIDR_MT_MASK :: u64 where "MPIDR_MT_MASK = push_bit 24 1"

definition fvp_calc_core_pos :: "u64 \<Rightarrow> nat" where
  "fvp_calc_core_pos mpidr =
     (let x3 = (if mpidr AND MPIDR_MT_MASK = 0 then push_bit 8 mpidr else mpidr)
      in (mpidr_aff 2 x3 * FVP_MAX_CPUS_PER_CLUSTER + mpidr_aff 1 x3) * FVP_MAX_PE_PER_CPU
         + mpidr_aff 0 x3)"

definition fvp_core_pos_by_mpidr :: "fvp_board \<Rightarrow> u64 \<Rightarrow> int" where
  "fvp_core_pos_by_mpidr b mpidr =
     (let (thread_id, cpu_id, clus_id) =
        (if shifted_aff b then (mpidr_aff 0 mpidr, mpidr_aff 1 mpidr, mpidr_aff 2 mpidr)
         else (0, mpidr_aff 0 mpidr, mpidr_aff 1 mpidr))
      in if clus_id \<ge> FVP_CLUSTER_COUNT then -1
         else if cpu_id \<ge> FVP_MAX_CPUS_PER_CLUSTER then -1
         else if thread_id \<ge> FVP_MAX_PE_PER_CPU then -1
         else if fvp_absent b mpidr then -1
         else int (fvp_calc_core_pos (mpidr OR mt_bit b)))"

definition fvp_node_hw_state :: "fvp_board \<Rightarrow> psci_log \<Rightarrow> u64 \<Rightarrow> nat \<Rightarrow> int" where
  "fvp_node_hw_state b log target_cpu power_level =
     (if power_level \<noteq> 0 \<and> power_level \<noteq> 1 then PSCI_E_INVALID_PARAMS
      else let psysr = psysr b log target_cpu
           in if psysr = PSYSR_INVALID then PSCI_E_INVALID_PARAMS
              else if psysr AND (if power_level = 0 then PSYSR_AFF_L0 else PSYSR_AFF_L1) \<noteq> 0
              then HW_ON else HW_OFF)"

definition fvp_get_sys_suspend_power_state ::
  "psci_env \<Rightarrow> psci_power_state \<Rightarrow> psci_power_state" where
  "fvp_get_sys_suspend_power_state e rstate =
     foldl (\<lambda>r i. r[i := ARM_LOCAL_STATE_OFF]) rstate [0..<Suc (PLAT_MAX_PWR_LVL e)]"

definition fvp_validate_power_state ::
  "psci_env \<Rightarrow> u32 \<Rightarrow> psci_power_state \<Rightarrow> int \<times> psci_power_state" where
  "fvp_validate_power_state e power_state rstate =
     (let (rc, rstate) = arm_validate_power_state e power_state rstate
      in (rc, rstate[2 := ARM_LOCAL_STATE_RUN]))"

definition arm_psci_read_mem_protect :: "fvp_board \<Rightarrow> psci_log \<Rightarrow> int \<times> int" where
  "arm_psci_read_mem_protect b log = (0, if mem_prot_word b log = 1 then 1 else 0)"

definition arm_nor_psci_write_mem_protect :: "fvp_board \<Rightarrow> psci_log \<Rightarrow> u32 \<Rightarrow> int" where
  "arm_nor_psci_write_mem_protect b log val =
     (let enable = (if val \<noteq> 0 then 1 else 0)
      in if nor_unlock b log \<noteq> 0 then -1
         else if enable = 1 \<and> nor_erase b log \<noteq> 0 then -1
         else if nor_word_program b log enable \<noteq> 0 then -1
         else 0)"

text \<open>
  The hook that turns a CPU on waits until the power controller reports the CPU as off and
  always succeeds; the other hooks without a result drive the hardware only.
\<close>

definition fvp_psci_pm_ops :: "fvp_board \<Rightarrow> psci_env \<Rightarrow> plat_psci_ops" where
  "fvp_psci_pm_ops b e =
     \<lparr>cpu_standby = True,
      pwr_domain_on = Some (\<lambda>log mpidr. PSCI_E_SUCCESS),
      pwr_domain_off = True,
      pwr_domain_suspend_pwrdown_early = False,
      pwr_domain_suspend = True,
      pwr_domain_on_finish = True,
      pwr_domain_suspend_finish = True,
      pwr_domain_pwr_down_wfi = False,
      system_off = True,
      system_reset = True,
      validate_power_state = Some (\<lambda>log. fvp_validate_power_state e),
      validate_ns_entrypoint = Some (\<lambda>log. arm_validate_psci_entrypoint),
      get_sys_suspend_power_state = Some (\<lambda>log. fvp_get_sys_suspend_power_state e),
      get_pwr_lvl_state_idx = None,
      translate_power_state_by_mpidr = Some (\<lambda>log mpidr. arm_validate_power_state e),
      get_node_hw_state = Some (fvp_node_hw_state b),
      mem_protect_chk = Some (\<lambda>log. arm_psci_mem_protect_chk),
      read_mem_protect = Some (arm_psci_read_mem_protect b),
      write_mem_protect = Some (arm_nor_psci_write_mem_protect b),
      system_reset2 = None\<rparr>"

text \<open>The port, over the build options and the registers of \<open>e\<close>.\<close>

definition fvp_consts :: "psci_env \<Rightarrow> psci_env" where
  "fvp_consts e = e
     \<lparr>PLATFORM_CORE_COUNT := FVP_CLUSTER_COUNT * FVP_MAX_CPUS_PER_CLUSTER * FVP_MAX_PE_PER_CPU,
      PSCI_NUM_NON_CPU_PWR_DOMAINS := FVP_CLUSTER_COUNT + 1,
      PLAT_MAX_PWR_LVL := 2,
      PLAT_MAX_RET_STATE := ARM_LOCAL_STATE_RET,
      PLAT_MAX_OFF_STATE := ARM_LOCAL_STATE_OFF,
      PLAT_MAX_PWR_LVL_STATES := 2,
      PSCI_EXTENDED_STATE_ID := False,
      plat_get_power_domain_tree_desc := fvp_power_domain_tree_desc,
      coordinate := plat_get_target_pwr_state ARM_LOCAL_STATE_OFF\<rparr>"

definition fvp_env :: "fvp_board \<Rightarrow> psci_env \<Rightarrow> psci_env" where
  "fvp_env b e = (fvp_consts e)
     \<lparr>plat_core_pos_by_mpidr := fvp_core_pos_by_mpidr b,
      plat_setup_psci_ops := fvp_psci_pm_ops b (fvp_consts e)\<rparr>"

subsection \<open>The devkit E7\<close>

text \<open>
  The tree and the core positions of the Corstone-700 (\<^verbatim>\<open>corstone700_topology.c\<close>), with the
  weak \<^verbatim>\<open>plat_arm_calc_core_pos\<close> of \<^verbatim>\<open>arm_helpers.S\<close>, which the port does not override.
\<close>

definition e7_power_domain_tree_desc :: "nat list" where
  "e7_power_domain_tree_desc = [1, 1] @ replicate 1 2"

definition arm_calc_core_pos :: "u64 \<Rightarrow> u32" where
  "arm_calc_core_pos mpidr = ucast ((mpidr AND 0xff) + drop_bit 6 (mpidr AND 0xff00))"

definition e7_core_pos_by_mpidr :: "u64 \<Rightarrow> int" where
  "e7_core_pos_by_mpidr mpidr = sint (arm_calc_core_pos mpidr)"

definition e7_psci_pm_ops :: plat_psci_ops where
  "e7_psci_pm_ops =
     \<lparr>cpu_standby = False,
      pwr_domain_on = Some (\<lambda>log mpidr. PSCI_E_SUCCESS),
      pwr_domain_off = True,
      pwr_domain_suspend_pwrdown_early = False,
      pwr_domain_suspend = False,
      pwr_domain_on_finish = True,
      pwr_domain_suspend_finish = False,
      pwr_domain_pwr_down_wfi = False,
      system_off = True,
      system_reset = False,
      validate_power_state = None,
      validate_ns_entrypoint = None,
      get_sys_suspend_power_state = None,
      get_pwr_lvl_state_idx = None,
      translate_power_state_by_mpidr = None,
      get_node_hw_state = None,
      mem_protect_chk = None,
      read_mem_protect = None,
      write_mem_protect = None,
      system_reset2 = None\<rparr>"

definition e7_env :: "psci_env \<Rightarrow> psci_env" where
  "e7_env e = e
     \<lparr>PLATFORM_CORE_COUNT := 2,
      PSCI_NUM_NON_CPU_PWR_DOMAINS := 2,
      PLAT_MAX_PWR_LVL := 2,
      PLAT_MAX_RET_STATE := ARM_LOCAL_STATE_RET,
      PLAT_MAX_OFF_STATE := ARM_LOCAL_STATE_OFF,
      PLAT_MAX_PWR_LVL_STATES := 2,
      PSCI_EXTENDED_STATE_ID := False,
      plat_get_power_domain_tree_desc := e7_power_domain_tree_desc,
      plat_core_pos_by_mpidr := e7_core_pos_by_mpidr,
      plat_setup_psci_ops := e7_psci_pm_ops,
      coordinate := plat_get_target_pwr_state ARM_LOCAL_STATE_OFF\<rparr>"

subsection \<open>Both ports keep the contract\<close>

lemma length_foldl_upd [simp]: "length (foldl (\<lambda>r i. r[i := v]) r is) = length r"
  by (induction "is" arbitrary: r) auto

lemma foldl_upd_nth:
  "k < length r \<Longrightarrow> foldl (\<lambda>r i. r[i := v]) r [0..<n] ! k = (if k < n then v else r ! k)"
proof (induction n)
  case (Suc n)
  then show ?case by (cases "k = n") (auto simp: nth_list_update)
qed simp

lemma foldl_upd_all:
  "length r \<le> n \<Longrightarrow> foldl (\<lambda>r i. r[i := v]) r [0..<n] = replicate (length r) v"
  by (intro nth_equalityI) (auto simp: foldl_upd_nth)

lemma arm_validate_length [simp]: "length (snd (arm_validate_power_state e ps r)) = length r"
  by (simp add: arm_validate_power_state_def Let_def)

lemma arm_validate_off:
  assumes "fst (arm_validate_power_state e ps r) = PSCI_E_SUCCESS" "psci_get_pstate_type e ps \<noteq> 0"
    "r \<noteq> []"
  shows "snd (arm_validate_power_state e ps r) ! 0 = ARM_LOCAL_STATE_OFF"
  using assms
  by (auto simp: arm_validate_power_state_def Let_def PSTATE_TYPE_STANDBY_def psci_err_defs foldl_upd_nth
      simp del: upt_Suc split: if_split_asm)

lemma fvp_env_sel [simp]:
  "PLAT_MAX_PWR_LVL (fvp_env b e) = 2" "PLAT_MAX_RET_STATE (fvp_env b e) = ARM_LOCAL_STATE_RET"
  "PLAT_MAX_OFF_STATE (fvp_env b e) = ARM_LOCAL_STATE_OFF"
  "coordinate (fvp_env b e) = plat_get_target_pwr_state ARM_LOCAL_STATE_OFF"
  "plat_setup_psci_ops (fvp_env b e) = fvp_psci_pm_ops b (fvp_consts e)"
  "PLATFORM_CORE_COUNT (fvp_env b e) = 8" "PSCI_EXTENDED_STATE_ID (fvp_env b e) = False"
  by (simp_all add: fvp_env_def fvp_consts_def fvp_config_defs)

lemma pstate_type_fvp [simp]:
  "psci_get_pstate_type (fvp_env b e) = psci_get_pstate_type (fvp_consts e)"
  by (simp add: fun_eq_iff psci_get_pstate_type_def PSTATE_TYPE_SHIFT_def fvp_env_def)

interpretation fvp: psci_platform "fvp_env b e" for b e
proof (unfold_locales, goal_cases)
  case 1 then show ?case by (simp add: min_coord.coord_total)
next
  case 2 then show ?case by (simp add: min_coord.run_wins)
next
  case (3 f log ps info)
  then show ?case by (auto simp: fvp_psci_pm_ops_def fvp_validate_power_state_def split_def Let_def)
next
  case (4 f info log ps)
  then have "snd (arm_validate_power_state (fvp_consts e) ps info) ! 0 = ARM_LOCAL_STATE_OFF"
    by (intro arm_validate_off)
       (auto simp: fvp_psci_pm_ops_def fvp_validate_power_state_def split_def Let_def)
  then show ?case using 4
    by (auto simp: fvp_psci_pm_ops_def fvp_validate_power_state_def split_def Let_def is_local_state_off_def
        arm_state_defs)
next
  case (5 g log info)
  then show ?case by (auto simp: fvp_psci_pm_ops_def fvp_get_sys_suspend_power_state_def simp del: upt_Suc)
next
  case (6 g info st log)
  then have "g log info = replicate (length info) ARM_LOCAL_STATE_OFF"
    by (auto simp: fvp_psci_pm_ops_def fvp_get_sys_suspend_power_state_def fvp_consts_def
        foldl_upd_all simp del: upt_Suc foldl.simps)
  then show ?case using 6(3) by simp
next
  case 7 show ?case by (simp add: arm_state_defs)
qed

interpretation e7: psci_platform "e7_env e" for e
  by unfold_locales
     (auto simp: e7_env_def e7_psci_pm_ops_def arm_state_defs min_coord.coord_total min_coord.run_wins)

end
