(* ===== verification/E7_Run.thy ===== *)
theory E7_Run
  imports PSCI_System Plat_Arm
begin

section \<open>A run on the devkit\<close>

text \<open>
  A concrete environment for the devkit E7 port, its state after \<^verbatim>\<open>psci_setup()\<close> on CPU 0, and
  the facts about that state that the concrete instances of the properties start from. The
  registers the environment fixes have the values they have out of reset.
\<close>

definition bench :: psci_env where
  "bench = \<lparr>PLATFORM_CORE_COUNT = 0, PSCI_NUM_NON_CPU_PWR_DOMAINS = 0, PLAT_MAX_PWR_LVL = 0,
     PLAT_MAX_RET_STATE = 0, PLAT_MAX_OFF_STATE = 0, PLAT_MAX_PWR_LVL_STATES = 0,
     PSCI_EXTENDED_STATE_ID = False, ENABLE_PSCI_STAT = False, HW_ASSISTED_COHERENCY = False,
     plat_core_pos_by_mpidr = (\<lambda>_. -1), plat_get_power_domain_tree_desc = [],
     plat_setup_psci_ops = e7_psci_pm_ops, coordinate = plat_get_target_pwr_state 0,
     read_mpidr = of_nat, read_scr_el3 = (\<lambda>_ _. 0x400), read_sctlr_el1 = (\<lambda>_ _. 0),
     read_sctlr_el2 = (\<lambda>_ _. 0), read_isr_el1 = (\<lambda>_ _. 0), read_cntfrq_el0 = 1000000,
     pmf_timestamp = (\<lambda>_ _. 0), aff_update_lost = (\<lambda>_. False)\<rparr>"

definition devkit :: psci_env where
  "devkit = e7_env bench"

definition devkit_boot :: psci_state where
  "devkit_boot = the (psci_setup devkit 0 (psci_cold_state devkit))"

lemma devkit_platform: "psci_platform devkit"
  unfolding devkit_def by (rule e7.psci_platform_axioms)

lemma devkit_setup: "psci_setup devkit 0 (psci_cold_state devkit) = Some devkit_boot"
proof -
  have "psci_setup devkit 0 (psci_cold_state devkit) \<noteq> None" by code_simp
  then show ?thesis by (simp add: devkit_boot_def)
qed

lemma devkit_sizes [simp]: "PLATFORM_CORE_COUNT devkit = 2" "PLAT_MAX_PWR_LVL devkit = 2" "ENABLE_PSCI_STAT devkit = False"
  by (code_simp, code_simp, code_simp)

lemma devkit_states: "PLAT_MAX_RET_STATE devkit = 1" "PLAT_MAX_OFF_STATE devkit = 2"
  by (code_simp, code_simp)

lemma devkit_boot_data:
  "map (suspend_lvl devkit_boot) [0, 1] = [3, 3] \<and> map (aff devkit_boot) [0, 1] = [AFF_STATE_ON, AFF_STATE_OFF]"
  by code_simp

lemma devkit_boot_lengths:
  "length (psci_cpu_pd_nodes devkit_boot) = 2 \<and> length (psci_svc_cpu_data devkit_boot) = 2 \<and>
   map length (psci_req_local_pwr_states devkit_boot) = [2, 2]"
  by code_simp

lemma devkit_boot_domains:
  "domain_ok devkit devkit_boot 0 1" "domain_ok devkit devkit_boot 0 2" "domain_ok devkit devkit_boot 1 1" "domain_ok devkit devkit_boot 1 2"
  by (code_simp, code_simp, code_simp, code_simp)

lemma devkit_boot_ok: "boot_ok devkit 0 devkit_boot"
proof -
  have d: "domain_ok devkit devkit_boot i (Suc l)" if "i < 2" "l < 2" for i l
    using that devkit_boot_domains by (auto simp: less_2_cases_iff numeral_2_eq_2 less_Suc_eq)
  have r: "length (psci_req_local_pwr_states devkit_boot ! l) = 2" if "l < 2" for l
    using that devkit_boot_lengths by (auto simp: less_2_cases_iff map_eq_Cons_conv)
  have "wf_tree devkit devkit_boot"
    using d r devkit_boot_lengths by (auto simp: wf_tree_def dest: map_eq_imp_length_eq)
  moreover have "suspend_lvl devkit_boot i = PSCI_INVALID_PWR_LVL devkit \<and> (i \<noteq> 0 \<longrightarrow> aff devkit_boot i = AFF_STATE_OFF)"
    if "i < 2" for i
    using that devkit_boot_data by (auto simp: less_2_cases_iff PSCI_INVALID_PWR_LVL_def)
  ultimately show ?thesis by (simp add: boot_ok_def)
qed

lemma devkit_boot_inv: "psci_inv devkit (boot_phases 0, devkit_boot)"
  by (rule psci_platform.boot_inv[OF devkit_platform devkit_setup devkit_boot_ok])

end
