(* ===== verification/PSCI_Properties.thy ===== *)
theory PSCI_Properties
  imports PSCI_System E7_Run
begin

unbundle bit_operations_syntax

section \<open>PSCI: the properties of the library\<close>

text \<open>
  The statements about the whole library that its callers rely on, each with an instance on the
  devkit. The proofs apply the results of the theories of the components.
\<close>

subsection \<open>The system\<close>

text \<open>(C1) After boot, through any interleaving of the steps of the CPUs (turning CPUs on and off,
  suspending and waking them, every other call), a running CPU has all its power domains on: the
  local state of the CPU and of each of its ancestors in the tree is RUN. No CPU can turn off a
  domain that another CPU runs in.\<close>

theorem running_cpu_domains_on:
  assumes "psci_platform e"
    and "psci_setup e me s0 = Some s" and "boot_ok e me s"
    and "(psci_step e)\<^sup>*\<^sup>* (boot_phases me, s) (ph, t)"
    and "i < PLATFORM_CORE_COUNT e" and "ph i = Running"
  shows "cpu_state t i = PSCI_LOCAL_STATE_RUN \<and>
    (\<forall>l. 0 < l \<and> l \<le> PLAT_MAX_PWR_LVL e \<longrightarrow> node_state t (anc t i l) = PSCI_LOCAL_STATE_RUN)"
  using psci_platform.reachable_inv[OF assms(1-4)] assms(5,6)
  by (auto simp: psci_inv_def phase_ok_def requests_honoured_def)

theorem running_cpu_domains_on_witness:
  "\<exists>t. psci_step devkit (boot_phases 0, devkit_boot) (boot_phases 0, t) \<and>
     aff t 1 = AFF_STATE_ON_PENDING \<and> cpu_state t 0 = PSCI_LOCAL_STATE_RUN \<and>
     node_state t (anc t 0 2) = PSCI_LOCAL_STATE_RUN"
proof -
  define r where "r = psci_cpu_on devkit 0 1 0x80000000 7 devkit_boot"
  have "(case r of Some (rc, t) \<Rightarrow> rc = 0 \<and> aff t 1 = AFF_STATE_ON_PENDING | None \<Rightarrow> False)"
    unfolding r_def by code_simp
  then obtain rc t where r: "r = Some (rc, t)" "aff t 1 = AFF_STATE_ON_PENDING"
    by (auto split: option.splits)
  have st: "psci_step devkit (boot_phases 0, devkit_boot) (boot_phases 0, t)"
    by (rule step_cpu_on[OF _ _ r(1)[unfolded r_def]]) (simp_all add: boot_phases_def)
  note R = running_cpu_domains_on[OF devkit_platform devkit_setup devkit_boot_ok r_into_rtranclp[of "psci_step devkit", OF st], of 0]
  show ?thesis using st r(2) R by (auto simp: boot_phases_def)
qed

text \<open>(C2) Every step of the system keeps the invariant that ties the phase of a CPU to the data of
  the library: the shape of the tree, the hooks, that the state of a domain honours the requests
  to run of its CPUs, and the affinity state, suspend level and requests that belong to the phase.\<close>

theorem psci_step_keeps_inv:
  assumes "psci_platform e" and "psci_inv e (ph, s)" and "psci_step e (ph, s) (ph', s')"
  shows "psci_inv e (ph', s')"
  using psci_platform.psci_step_inv[OF assms(1)] assms(2,3) by blast

theorem psci_step_keeps_inv_witness:
  "\<exists>t. psci_step devkit (boot_phases 0, devkit_boot) ((boot_phases 0)(0 := Leaving [2, 2, 2]), t) \<and>
     psci_inv devkit ((boot_phases 0)(0 := Leaving [2, 2, 2]), t)"
proof -
  define r where "r = psci_do_cpu_off_locked devkit 0 2 devkit_boot"
  have "(case r of Some (rc, info, t) \<Rightarrow> rc = 0 \<and> info = [2, 2, 2] | None \<Rightarrow> False)"
    unfolding r_def by code_simp
  then obtain t where r: "r = Some (0, [2, 2, 2], t)" by (auto split: option.splits)
  have "psci_step devkit (boot_phases 0, devkit_boot)
      ((boot_phases 0)(0 := if (0 :: int) = 0 then Leaving [2, 2, 2] else Running), t)"
    by (rule step_off_locked) (use r in \<open>simp_all add: boot_phases_def r_def\<close>)
  then have st: "psci_step devkit (boot_phases 0, devkit_boot) ((boot_phases 0)(0 := Leaving [2, 2, 2]), t)"
    by simp
  show ?thesis using st psci_step_keeps_inv[OF devkit_platform devkit_boot_inv st] by blast
qed



subsection \<open>State coordination\<close>

text \<open>(C3) The state coordination of a CPU implements its specification: it returns, records the
  requests of the CPU and of no other, gives each ancestor of the CPU the state that the platform
  negotiates from the requests of all CPUs of that domain (and RUN above a domain that stays on),
  keeps the state of every other domain and every other CPU, and keeps the shape of the tree.\<close>

theorem state_coordination_refines:
  assumes "pwr_coordinator (coordinate e)" and "wf_tree e s" and "i < PLATFORM_CORE_COUNT e"
    and "n \<le> PLAT_MAX_PWR_LVL e" and "length info = Suc (PLAT_MAX_PWR_LVL e)"
  shows "\<exists>info' s'. psci_do_state_coordination e i n info s = Some (info', s') \<and>
    coordinated e i n info s info' s'"
  using state_coordination_spec[OF assms] by metis

theorem state_coordination_refines_witness:
  "\<exists>info' s'. psci_do_state_coordination devkit 0 2 [2, 2, 2] devkit_boot = Some (info', s') \<and>
     coordinated devkit 0 2 [2, 2, 2] devkit_boot info' s'"
proof -
  have "pwr_coordinator (coordinate devkit)" by (rule psci_platform.coordinator[OF devkit_platform])
  moreover have "wf_tree devkit devkit_boot" using devkit_boot_ok by (simp add: boot_ok_def)
  ultimately show ?thesis using state_coordination_refines[of devkit devkit_boot 0 2 "[2, 2, 2]"] by simp
qed

text \<open>The default coordination function of the platform layer is the minimum of the requests of
  the CPUs of a domain and the deepest state, so a request for a shallower state always wins.\<close>

theorem default_coordination_is_minimum:
  "plat_get_target_pwr_state m l rs n =
     (if 0 < n \<and> n \<le> length rs then Some (Min (insert m (set (take n rs)))) else None)"
  by (simp add: plat_get_target_pwr_state_def plat_get_target_loop_Min)

text \<open>(C29) The check of a suspend request accepts exactly the valid requests: some level is not
  RUN, no level is in a deeper category of state than a level below it, and a standby request has
  no level that is off. The check always returns.\<close>

theorem validate_suspend_req_exact:
  assumes "length info = Suc (PLAT_MAX_PWR_LVL e)"
  shows "psci_validate_suspend_req e info pd =
    Some (if suspend_req_valid e info pd then PSCI_E_SUCCESS else PSCI_E_INVALID_PARAMS)"
  by (rule validate_suspend_req_spec[OF assms])

theorem validate_suspend_req_exact_witness:
  "psci_validate_suspend_req devkit [2, 1, 0] 1 = Some PSCI_E_SUCCESS \<and>
   psci_validate_suspend_req devkit [1, 2, 0] 1 = Some PSCI_E_INVALID_PARAMS"
proof -
  have le2: "(\<forall>l\<le>2. P l) \<longleftrightarrow> P 0 \<and> P 1 \<and> P 2" for P :: "nat \<Rightarrow> bool"
    by (auto simp: le_Suc_eq numeral_2_eq_2)
  have "suspend_req_valid devkit [2, 1, 0] 1" "\<not> suspend_req_valid devkit [1, 2, 0] 1"
    by (auto simp: suspend_req_valid_def le2 devkit_states find_local_state_type_def
        is_local_state_run_def PSCI_LOCAL_STATE_RUN_def le_Suc_eq intro: exI[of _ 0] exI[of _ 1])
  then show ?thesis
    using validate_suspend_req_exact[of "[2, 1, 0]" devkit 1] validate_suspend_req_exact[of "[1, 2, 0]" devkit 1]
    by simp
qed

subsection \<open>Turning CPUs on and off\<close>









subsection \<open>Locks\<close>

text \<open>The locks of the power domains of a CPU are taken from the CPU upwards, one level after
  the other, and released in the opposite order; nothing else of the state changes. Two CPUs that
  share a domain take the locks above it in the same order.\<close>

theorem power_domain_lock_order:
  assumes "wf_tree e s" and "i < PLATFORM_CORE_COUNT e" and "n \<le> PLAT_MAX_PWR_LVL e"
  shows "psci_acquire_pwr_domain_locks me n i s =
      Some (s\<lparr>psci_log := psci_log s @ lock_events me Ev_lock_get s (held_locks s i n)\<rparr>) \<and>
    psci_release_pwr_domain_locks me n i s =
      Some (s\<lparr>psci_log := psci_log s @ lock_events me Ev_lock_release s (rev (held_locks s i n))\<rparr>) \<and>
    (\<forall>l<n. nd_level (psci_non_cpu_pd_nodes s ! (held_locks s i n ! l)) = Suc l)"
proof -
  have "nd_level (psci_non_cpu_pd_nodes s ! (held_locks s i n ! l)) = Suc l" if "l < n" for l
  proof -
    have "domain_ok e s i (Suc l)" using assms that by (simp add: wf_tree_def)
    then show ?thesis using that by (simp add: domain_ok_def Let_def held_locks_def del: upt_Suc)
  qed
  then show ?thesis
    using acquire_locks_eq[OF assms] release_locks_eq[OF assms] by (simp add: held_locks_def del: upt_Suc)
qed

theorem power_domain_lock_order_witness:
  "psci_acquire_pwr_domain_locks 0 2 1 devkit_boot =
     Some (devkit_boot\<lparr>psci_log := psci_log devkit_boot @ [(0, Ev_lock_get 1), (0, Ev_lock_get 0)]\<rparr>)"
proof -
  have "lock_events 0 Ev_lock_get devkit_boot (held_locks devkit_boot 1 2) = [(0, Ev_lock_get 1), (0, Ev_lock_get 0)]"
    by code_simp
  moreover have "wf_tree devkit devkit_boot" using devkit_boot_ok by (simp add: boot_ok_def)
  ultimately show ?thesis using power_domain_lock_order[of devkit devkit_boot 1 2 0] by simp
qed

subsection \<open>The interface\<close>

text \<open>The function identifiers that the handler dispatches on, by calling convention.\<close>

definition psci_fids32 :: "u32 list" where
  "psci_fids32 = [PSCI_VERSION, PSCI_CPU_OFF, PSCI_CPU_SUSPEND_AARCH32, PSCI_CPU_ON_AARCH32,
     PSCI_AFFINITY_INFO_AARCH32, PSCI_MIG_AARCH32, PSCI_MIG_INFO_TYPE, PSCI_MIG_INFO_UP_CPU_AARCH32,
     PSCI_NODE_HW_STATE_AARCH32, PSCI_SYSTEM_SUSPEND_AARCH32, PSCI_SYSTEM_OFF, PSCI_SYSTEM_RESET,
     PSCI_FEATURES, PSCI_STAT_RESIDENCY_AARCH32, PSCI_STAT_COUNT_AARCH32, PSCI_MEM_PROTECT,
     PSCI_MEM_CHK_RANGE_AARCH32, PSCI_SYSTEM_RESET2_AARCH32]"

definition psci_fids64 :: "u32 list" where
  "psci_fids64 = [PSCI_CPU_SUSPEND_AARCH64, PSCI_CPU_ON_AARCH64, PSCI_AFFINITY_INFO_AARCH64,
     PSCI_MIG_AARCH64, PSCI_MIG_INFO_UP_CPU_AARCH64, PSCI_NODE_HW_STATE_AARCH64,
     PSCI_SYSTEM_SUSPEND_AARCH64, PSCI_STAT_RESIDENCY_AARCH64, PSCI_STAT_COUNT_AARCH64,
     PSCI_MEM_CHK_RANGE_AARCH64, PSCI_SYSTEM_RESET2_AARCH64]"

lemma psci_smc_unknown:
  "fid \<notin> set psci_fids32 \<Longrightarrow> psci_smc32 others e me fid x1 x2 x3 s = Some (Returned SMC_UNK, s)"
  "fid \<notin> set psci_fids64 \<Longrightarrow> psci_smc64 others e me fid x1 x2 x3 s = Some (Returned SMC_UNK, s)"
  by (simp_all add: psci_smc32_def psci_smc64_def psci_fids32_def psci_fids64_def Let_def)

lemma psci_fids_std:
  "list_all (\<lambda>fid. is_std_svc_call fid \<and> is_valid_fast_smc fid \<and> is_psci_fid fid) (psci_fids32 @ psci_fids64)"
  by code_simp

lemma psci_fids64_mask:
  "list_all (\<lambda>fid. PSCI_CAP_64BIT_MASK AND define_psci_cap fid = define_psci_cap fid) psci_fids64"
  by code_simp

text \<open>(C30) The SMC handler does not let a call through that the library does not offer: a call of
  a secure caller, and every function identifier that PSCI_FEATURES reports as not supported, gets
  SMC_UNK, and the state is not touched.\<close>

theorem smc_handler_refuses:
  assumes "is_caller_secure flags \<or> psci_features e fid s = PSCI_E_NOT_SUPPORTED"
  shows "psci_smc_handler others e me fid x1 x2 x3 flags s = Some (Returned SMC_UNK, s)"
proof (cases "is_caller_secure flags \<or> psci_caps s AND define_psci_cap fid = 0")
  case True
  then show ?thesis by (auto simp: psci_smc_handler_def)
next
  case False
  let ?fids = "if GET_SMC_CC fid = SMC_32 then psci_fids32 else psci_fids64"
  have f: "psci_features e fid s = PSCI_E_NOT_SUPPORTED" using assms False by simp
  have "fid \<notin> set ?fids"
  proof
    assume fid: "fid \<in> set ?fids"
    then have std: "is_std_svc_call fid" "is_valid_fast_smc fid" "is_psci_fid fid"
      using psci_fids_std by (auto simp: list_all_iff split: if_split_asm)
    have "(if GET_SMC_CC fid = SMC_64 then psci_caps s AND PSCI_CAP_64BIT_MASK else psci_caps s) AND
        define_psci_cap fid = psci_caps s AND define_psci_cap fid"
      using fid psci_fids64_mask
      by (auto simp: list_all_iff SMC_32_def SMC_64_def and.assoc split: if_split_asm)
    then show False using f False std
      by (auto simp: psci_features_def psci_err_defs Let_def split: if_split_asm)
  qed
  then show ?thesis using psci_smc_unknown by (auto simp: psci_smc_handler_def split: if_split_asm)
qed

theorem smc_handler_refuses_witness:
  "psci_features devkit PSCI_CPU_SUSPEND_AARCH64 devkit_boot = PSCI_E_NOT_SUPPORTED \<and>
   psci_smc_handler (\<lambda>s. s) devkit 0 PSCI_CPU_SUSPEND_AARCH64 0 0 0 1 devkit_boot = Some (Returned SMC_UNK, devkit_boot)"
proof -
  have "psci_features devkit PSCI_CPU_SUSPEND_AARCH64 devkit_boot = PSCI_E_NOT_SUPPORTED" by code_simp
  then show ?thesis using smc_handler_refuses[of 1 devkit PSCI_CPU_SUSPEND_AARCH64 devkit_boot] by simp
qed

subsection \<open>Statistics\<close>

lemma word_add_wraps:
  assumes "t < 2 ^ 64"
  shows "p + of_nat t < (p :: u64) \<longleftrightarrow> \<not> unat p + t < 2 ^ 64"
proof -
  have p: "unat p < 2 ^ 64" using unsigned_less[of p] by simp
  have t: "unat (of_nat t :: u64) = t" using assms unat_of_nat[of t, where 'a = 64] by simp
  have s: "unat (p + of_nat t) = (unat p + t) mod 2 ^ 64"
    using unat_word_ariths(1)[of p "of_nat t"] t by simp
  show ?thesis
  proof (cases "unat p + t < 2 ^ 64")
    case True
    then show ?thesis unfolding word_less_nat_alt s mod_less[OF True] by simp
  next
    case False
    then have "(unat p + t) mod 2 ^ 64 = unat p + t - 2 ^ 64" using p assms by (simp add: mod_if)
    then show ?thesis unfolding word_less_nat_alt s using False p assms by linarith
  qed
qed

text \<open>(C33) The residency of a low power state, where the counter ran through at most once: without
  a wrap-around the ticks between the time stamps, divided down to microseconds. With a
  wrap-around the code counts one tick less than elapsed, because it adds the distance to the
  largest time stamp and not to the wrap-around itself.\<close>

theorem stat_residency_ticks:
  assumes "1000000 \<le> read_cntfrq_el0 e" and "ticks < 2 ^ 64"
  shows "calc_stat_residency e (pwrdnts + of_nat ticks) pwrdnts =
    Some ((if unat pwrdnts + ticks < 2 ^ 64 then of_nat ticks else of_nat ticks - 1) div
          (read_cntfrq_el0 e div 1000000))"
proof -
  have d: "0 < read_cntfrq_el0 e div 1000000"
    using assms(1) by (simp add: word_less_nat_alt word_le_nat_alt unat_div div_greater_zero_iff)
  note lt = word_add_wraps[OF assms(2)]
  show ?thesis using d lt by (simp add: calc_stat_residency_def MHZ_TICKS_PER_SEC_def MAX_TS_def Let_def)
qed

theorem stat_residency_ticks_witness:
  "calc_stat_residency devkit 5 (-3) = Some 7 \<and> calc_stat_residency devkit 9 2 = Some 7"
proof -
  have f: "read_cntfrq_el0 devkit = 1000000" by code_simp
  show ?thesis
    using stat_residency_ticks[of devkit 8 "-3"] stat_residency_ticks[of devkit 7 2] f by simp
qed

subsection \<open>The devkit\<close>

lemma sint_small: "uint w < 2 ^ 31 \<Longrightarrow> sint (w :: u32) = uint w"
  unfolding sint_uint by (rule signed_take_bit_int_eq_self) (auto intro: order_trans[OF _ uint_ge_0])

lemma e7_core_pos_bounds: "0 \<le> e7_core_pos_by_mpidr m \<and> e7_core_pos_by_mpidr m \<le> 1275"
proof -
  have a: "uint (m AND 0xff) \<le> 255" and b: "uint (m AND 0xff00) \<le> 65280"
    using AND_upper2'[of "0xff" "uint m" 255] AND_upper2'[of "0xff00" "uint m" 65280] by (simp_all add: uint_and)
  have "uint (drop_bit 6 (m AND 0xff00)) = uint (m AND 0xff00) div 64"
    by (simp add: drop_bit_eq_div uint_div)
  then have c: "uint (drop_bit 6 (m AND 0xff00)) \<le> 1020" using b by simp
  have "uint ((m AND 0xff) + drop_bit 6 (m AND 0xff00)) =
      uint (m AND 0xff) + uint (drop_bit 6 (m AND 0xff00))"
    using a c by (intro iffD1[OF uint_add_lem]) simp
  then have "uint (arm_calc_core_pos m) \<le> 1275"
    using a c by (simp add: arm_calc_core_pos_def unsigned_ucast_eq take_bit_eq_mod)
  moreover from this have "sint (arm_calc_core_pos m) = uint (arm_calc_core_pos m)"
    by (intro sint_small) simp
  ultimately show ?thesis by (simp add: e7_core_pos_by_mpidr_def)
qed
text \<open>The port of the devkit accepts every MPIDR: the topology function never answers -1, so
  the validation of the library never refuses a target. A CPU_ON for a CPU that does not exist
  (MPIDR 2 on a board with two CPUs) gets past it, and the access to the data of the CPU is out of
  range.\<close>

theorem devkit_accepts_every_mpidr:
  "psci_validate_mpidr (e7_env e) m = PSCI_E_SUCCESS \<and>
   psci_cpu_on devkit 0 2 0x80000000 7 devkit_boot = None"
proof
  show "psci_validate_mpidr (e7_env e) m = PSCI_E_SUCCESS"
    using e7_core_pos_bounds[of m] by (simp add: psci_validate_mpidr_def e7_env_def)
  have "Option.is_none (psci_cpu_on devkit 0 2 0x80000000 7 devkit_boot)" by code_simp
  then show "psci_cpu_on devkit 0 2 0x80000000 7 devkit_boot = None" by (simp add: Option.is_none_def)
qed

end
