(* ===== verification/Runtime_Svc.thy ===== *)
theory Runtime_Svc
  imports TF_Arch
begin

section \<open>Runtime services\<close>

text \<open>
  \<^verbatim>\<open>common/runtime_svc.c\<close>: the table that maps the owning entity number and the call type of an
  SMC to the descriptor of the service that handles it. A descriptor of the linker section is a
  record whose two function pointers are optional functions on a system state \<open>'s\<close>.
\<close>

unbundle bit_operations_syntax

definition MAX_RT_SVCS :: nat where "MAX_RT_SVCS = 128"
definition OEN_LIMIT :: u8 where "OEN_LIMIT = 64"

record 's rt_svc_desc =
  start_oen :: u8
  end_oen :: u8
  call_type :: u8
  svc_init :: "('s \<Rightarrow> (int \<times> 's) option) option"
  svc_handle :: "(u32 \<Rightarrow> u64 list \<Rightarrow> u64 \<Rightarrow> 's \<Rightarrow> (u64 \<times> 's) option) option"

definition get_unique_oen :: "u32 \<Rightarrow> u32 \<Rightarrow> u32" where
  "get_unique_oen oen ctype = push_bit 6 (ctype AND 0x1) OR (oen AND 0x3f)"

definition get_unique_oen_from_smc_fid :: "u32 \<Rightarrow> u32" where
  "get_unique_oen_from_smc_fid fid = get_unique_oen (GET_SMC_OEN fid) (GET_SMC_TYPE fid)"

definition handle_runtime_svc ::
  "'s rt_svc_desc list \<Rightarrow> u8 list \<Rightarrow> u32 \<Rightarrow> u64 list \<Rightarrow> u64 \<Rightarrow> 's \<Rightarrow> (u64 \<times> 's) option" where
  "handle_runtime_svc descs indices smc_fid args flags s = do {
     let idx = get_unique_oen_from_smc_fid smc_fid;
     assert_c (unat idx < MAX_RT_SVCS);
     index \<leftarrow> aread indices (unat idx);
     if unat index \<ge> length descs then Some (SMC_UNK, s)
     else do {
       d \<leftarrow> aread descs (unat index);
       f \<leftarrow> svc_handle d;
       f smc_fid args flags s
     }
   }"

definition validate_rt_svc_desc :: "'s rt_svc_desc \<Rightarrow> int" where
  "validate_rt_svc_desc desc =
     (if start_oen desc > end_oen desc then - EINVAL
      else if end_oen desc \<ge> OEN_LIMIT then - EINVAL
      else if ucast (call_type desc) \<noteq> SMC_TYPE_FAST \<and> ucast (call_type desc) \<noteq> SMC_TYPE_YIELD
      then - EINVAL
      else if svc_init desc = None \<and> svc_handle desc = None then - EINVAL
      else 0)"

text \<open>The inner loop of \<^verbatim>\<open>runtime_svc_init()\<close>; \<open>n\<close> counts the entries that are left.\<close>

fun fill_indices :: "nat \<Rightarrow> nat \<Rightarrow> u8 \<Rightarrow> u8 list \<Rightarrow> u8 list option" where
  "fill_indices 0 start_idx index indices = Some indices"
| "fill_indices (Suc n) start_idx index indices = do {
     indices \<leftarrow> awrite indices start_idx index;
     fill_indices n (Suc start_idx) index indices
   }"

fun svc_init_loop ::
  "'s rt_svc_desc list \<Rightarrow> nat \<Rightarrow> u8 list \<Rightarrow> 's \<Rightarrow> (u8 list \<times> 's) option" where
  "svc_init_loop [] index indices s = Some (indices, s)"
| "svc_init_loop (service # rest) index indices s = do {
     assert_c (validate_rt_svc_desc service = 0);
     (rc, s) \<leftarrow> (case svc_init service of None \<Rightarrow> Some (0, s) | Some f \<Rightarrow> f s);
     if rc \<noteq> 0 then svc_init_loop rest (Suc index) indices s
     else do {
       let start_idx = unat (ucast (get_unique_oen (ucast (start_oen service)) (ucast (call_type service))) :: u8);
       let end_idx = unat (ucast (get_unique_oen (ucast (end_oen service)) (ucast (call_type service))) :: u8);
       assert_c (start_idx \<le> end_idx);
       assert_c (end_idx < MAX_RT_SVCS);
       indices \<leftarrow> fill_indices (Suc end_idx - start_idx) start_idx (of_nat index) indices;
       svc_init_loop rest (Suc index) indices s
     }
   }"

definition runtime_svc_init ::
  "'s rt_svc_desc list \<Rightarrow> u8 list \<Rightarrow> 's \<Rightarrow> (u8 list \<times> 's) option" where
  "runtime_svc_init descs indices s = do {
     assert_c (length descs < MAX_RT_SVCS);
     if descs = [] then Some (indices, s)
     else svc_init_loop descs 0 (replicate MAX_RT_SVCS (-1)) s
   }"

lemma unat_ucast_small:
  "unat (w :: 'a::len word) < 2 ^ LENGTH('b) \<Longrightarrow> unat (ucast w :: 'b::len word) = unat w"
  by (simp add: unsigned_ucast_eq take_bit_nat_eq_self)

lemma unat_ucast_up [simp]: "unat (ucast (w :: u8) :: u32) = unat w"
  using unat_bound[of w] by (simp add: unat_ucast_small)

subsection \<open>Which service handles a call\<close>

text \<open>
  The services in the order of the section, with the result of their initialisation: a service
  is in charge of a call when it covers it and its initialisation succeeded.
\<close>

definition svc_covers :: "'s rt_svc_desc \<Rightarrow> u32 \<Rightarrow> bool" where
  "svc_covers d fid \<longleftrightarrow> ucast (call_type d) = GET_SMC_TYPE fid \<and>
     ucast (start_oen d) \<le> GET_SMC_OEN fid \<and> GET_SMC_OEN fid \<le> ucast (end_oen d)"

fun svc_ready :: "'s rt_svc_desc list \<Rightarrow> 's \<Rightarrow> bool list" where
  "svc_ready [] s = []"
| "svc_ready (d # ds) s =
     (case (case svc_init d of None \<Rightarrow> Some (0, s) | Some f \<Rightarrow> f s) of
        None \<Rightarrow> False # map (\<lambda>_. False) ds
      | Some (rc, s') \<Rightarrow> (rc = 0) # svc_ready ds s')"

definition svc_in_charge :: "'s rt_svc_desc list \<Rightarrow> bool list \<Rightarrow> u32 \<Rightarrow> nat \<Rightarrow> bool" where
  "svc_in_charge ds ok fid i \<longleftrightarrow> i < length ds \<and> ok ! i \<and> svc_covers (ds ! i) fid \<and>
     (\<forall>j<length ds. i < j \<longrightarrow> \<not> (ok ! j \<and> svc_covers (ds ! j) fid))"

lemma length_svc_ready [simp]: "length (svc_ready ds s) = length ds"
  by (induction ds arbitrary: s) (auto split: option.split)

lemma fill_indices_eq:
  "start + n \<le> length t \<Longrightarrow>
   fill_indices n start v t = Some (take start t @ replicate n v @ drop (start + n) t)"
proof (induction n arbitrary: start t)
  case (Suc n)
  then have "fill_indices (Suc n) start v t =
      Some (take (Suc start) (t[start := v]) @ replicate n v @ drop (Suc start + n) (t[start := v]))"
    by simp
  also have "take (Suc start) (t[start := v]) = take start t @ [v]"
    using Suc.prems by (simp add: take_Suc_conv_app_nth)
  finally show ?case by simp
qed simp

lemma unat_unique_oen:
  "unat (get_unique_oen oen ct) = 64 * (unat ct mod 2) + unat oen mod 64"
proof -
  let ?a = "take_bit 1 ct" and ?b = "take_bit 6 oen"
  have m: "oen AND 0x3f = ?b" "ct AND 1 = ?a"
    by (simp_all add: take_bit_eq_mask mask_eq_exp_minus_1)
  have u: "unat ?a = unat ct mod 2" "unat ?b = unat oen mod 64"
    by (simp_all add: take_bit_eq_mod unat_mod)
  have "push_bit 6 ?a OR ?b = push_bit 6 ?a + ?b"
    by (rule disjunctive_add [symmetric]) (auto simp: bit_simps)
  then have "get_unique_oen oen ct = ?a * 64 + ?b"
    by (simp add: get_unique_oen_def m push_bit_eq_mult)
  moreover have t: "unat (?a * 64) = unat ct mod 2 * 64"
    by (subst unat_mult_lem[THEN iffD1]) (simp_all add: u unat_mod)
  moreover have "unat (?a * 64 + ?b) = unat (?a * 64) + unat ?b"
  proof (rule unat_add_lem[THEN iffD1])
    have "unat ct mod 2 < 2" "unat oen mod 64 < 64" by simp_all
    then show "unat (?a * 64) + unat ?b < 2 ^ LENGTH(32)" unfolding t u by simp
  qed
  ultimately show ?thesis using u by simp
qed

definition svc_lo :: "'s rt_svc_desc \<Rightarrow> nat" where
  "svc_lo d = unat (ucast (get_unique_oen (ucast (start_oen d)) (ucast (call_type d))) :: u8)"

definition svc_hi :: "'s rt_svc_desc \<Rightarrow> nat" where
  "svc_hi d = unat (ucast (get_unique_oen (ucast (end_oen d)) (ucast (call_type d))) :: u8)"

lemma valid_svc_range:
  assumes "validate_rt_svc_desc d = 0"
  shows "svc_lo d = 64 * unat (call_type d) + unat (start_oen d)"
    "svc_hi d = 64 * unat (call_type d) + unat (end_oen d)"
    "unat (call_type d) < 2" "unat (start_oen d) \<le> unat (end_oen d)" "unat (end_oen d) < 64"
proof -
  have v: "start_oen d \<le> end_oen d" "end_oen d < OEN_LIMIT"
    "ucast (call_type d) = SMC_TYPE_FAST \<or> ucast (call_type d) = SMC_TYPE_YIELD"
    using assms by (auto simp: validate_rt_svc_desc_def EINVAL_def split: if_split_asm)
  then show r: "unat (start_oen d) \<le> unat (end_oen d)" "unat (end_oen d) < 64"
    by (auto simp: word_le_nat_alt word_less_nat_alt OEN_LIMIT_def)
  have "unat (ucast (call_type d) :: u32) < 2"
    using v(3) by (auto simp: SMC_TYPE_FAST_def SMC_TYPE_YIELD_def simp del: unat_ucast_up)
  then show c: "unat (call_type d) < 2" by (simp add: unat_ucast_up)
  have u: "unat (get_unique_oen (ucast x) (ucast (call_type d))) = 64 * unat (call_type d) + unat x"
    if "unat x < 64" for x :: u8
    using that c by (simp add: unat_unique_oen unat_ucast_up)
  show "svc_lo d = 64 * unat (call_type d) + unat (start_oen d)"
    "svc_hi d = 64 * unat (call_type d) + unat (end_oen d)"
    unfolding svc_lo_def svc_hi_def using u r c by (simp_all add: unat_ucast_small)
qed

lemma svc_covers_range:
  assumes "validate_rt_svc_desc d = 0"
  shows "svc_covers d fid \<longleftrightarrow>
    svc_lo d \<le> unat (get_unique_oen_from_smc_fid fid) \<and> unat (get_unique_oen_from_smc_fid fid) \<le> svc_hi d"
proof -
  note v = valid_svc_range[OF assms]
  have t: "unat (GET_SMC_TYPE fid) < 2" and o: "unat (GET_SMC_OEN fid) < 64"
    using word_and_le1[of "drop_bit 31 fid" 1] word_and_le1[of "drop_bit 24 fid" "0x3f"]
    by (simp_all add: GET_SMC_TYPE_def GET_SMC_OEN_def word_le_nat_alt)
  have "ucast (call_type d) = GET_SMC_TYPE fid \<longleftrightarrow> unat (call_type d) = unat (GET_SMC_TYPE fid)"
    by (metis unat_ucast_up unsigned_word_eqI)
  then show ?thesis using v t o
    by (auto simp: svc_covers_def get_unique_oen_from_smc_fid_def unat_unique_oen word_le_nat_alt)
qed

fun svc_slot :: "'s rt_svc_desc list \<Rightarrow> bool list \<Rightarrow> nat \<Rightarrow> nat \<Rightarrow> u8 \<Rightarrow> u8" where
  "svc_slot (d # ds) (b # bs) k j v =
     svc_slot ds bs (Suc k) j (if b \<and> svc_lo d \<le> j \<and> j \<le> svc_hi d then of_nat k else v)"
| "svc_slot _ _ k j v = v"

lemma svc_init_loop_table:
  assumes "svc_init_loop ds k t s = Some (t', s')" "length t = MAX_RT_SVCS"
  shows "length t' = MAX_RT_SVCS \<and> (\<forall>d\<in>set ds. validate_rt_svc_desc d = 0) \<and>
    (\<forall>j<MAX_RT_SVCS. t' ! j = svc_slot ds (svc_ready ds s) k j (t ! j))"
  using assms
proof (induction ds arbitrary: k t s)
  case (Cons d ds)
  then obtain rc u where v: "validate_rt_svc_desc d = 0"
    and i: "(case svc_init d of None \<Rightarrow> Some (0, s) | Some f \<Rightarrow> f s) = Some (rc, u)"
    and r: "if rc \<noteq> 0 then svc_init_loop ds (Suc k) t u = Some (t', s')
      else svc_hi d < MAX_RT_SVCS \<and> svc_lo d \<le> svc_hi d \<and>
        (\<exists>t1. fill_indices (Suc (svc_hi d) - svc_lo d) (svc_lo d) (of_nat k) t = Some t1 \<and>
           svc_init_loop ds (Suc k) t1 u = Some (t', s'))"
    by (auto simp: bind_Some_iff Let_def svc_lo_def svc_hi_def split: if_split_asm)
  show ?case
  proof (cases "rc = 0")
    case False
    then show ?thesis using Cons.IH[of "Suc k" t u] r v i Cons.prems(2) by simp
  next
    case True
    define n where "n = Suc (svc_hi d) - svc_lo d"
    let ?t1 = "take (svc_lo d) t @ replicate n (of_nat k) @ drop (svc_lo d + n) t"
    have le: "svc_lo d \<le> svc_hi d" "svc_hi d < MAX_RT_SVCS" using r True by auto
    then have n: "svc_lo d + n = Suc (svc_hi d)" "svc_lo d + n \<le> length t"
      using Cons.prems(2) by (auto simp: n_def)
    then have t1: "svc_init_loop ds (Suc k) ?t1 u = Some (t', s')"
      using r True fill_indices_eq[of "svc_lo d" n t "of_nat k"] by (simp add: n_def)
    have len: "length ?t1 = MAX_RT_SVCS" using n Cons.prems(2) by auto
    have "?t1 ! j = (if svc_lo d \<le> j \<and> j \<le> svc_hi d then of_nat k else t ! j)" if "j < MAX_RT_SVCS" for j
      using that n Cons.prems(2) by (auto simp: nth_append)
    then show ?thesis using Cons.IH[OF t1 len] v i True by simp
  qed
qed simp

lemma svc_slot_spec:
  assumes "length bs = length ds"
  shows "(\<exists>i<length ds. bs ! i \<and> svc_lo (ds ! i) \<le> j \<and> j \<le> svc_hi (ds ! i) \<and>
      (\<forall>i'<length ds. i < i' \<longrightarrow> \<not> (bs ! i' \<and> svc_lo (ds ! i') \<le> j \<and> j \<le> svc_hi (ds ! i'))) \<and>
      svc_slot ds bs k j v = of_nat (k + i)) \<or>
    (\<forall>i<length ds. \<not> (bs ! i \<and> svc_lo (ds ! i) \<le> j \<and> j \<le> svc_hi (ds ! i))) \<and> svc_slot ds bs k j v = v"
  using assms
proof (induction ds bs k j v rule: svc_slot.induct)
  case (1 d ds b bs k j v)
  let ?v = "if b \<and> svc_lo d \<le> j \<and> j \<le> svc_hi d then of_nat k else v"
  let ?c = "\<lambda>i. bs ! i \<and> svc_lo (ds ! i) \<le> j \<and> j \<le> svc_hi (ds ! i)"
  from 1 consider
    (later) i where "i < length ds" "?c i" "\<forall>i'<length ds. i < i' \<longrightarrow> \<not> ?c i'"
      "svc_slot ds bs (Suc k) j ?v = of_nat (Suc k + i)"
  | (here) "\<forall>i<length ds. \<not> ?c i" "svc_slot ds bs (Suc k) j ?v = ?v" by auto
  then show ?case
  proof cases
    case later
    then show ?thesis by (intro disjI1 exI[of _ "Suc i"]) (auto simp: nth_Cons' less_Suc_eq_0_disj)
  next
    case here
    then show ?thesis
      by (cases "b \<and> svc_lo d \<le> j \<and> j \<le> svc_hi d")
         (auto simp: nth_Cons' less_Suc_eq_0_disj intro!: exI[of _ 0])
  qed
qed auto

lemma unique_oen_bound: "unat (get_unique_oen_from_smc_fid fid) < MAX_RT_SVCS"
proof -
  have "unat (GET_SMC_TYPE fid) mod 2 < 2" "unat (GET_SMC_OEN fid) mod 64 < 64" by simp_all
  then show ?thesis
    unfolding get_unique_oen_from_smc_fid_def unat_unique_oen MAX_RT_SVCS_def by linarith
qed

lemma runtime_svc_slot:
  fixes fid :: u32
  assumes "runtime_svc_init ds t s0 = Some (indices, s1)" "ds \<noteq> []"
  defines "j \<equiv> unat (get_unique_oen_from_smc_fid fid)"
  shows "length indices = MAX_RT_SVCS"
    and "(\<exists>i. svc_in_charge ds (svc_ready ds s0) fid i \<and> unat (indices ! j) = i) \<or>
         (\<forall>i. \<not> svc_in_charge ds (svc_ready ds s0) fid i) \<and> unat (indices ! j) = 255"
proof -
  have n: "length ds < 128" and loop: "svc_init_loop ds 0 (replicate MAX_RT_SVCS (-1)) s0 = Some (indices, s1)"
    using assms by (auto simp: runtime_svc_init_def MAX_RT_SVCS_def)
  note T = svc_init_loop_table[OF loop]
  have j: "j < MAX_RT_SVCS" unfolding j_def by (rule unique_oen_bound)
  show "length indices = MAX_RT_SVCS" using T by simp
  have cov: "svc_covers (ds ! i) fid \<longleftrightarrow> svc_lo (ds ! i) \<le> j \<and> j \<le> svc_hi (ds ! i)" if "i < length ds" for i
    unfolding j_def using T that by (intro svc_covers_range) simp
  have small: "unat (of_nat i :: u8) = i" if "i < length ds" for i
    using that n by (simp add: unat_of_nat)
  have v: "indices ! j = svc_slot ds (svc_ready ds s0) 0 j (-1)" using T j by simp
  show "(\<exists>i. svc_in_charge ds (svc_ready ds s0) fid i \<and> unat (indices ! j) = i) \<or>
         (\<forall>i. \<not> svc_in_charge ds (svc_ready ds s0) fid i) \<and> unat (indices ! j) = 255"
    using svc_slot_spec[OF length_svc_ready, of ds s0 j 0 "-1"]
    unfolding v svc_in_charge_def using cov small by (auto simp: unsigned_minus_1_eq_mask mask_eq_exp_minus_1)
qed

text \<open>(C22) After the initialisation of the services an SMC reaches the right handler: the last
  service of the section whose range of owning entities and call type contain the call and whose
  initialisation succeeded; a call without such a service gets SMC_UNK and changes nothing.\<close>

theorem runtime_svc_dispatch:
  assumes "runtime_svc_init ds t s0 = Some (indices, s1)" and "length t = MAX_RT_SVCS"
  shows "(\<forall>i. svc_in_charge ds (svc_ready ds s0) fid i \<longrightarrow>
      handle_runtime_svc ds indices fid args flags s =
        Option.bind (svc_handle (ds ! i)) (\<lambda>f. f fid args flags s)) \<and>
    ((\<forall>i. \<not> svc_in_charge ds (svc_ready ds s0) fid i) \<longrightarrow>
      handle_runtime_svc ds indices fid args flags s = Some (SMC_UNK, s))"
proof (cases "ds = []")
  case True
  then show ?thesis using assms unique_oen_bound[of fid]
    by (auto simp: runtime_svc_init_def handle_runtime_svc_def Let_def svc_in_charge_def)
next
  case False
  have n: "length ds < 128" using assms by (simp add: runtime_svc_init_def MAX_RT_SVCS_def)
  note S = runtime_svc_slot(1)[OF assms(1) False] runtime_svc_slot(2)[OF assms(1) False, of fid]
  have once: "i = i'" if "svc_in_charge ds (svc_ready ds s0) fid i" "svc_in_charge ds (svc_ready ds s0) fid i'" for i i'
    using that unfolding svc_in_charge_def by (meson nat_neq_iff)
  have lt: "i < length ds" if "svc_in_charge ds (svc_ready ds s0) fid i" for i
    using that by (simp add: svc_in_charge_def)
  let ?k = "unat (indices ! unat (get_unique_oen_from_smc_fid fid))"
  have h: "handle_runtime_svc ds indices fid args flags s = (if length ds \<le> ?k then Some (SMC_UNK, s)
      else Option.bind (svc_handle (ds ! ?k)) (\<lambda>f. f fid args flags s))"
    using S(1) unique_oen_bound[of fid] by (simp add: handle_runtime_svc_def Let_def)
  from S(2) show ?thesis
  proof
    assume "\<exists>i. svc_in_charge ds (svc_ready ds s0) fid i \<and> ?k = i"
    then have k: "svc_in_charge ds (svc_ready ds s0) fid ?k" by simp
    have "handle_runtime_svc ds indices fid args flags s =
        Option.bind (svc_handle (ds ! ?k)) (\<lambda>f. f fid args flags s)" unfolding h using lt[OF k] by simp
    then have "handle_runtime_svc ds indices fid args flags s =
        Option.bind (svc_handle (ds ! i)) (\<lambda>f. f fid args flags s)"
      if "svc_in_charge ds (svc_ready ds s0) fid i" for i unfolding once[OF k that] .
    then show ?thesis using k by blast
  next
    assume "(\<forall>i. \<not> svc_in_charge ds (svc_ready ds s0) fid i) \<and> ?k = 255"
    moreover from this have "handle_runtime_svc ds indices fid args flags s = Some (SMC_UNK, s)"
      unfolding h using n by simp
    ultimately show ?thesis by blast
  qed
qed

definition svc_demo :: "nat rt_svc_desc list" where
  "svc_demo =
     [\<lparr>start_oen = 4, end_oen = 4, call_type = 1, svc_init = Some (\<lambda>s. Some (0, s + 1)),
       svc_handle = Some (\<lambda>fid args flags s. Some (7, s + 10))\<rparr>,
      \<lparr>start_oen = 4, end_oen = 8, call_type = 1, svc_init = Some (\<lambda>s. Some (1, s)),
       svc_handle = Some (\<lambda>fid args flags s. Some (9, s))\<rparr>]"

theorem runtime_svc_dispatch_witness:
  "\<exists>indices. runtime_svc_init svc_demo (replicate MAX_RT_SVCS 0) 0 = Some (indices, 1) \<and>
     handle_runtime_svc svc_demo indices 0x84000000 [] 0 1 = Some (7, 11) \<and>
     handle_runtime_svc svc_demo indices 0x88000000 [] 0 1 = Some (SMC_UNK, 1)"
proof -
  have v: "validate_rt_svc_desc (svc_demo ! 0) = 0" "validate_rt_svc_desc (svc_demo ! 1) = 0"
    by (simp_all add: svc_demo_def validate_rt_svc_desc_def OEN_LIMIT_def SMC_TYPE_FAST_def)
  then obtain indices where r: "runtime_svc_init svc_demo (replicate MAX_RT_SVCS 0) 0 = Some (indices, 1)"
    by (simp add: svc_demo_def runtime_svc_init_def get_unique_oen_def fill_indices_eq MAX_RT_SVCS_def)
  have ok: "svc_ready svc_demo 0 = [True, False]" by code_simp
  have c: "svc_covers (svc_demo ! 0) 0x84000000" "\<not> svc_covers (svc_demo ! 0) 0x88000000" "length svc_demo = 2"
    by (code_simp, code_simp, code_simp)
  have a: "svc_in_charge svc_demo (svc_ready svc_demo 0) 0x84000000 0"
    using c unfolding ok by (auto simp: svc_in_charge_def less_2_cases_iff)
  have b: "\<forall>i. \<not> svc_in_charge svc_demo (svc_ready svc_demo 0) 0x88000000 i"
    using c unfolding ok by (auto simp: svc_in_charge_def dest!: less_2_cases)
  have h: "svc_handle (svc_demo ! 0) = Some (\<lambda>fid args flags s. Some (7, s + 10))" by (simp add: svc_demo_def)
  have l: "length (replicate MAX_RT_SVCS (0 :: u8)) = MAX_RT_SVCS" by simp
  note A = conjunct1[OF runtime_svc_dispatch[OF r l], rule_format, OF a, of "[]" 0 1]
  note B = conjunct2[OF runtime_svc_dispatch[OF r l], rule_format, of "0x88000000" "[]" 0 1]
  have "handle_runtime_svc svc_demo indices 0x84000000 [] 0 1 = Some (7, 11)" using A h by simp
  moreover have "handle_runtime_svc svc_demo indices 0x88000000 [] 0 1 = Some (SMC_UNK, 1)" using B b by blast
  ultimately show ?thesis using r by blast
qed

end
