(* ===== verification/Interrupt_Mgmt.thy ===== *)
theory Interrupt_Mgmt
  imports TF_Arch
begin

section \<open>Interrupt management\<close>

text \<open>
  \<^verbatim>\<open>bl31/interrupt_mgmt.c\<close>: handlers and routing models for the three types of interrupts, the
  routing bits they put into SCR_EL3 of a context (\<^verbatim>\<open>cm_write_scr_el3_bit()\<close> of
  \<^verbatim>\<open>lib/el3_runtime/aarch64/context_mgmt.c\<close>), and the lines of a GICv3
  (\<^verbatim>\<open>plat/common/plat_gicv3.c\<close>). A handler is its address, zero for a null pointer; the contexts
  of the current CPU are given by the value of their SCR_EL3 field, one per security state.
\<close>

unbundle bit_operations_syntax

definition INTR_TYPE_S_EL1 :: u32 where "INTR_TYPE_S_EL1 = 0"
definition INTR_TYPE_EL3 :: u32 where "INTR_TYPE_EL3 = 1"
definition INTR_TYPE_NS :: u32 where "INTR_TYPE_NS = 2"
definition MAX_INTR_TYPES :: nat where "MAX_INTR_TYPES = 3"
definition INTR_RM_FLAGS_MASK :: u32 where "INTR_RM_FLAGS_MASK = 0x3"
definition INTR_TYPE_FLAGS_MASK :: u32 where "INTR_TYPE_FLAGS_MASK = 0xFFFFFFFC"
definition INTR_DEFAULT_RM :: u32 where "INTR_DEFAULT_RM = 0"
definition SCR_IRQ_BIT :: u32 where "SCR_IRQ_BIT = push_bit 1 1"
definition SCR_FIQ_BIT :: u32 where "SCR_FIQ_BIT = push_bit 2 1"
definition SCR_VALID_BIT_MASK :: u32 where "SCR_VALID_BIT_MASK = 0x2f8f"

lemmas intr_defs =
  INTR_TYPE_S_EL1_def INTR_TYPE_EL3_def INTR_TYPE_NS_def MAX_INTR_TYPES_def INTR_RM_FLAGS_MASK_def
  INTR_TYPE_FLAGS_MASK_def INTR_DEFAULT_RM_def EINVAL_def EALREADY_def SCR_IRQ_BIT_def SCR_FIQ_BIT_def
  SCR_VALID_BIT_MASK_def SECURE_def NON_SECURE_def

record intr_type_desc =
  intr_handler :: u64
  intr_flags :: u32
  intr_scr :: "u32 list"

record intr_state =
  intr_type_descs :: "intr_type_desc list"
  ctx_scr :: "u64 option list"

subsection \<open>Routing models\<close>

definition get_interrupt_rm_flag :: "u32 \<Rightarrow> u32 \<Rightarrow> u32" where
  "get_interrupt_rm_flag flag ss = drop_bit (unat ss) flag AND 1"

definition set_interrupt_rm_flag :: "u32 \<Rightarrow> u32 \<Rightarrow> u32" where
  "set_interrupt_rm_flag flag ss = flag OR push_bit (unat ss) 1"

definition validate_sel1_interrupt_rm :: "u32 \<Rightarrow> int" where
  "validate_sel1_interrupt_rm x = (if x = 0x2 \<or> x = 0x3 then 0 else - EINVAL)"

definition validate_ns_interrupt_rm :: "u32 \<Rightarrow> int" where
  "validate_ns_interrupt_rm x = (if x = 0x0 \<or> x = 0x1 then 0 else - EINVAL)"

text \<open>The flag is the build option \<^verbatim>\<open>EL3_EXCEPTION_HANDLING\<close>.\<close>

definition validate_el3_interrupt_rm :: "bool \<Rightarrow> u32 \<Rightarrow> int" where
  "validate_el3_interrupt_rm ehf x =
     (if ehf then (if x = 0x3 then 0 else - EINVAL)
      else if x = 0x2 \<or> x = 0x3 then 0 else - EINVAL)"

definition validate_interrupt_type :: "u32 \<Rightarrow> int" where
  "validate_interrupt_type type =
     (if type = INTR_TYPE_S_EL1 \<or> type = INTR_TYPE_NS \<or> type = INTR_TYPE_EL3 then 0 else - EINVAL)"

definition validate_routing_model :: "bool \<Rightarrow> u32 \<Rightarrow> u32 \<Rightarrow> int" where
  "validate_routing_model ehf type flags =
     (let rm_flags = flags AND INTR_RM_FLAGS_MASK
      in if type = INTR_TYPE_S_EL1 then validate_sel1_interrupt_rm rm_flags
         else if type = INTR_TYPE_NS then validate_ns_interrupt_rm rm_flags
         else if type = INTR_TYPE_EL3 then validate_el3_interrupt_rm ehf rm_flags
         else - EINVAL)"

definition sec_state_is_valid :: "u32 \<Rightarrow> bool" where
  "sec_state_is_valid s \<longleftrightarrow> s = SECURE \<or> s = NON_SECURE"

definition get_scr_el3_from_routing_model :: "u32 \<Rightarrow> intr_state \<Rightarrow> u32 option" where
  "get_scr_el3_from_routing_model security_state s = do {
     assert_c (sec_state_is_valid security_state);
     ns \<leftarrow> aread (intr_type_descs s) (unat INTR_TYPE_NS);
     a \<leftarrow> aread (intr_scr ns) (unat security_state);
     s1 \<leftarrow> aread (intr_type_descs s) (unat INTR_TYPE_S_EL1);
     b \<leftarrow> aread (intr_scr s1) (unat security_state);
     e3 \<leftarrow> aread (intr_type_descs s) (unat INTR_TYPE_EL3);
     c \<leftarrow> aread (intr_scr e3) (unat security_state);
     Some (a OR b OR c)
   }"

definition plat_interrupt_type_to_line :: "u32 \<Rightarrow> u32 \<Rightarrow> nat option" where
  "plat_interrupt_type_to_line type security_state = do {
     assert_c (type = INTR_TYPE_S_EL1 \<or> type = INTR_TYPE_EL3 \<or> type = INTR_TYPE_NS);
     assert_c (sec_state_is_valid security_state);
     Some (if type = INTR_TYPE_S_EL1 then (if security_state = SECURE then builtin_ctz SCR_IRQ_BIT else builtin_ctz SCR_FIQ_BIT)
           else if type = INTR_TYPE_NS then (if security_state = SECURE then builtin_ctz SCR_FIQ_BIT else builtin_ctz SCR_IRQ_BIT)
           else builtin_ctz SCR_FIQ_BIT)
   }"

definition cm_write_scr_el3_bit :: "u32 \<Rightarrow> nat \<Rightarrow> u32 \<Rightarrow> intr_state \<Rightarrow> intr_state option" where
  "cm_write_scr_el3_bit security_state bit_pos value s = do {
     ctx \<leftarrow> aread (ctx_scr s) (unat security_state);
     reg \<leftarrow> ctx;
     assert_c (push_bit bit_pos 1 AND SCR_VALID_BIT_MASK \<noteq> 0);
     assert_c (value \<le> 1);
     let scr_el3 = (ucast reg :: u32);
     let scr_el3 = scr_el3 AND NOT (push_bit bit_pos 1);
     let scr_el3 = scr_el3 OR push_bit bit_pos value;
     Some (s\<lparr>ctx_scr := (ctx_scr s)[unat security_state := Some (ucast scr_el3)]\<rparr>)
   }"

definition set_scr_el3_from_rm :: "u32 \<Rightarrow> u32 \<Rightarrow> u32 \<Rightarrow> intr_state \<Rightarrow> intr_state option" where
  "set_scr_el3_from_rm type interrupt_type_flags security_state s = do {
     let flag = get_interrupt_rm_flag interrupt_type_flags security_state;
     bit_pos \<leftarrow> plat_interrupt_type_to_line type security_state;
     d \<leftarrow> aread (intr_type_descs s) (unat type);
     scr \<leftarrow> awrite (intr_scr d) (unat security_state) (push_bit bit_pos flag);
     let s = s\<lparr>intr_type_descs := (intr_type_descs s)[unat type := d\<lparr>intr_scr := scr\<rparr>]\<rparr>;
     ctx \<leftarrow> aread (ctx_scr s) (unat security_state);
     if ctx \<noteq> None then cm_write_scr_el3_bit security_state bit_pos flag s else Some s
   }"

definition set_routing_model :: "bool \<Rightarrow> u32 \<Rightarrow> u32 \<Rightarrow> intr_state \<Rightarrow> (int \<times> intr_state) option" where
  "set_routing_model ehf type flags s =
     (if validate_interrupt_type type \<noteq> 0 then Some (validate_interrupt_type type, s)
      else if validate_routing_model ehf type flags \<noteq> 0
      then Some (validate_routing_model ehf type flags, s)
      else do {
        d \<leftarrow> aread (intr_type_descs s) (unat type);
        let s = s\<lparr>intr_type_descs := (intr_type_descs s)[unat type := d\<lparr>intr_flags := flags\<rparr>]\<rparr>;
        s \<leftarrow> set_scr_el3_from_rm type flags SECURE s;
        s \<leftarrow> set_scr_el3_from_rm type flags NON_SECURE s;
        Some (0, s)
      })"

definition disable_intr_rm_local :: "u32 \<Rightarrow> u32 \<Rightarrow> intr_state \<Rightarrow> (int \<times> intr_state) option" where
  "disable_intr_rm_local type security_state s = do {
     d \<leftarrow> aread (intr_type_descs s) (unat type);
     assert_c (intr_handler d \<noteq> 0);
     let flag = get_interrupt_rm_flag INTR_DEFAULT_RM security_state;
     bit_pos \<leftarrow> plat_interrupt_type_to_line type security_state;
     s \<leftarrow> cm_write_scr_el3_bit security_state bit_pos flag s;
     Some (0, s)
   }"

definition enable_intr_rm_local :: "u32 \<Rightarrow> u32 \<Rightarrow> intr_state \<Rightarrow> (int \<times> intr_state) option" where
  "enable_intr_rm_local type security_state s = do {
     d \<leftarrow> aread (intr_type_descs s) (unat type);
     assert_c (intr_handler d \<noteq> 0);
     let flag = get_interrupt_rm_flag (intr_flags d) security_state;
     bit_pos \<leftarrow> plat_interrupt_type_to_line type security_state;
     s \<leftarrow> cm_write_scr_el3_bit security_state bit_pos flag s;
     Some (0, s)
   }"

subsection \<open>Handlers\<close>

definition register_interrupt_type_handler ::
  "bool \<Rightarrow> u32 \<Rightarrow> u64 \<Rightarrow> u32 \<Rightarrow> intr_state \<Rightarrow> (int \<times> intr_state) option" where
  "register_interrupt_type_handler ehf type handler flags s =
     (if handler = 0 then Some (- EINVAL, s)
      else if flags AND INTR_TYPE_FLAGS_MASK \<noteq> 0 then Some (- EINVAL, s)
      else do {
        d \<leftarrow> aread (intr_type_descs s) (unat type);
        if intr_handler d \<noteq> 0 then Some (- EALREADY, s)
        else do {
          (rc, s) \<leftarrow> set_routing_model ehf type flags s;
          if rc \<noteq> 0 then Some (rc, s)
          else do {
            d \<leftarrow> aread (intr_type_descs s) (unat type);
            Some (0, s\<lparr>intr_type_descs := (intr_type_descs s)[unat type := d\<lparr>intr_handler := handler\<rparr>]\<rparr>)
          }
        }
      })"

definition get_interrupt_type_handler :: "u32 \<Rightarrow> intr_state \<Rightarrow> u64 option" where
  "get_interrupt_type_handler type s =
     (if validate_interrupt_type type \<noteq> 0 then Some 0
      else map_option intr_handler (aread (intr_type_descs s) (unat type)))"

subsection \<open>What a registration does\<close>

text \<open>The arrays have their sizes.\<close>

definition intr_wf :: "intr_state \<Rightarrow> bool" where
  "intr_wf s \<longleftrightarrow> length (intr_type_descs s) = MAX_INTR_TYPES \<and> length (ctx_scr s) = 2 \<and>
     (\<forall>d \<in> set (intr_type_descs s). length (intr_scr d) = 2)"

text \<open>The line of a type on a GICv3, the new value of SCR_EL3, the routing models of a type.\<close>

definition intr_line :: "u32 \<Rightarrow> u32 \<Rightarrow> nat" where
  "intr_line type ss = (if type = INTR_TYPE_EL3 then 2
     else if (type = INTR_TYPE_S_EL1) = (ss = SECURE) then 1 else 2)"

definition scr_with_bit :: "nat \<Rightarrow> bool \<Rightarrow> u64 \<Rightarrow> u64" where
  "scr_with_bit b v r = (if v then set_bit b else unset_bit b) (take_bit 32 r)"

definition rm_valid :: "bool \<Rightarrow> u32 \<Rightarrow> u32 \<Rightarrow> bool" where
  "rm_valid ehf type flags \<longleftrightarrow>
     (if type = INTR_TYPE_NS then \<not> bit flags 1
      else bit flags 1 \<and> (type = INTR_TYPE_EL3 \<and> ehf \<longrightarrow> bit flags 0))"

lemma ctz_lines [simp]: "builtin_ctz SCR_IRQ_BIT = 1" "builtin_ctz SCR_FIQ_BIT = 2"
  by (simp_all add: builtin_ctz_def SCR_IRQ_BIT_def SCR_FIQ_BIT_def upt_rec)

lemma flags_small:
  assumes "flags AND INTR_TYPE_FLAGS_MASK = 0"
  shows "flags = 0 \<or> flags = 1 \<or> flags = 2 \<or> flags = (3 :: u32)"
proof -
  have "flags = flags AND 3"
  proof (rule bit_word_eqI)
    fix n assume "n < LENGTH(32)"
    then show "bit flags n = bit (flags AND 3) n"
      using arg_cong[OF assms, of "\<lambda>w. bit w n"]
      by (auto simp: INTR_TYPE_FLAGS_MASK_def bit_simps less_Suc_eq numeral_eq_Suc)
  qed
  then have "flags \<le> 3" by (metis word_and_le1)
  then have "unat flags \<le> 3" by (simp add: word_le_nat_alt)
  then have "unat flags = 0 \<or> unat flags = 1 \<or> unat flags = 2 \<or> unat flags = 3" by auto
  then show ?thesis by (auto simp: word_unat_eq_iff)
qed

lemma rm_flag_bit: "get_interrupt_rm_flag flag ss = of_bool (bit flag (unat ss))"
  by (rule bit_word_eqI) (auto simp: get_interrupt_rm_flag_def bit_simps)

lemma validate_routing_model_0:
  assumes "flags AND INTR_TYPE_FLAGS_MASK = 0" "unat type < MAX_INTR_TYPES"
  shows "validate_routing_model ehf type flags = (if rm_valid ehf type flags then 0 else - EINVAL)"
proof -
  have "type = 0 \<or> type = 1 \<or> type = 2"
    using assms(2) by (auto simp: MAX_INTR_TYPES_def word_unat_eq_iff)
  then show ?thesis using flags_small[OF assms(1)]
    by (elim disjE) (simp_all add: validate_routing_model_def rm_valid_def intr_defs
        validate_sel1_interrupt_rm_def validate_ns_interrupt_rm_def validate_el3_interrupt_rm_def EINVAL_def)
qed

lemma cm_write_scr_el3_bit_eq:
  assumes "unat ss < length (ctx_scr s)" "ctx_scr s ! unat ss = Some r" "b = 1 \<or> b = 2"
  shows "cm_write_scr_el3_bit ss b (of_bool v) s =
     Some (s\<lparr>ctx_scr := (ctx_scr s)[unat ss := Some (scr_with_bit b v r)]\<rparr>)"
proof -
  have "ucast (ucast r AND NOT (push_bit b 1 :: u32) OR push_bit b (of_bool v)) = scr_with_bit b v r"
    using assms(3)
    by (intro bit_word_eqI) (auto simp: scr_with_bit_def bit_simps)
  then show ?thesis using assms
    by (auto simp: cm_write_scr_el3_bit_def Let_def SCR_VALID_BIT_MASK_def)
qed

lemma plat_line_eq:
  assumes "unat type < MAX_INTR_TYPES" "ss = SECURE \<or> ss = NON_SECURE"
  shows "plat_interrupt_type_to_line type ss = Some (intr_line type ss)"
proof -
  have "type = 0 \<or> type = 1 \<or> type = 2"
    using assms(1) by (auto simp: MAX_INTR_TYPES_def word_unat_eq_iff)
  then show ?thesis using assms(2)
    by (auto simp: plat_interrupt_type_to_line_def intr_line_def sec_state_is_valid_def
        INTR_TYPE_S_EL1_def INTR_TYPE_EL3_def INTR_TYPE_NS_def SECURE_def NON_SECURE_def)
qed

lemma intr_line_12: "intr_line type ss = 1 \<or> intr_line type ss = 2"
  by (simp add: intr_line_def)

text \<open>The effect of a routing model on the data of one security state.\<close>

definition route :: "u32 \<Rightarrow> u32 \<Rightarrow> u32 \<Rightarrow> intr_state \<Rightarrow> intr_state" where
  "route type flags ss s = (let b = intr_line type ss; v = bit flags (unat ss); i = unat type
     in s\<lparr>intr_type_descs := (intr_type_descs s)[i := (intr_type_descs s ! i)\<lparr>intr_scr :=
            (intr_scr (intr_type_descs s ! i))[unat ss := push_bit b (of_bool v)]\<rparr>],
          ctx_scr := (ctx_scr s)[unat ss := map_option (scr_with_bit b v) (ctx_scr s ! unat ss)]\<rparr>)"

lemma ss_less_2: "ss = SECURE \<or> ss = NON_SECURE \<Longrightarrow> unat ss < 2"
  by (auto simp: SECURE_def NON_SECURE_def)

lemma set_scr_el3_from_rm_eq:
  assumes "intr_wf s" "unat type < MAX_INTR_TYPES" "ss = SECURE \<or> ss = NON_SECURE"
  shows "set_scr_el3_from_rm type flags ss s = Some (route type flags ss s)"
proof (cases "ctx_scr s ! unat ss")
  case None
  then have "(ctx_scr s)[unat ss := None] = ctx_scr s" by (metis list_update_id)
  with None show ?thesis using assms ss_less_2[OF assms(3)] plat_line_eq[OF assms(2,3)]
    by (cases s) (simp add: set_scr_el3_from_rm_def route_def rm_flag_bit Let_def intr_wf_def)
next
  case (Some r)
  then show ?thesis using assms ss_less_2[OF assms(3)] plat_line_eq[OF assms(2,3)]
    by (simp add: set_scr_el3_from_rm_def route_def rm_flag_bit Let_def intr_wf_def
        cm_write_scr_el3_bit_eq[OF _ _ intr_line_12])
qed

lemma route_wf:
  assumes "intr_wf s" "unat type < MAX_INTR_TYPES" shows "intr_wf (route type flags ss s)"
  using assms by (auto simp: intr_wf_def route_def Let_def dest!: set_update_subset_insert[THEN subsetD])

definition set_flags :: "u32 \<Rightarrow> u32 \<Rightarrow> intr_state \<Rightarrow> intr_state" where
  "set_flags type flags s = s\<lparr>intr_type_descs := (intr_type_descs s)[unat type :=
     (intr_type_descs s ! unat type)\<lparr>intr_flags := flags\<rparr>]\<rparr>"

definition set_handler :: "u32 \<Rightarrow> u64 \<Rightarrow> intr_state \<Rightarrow> intr_state" where
  "set_handler type h s = s\<lparr>intr_type_descs := (intr_type_descs s)[unat type :=
     (intr_type_descs s ! unat type)\<lparr>intr_handler := h\<rparr>]\<rparr>"

definition registered :: "u32 \<Rightarrow> u64 \<Rightarrow> u32 \<Rightarrow> intr_state \<Rightarrow> intr_state" where
  "registered type h flags s =
     set_handler type h (route type flags NON_SECURE (route type flags SECURE (set_flags type flags s)))"

lemma set_wf:
  assumes "intr_wf s" "unat type < MAX_INTR_TYPES"
  shows "intr_wf (set_flags type flags s)" "intr_wf (set_handler type h s)"
  using assms
  by (auto simp: intr_wf_def set_flags_def set_handler_def dest!: set_update_subset_insert[THEN subsetD])

lemma registered_wf:
  assumes "intr_wf s" "unat type < MAX_INTR_TYPES" shows "intr_wf (registered type h flags s)"
  unfolding registered_def by (intro set_wf route_wf assms)

lemma validate_interrupt_type_0:
  "validate_interrupt_type type = (if unat type < MAX_INTR_TYPES then 0 else - EINVAL)"
proof -
  have "unat type < MAX_INTR_TYPES \<longleftrightarrow> type = 0 \<or> type = 1 \<or> type = 2"
    by (auto simp: MAX_INTR_TYPES_def word_unat_eq_iff)
  then show ?thesis
    by (auto simp: validate_interrupt_type_def INTR_TYPE_S_EL1_def INTR_TYPE_EL3_def INTR_TYPE_NS_def)
qed

lemma set_routing_model_eq:
  assumes wf: "intr_wf s" and ty: "unat type < MAX_INTR_TYPES"
    and fl: "flags AND INTR_TYPE_FLAGS_MASK = 0"
  shows "set_routing_model ehf type flags s = Some (if rm_valid ehf type flags
     then (0, route type flags NON_SECURE (route type flags SECURE (set_flags type flags s)))
     else (- EINVAL, s))"
proof -
  have w1: "intr_wf (set_flags type flags s)" by (rule set_wf(1)[OF wf ty])
  note r1 = set_scr_el3_from_rm_eq[OF w1 ty, of SECURE flags]
  note r2 = set_scr_el3_from_rm_eq[OF route_wf[OF w1 ty] ty, of NON_SECURE flags flags SECURE]
  show ?thesis
    using r1 r2 wf ty
    by (simp add: set_routing_model_def validate_interrupt_type_0 validate_routing_model_0[OF fl ty]
        EINVAL_def Let_def set_flags_def[symmetric])
      (simp add: intr_wf_def set_flags_def)
qed

lemma register_eq:
  assumes wf: "intr_wf s" and ty: "unat type < MAX_INTR_TYPES"
  shows "register_interrupt_type_handler ehf type h flags s = Some (
     if h = 0 \<or> flags AND INTR_TYPE_FLAGS_MASK \<noteq> 0 then (- EINVAL, s)
     else if intr_handler (intr_type_descs s ! unat type) \<noteq> 0 then (- EALREADY, s)
     else if rm_valid ehf type flags then (0, registered type h flags s)
     else (- EINVAL, s))"
proof -
  have len: "length (intr_type_descs s) = MAX_INTR_TYPES"
    "length (intr_type_descs (route type flags NON_SECURE (route type flags SECURE (set_flags type flags s))))
       = MAX_INTR_TYPES"
    using wf route_wf[OF route_wf[OF set_wf(1)[OF wf ty] ty] ty] by (simp_all add: intr_wf_def)
  show ?thesis
    using set_routing_model_eq[OF wf ty, of flags ehf] len ty
    by (auto simp: register_interrupt_type_handler_def registered_def set_handler_def EINVAL_def)
qed

lemma bit_scr_with_bit:
  "b < 32 \<Longrightarrow> bit (scr_with_bit b v r) n \<longleftrightarrow> n < 32 \<and> (if n = b then v else bit r n)"
  by (auto simp: scr_with_bit_def bit_simps)

lemma registered_desc:
  assumes "intr_wf s" "unat type < MAX_INTR_TYPES"
  shows "intr_type_descs (registered type h flags s) = (intr_type_descs s)[unat type :=
     \<lparr>intr_handler = h, intr_flags = flags, intr_scr =
       [push_bit (intr_line type SECURE) (of_bool (bit flags 0)),
        push_bit (intr_line type NON_SECURE) (of_bool (bit flags 1))]\<rparr>]"
proof -
  let ?d = "intr_type_descs s ! unat type"
  have "length (intr_scr ?d) = 2" using assms by (simp add: intr_wf_def)
  then obtain a b where ab: "intr_scr ?d = [a, b]"
    by (auto simp: numeral_eq_Suc length_Suc_conv)
  have len: "unat type < length (intr_type_descs s)" using assms by (simp add: intr_wf_def)
  show ?thesis
    using len ab by (cases ?d) (simp add: registered_def route_def set_flags_def set_handler_def Let_def
        SECURE_def NON_SECURE_def)
qed

lemma registered_ctx:
  assumes "intr_wf s" "unat type < MAX_INTR_TYPES"
  shows "ctx_scr (registered type h flags s) =
    [map_option (scr_with_bit (intr_line type SECURE) (bit flags 0)) (ctx_scr s ! 0),
     map_option (scr_with_bit (intr_line type NON_SECURE) (bit flags 1)) (ctx_scr s ! 1)]"
proof -
  have "length (ctx_scr s) = 2" using assms by (simp add: intr_wf_def)
  then obtain a b where "ctx_scr s = [a, b]"
    by (auto simp: numeral_eq_Suc length_Suc_conv)
  then show ?thesis
    by (simp add: registered_def route_def set_flags_def set_handler_def Let_def SECURE_def NON_SECURE_def)
qed

subsection \<open>Routing in every reachable state\<close>

text \<open>Registrations in sequence; the state at boot has no handlers, and contexts, when there are
  any, without routing bits.\<close>

fun register_all :: "bool \<Rightarrow> (u32 \<times> u64 \<times> u32) list \<Rightarrow> intr_state \<Rightarrow> intr_state option" where
  "register_all ehf [] s = Some s"
| "register_all ehf ((type, h, flags) # calls) s = do {
     (rc, s) \<leftarrow> register_interrupt_type_handler ehf type h flags s;
     register_all ehf calls s
   }"

definition intr_boot :: "u64 option \<Rightarrow> u64 option \<Rightarrow> intr_state" where
  "intr_boot secure ns =
     \<lparr>intr_type_descs = replicate MAX_INTR_TYPES \<lparr>intr_handler = 0, intr_flags = 0, intr_scr = [0, 0]\<rparr>,
      ctx_scr = [secure, ns]\<rparr>"

definition has_handler :: "u32 \<Rightarrow> intr_state \<Rightarrow> bool" where
  "has_handler type s \<longleftrightarrow> intr_handler (intr_type_descs s ! unat type) \<noteq> 0"

text \<open>The descriptors are those of valid routing models. A non-secure context has FIQ routed to
  EL3 when interrupts of S-EL1 or of EL3 have a handler, and IRQ never; a secure context has IRQ
  routed when the interrupts of S-EL1 asked for it.\<close>

definition desc_ok :: "bool \<Rightarrow> u32 \<Rightarrow> intr_type_desc \<Rightarrow> bool" where
  "desc_ok ehf type d \<longleftrightarrow>
     (if intr_handler d = 0 then intr_scr d = [0, 0]
      else rm_valid ehf type (intr_flags d) \<and> intr_scr d =
        [push_bit (intr_line type SECURE) (of_bool (bit (intr_flags d) 0)),
         push_bit (intr_line type NON_SECURE) (of_bool (bit (intr_flags d) 1))])"

definition intr_inv :: "bool \<Rightarrow> intr_state \<Rightarrow> bool" where
  "intr_inv ehf s \<longleftrightarrow> intr_wf s \<and> (\<forall>type. unat type < MAX_INTR_TYPES \<longrightarrow> desc_ok ehf type (intr_type_descs s ! unat type)) \<and>
     (\<forall>r. ctx_scr s ! 1 = Some r \<longrightarrow> \<not> bit r 1 \<and>
        (bit r 2 \<longleftrightarrow> has_handler INTR_TYPE_S_EL1 s \<or> has_handler INTR_TYPE_EL3 s)) \<and>
     (\<forall>r. ctx_scr s ! 0 = Some r \<longrightarrow> (bit r 1 \<longleftrightarrow> has_handler INTR_TYPE_S_EL1 s \<and>
        bit (intr_flags (intr_type_descs s ! unat INTR_TYPE_S_EL1)) 0))"

lemma registered_nth:
  assumes "intr_wf s" "unat type < MAX_INTR_TYPES" "unat t < MAX_INTR_TYPES"
  shows "intr_type_descs (registered type h flags s) ! unat t =
     (if t = type then \<lparr>intr_handler = h, intr_flags = flags, intr_scr =
       [push_bit (intr_line type SECURE) (of_bool (bit flags 0)),
        push_bit (intr_line type NON_SECURE) (of_bool (bit flags 1))]\<rparr>
      else intr_type_descs s ! unat t)"
  using assms by (simp add: registered_desc nth_list_update intr_wf_def word_unat_eq_iff)

lemma intr_type_cases:
  assumes "unat type < MAX_INTR_TYPES"
  shows "type = INTR_TYPE_S_EL1 \<or> type = INTR_TYPE_EL3 \<or> type = INTR_TYPE_NS"
  using assms by (auto simp: MAX_INTR_TYPES_def INTR_TYPE_S_EL1_def INTR_TYPE_EL3_def INTR_TYPE_NS_def
      word_unat_eq_iff)

lemma ex_intr_type:
  "(\<exists>type. unat type < MAX_INTR_TYPES \<and> P type) \<longleftrightarrow> P INTR_TYPE_NS \<or> P INTR_TYPE_S_EL1 \<or> P INTR_TYPE_EL3"
proof -
  have "unat INTR_TYPE_NS < MAX_INTR_TYPES" "unat INTR_TYPE_S_EL1 < MAX_INTR_TYPES" "unat INTR_TYPE_EL3 < MAX_INTR_TYPES"
    by (simp_all add: INTR_TYPE_S_EL1_def INTR_TYPE_EL3_def INTR_TYPE_NS_def MAX_INTR_TYPES_def)
  then show ?thesis using intr_type_cases by blast
qed

lemma intr_types_distinct [simp]:
  "unat INTR_TYPE_S_EL1 < MAX_INTR_TYPES" "unat INTR_TYPE_EL3 < MAX_INTR_TYPES" "unat INTR_TYPE_NS < MAX_INTR_TYPES"
  "INTR_TYPE_S_EL1 \<noteq> INTR_TYPE_EL3" "INTR_TYPE_S_EL1 \<noteq> INTR_TYPE_NS" "INTR_TYPE_EL3 \<noteq> INTR_TYPE_NS"
  "INTR_TYPE_EL3 \<noteq> INTR_TYPE_S_EL1" "INTR_TYPE_NS \<noteq> INTR_TYPE_S_EL1" "INTR_TYPE_NS \<noteq> INTR_TYPE_EL3"
  by (simp_all add: INTR_TYPE_S_EL1_def INTR_TYPE_EL3_def INTR_TYPE_NS_def MAX_INTR_TYPES_def)

lemma ss_distinct [simp]: "SECURE \<noteq> NON_SECURE" "NON_SECURE \<noteq> SECURE"
  by (simp_all add: SECURE_def NON_SECURE_def)

lemma unat_ss: "unat SECURE = 0" "unat NON_SECURE = 1"
  by (simp_all add: SECURE_def NON_SECURE_def)

lemma has_handler_registered:
  assumes "intr_wf s" "unat type < MAX_INTR_TYPES" "unat t < MAX_INTR_TYPES" "h \<noteq> 0"
  shows "has_handler t (registered type h flags s) \<longleftrightarrow> t = type \<or> has_handler t s"
  using assms by (auto simp: has_handler_def registered_nth)

lemma intr_inv_registered:
  assumes inv: "intr_inv ehf s" and ty: "unat type < MAX_INTR_TYPES" and h: "h \<noteq> 0"
    and rm: "rm_valid ehf type flags" and free: "\<not> has_handler type s"
  shows "intr_inv ehf (registered type h flags s)"
proof -
  have wf: "intr_wf s" using inv by (simp add: intr_inv_def)
  note nth = registered_nth[OF wf ty] and hh = has_handler_registered[OF wf ty _ h]
    and ctx = registered_ctx[OF wf ty]
  have inv_ns: "\<forall>r. ctx_scr s ! 1 = Some r \<longrightarrow> \<not> bit r 1 \<and>
      (bit r 2 \<longleftrightarrow> has_handler INTR_TYPE_S_EL1 s \<or> has_handler INTR_TYPE_EL3 s)"
    and inv_s: "\<forall>r. ctx_scr s ! 0 = Some r \<longrightarrow> (bit r 1 \<longleftrightarrow> has_handler INTR_TYPE_S_EL1 s \<and>
      bit (intr_flags (intr_type_descs s ! unat INTR_TYPE_S_EL1)) 0)"
    using inv by (simp_all add: intr_inv_def)
  have "desc_ok ehf t (intr_type_descs (registered type h flags s) ! unat t)" if "unat t < MAX_INTR_TYPES" for t
  proof (cases "t = type")
    case True
    then show ?thesis using h rm unfolding nth[OF that] by (simp add: desc_ok_def)
  next
    case False
    then show ?thesis using inv that unfolding nth[OF that] by (simp add: intr_inv_def)
  qed
  moreover have "\<not> bit r 1 \<and> (bit r 2 \<longleftrightarrow>
      has_handler INTR_TYPE_S_EL1 (registered type h flags s) \<or> has_handler INTR_TYPE_EL3 (registered type h flags s))"
    if "ctx_scr (registered type h flags s) ! 1 = Some r" for r
    using inv_ns that rm intr_type_cases[OF ty]
    by (auto simp: ctx hh bit_scr_with_bit intr_line_def rm_valid_def)
  moreover have "bit r 1 \<longleftrightarrow> has_handler INTR_TYPE_S_EL1 (registered type h flags s) \<and>
      bit (intr_flags (intr_type_descs (registered type h flags s) ! unat INTR_TYPE_S_EL1)) 0"
    if "ctx_scr (registered type h flags s) ! 0 = Some r" for r
    using inv_s that rm intr_type_cases[OF ty]
    by (auto simp: ctx hh nth bit_scr_with_bit intr_line_def rm_valid_def)
  ultimately show ?thesis
    unfolding intr_inv_def using registered_wf[OF wf ty] by blast
qed

lemma intr_inv_register:
  assumes inv: "intr_inv ehf s" and ty: "unat type < MAX_INTR_TYPES"
  obtains rc s' where "register_interrupt_type_handler ehf type h flags s = Some (rc, s')" "intr_inv ehf s'"
    "ctx_scr s' ! 1 = None \<longleftrightarrow> ctx_scr s ! 1 = None"
proof -
  have wf: "intr_wf s" using inv by (simp add: intr_inv_def)
  show thesis
  proof (cases "h \<noteq> 0 \<and> flags AND INTR_TYPE_FLAGS_MASK = 0 \<and> \<not> has_handler type s \<and> rm_valid ehf type flags")
    case True
    then have "register_interrupt_type_handler ehf type h flags s = Some (0, registered type h flags s)"
      by (simp add: register_eq[OF wf ty] has_handler_def)
    then show thesis
      by (rule that) (use True intr_inv_registered[OF inv ty] in \<open>simp_all add: registered_ctx[OF wf ty]\<close>)
  next
    case False
    then have "\<exists>rc. register_interrupt_type_handler ehf type h flags s = Some (rc, s)"
      by (auto simp: register_eq[OF wf ty] has_handler_def)
    then show thesis using that inv by blast
  qed
qed

lemma intr_inv_boot:
  assumes "\<forall>r. secure = Some r \<or> ns = Some r \<longrightarrow> \<not> bit r 1 \<and> \<not> bit r 2"
  shows "intr_inv ehf (intr_boot secure ns)"
  using assms by (auto simp: intr_inv_def intr_boot_def intr_wf_def desc_ok_def has_handler_def)

lemma intr_inv_register_all:
  assumes "intr_inv ehf s" "\<forall>(type, h, flags) \<in> set calls. unat type < MAX_INTR_TYPES"
  shows "\<exists>s'. register_all ehf calls s = Some s' \<and> intr_inv ehf s' \<and> (ctx_scr s' ! 1 = None \<longleftrightarrow> ctx_scr s ! 1 = None)"
  using assms
proof (induction calls arbitrary: s)
  case (Cons c calls)
  obtain type h flags where c: "c = (type, h, flags)" by (cases c)
  obtain rc s' where r: "register_interrupt_type_handler ehf type h flags s = Some (rc, s')"
    and inv: "intr_inv ehf s'" and ctx: "ctx_scr s' ! 1 = None \<longleftrightarrow> ctx_scr s ! 1 = None"
    using intr_inv_register[OF Cons.prems(1), of type h flags] Cons.prems(2) c by auto
  show ?case using Cons.IH[OF inv] Cons.prems(2) ctx by (auto simp: c r)
qed simp

lemma desc_ok_bit:
  assumes "desc_ok ehf type d" "ss = SECURE \<or> ss = NON_SECURE"
  shows "length (intr_scr d) = 2 \<and> (bit (intr_scr d ! unat ss) n \<longleftrightarrow>
      intr_handler d \<noteq> 0 \<and> n = intr_line type ss \<and> bit (intr_flags d) (unat ss))"
proof (cases "intr_handler d = 0")
  case True
  then show ?thesis using assms by (auto simp: desc_ok_def SECURE_def NON_SECURE_def)
next
  case False
  have "bit (push_bit (intr_line type ss) (of_bool b) :: u32) n \<longleftrightarrow> n = intr_line type ss \<and> b" for b
    using intr_line_12[of type ss] by (auto simp: bit_simps)
  moreover have "intr_scr d ! unat ss = push_bit (intr_line type ss) (of_bool (bit (intr_flags d) (unat ss)))"
    using assms False by (elim disjE) (simp_all add: desc_ok_def SECURE_def NON_SECURE_def)
  ultimately have "bit (intr_scr d ! unat ss) n \<longleftrightarrow> n = intr_line type ss \<and> bit (intr_flags d) (unat ss)"
    by metis
  with False show ?thesis using assms(1) by (simp add: desc_ok_def)
qed

lemma cached_bit:
  assumes inv: "intr_inv ehf s" and ss: "ss = SECURE \<or> ss = NON_SECURE"
  shows "\<exists>w. get_scr_el3_from_routing_model ss s = Some w \<and>
    (\<forall>n. bit w n \<longleftrightarrow> (\<exists>type. unat type < MAX_INTR_TYPES \<and> has_handler type s \<and> n = intr_line type ss \<and>
      bit (intr_flags (intr_type_descs s ! unat type)) (unat ss)))"
proof -
  let ?d = "\<lambda>type. intr_type_descs s ! unat type"
  have len: "length (intr_type_descs s) = MAX_INTR_TYPES" using inv by (simp add: intr_inv_def intr_wf_def)
  have sc: "length (intr_scr (?d type)) = 2 \<and> (bit (intr_scr (?d type) ! unat ss) n \<longleftrightarrow>
      has_handler type s \<and> n = intr_line type ss \<and> bit (intr_flags (?d type)) (unat ss))"
    if "unat type < MAX_INTR_TYPES" for type n
    unfolding has_handler_def using inv that by (intro desc_ok_bit[OF _ ss, where ehf = ehf]) (simp add: intr_inv_def)
  let ?w = "intr_scr (?d INTR_TYPE_NS) ! unat ss OR intr_scr (?d INTR_TYPE_S_EL1) ! unat ss
    OR intr_scr (?d INTR_TYPE_EL3) ! unat ss"
  note sc3 = sc[OF intr_types_distinct(1)] sc[OF intr_types_distinct(2)] sc[OF intr_types_distinct(3)]
  have "get_scr_el3_from_routing_model ss s = Some ?w"
    using ss ss_less_2[OF ss] by (simp add: get_scr_el3_from_routing_model_def sec_state_is_valid_def len
        sc3[THEN conjunct1])
  moreover have "bit ?w n \<longleftrightarrow> (\<exists>type. unat type < MAX_INTR_TYPES \<and> has_handler type s \<and>
      n = intr_line type ss \<and> bit (intr_flags (?d type)) (unat ss))" for n
    unfolding ex_intr_type bit_or_iff sc3[THEN conjunct2] by blast
  ultimately show ?thesis by blast
qed

lemma get_handler_eq:
  "intr_wf s \<Longrightarrow> get_interrupt_type_handler type s =
     Some (if unat type < MAX_INTR_TYPES then intr_handler (intr_type_descs s ! unat type) else 0)"
  by (auto simp: get_interrupt_type_handler_def validate_interrupt_type_0 intr_wf_def EINVAL_def)

subsection \<open>Properties\<close>

text \<open>(C23) After any sequence of registrations from the state at boot, accepted or not, no
  assertion has failed, and the routing bits of the non-secure context are those that
  \<^verbatim>\<open>get_scr_el3_from_routing_model()\<close> gives to a context that is initialised later: FIQ is routed to
  EL3 exactly when interrupts of S-EL1 or of EL3 have a handler, IRQ is never routed to EL3. In the
  secure context the two agree on IRQ.\<close>

theorem interrupt_routing_reachable:
  assumes "\<forall>r. secure = Some r \<or> ns = Some r \<longrightarrow> \<not> bit r 1 \<and> \<not> bit r 2"
    and "\<forall>(type, h, flags) \<in> set calls. unat type < MAX_INTR_TYPES"
  shows "\<exists>s w v. register_all ehf calls (intr_boot secure ns) = Some s \<and>
    get_scr_el3_from_routing_model NON_SECURE s = Some w \<and>
    get_scr_el3_from_routing_model SECURE s = Some v \<and>
    \<not> bit w 1 \<and> (bit w 2 \<longleftrightarrow> has_handler INTR_TYPE_S_EL1 s \<or> has_handler INTR_TYPE_EL3 s) \<and>
    (\<forall>r. ctx_scr s ! 1 = Some r \<longrightarrow> bit r 1 = bit w 1 \<and> bit r 2 = bit w 2) \<and>
    (\<forall>r. ctx_scr s ! 0 = Some r \<longrightarrow> bit r 1 = bit v 1)"
proof -
  obtain s where s: "register_all ehf calls (intr_boot secure ns) = Some s" and inv: "intr_inv ehf s"
    using intr_inv_register_all[OF intr_inv_boot[OF assms(1)] assms(2)] by blast
  obtain w where w: "get_scr_el3_from_routing_model NON_SECURE s = Some w"
    and bw: "\<And>n. bit w n \<longleftrightarrow> (\<exists>type. unat type < MAX_INTR_TYPES \<and> has_handler type s \<and>
      n = intr_line type NON_SECURE \<and> bit (intr_flags (intr_type_descs s ! unat type)) (unat NON_SECURE))"
    using cached_bit[OF inv] by blast
  obtain v where v: "get_scr_el3_from_routing_model SECURE s = Some v"
    and bv: "\<And>n. bit v n \<longleftrightarrow> (\<exists>type. unat type < MAX_INTR_TYPES \<and> has_handler type s \<and>
      n = intr_line type SECURE \<and> bit (intr_flags (intr_type_descs s ! unat type)) (unat SECURE))"
    using cached_bit[OF inv] by blast
  have rm: "has_handler type s \<Longrightarrow> rm_valid ehf type (intr_flags (intr_type_descs s ! unat type))"
    if "unat type < MAX_INTR_TYPES" for type
    using inv that by (simp add: intr_inv_def desc_ok_def has_handler_def)
  note rm3 = rm[OF intr_types_distinct(1)] rm[OF intr_types_distinct(2)] rm[OF intr_types_distinct(3)]
  have bits: "\<not> bit w 1" "bit w 2 \<longleftrightarrow> has_handler INTR_TYPE_S_EL1 s \<or> has_handler INTR_TYPE_EL3 s"
    "bit v 1 \<longleftrightarrow> has_handler INTR_TYPE_S_EL1 s \<and> bit (intr_flags (intr_type_descs s ! unat INTR_TYPE_S_EL1)) 0"
    using rm3 by (auto simp: bw bv ex_intr_type intr_line_def rm_valid_def unat_ss)
  then show ?thesis using s w v inv unfolding intr_inv_def by auto
qed

theorem interrupt_routing_reachable_witness:
  "\<exists>s w v. register_all True [(INTR_TYPE_EL3, 8, 3), (INTR_TYPE_S_EL1, 16, 2), (INTR_TYPE_NS, 24, 1)] (intr_boot (Some 0) (Some 1)) = Some s \<and>
    get_scr_el3_from_routing_model NON_SECURE s = Some w \<and>
    get_scr_el3_from_routing_model SECURE s = Some v \<and>
    \<not> bit w 1 \<and> (bit w 2 \<longleftrightarrow> has_handler INTR_TYPE_S_EL1 s \<or> has_handler INTR_TYPE_EL3 s) \<and>
    (\<forall>r. ctx_scr s ! 1 = Some r \<longrightarrow> bit r 1 = bit w 1 \<and> bit r 2 = bit w 2) \<and>
    (\<forall>r. ctx_scr s ! 0 = Some r \<longrightarrow> bit r 1 = bit v 1)"
  by (rule interrupt_routing_reachable) (auto simp: bit_1_iff)

text \<open>(C24) Registering a handler for a type of interrupt: the code returned on every branch, with
  nothing changed when it is an error; otherwise the handler is the one looked up afterwards, the
  handlers of the other types are kept, and in each context that exists the bit of the line of the
  type has the value of the routing model and the other bits of the register are kept.\<close>

theorem register_handler_exact:
  assumes "intr_wf s" and "unat type < MAX_INTR_TYPES"
  shows "\<exists>rc s'. register_interrupt_type_handler ehf type h flags s = Some (rc, s') \<and>
    rc = (if h = 0 \<or> flags AND INTR_TYPE_FLAGS_MASK \<noteq> 0 then - EINVAL
          else if has_handler type s then - EALREADY
          else if rm_valid ehf type flags then 0 else - EINVAL) \<and>
    (rc \<noteq> 0 \<longrightarrow> s' = s) \<and>
    (rc = 0 \<longrightarrow> intr_wf s' \<and> get_interrupt_type_handler type s' = Some h \<and>
       (\<forall>t. t \<noteq> type \<longrightarrow> get_interrupt_type_handler t s' = get_interrupt_type_handler t s) \<and>
       ctx_scr s' =
         [map_option (scr_with_bit (intr_line type SECURE) (bit flags 0)) (ctx_scr s ! 0),
          map_option (scr_with_bit (intr_line type NON_SECURE) (bit flags 1)) (ctx_scr s ! 1)])"
proof (cases "h \<noteq> 0 \<and> flags AND INTR_TYPE_FLAGS_MASK = 0 \<and> \<not> has_handler type s \<and> rm_valid ehf type flags")
  case True
  note wf = registered_wf[OF assms, of h flags]
  have "get_interrupt_type_handler t (registered type h flags s) =
      (if t = type then Some h else get_interrupt_type_handler t s)" for t
    using assms by (auto simp: get_handler_eq wf registered_nth)
  then show ?thesis
    using True wf registered_ctx[OF assms] by (simp add: register_eq[OF assms] has_handler_def)
next
  case False
  then show ?thesis by (auto simp: register_eq[OF assms] has_handler_def EINVAL_def EALREADY_def)
qed

theorem register_handler_exact_witness:
  "\<exists>rc s'. register_interrupt_type_handler True INTR_TYPE_EL3 0x100 3 (intr_boot None (Some 0x401)) = Some (rc, s') \<and>
    rc = 0 \<and> get_interrupt_type_handler INTR_TYPE_EL3 s' = Some 0x100 \<and> ctx_scr s' = [None, Some 0x405]"
proof -
  have "scr_with_bit 2 True 0x401 = 0x405" by (simp add: scr_with_bit_def set_bit_eq_or)
  then show ?thesis
    using register_handler_exact[of "intr_boot None (Some 0x401)" INTR_TYPE_EL3 True "0x100" 3]
    by (auto simp: intr_boot_def intr_wf_def INTR_TYPE_FLAGS_MASK_def has_handler_def rm_valid_def intr_line_def)
qed

text \<open>A type that does not exist: the lookup answers that there is no handler, whereas a
  registration reads the table of descriptors past its end before the type is validated.\<close>

theorem register_unknown_type:
  assumes "intr_wf s" and "MAX_INTR_TYPES \<le> unat type" and "h \<noteq> 0" and "flags AND INTR_TYPE_FLAGS_MASK = 0"
  shows "get_interrupt_type_handler type s = Some 0 \<and> set_routing_model ehf type flags s = Some (- EINVAL, s) \<and>
    register_interrupt_type_handler ehf type h flags s = None"
  using assms
  by (simp add: get_handler_eq set_routing_model_def validate_interrupt_type_0 EINVAL_def
      register_interrupt_type_handler_def aread_def intr_wf_def)

theorem register_unknown_type_witness:
  "register_interrupt_type_handler True 3 0x100 0 (intr_boot None None) = None"
  using register_unknown_type[of "intr_boot None None" 3 "0x100" 0 True]
  by (simp add: intr_boot_def intr_wf_def MAX_INTR_TYPES_def)

text \<open>(C34) EL3 interrupts and non-secure interrupts share the FIQ line in the secure state. When
  the handler of the non-secure ones is registered last, with the model that keeps them in the
  secure world, the FIQ bit of the existing secure context is cleared although the EL3 interrupts
  were registered to be taken to EL3; the value for contexts initialised later still has the bit.\<close>

theorem secure_fiq_routing_lost:
  assumes "h1 \<noteq> 0" and "h2 \<noteq> 0"
  shows "\<exists>s r'. register_all ehf [(INTR_TYPE_EL3, h1, 3), (INTR_TYPE_NS, h2, 0)] (intr_boot (Some r) ns) = Some s \<and>
    get_scr_el3_from_routing_model SECURE s = Some SCR_FIQ_BIT \<and> ctx_scr s ! 0 = Some r' \<and> \<not> bit r' 2"
proof -
  let ?s0 = "intr_boot (Some r) ns" let ?s1 = "registered INTR_TYPE_EL3 h1 3 ?s0"
  let ?s2 = "registered INTR_TYPE_NS h2 0 ?s1"
  have wf0: "intr_wf ?s0" by (simp add: intr_boot_def intr_wf_def)
  have wf1: "intr_wf ?s1" by (rule registered_wf[OF wf0]) simp
  have len: "length (intr_type_descs s) = MAX_INTR_TYPES" if "intr_wf s" for s
    using that by (simp add: intr_wf_def)
  have free: "intr_handler (intr_type_descs ?s0 ! unat t) = 0" if "unat t < MAX_INTR_TYPES" for t
    using that by (simp add: intr_boot_def)
  have "register_all ehf [(INTR_TYPE_EL3, h1, 3), (INTR_TYPE_NS, h2, 0)] ?s0 = Some ?s2"
    using assms by (simp add: register_eq wf0 wf1 free registered_nth rm_valid_def INTR_TYPE_FLAGS_MASK_def)
  moreover have "get_scr_el3_from_routing_model SECURE ?s2 = Some SCR_FIQ_BIT"
    using registered_wf[OF wf1, of INTR_TYPE_NS h2 0, THEN len]
    by (simp add: get_scr_el3_from_routing_model_def sec_state_is_valid_def registered_nth
        wf0 wf1 unat_ss intr_line_def SCR_FIQ_BIT_def)
      (simp add: intr_boot_def)
  moreover have "ctx_scr ?s2 ! 0 = Some (scr_with_bit 2 False (scr_with_bit 2 True r))"
    by (simp add: registered_ctx wf0 wf1 intr_line_def) (simp add: intr_boot_def)
  ultimately show ?thesis by (auto simp: bit_scr_with_bit)
qed

theorem secure_fiq_routing_lost_witness:
  "\<exists>s r'. register_all True [(INTR_TYPE_EL3, 8, 3), (INTR_TYPE_NS, 16, 0)] (intr_boot (Some 0) None) = Some s \<and>
    get_scr_el3_from_routing_model SECURE s = Some SCR_FIQ_BIT \<and> ctx_scr s ! 0 = Some r' \<and> \<not> bit r' 2"
  by (rule secure_fiq_routing_lost) simp_all

text \<open>Disabling the routing model of a type on the local CPU clears the bit of its line in the
  context and nothing else; enabling it again gives the bit the value that was registered.\<close>

theorem disable_enable_routing:
  assumes "intr_wf s" and "unat type < MAX_INTR_TYPES" and "has_handler type s"
    and "ss = SECURE \<or> ss = NON_SECURE" and "ctx_scr s ! unat ss = Some r"
  shows "\<exists>s1 s2 r1 r2. disable_intr_rm_local type ss s = Some (0, s1) \<and> ctx_scr s1 ! unat ss = Some r1 \<and>
    enable_intr_rm_local type ss s1 = Some (0, s2) \<and> ctx_scr s2 ! unat ss = Some r2 \<and>
    (\<forall>n < 32. bit r1 n = (n \<noteq> intr_line type ss \<and> bit r n)) \<and>
    (\<forall>n < 32. bit r2 n = (if n = intr_line type ss
       then bit (intr_flags (intr_type_descs s ! unat type)) (unat ss) else bit r n)) \<and>
    intr_type_descs s2 = intr_type_descs s"
proof -
  let ?b = "intr_line type ss" let ?v = "bit (intr_flags (intr_type_descs s ! unat type)) (unat ss)"
  have len: "length (intr_type_descs s) = MAX_INTR_TYPES" "unat ss < length (ctx_scr s)"
    using assms(1) ss_less_2[OF assms(4)] by (simp_all add: intr_wf_def)
  note line = plat_line_eq[OF assms(2,4)]
  let ?s1 = "s\<lparr>ctx_scr := (ctx_scr s)[unat ss := Some (scr_with_bit ?b False r)]\<rparr>"
  let ?s2 = "s\<lparr>ctx_scr := (ctx_scr s)[unat ss := Some (scr_with_bit ?b ?v (scr_with_bit ?b False r))]\<rparr>"
  have "cm_write_scr_el3_bit ss ?b (of_bool False) s = Some ?s1"
    using len assms(5) by (intro cm_write_scr_el3_bit_eq intr_line_12) simp_all
  then have "disable_intr_rm_local type ss s = Some (0, ?s1)"
    using assms(2,3) len by (simp add: disable_intr_rm_local_def rm_flag_bit line has_handler_def INTR_DEFAULT_RM_def)
  moreover have "cm_write_scr_el3_bit ss ?b (of_bool ?v) ?s1 = Some ?s2"
    using len cm_write_scr_el3_bit_eq[OF _ _ intr_line_12, of ss ?s1 "scr_with_bit ?b False r" type ss ?v] by simp
  then have "enable_intr_rm_local type ss ?s1 = Some (0, ?s2)"
    using assms(2,3) len by (simp add: enable_intr_rm_local_def rm_flag_bit line has_handler_def)
  moreover have "?b < 32" using intr_line_12[of type ss] by auto
  ultimately show ?thesis using len by (auto simp: bit_scr_with_bit)
qed

theorem disable_enable_routing_witness:
  "\<exists>s1 r1. disable_intr_rm_local INTR_TYPE_EL3 SECURE (registered INTR_TYPE_EL3 8 3 (intr_boot (Some 0) None)) = Some (0, s1) \<and>
    ctx_scr s1 ! unat SECURE = Some r1 \<and> \<not> bit r1 2"
proof -
  let ?init = "intr_boot (Some 0) None" let ?s = "registered INTR_TYPE_EL3 8 3 ?init"
  have wf: "intr_wf ?init" by (simp add: intr_boot_def intr_wf_def)
  have "intr_wf ?s" by (rule registered_wf[OF wf]) simp
  moreover have "has_handler INTR_TYPE_EL3 ?s" by (simp add: has_handler_registered[OF wf])
  moreover have "ctx_scr ?s ! unat SECURE = Some (scr_with_bit 2 True 0)"
    by (simp add: registered_ctx[OF wf] unat_ss intr_line_def) (simp add: intr_boot_def)
  ultimately show ?thesis
    using disable_enable_routing[of ?s INTR_TYPE_EL3 SECURE "scr_with_bit 2 True 0"]
    by (auto simp: intr_line_def)
qed

end
