(* ===== verification/GICv3.thy ===== *)
theory GICv3
  imports Interrupt_Mgmt
begin

section \<open>The interrupt controller\<close>

text \<open>
  The operations of \<^verbatim>\<open>plat/common/plat_gicv3.c\<close> and the routines of
  \<^verbatim>\<open>drivers/arm/gic/v3/gicv3_main.c\<close> below them. The registers of the controller are a record: for
  each CPU the priority mask, the interrupts it has acknowledged and not ended (with their
  priorities, the running priority being that of the latest one) and the interrupt that would be
  acknowledged next; for each interrupt its configuration bits. Private interrupts have one set of
  bits per CPU (in the redistributor), shared ones a single set (in the distributor). The device
  itself chooses the next interrupt, so that field is an input.
\<close>

unbundle bit_operations_syntax

definition MIN_SGI_ID :: u32 where "MIN_SGI_ID = 0"
definition MIN_PPI_ID :: u32 where "MIN_PPI_ID = 16"
definition MIN_SPI_ID :: u32 where "MIN_SPI_ID = 32"
definition MAX_SPI_ID :: u32 where "MAX_SPI_ID = 1019"
definition MIN_LPI_ID :: u32 where "MIN_LPI_ID = 8192"
definition PENDING_G1S_INTID :: u32 where "PENDING_G1S_INTID = 1020"
definition PENDING_G1NS_INTID :: u32 where "PENDING_G1NS_INTID = 1021"
definition GIC_SPURIOUS_INTERRUPT :: u32 where "GIC_SPURIOUS_INTERRUPT = 1023"
definition INT_ID_MASK :: u32 where "INT_ID_MASK = 0xffffff"
definition INTR_ID_UNAVAILABLE :: u32 where "INTR_ID_UNAVAILABLE = 0xFFFFFFFF"
definition GIC_HIGHEST_NS_PRIORITY :: u32 where "GIC_HIGHEST_NS_PRIORITY = 0x80"
definition INTR_ROUTING_MODE_PE :: u32 where "INTR_ROUTING_MODE_PE = 0"
definition INTR_ROUTING_MODE_ANY :: u32 where "INTR_ROUTING_MODE_ANY = 1"
definition GICV3_IRM_PE :: u32 where "GICV3_IRM_PE = 0"
definition GICV3_IRM_ANY :: u32 where "GICV3_IRM_ANY = 1"
definition INTR_TYPE_INVAL :: u32 where "INTR_TYPE_INVAL = 3"

record gic_state =
  icc_pmr :: "u32 list"
  icc_active :: "(u32 \<times> u32) list list"
  icc_hppi :: "u32 list"
  irq_group :: "nat \<Rightarrow> u32 \<Rightarrow> bool"
  irq_grpmod :: "nat \<Rightarrow> u32 \<Rightarrow> bool"
  irq_enabled :: "nat \<Rightarrow> u32 \<Rightarrow> bool"
  irq_pending :: "nat \<Rightarrow> u32 \<Rightarrow> bool"
  irq_active :: "nat \<Rightarrow> u32 \<Rightarrow> bool"
  irq_priority :: "nat \<Rightarrow> u32 \<Rightarrow> u32"
  irq_router :: "u32 \<Rightarrow> u64"

text \<open>The set of registers that holds the bits of an interrupt: the redistributor of CPU \<open>me\<close> or
  the distributor.\<close>

definition irq_bank :: "nat \<Rightarrow> u32 \<Rightarrow> nat" where
  "irq_bank me irq = (if irq < MIN_SPI_ID then Suc me else 0)"

definition upd2 :: "(nat \<Rightarrow> u32 \<Rightarrow> 'v) \<Rightarrow> nat \<Rightarrow> u32 \<Rightarrow> 'v \<Rightarrow> nat \<Rightarrow> u32 \<Rightarrow> 'v" where
  "upd2 f b irq v = f(b := (f b)(irq := v))"

lemma upd2_apply [simp]: "upd2 f b irq v b' irq' = (if b' = b \<and> irq' = irq then v else f b' irq')"
  by (simp add: upd2_def)

lemma upd2_upd2 [simp]: "upd2 (upd2 f b irq v) b irq w = upd2 f b irq w"
  by (simp add: upd2_def)

lemma upd2_same [simp]: "upd2 f b irq (f b irq) = f"
  by (simp add: upd2_def)

subsection \<open>Kinds of interrupts\<close>

definition gicv3_is_intr_id_special_identifier :: "u32 \<Rightarrow> bool" where
  "gicv3_is_intr_id_special_identifier irq \<longleftrightarrow> irq \<ge> PENDING_G1S_INTID \<and> irq \<le> GIC_SPURIOUS_INTERRUPT"

definition plat_ic_is_spi :: "u32 \<Rightarrow> bool" where
  "plat_ic_is_spi irq \<longleftrightarrow> irq \<ge> MIN_SPI_ID \<and> irq \<le> MAX_SPI_ID"

definition plat_ic_is_ppi :: "u32 \<Rightarrow> bool" where
  "plat_ic_is_ppi irq \<longleftrightarrow> irq \<ge> MIN_PPI_ID \<and> irq < MIN_SPI_ID"

definition plat_ic_is_sgi :: "u32 \<Rightarrow> bool" where
  "plat_ic_is_sgi irq \<longleftrightarrow> irq \<ge> MIN_SGI_ID \<and> irq < MIN_PPI_ID"

definition plat_ic_get_interrupt_id :: "u32 \<Rightarrow> u32" where
  "plat_ic_get_interrupt_id raw =
     (let irq = raw AND INT_ID_MASK
      in if gicv3_is_intr_id_special_identifier irq then INTR_ID_UNAVAILABLE else irq)"

definition plat_ic_has_interrupt_type :: "u32 \<Rightarrow> bool option" where
  "plat_ic_has_interrupt_type type = do {
     assert_c (type = INTR_TYPE_EL3 \<or> type = INTR_TYPE_S_EL1 \<or> type = INTR_TYPE_NS);
     Some True
   }"

subsection \<open>The CPU interface\<close>

definition plat_ic_get_running_priority :: "nat \<Rightarrow> 'a gic_state_scheme \<Rightarrow> u32 option" where
  "plat_ic_get_running_priority me s = do {
     acked \<leftarrow> aread (icc_active s) me;
     Some (case acked of [] \<Rightarrow> 0xff | (irq, pri) # _ \<Rightarrow> pri)
   }"

definition plat_ic_set_priority_mask ::
  "nat \<Rightarrow> u32 \<Rightarrow> 'a gic_state_scheme \<Rightarrow> (u32 \<times> 'a gic_state_scheme) option" where
  "plat_ic_set_priority_mask me new_mask s = do {
     old_mask \<leftarrow> aread (icc_pmr s) me;
     Some (old_mask, s\<lparr>icc_pmr := (icc_pmr s)[me := new_mask]\<rparr>)
   }"

definition plat_ic_get_pending_interrupt_id :: "nat \<Rightarrow> 'a gic_state_scheme \<Rightarrow> u32 option" where
  "plat_ic_get_pending_interrupt_id me s = do {
     irqnr \<leftarrow> aread (icc_hppi s) me;
     Some (if gicv3_is_intr_id_special_identifier irqnr then INTR_ID_UNAVAILABLE else irqnr)
   }"

definition plat_ic_get_pending_interrupt_type :: "nat \<Rightarrow> 'a gic_state_scheme \<Rightarrow> u32 option" where
  "plat_ic_get_pending_interrupt_type me s = do {
     irqnr \<leftarrow> aread (icc_hppi s) me;
     Some (if irqnr = PENDING_G1S_INTID then INTR_TYPE_S_EL1
           else if irqnr = PENDING_G1NS_INTID then INTR_TYPE_NS
           else if irqnr = GIC_SPURIOUS_INTERRUPT then INTR_TYPE_INVAL
           else INTR_TYPE_EL3)
   }"

definition plat_ic_acknowledge_interrupt ::
  "nat \<Rightarrow> 'a gic_state_scheme \<Rightarrow> (u32 \<times> 'a gic_state_scheme) option" where
  "plat_ic_acknowledge_interrupt me s = do {
     irqnr \<leftarrow> aread (icc_hppi s) me;
     let irq = irqnr AND INT_ID_MASK;
     if gicv3_is_intr_id_special_identifier irq then Some (irq, s)
     else do {
       acked \<leftarrow> aread (icc_active s) me;
       let b = irq_bank me irq;
       Some (irq, s\<lparr>icc_active := (icc_active s)[me := (irq, irq_priority s b irq) # acked],
                    icc_hppi := (icc_hppi s)[me := GIC_SPURIOUS_INTERRUPT],
                    irq_pending := upd2 (irq_pending s) b irq False,
                    irq_active := upd2 (irq_active s) b irq True\<rparr>)
     }
   }"

text \<open>Ending an interrupt other than the latest one acknowledged is unpredictable.\<close>

definition plat_ic_end_of_interrupt :: "nat \<Rightarrow> u32 \<Rightarrow> 'a gic_state_scheme \<Rightarrow> 'a gic_state_scheme option" where
  "plat_ic_end_of_interrupt me irq s = do {
     acked \<leftarrow> aread (icc_active s) me;
     case acked of [] \<Rightarrow> None
     | (latest, pri) # rest \<Rightarrow> do {
         assert_c (latest = irq);
         Some (s\<lparr>icc_active := (icc_active s)[me := rest],
                 irq_active := upd2 (irq_active s) (irq_bank me irq) irq False\<rparr>)
       }
   }"

subsection \<open>Configuration of an interrupt\<close>

definition gicv3_get_interrupt_type :: "u32 \<Rightarrow> nat \<Rightarrow> 'a gic_state_scheme \<Rightarrow> u32 option" where
  "gicv3_get_interrupt_type irq proc_num s = do {
     assert_c (irq < PENDING_G1S_INTID \<or> irq \<ge> MIN_LPI_ID);
     assert_c (proc_num < length (icc_pmr s));
     if irq \<ge> MIN_LPI_ID then Some INTR_TYPE_NS
     else do {
       let igroup = irq_group s (irq_bank proc_num irq) irq;
       let grpmodr = irq_grpmod s (irq_bank proc_num irq) irq;
       Some (if igroup then INTR_TYPE_NS else if grpmodr then INTR_TYPE_S_EL1 else INTR_TYPE_EL3)
     }
   }"

definition gicv3_get_interrupt_active :: "u32 \<Rightarrow> nat \<Rightarrow> 'a gic_state_scheme \<Rightarrow> bool option" where
  "gicv3_get_interrupt_active irq proc_num s = do {
     assert_c (proc_num < length (icc_pmr s));
     assert_c (irq \<le> MAX_SPI_ID);
     Some (irq_active s (irq_bank proc_num irq) irq)
   }"

definition gicv3_enable_interrupt :: "u32 \<Rightarrow> nat \<Rightarrow> 'a gic_state_scheme \<Rightarrow> 'a gic_state_scheme option" where
  "gicv3_enable_interrupt irq proc_num s = do {
     assert_c (proc_num < length (icc_pmr s));
     assert_c (irq \<le> MAX_SPI_ID);
     Some (s\<lparr>irq_enabled := upd2 (irq_enabled s) (irq_bank proc_num irq) irq True\<rparr>)
   }"

definition gicv3_disable_interrupt :: "u32 \<Rightarrow> nat \<Rightarrow> 'a gic_state_scheme \<Rightarrow> 'a gic_state_scheme option" where
  "gicv3_disable_interrupt irq proc_num s = do {
     assert_c (proc_num < length (icc_pmr s));
     assert_c (irq \<le> MAX_SPI_ID);
     Some (s\<lparr>irq_enabled := upd2 (irq_enabled s) (irq_bank proc_num irq) irq False\<rparr>)
   }"

definition gicv3_set_interrupt_priority ::
  "u32 \<Rightarrow> nat \<Rightarrow> u32 \<Rightarrow> 'a gic_state_scheme \<Rightarrow> 'a gic_state_scheme option" where
  "gicv3_set_interrupt_priority irq proc_num priority s = do {
     assert_c (proc_num < length (icc_pmr s));
     assert_c (irq \<le> MAX_SPI_ID);
     Some (s\<lparr>irq_priority := upd2 (irq_priority s) (irq_bank proc_num irq) irq priority\<rparr>)
   }"

definition gicv3_set_interrupt_type ::
  "u32 \<Rightarrow> nat \<Rightarrow> u32 \<Rightarrow> 'a gic_state_scheme \<Rightarrow> 'a gic_state_scheme option" where
  "gicv3_set_interrupt_type irq proc_num type s = do {
     assert_c (proc_num < length (icc_pmr s));
     (igroup, grpmod) \<leftarrow>
       (if type = INTR_TYPE_S_EL1 then Some (False, True)
        else if type = INTR_TYPE_EL3 then Some (False, False)
        else if type = INTR_TYPE_NS then Some (True, False)
        else None);
     let b = irq_bank proc_num irq;
     Some (s\<lparr>irq_group := upd2 (irq_group s) b irq igroup, irq_grpmod := upd2 (irq_grpmod s) b irq grpmod\<rparr>)
   }"

definition gicv3_clear_interrupt_pending :: "u32 \<Rightarrow> nat \<Rightarrow> 'a gic_state_scheme \<Rightarrow> 'a gic_state_scheme option" where
  "gicv3_clear_interrupt_pending irq proc_num s = do {
     assert_c (proc_num < length (icc_pmr s));
     Some (s\<lparr>irq_pending := upd2 (irq_pending s) (irq_bank proc_num irq) irq False\<rparr>)
   }"

definition gicv3_set_interrupt_pending :: "u32 \<Rightarrow> nat \<Rightarrow> 'a gic_state_scheme \<Rightarrow> 'a gic_state_scheme option" where
  "gicv3_set_interrupt_pending irq proc_num s = do {
     assert_c (proc_num < length (icc_pmr s));
     Some (s\<lparr>irq_pending := upd2 (irq_pending s) (irq_bank proc_num irq) irq True\<rparr>)
   }"

definition gicd_irouter_val_from_mpidr :: "u64 \<Rightarrow> u32 \<Rightarrow> u64" where
  "gicd_irouter_val_from_mpidr mpidr irm =
     mpidr AND ucast (NOT (push_bit 24 0xff :: u32)) OR ucast (push_bit 31 (irm AND 0x1))"

text \<open>The controller is taken to support routing to any CPU, so that the bit reads back as
  written.\<close>

definition gicv3_set_spi_routing :: "u32 \<Rightarrow> u32 \<Rightarrow> u64 \<Rightarrow> 'a gic_state_scheme \<Rightarrow> 'a gic_state_scheme option" where
  "gicv3_set_spi_routing irq irm mpidr s = do {
     assert_c (irm = GICV3_IRM_ANY \<or> irm = GICV3_IRM_PE);
     assert_c (irq \<ge> MIN_SPI_ID \<and> irq \<le> MAX_SPI_ID);
     Some (s\<lparr>irq_router := (irq_router s)(irq := gicd_irouter_val_from_mpidr mpidr irm)\<rparr>)
   }"

text \<open>A software generated interrupt becomes pending on the CPU that has the affinity; the
  position of that CPU is the platform's.\<close>

definition gicv3_raise_secure_g0_sgi ::
  "(u64 \<Rightarrow> int) \<Rightarrow> u32 \<Rightarrow> u64 \<Rightarrow> 'a gic_state_scheme \<Rightarrow> 'a gic_state_scheme option" where
  "gicv3_raise_secure_g0_sgi core_pos sgi_num target s = do {
     assert_c (sgi_num \<ge> MIN_SGI_ID \<and> sgi_num < MIN_PPI_ID);
     assert_c (target AND 0xff < 16);
     Some (s\<lparr>irq_pending := upd2 (irq_pending s) (irq_bank (nat (core_pos target)) sgi_num) sgi_num True\<rparr>)
   }"

subsection \<open>The platform interface\<close>

definition plat_ic_get_interrupt_type :: "nat \<Rightarrow> u32 \<Rightarrow> 'a gic_state_scheme \<Rightarrow> u32 option" where
  "plat_ic_get_interrupt_type me irq s = gicv3_get_interrupt_type irq me s"

definition plat_ic_get_interrupt_active :: "nat \<Rightarrow> u32 \<Rightarrow> 'a gic_state_scheme \<Rightarrow> bool option" where
  "plat_ic_get_interrupt_active me irq s = gicv3_get_interrupt_active irq me s"

definition plat_ic_enable_interrupt :: "nat \<Rightarrow> u32 \<Rightarrow> 'a gic_state_scheme \<Rightarrow> 'a gic_state_scheme option" where
  "plat_ic_enable_interrupt me irq s = gicv3_enable_interrupt irq me s"

definition plat_ic_disable_interrupt :: "nat \<Rightarrow> u32 \<Rightarrow> 'a gic_state_scheme \<Rightarrow> 'a gic_state_scheme option" where
  "plat_ic_disable_interrupt me irq s = gicv3_disable_interrupt irq me s"

definition plat_ic_set_interrupt_priority ::
  "nat \<Rightarrow> u32 \<Rightarrow> u32 \<Rightarrow> 'a gic_state_scheme \<Rightarrow> 'a gic_state_scheme option" where
  "plat_ic_set_interrupt_priority me irq priority s = gicv3_set_interrupt_priority irq me priority s"

definition plat_ic_set_interrupt_type ::
  "nat \<Rightarrow> u32 \<Rightarrow> u32 \<Rightarrow> 'a gic_state_scheme \<Rightarrow> 'a gic_state_scheme option" where
  "plat_ic_set_interrupt_type me irq type s = gicv3_set_interrupt_type irq me type s"

definition plat_ic_raise_el3_sgi ::
  "(u64 \<Rightarrow> int) \<Rightarrow> nat \<Rightarrow> u32 \<Rightarrow> u64 \<Rightarrow> 'a gic_state_scheme \<Rightarrow> 'a gic_state_scheme option" where
  "plat_ic_raise_el3_sgi core_pos me sgi_num target s = do {
     assert_c (core_pos target \<ge> 0);
     type \<leftarrow> plat_ic_get_interrupt_type me sgi_num s;
     assert_c (type = INTR_TYPE_EL3);
     gicv3_raise_secure_g0_sgi core_pos sgi_num target s
   }"

definition plat_ic_set_spi_routing ::
  "(u64 \<Rightarrow> int) \<Rightarrow> u32 \<Rightarrow> u32 \<Rightarrow> u64 \<Rightarrow> 'a gic_state_scheme \<Rightarrow> 'a gic_state_scheme option" where
  "plat_ic_set_spi_routing core_pos irq routing_mode mpidr s = do {
     irm \<leftarrow>
       (if routing_mode = INTR_ROUTING_MODE_PE
        then do { assert_c (core_pos mpidr \<ge> 0); Some GICV3_IRM_PE }
        else if routing_mode = INTR_ROUTING_MODE_ANY then Some GICV3_IRM_ANY
        else None);
     gicv3_set_spi_routing irq irm mpidr s
   }"

definition plat_ic_set_interrupt_pending :: "nat \<Rightarrow> u32 \<Rightarrow> 'a gic_state_scheme \<Rightarrow> 'a gic_state_scheme option" where
  "plat_ic_set_interrupt_pending me irq s = do {
     assert_c (irq \<ge> MIN_PPI_ID);
     gicv3_set_interrupt_pending irq me s
   }"

definition plat_ic_clear_interrupt_pending :: "nat \<Rightarrow> u32 \<Rightarrow> 'a gic_state_scheme \<Rightarrow> 'a gic_state_scheme option" where
  "plat_ic_clear_interrupt_pending me irq s = do {
     assert_c (irq \<ge> MIN_PPI_ID);
     gicv3_clear_interrupt_pending irq me s
   }"

subsection \<open>Properties\<close>

text \<open>The value written into the routing register of a shared interrupt. The bits that are
  not part of the affinity are cleared, as intended, but the mask is 32 bits wide: the field Aff3 of
  the affinity is cleared as well, so that CPUs that differ in Aff3 only get the same value.\<close>

theorem irouter_drops_aff3:
  "bit (gicd_irouter_val_from_mpidr mpidr irm) n \<longleftrightarrow> n < 24 \<and> bit mpidr n \<or> n = 31 \<and> bit irm 0"
proof -
  have m: "ucast (NOT (push_bit 24 0xff) :: u32) = (mask 24 :: u64)"
    by (simp add: mask_eq_exp_minus_1)
  have i: "bit (ucast (push_bit 31 (irm AND 0x1)) :: u64) n \<longleftrightarrow> n = 31 \<and> bit irm 0"
    by (auto simp: bit_simps)
  show ?thesis
    unfolding gicd_irouter_val_from_mpidr_def m bit_or_iff bit_and_iff bit_mask_iff i by auto
qed

end
