(* ===== verification/EHF.thy ===== *)
theory EHF
  imports GICv3
begin

section \<open>The exception handling framework\<close>

text \<open>
  \<^verbatim>\<open>bl31/ehf.c\<close>: priority levels of exceptions that are handled at EL3. Each CPU has a bitmap of
  active levels; the priority mask of its interrupt controller interface follows the activations,
  and the mask of the normal world is stashed while the secure world runs. The state extends that
  of the interrupt controller by the per-CPU data, the table of handlers of \<^verbatim>\<open>exception_data\<close> and
  the non-secure contexts. A function of the C code that does not return (\<^verbatim>\<open>panic()\<close>, a failed
  assertion) is \<^term>\<open>None\<close>.
\<close>

unbundle bit_operations_syntax

record cpu_context =
  gp_regs :: "u64 list"
  ctx_elr_el3 :: u64
  ctx_spsr_el3 :: u64
  ctx_scr_el3 :: u64

record pe_exc_data =
  active_pri_bits :: u32
  init_pri_mask :: u8
  ns_pri_mask :: u8

record el3_state = gic_state +
  ehf_data :: "pe_exc_data list"
  ehf_handlers :: "u64 list"
  ns_context :: "cpu_context option list"

text \<open>The numbers of \<^verbatim>\<open>exception_data\<close>, the table apart.\<close>

record ehf_priorities =
  num_priorities :: u32
  pri_bits :: nat

definition EHF_PRI_VALID :: u64 where "EHF_PRI_VALID = 1"
definition EHF_NO_HANDLER :: u64 where "EHF_NO_HANDLER = 0 OR EHF_PRI_VALID"
definition EHF_INVALID_IDX :: int where "EHF_INVALID_IDX = -1"

definition EHF_PRI_TO_IDX :: "u32 \<Rightarrow> nat \<Rightarrow> u32" where
  "EHF_PRI_TO_IDX pri plat_bits = drop_bit (7 - plat_bits) (pri AND 0x7f)"

definition RAW_HANDLER :: "u64 \<Rightarrow> u64" where
  "RAW_HANDLER h = (if h AND EHF_PRI_VALID \<noteq> 0 then h AND NOT EHF_PRI_VALID else 0)"

definition PRI_BIT :: "u32 \<Rightarrow> u32" where
  "PRI_BIT idx = push_bit (unat idx) 1"

definition IDX_TO_PRI :: "ehf_priorities \<Rightarrow> u32 \<Rightarrow> u32" where
  "IDX_TO_PRI e idx = push_bit (7 - pri_bits e) idx AND 0x7f"

definition IS_PRI_SECURE :: "u32 \<Rightarrow> bool" where
  "IS_PRI_SECURE pri \<longleftrightarrow> pri AND 0x80 = 0"

text \<open>The shift of a priority is defined for at most seven bits.\<close>

definition pri_to_idx :: "ehf_priorities \<Rightarrow> u32 \<Rightarrow> 'a el3_state_scheme \<Rightarrow> u32 option" where
  "pri_to_idx e priority s = do {
     assert_c (pri_bits e \<le> 7);
     let idx = EHF_PRI_TO_IDX priority (pri_bits e);
     assert_c (idx < num_priorities e);
     h \<leftarrow> aread (ehf_handlers s) (unat idx);
     assert_c (h AND EHF_PRI_VALID \<noteq> 0);
     Some idx
   }"

definition has_valid_pri_activations :: "pe_exc_data \<Rightarrow> bool" where
  "has_valid_pri_activations pe_data \<longleftrightarrow> active_pri_bits pe_data \<noteq> 0"

definition get_pe_highest_active_idx :: "pe_exc_data \<Rightarrow> int" where
  "get_pe_highest_active_idx pe_data =
     (if \<not> has_valid_pri_activations pe_data then EHF_INVALID_IDX
      else int (builtin_ctz (active_pri_bits pe_data)))"

definition this_cpu_data :: "nat \<Rightarrow> 'a el3_state_scheme \<Rightarrow> pe_exc_data option" where
  "this_cpu_data me s = aread (ehf_data s) me"

abbreviation set_cpu_data :: "nat \<Rightarrow> pe_exc_data \<Rightarrow> 'a el3_state_scheme \<Rightarrow> 'a el3_state_scheme" where
  "set_cpu_data me pe_data s \<equiv> s\<lparr>ehf_data := (ehf_data s)[me := pe_data]\<rparr>"

subsection \<open>Activation and deactivation\<close>

definition ehf_activate_priority ::
  "ehf_priorities \<Rightarrow> nat \<Rightarrow> u32 \<Rightarrow> 'a el3_state_scheme \<Rightarrow> 'a el3_state_scheme option" where
  "ehf_activate_priority e me priority s = do {
     pe_data \<leftarrow> this_cpu_data me s;
     run_pri \<leftarrow> plat_ic_get_running_priority me s;
     assert_c (\<not> priority \<ge> run_pri);
     let cur_pri_idx = get_pe_highest_active_idx pe_data;
     idx \<leftarrow> pri_to_idx e priority s;
     assert_c (\<not> (cur_pri_idx \<noteq> EHF_INVALID_IDX \<and> uint idx \<ge> cur_pri_idx));
     let pe_data = pe_data\<lparr>active_pri_bits := active_pri_bits pe_data OR PRI_BIT idx\<rparr>;
     let s = set_cpu_data me pe_data s;
     (old_mask, s) \<leftarrow> plat_ic_set_priority_mask me priority s;
     assert_c (\<not> priority \<ge> old_mask);
     Some (if cur_pri_idx = EHF_INVALID_IDX
           then set_cpu_data me (pe_data\<lparr>init_pri_mask := ucast old_mask\<rparr>) s
           else s)
   }"

definition ehf_deactivate_priority ::
  "ehf_priorities \<Rightarrow> nat \<Rightarrow> u32 \<Rightarrow> 'a el3_state_scheme \<Rightarrow> 'a el3_state_scheme option" where
  "ehf_deactivate_priority e me priority s = do {
     pe_data \<leftarrow> this_cpu_data me s;
     run_pri \<leftarrow> plat_ic_get_running_priority me s;
     assert_c (\<not> priority \<ge> run_pri);
     let cur_pri_idx = get_pe_highest_active_idx pe_data;
     idx \<leftarrow> pri_to_idx e priority s;
     assert_c (\<not> (cur_pri_idx = EHF_INVALID_IDX \<or> uint idx \<noteq> cur_pri_idx));
     let pe_data = pe_data\<lparr>active_pri_bits := active_pri_bits pe_data AND (active_pri_bits pe_data - 1)\<rparr>;
     let s = set_cpu_data me pe_data s;
     let cur_pri_idx = get_pe_highest_active_idx pe_data;
     (old_mask, s) \<leftarrow>
       (if cur_pri_idx = EHF_INVALID_IDX
        then plat_ic_set_priority_mask me (ucast (init_pri_mask pe_data)) s
        else plat_ic_set_priority_mask me priority s);
     assert_c (\<not> old_mask > priority);
     Some s
   }"

subsection \<open>Changes of world\<close>

definition ehf_exited_normal_world :: "nat \<Rightarrow> 'a el3_state_scheme \<Rightarrow> 'a el3_state_scheme option" where
  "ehf_exited_normal_world me s = do {
     pe_data \<leftarrow> this_cpu_data me s;
     run_pri \<leftarrow> plat_ic_get_running_priority me s;
     if IS_PRI_SECURE run_pri then Some s
     else if has_valid_pri_activations pe_data then Some s
     else do {
       assert_c (ns_pri_mask pe_data = 0);
       (old_mask, s) \<leftarrow> plat_ic_set_priority_mask me GIC_HIGHEST_NS_PRIORITY s;
       let pe_data = pe_data\<lparr>ns_pri_mask := ucast old_mask\<rparr>;
       let s = set_cpu_data me pe_data s;
       assert_c (\<not> IS_PRI_SECURE (ucast (ns_pri_mask pe_data)));
       Some s
     }
   }"

definition ehf_entering_normal_world :: "nat \<Rightarrow> 'a el3_state_scheme \<Rightarrow> 'a el3_state_scheme option" where
  "ehf_entering_normal_world me s = do {
     pe_data \<leftarrow> this_cpu_data me s;
     run_pri \<leftarrow> plat_ic_get_running_priority me s;
     if IS_PRI_SECURE run_pri then Some s
     else if has_valid_pri_activations pe_data then Some s
     else if ns_pri_mask pe_data = 0 then Some s
     else do {
       (old_pmr, s) \<leftarrow> plat_ic_set_priority_mask me (ucast (ns_pri_mask pe_data)) s;
       assert_c (\<not> (old_pmr \<noteq> GIC_HIGHEST_NS_PRIORITY \<and> old_pmr \<noteq> ucast (ns_pri_mask pe_data)));
       Some (set_cpu_data me (pe_data\<lparr>ns_pri_mask := 0\<rparr>) s)
     }
   }"

definition ehf_allow_ns_preemption :: "nat \<Rightarrow> u64 \<Rightarrow> 'a el3_state_scheme \<Rightarrow> 'a el3_state_scheme option" where
  "ehf_allow_ns_preemption me preempt_ret_code s = do {
     pe_data \<leftarrow> this_cpu_data me s;
     assert_c (ns_pri_mask pe_data \<noteq> 0);
     assert_c (\<not> has_valid_pri_activations pe_data);
     ctx \<leftarrow> aread (ns_context s) me;
     ns_ctx \<leftarrow> ctx;
     x \<leftarrow> awrite (gp_regs ns_ctx) 0 preempt_ret_code;
     let s = s\<lparr>ns_context := (ns_context s)[me := Some (ns_ctx\<lparr>gp_regs := x\<rparr>)]\<rparr>;
     (old_pmr, s) \<leftarrow> plat_ic_set_priority_mask me (ucast (ns_pri_mask pe_data)) s;
     Some (set_cpu_data me (pe_data\<lparr>ns_pri_mask := 0\<rparr>) s)
   }"

definition ehf_is_ns_preemption_allowed :: "nat \<Rightarrow> 'a el3_state_scheme \<Rightarrow> u32 option" where
  "ehf_is_ns_preemption_allowed me s = do {
     pe_data \<leftarrow> this_cpu_data me s;
     run_pri \<leftarrow> plat_ic_get_running_priority me s;
     Some (if IS_PRI_SECURE run_pri then 0
           else if has_valid_pri_activations pe_data then 0
           else if ns_pri_mask pe_data \<noteq> 0 then 0
           else 1)
   }"

subsection \<open>Handlers\<close>

text \<open>The code behind the address of a handler is the parameter \<open>call\<close>.\<close>

definition ehf_el3_interrupt_handler ::
  "(u64 \<Rightarrow> u32 \<Rightarrow> u32 \<Rightarrow> 'a el3_state_scheme \<Rightarrow> (int \<times> 'a el3_state_scheme) option) \<Rightarrow>
   ehf_priorities \<Rightarrow> nat \<Rightarrow> u32 \<Rightarrow> u32 \<Rightarrow> 'a el3_state_scheme \<Rightarrow> (u64 \<times> 'a el3_state_scheme) option" where
  "ehf_el3_interrupt_handler call e me irq_id flags s = do {
     assert_c (irq_id = INTR_ID_UNAVAILABLE);
     (intr_raw, s) \<leftarrow> plat_ic_acknowledge_interrupt me s;
     let intr = plat_ic_get_interrupt_id intr_raw;
     if intr = INTR_ID_UNAVAILABLE then Some (0, s)
     else do {
       pri \<leftarrow> plat_ic_get_running_priority me s;
       assert_c (IS_PRI_SECURE pri);
       idx \<leftarrow> pri_to_idx e pri s;
       assert_c (pri = IDX_TO_PRI e idx);
       h \<leftarrow> aread (ehf_handlers s) (unat idx);
       let handler = RAW_HANDLER h;
       assert_c (handler \<noteq> 0);
       (ret, s) \<leftarrow> call handler intr_raw flags s;
       Some (word_of_int ret, s)
     }
   }"

definition ehf_register_priority_handler ::
  "ehf_priorities \<Rightarrow> u32 \<Rightarrow> u64 \<Rightarrow> 'a el3_state_scheme \<Rightarrow> 'a el3_state_scheme option" where
  "ehf_register_priority_handler e pri handler s = do {
     assert_c (handler \<noteq> 0);
     assert_c (handler AND 3 = 0);
     idx \<leftarrow> pri_to_idx e pri s;
     assert_c (idx < num_priorities e);
     assert_c (IDX_TO_PRI e idx = pri);
     h \<leftarrow> aread (ehf_handlers s) (unat idx);
     assert_c (\<not> h \<noteq> EHF_NO_HANDLER);
     Some (s\<lparr>ehf_handlers := (ehf_handlers s)[unat idx := handler OR EHF_PRI_VALID]\<rparr>)
   }"

text \<open>The address of the interrupt handler that \<^verbatim>\<open>ehf_init()\<close> registers is an argument; the
  fourth assertion of the source is a disjunction that always holds.\<close>

definition ehf_init ::
  "ehf_priorities \<Rightarrow> u64 \<Rightarrow> intr_state \<Rightarrow> intr_state option" where
  "ehf_init e handler i = do {
     supported \<leftarrow> plat_ic_has_interrupt_type INTR_TYPE_EL3;
     assert_c supported;
     assert_c (unat (num_priorities e) \<le> 32);
     assert_c (pri_bits e \<ge> 1 \<or> pri_bits e < 8);
     let flags = set_interrupt_rm_flag 0 NON_SECURE;
     let flags = set_interrupt_rm_flag flags SECURE;
     (ret, i) \<leftarrow> register_interrupt_type_handler True INTR_TYPE_EL3 handler flags i;
     assert_c (ret = 0);
     Some i
   }"

subsection \<open>The bitmap of active levels\<close>

lemma ctz_props:
  assumes "w \<noteq> (0 :: 'a::len word)"
  shows "builtin_ctz w < LENGTH('a)" "bit w (builtin_ctz w)" "k < builtin_ctz w \<Longrightarrow> \<not> bit w k"
proof -
  let ?l = "[0..<LENGTH('a)]" let ?P = "\<lambda>i. \<not> bit w i"
  obtain n where n: "bit w n" "n < LENGTH('a)"
    using assms bit_word_eqI[of w 0] by (auto dest: bit_imp_le_length)
  have "builtin_ctz w \<noteq> length ?l"
  proof
    assume "builtin_ctz w = length ?l"
    then have "takeWhile ?P ?l = ?l"
      unfolding builtin_ctz_def by (metis takeWhile_eq_take take_all le_refl)
    then show False using n by (auto simp: takeWhile_eq_all_conv)
  qed
  moreover have "builtin_ctz w \<le> length ?l" unfolding builtin_ctz_def by (rule length_takeWhile_le)
  ultimately have lt: "builtin_ctz w < length ?l" by simp
  then show "builtin_ctz w < LENGTH('a)" by simp
  show "bit w (builtin_ctz w)"
    using nth_length_takeWhile[of ?P ?l] lt by (simp add: builtin_ctz_def)
  show "\<not> bit w k" if "k < builtin_ctz w" for k
    using takeWhile_nth[of k ?P ?l] nth_mem[of k "takeWhile ?P ?l"] that lt set_takeWhileD[of k ?P ?l]
    by (simp add: builtin_ctz_def)
qed

lemma ctz_eqI:
  assumes "bit w n" "\<And>k. k < n \<Longrightarrow> \<not> bit w k"
  shows "builtin_ctz w = n"
proof -
  have "w \<noteq> 0" using assms(1) by auto
  note c = ctz_props[OF this]
  show ?thesis using assms c(2) c(3)[of n] by (metis linorder_neqE_nat)
qed

lemma clear_lowest_bit:
  assumes w: "w \<noteq> (0 :: 'a::len word)"
  shows "bit (w AND (w - 1)) n \<longleftrightarrow> bit w n \<and> n \<noteq> builtin_ctz w"
proof -
  let ?k = "builtin_ctz w" let ?v = "w AND NOT (push_bit ?k 1)"
  note c = ctz_props[OF w]
  have v: "bit ?v n \<longleftrightarrow> bit w n \<and> n \<noteq> ?k" for n
    using bit_imp_le_length[of w n] by (auto simp: bit_simps)
  have "?v OR push_bit ?k 1 = w"
    by (rule bit_eqI) (use c(2) in \<open>auto simp: bit_simps\<close>)
  moreover have "?v OR push_bit ?k 1 = ?v + push_bit ?k 1"
    by (rule disjunctive_add[symmetric]) (auto simp: bit_simps)
  moreover have "?v OR mask ?k = ?v + mask ?k"
    by (rule disjunctive_add[symmetric]) (use c(3) in \<open>auto simp: bit_simps\<close>)
  ultimately have "w - 1 = ?v OR mask ?k"
    by (metis (no_types, lifting) add_diff_eq mask_eq_exp_minus_1 push_bit_of_1)
  then show ?thesis using v c(3)[of n] by (auto simp: bit_simps)
qed

lemma ctz_set_lower:
  assumes "k < LENGTH('a)" "w \<noteq> (0 :: 'a::len word) \<longrightarrow> k < builtin_ctz w"
  shows "builtin_ctz (w OR push_bit k 1) = k" "w OR push_bit k 1 \<noteq> 0"
    "(w OR push_bit k 1) AND ((w OR push_bit k 1) - 1) = w"
proof -
  have low: "\<not> bit w j" if "j \<le> k" for j
    using assms(2) ctz_props(3)[of w j] that by (cases "w = 0") auto
  show c: "builtin_ctz (w OR push_bit k 1) = k"
    by (rule ctz_eqI) (use assms(1) low in \<open>auto simp: bit_simps\<close>)
  have "bit (w OR push_bit k 1) k" using assms(1) by (simp add: bit_simps)
  then show nz: "w OR push_bit k 1 \<noteq> 0" by auto
  show "(w OR push_bit k 1) AND ((w OR push_bit k 1) - 1) = w"
  proof (rule bit_eqI)
    fix n
    show "bit ((w OR push_bit k 1) AND ((w OR push_bit k 1) - 1)) n \<longleftrightarrow> bit w n"
      unfolding clear_lowest_bit[OF nz] c using low by (auto simp: bit_simps)
  qed
qed

text \<open>The platform's data has at most as many levels as the bitmap has bits, as \<^verbatim>\<open>ehf_init()\<close>
  asserts.\<close>

definition ehf_conf_ok :: "ehf_priorities \<Rightarrow> bool" where
  "ehf_conf_ok e \<longleftrightarrow> unat (num_priorities e) \<le> 32 \<and> pri_bits e \<le> 7"

lemma pri_to_idx_Some:
  "pri_to_idx e p s = Some idx \<longleftrightarrow> pri_bits e \<le> 7 \<and> idx = EHF_PRI_TO_IDX p (pri_bits e) \<and> idx < num_priorities e \<and>
     unat idx < length (ehf_handlers s) \<and> ehf_handlers s ! unat idx AND EHF_PRI_VALID \<noteq> 0"
  by (auto simp: pri_to_idx_def Let_def)

lemma pri_to_idx_cong [simp]:
  "pri_to_idx e p (s\<lparr>icc_pmr := m\<rparr>) = pri_to_idx e p s"
  "pri_to_idx e p (s\<lparr>ehf_data := d\<rparr>) = pri_to_idx e p s"
  by (simp_all add: pri_to_idx_def)

lemma running_cong [simp]:
  "plat_ic_get_running_priority me (s\<lparr>icc_pmr := m\<rparr>) = plat_ic_get_running_priority me s"
  "plat_ic_get_running_priority me (s\<lparr>ehf_data := d\<rparr>) = plat_ic_get_running_priority me s"
  by (simp_all add: plat_ic_get_running_priority_def)

lemma idx_less_32:
  assumes "ehf_conf_ok e" "pri_to_idx e p s = Some idx" shows "unat idx < 32"
  using assms by (auto simp: ehf_conf_ok_def pri_to_idx_Some word_less_nat_alt)

definition activated :: "nat \<Rightarrow> u32 \<Rightarrow> u32 \<Rightarrow> 'a el3_state_scheme \<Rightarrow> 'a el3_state_scheme" where
  "activated me p idx s = (let pe = ehf_data s ! me; w = active_pri_bits pe in
     s\<lparr>icc_pmr := (icc_pmr s)[me := p], ehf_data := (ehf_data s)[me := pe\<lparr>active_pri_bits := w OR PRI_BIT idx,
       init_pri_mask := if w = 0 then ucast (icc_pmr s ! me) else init_pri_mask pe\<rparr>]\<rparr>)"

lemma highest_idx_cases:
  "get_pe_highest_active_idx pe = (if active_pri_bits pe = 0 then -1 else int (builtin_ctz (active_pri_bits pe)))"
  by (simp add: get_pe_highest_active_idx_def has_valid_pri_activations_def EHF_INVALID_IDX_def)

lemma u8_of_u32: "w < 0x100 \<Longrightarrow> ucast (ucast w :: u8) = (w :: u32)"
  by (simp add: word_unat_eq_iff unsigned_ucast_eq unsigned_take_bit_eq take_bit_nat_eq_self word_less_nat_alt)

lemma uint_cmp: "int n \<le> uint w \<longleftrightarrow> n \<le> unat w" "uint w = int n \<longleftrightarrow> unat w = n"
  by (metis int_eq_iff of_nat_le_iff uint_nat)+

lemma activate_eq:
  assumes "plat_ic_get_running_priority me s = Some run" "pri_to_idx e p s = Some idx"
    "me < length (ehf_data s)" "me < length (icc_pmr s)"
  shows "ehf_activate_priority e me p s =
     (if p < run \<and> (active_pri_bits (ehf_data s ! me) \<noteq> 0 \<longrightarrow> unat idx < builtin_ctz (active_pri_bits (ehf_data s ! me))) \<and>
        p < icc_pmr s ! me then Some (activated me p idx s) else None)"
  using assms by (auto simp: ehf_activate_priority_def this_cpu_data_def plat_ic_set_priority_mask_def Let_def
      activated_def highest_idx_cases EHF_INVALID_IDX_def uint_cmp assert_c_def)

definition deactivated :: "nat \<Rightarrow> u32 \<Rightarrow> 'a el3_state_scheme \<Rightarrow> 'a el3_state_scheme" where
  "deactivated me p s = (let pe = ehf_data s ! me; w = active_pri_bits pe; w' = w AND (w - 1) in
     s\<lparr>icc_pmr := (icc_pmr s)[me := if w' = 0 then ucast (init_pri_mask pe) else p],
       ehf_data := (ehf_data s)[me := pe\<lparr>active_pri_bits := w'\<rparr>]\<rparr>)"

lemma deactivate_eq:
  assumes "plat_ic_get_running_priority me s = Some run" "pri_to_idx e p s = Some idx"
    "me < length (ehf_data s)" "me < length (icc_pmr s)"
  shows "ehf_deactivate_priority e me p s =
     (if p < run \<and> active_pri_bits (ehf_data s ! me) \<noteq> 0 \<and> unat idx = builtin_ctz (active_pri_bits (ehf_data s ! me)) \<and>
        icc_pmr s ! me \<le> p then Some (deactivated me p s) else None)"
  using assms by (auto simp: ehf_deactivate_priority_def this_cpu_data_def plat_ic_set_priority_mask_def Let_def
      deactivated_def highest_idx_cases EHF_INVALID_IDX_def uint_cmp assert_c_def)

lemma activate_SomeE:
  assumes "ehf_activate_priority e me p s = Some s'"
  obtains run idx where "plat_ic_get_running_priority me s = Some run" "p < run" "pri_to_idx e p s = Some idx"
    "me < length (ehf_data s)" "me < length (icc_pmr s)" "p < icc_pmr s ! me"
    "active_pri_bits (ehf_data s ! me) \<noteq> 0 \<longrightarrow> unat idx < builtin_ctz (active_pri_bits (ehf_data s ! me))"
    "s' = activated me p idx s"
proof -
  obtain run idx where *: "plat_ic_get_running_priority me s = Some run" "pri_to_idx e p s = Some idx"
    "me < length (ehf_data s)" "me < length (icc_pmr s)"
    using assms unfolding ehf_activate_priority_def this_cpu_data_def plat_ic_set_priority_mask_def
    by (auto simp: bind_Some_iff Let_def)
  then show thesis using assms that activate_eq[OF *] by (auto split: if_split_asm)
qed

lemma deactivate_SomeE:
  assumes "ehf_deactivate_priority e me p s = Some s'"
  obtains run idx where "plat_ic_get_running_priority me s = Some run" "p < run" "pri_to_idx e p s = Some idx"
    "me < length (ehf_data s)" "me < length (icc_pmr s)" "active_pri_bits (ehf_data s ! me) \<noteq> 0"
    "unat idx = builtin_ctz (active_pri_bits (ehf_data s ! me))" "icc_pmr s ! me \<le> p" "s' = deactivated me p s"
proof -
  obtain run idx where *: "plat_ic_get_running_priority me s = Some run" "pri_to_idx e p s = Some idx"
    "me < length (ehf_data s)" "me < length (icc_pmr s)"
    using assms unfolding ehf_deactivate_priority_def this_cpu_data_def plat_ic_set_priority_mask_def
    by (auto simp: bind_Some_iff Let_def split: if_split_asm)
  then show thesis using assms that deactivate_eq[OF *] by (auto split: if_split_asm)
qed

lemma activated_simps [simp]:
  "plat_ic_get_running_priority me (activated me p idx s) = plat_ic_get_running_priority me s"
  "pri_to_idx e q (activated me p idx s) = pri_to_idx e q s"
  "length (ehf_data (activated me p idx s)) = length (ehf_data s)"
  "length (icc_pmr (activated me p idx s)) = length (icc_pmr s)"
  "me < length (icc_pmr s) \<Longrightarrow> icc_pmr (activated me p idx s) ! me = p"
  "me < length (ehf_data s) \<Longrightarrow>
     active_pri_bits (ehf_data (activated me p idx s) ! me) = active_pri_bits (ehf_data s ! me) OR PRI_BIT idx"
  by (simp_all add: activated_def Let_def)

lemma deactivated_simps [simp]:
  "plat_ic_get_running_priority me (deactivated me p s) = plat_ic_get_running_priority me s"
  "pri_to_idx e q (deactivated me p s) = pri_to_idx e q s"
  "length (ehf_data (deactivated me p s)) = length (ehf_data s)"
  "length (icc_pmr (deactivated me p s)) = length (icc_pmr s)"
  by (simp_all add: deactivated_def Let_def)

lemma deactivated_activated:
  assumes conf: "ehf_conf_ok e" and idx: "pri_to_idx e p s = Some idx"
    and me: "me < length (ehf_data s)" "me < length (icc_pmr s)"
    and low: "active_pri_bits (ehf_data s ! me) \<noteq> 0 \<longrightarrow> unat idx < builtin_ctz (active_pri_bits (ehf_data s ! me))"
  shows "deactivated me p (activated me p idx s) =
    (if active_pri_bits (ehf_data s ! me) = 0
     then s\<lparr>icc_pmr := (icc_pmr s)[me := ucast (ucast (icc_pmr s ! me) :: u8)],
            ehf_data := (ehf_data s)[me := (ehf_data s ! me)\<lparr>init_pri_mask := ucast (icc_pmr s ! me)\<rparr>]\<rparr>
     else s\<lparr>icc_pmr := (icc_pmr s)[me := p]\<rparr>)"
proof -
  note z = ctz_set_lower[of "unat idx", where 'a = 32, OF _ low, folded PRI_BIT_def]
  have i: "unat idx < LENGTH(32)" using idx_less_32[OF conf idx] by simp
  have "(ehf_data s)[me := (ehf_data s ! me)\<lparr>active_pri_bits := active_pri_bits (ehf_data s ! me)\<rparr>] = ehf_data s"
    by simp
  then show ?thesis
    using z(3)[OF i] me by (cases "ehf_data s ! me") (simp add: deactivated_def activated_def Let_def)
qed

subsection \<open>Sequences of operations\<close>

datatype ehf_op = Activate u32 | Deactivate u32 | Exited | Entering | Allow u64

fun ehf_do :: "ehf_priorities \<Rightarrow> nat \<Rightarrow> ehf_op \<Rightarrow> 'a el3_state_scheme \<Rightarrow> 'a el3_state_scheme option" where
  "ehf_do e me (Activate p) s = ehf_activate_priority e me p s"
| "ehf_do e me (Deactivate p) s = ehf_deactivate_priority e me p s"
| "ehf_do e me Exited s = ehf_exited_normal_world me s"
| "ehf_do e me Entering s = ehf_entering_normal_world me s"
| "ehf_do e me (Allow x) s = ehf_allow_ns_preemption me x s"

fun ehf_run :: "ehf_priorities \<Rightarrow> nat \<Rightarrow> ehf_op list \<Rightarrow> 'a el3_state_scheme \<Rightarrow> 'a el3_state_scheme option" where
  "ehf_run e me [] s = Some s"
| "ehf_run e me (op # ops) s = do { s \<leftarrow> ehf_do e me op s; ehf_run e me ops s }"

text \<open>Levels are priorities of the secure range.\<close>

fun secure_op :: "ehf_op \<Rightarrow> bool" where
  "secure_op (Activate p) \<longleftrightarrow> p < 0x80"
| "secure_op (Deactivate p) \<longleftrightarrow> p < 0x80"
| "secure_op op \<longleftrightarrow> True"


definition masked :: "ehf_priorities \<Rightarrow> nat \<Rightarrow> 'a el3_state_scheme \<Rightarrow> bool" where
  "masked e me s \<longleftrightarrow> (active_pri_bits (ehf_data s ! me) \<noteq> 0 \<longrightarrow> icc_pmr s ! me < 0x80 \<and>
     unat (EHF_PRI_TO_IDX (icc_pmr s ! me) (pri_bits e)) \<le> builtin_ctz (active_pri_bits (ehf_data s ! me)))"

lemma ctz_clear_lowest:
  assumes "w \<noteq> 0" "w AND (w - 1) \<noteq> 0" shows "builtin_ctz w < builtin_ctz (w AND (w - 1))"
proof -
  have "bit w (builtin_ctz (w AND (w - 1)))" "builtin_ctz (w AND (w - 1)) \<noteq> builtin_ctz w"
    using ctz_props(2)[OF assms(2)] clear_lowest_bit[OF assms(1)] by blast+
  then show ?thesis using ctz_props(3)[OF assms(1)] by (metis linorder_neqE_nat)
qed

lemma masked_activate:
  assumes conf: "ehf_conf_ok e" and r: "ehf_activate_priority e me p s = Some s'" and p: "p < 0x80"
  shows "masked e me s'"
proof (rule activate_SomeE[OF r])
  fix run idx
  assume idx: "pri_to_idx e p s = Some idx" and me: "me < length (ehf_data s)" "me < length (icc_pmr s)"
    and low: "active_pri_bits (ehf_data s ! me) \<noteq> 0 \<longrightarrow> unat idx < builtin_ctz (active_pri_bits (ehf_data s ! me))"
    and s': "s' = activated me p idx s"
  note z = ctz_set_lower[of "unat idx", where 'a = 32, OF _ low, folded PRI_BIT_def]
  have "unat idx < LENGTH(32)" using idx_less_32[OF conf idx] by simp
  note z = z[OF this]
  moreover have "EHF_PRI_TO_IDX p (pri_bits e) = idx" using idx by (simp add: pri_to_idx_Some)
  ultimately show ?thesis using me p by (simp add: masked_def s')
qed

lemma masked_deactivate:
  assumes conf: "ehf_conf_ok e" and r: "ehf_deactivate_priority e me p s = Some s'" and p: "p < 0x80"
  shows "masked e me s'"
proof (rule deactivate_SomeE[OF r])
  fix run idx
  assume idx: "pri_to_idx e p s = Some idx" and me: "me < length (ehf_data s)" "me < length (icc_pmr s)"
    and w: "active_pri_bits (ehf_data s ! me) \<noteq> 0" and i: "unat idx = builtin_ctz (active_pri_bits (ehf_data s ! me))"
    and s': "s' = deactivated me p s"
  have "EHF_PRI_TO_IDX p (pri_bits e) = idx" using idx by (simp add: pri_to_idx_Some)
  then show ?thesis using me p i ctz_clear_lowest[OF w] by (auto simp: masked_def s' deactivated_def Let_def)
qed

lemma ehf_world_cases:
  assumes "ehf_exited_normal_world me s = Some s' \<or> ehf_entering_normal_world me s = Some s' \<or>
    ehf_allow_ns_preemption me x s = Some s'"
  shows "s' = s \<or> active_pri_bits (ehf_data s' ! me) = 0"
  using assms
  by (auto simp: ehf_exited_normal_world_def ehf_entering_normal_world_def ehf_allow_ns_preemption_def
      this_cpu_data_def bind_Some_iff has_valid_pri_activations_def plat_ic_set_priority_mask_def Let_def
      split: if_split_asm)

lemma masked_do:
  assumes "ehf_conf_ok e" "masked e me s" "secure_op op" "ehf_do e me op s = Some s'"
  shows "masked e me s'"
proof (cases op)
  case (Activate p)
  then show ?thesis using assms masked_activate[OF assms(1)] by simp
next
  case (Deactivate p)
  then show ?thesis using assms masked_deactivate[OF assms(1)] by simp
qed (use assms ehf_world_cases in \<open>fastforce simp: masked_def\<close>)+

lemma masked_run:
  assumes "ehf_conf_ok e" "masked e me s" "list_all secure_op ops" "ehf_run e me ops s = Some s'"
  shows "masked e me s'"
  using assms(2-4)
proof (induction ops arbitrary: s)
  case (Cons op ops)
  then obtain s1 where s1: "ehf_do e me op s = Some s1" "ehf_run e me ops s1 = Some s'"
    by (auto simp: bind_Some_iff)
  moreover have "masked e me s1"
    using Cons.prems s1(1) by (intro masked_do[OF assms(1) Cons.prems(1)]) auto
  ultimately show ?case using Cons by auto
qed simp






subsection \<open>Properties\<close>

lemma handler_tag:
  assumes "h AND 3 = (0 :: u64)"
  shows "(h OR EHF_PRI_VALID) AND EHF_PRI_VALID \<noteq> 0" "RAW_HANDLER (h OR EHF_PRI_VALID) = h"
    "h OR EHF_PRI_VALID = EHF_NO_HANDLER \<longrightarrow> h = 0"
proof -
  have z: "\<not> bit h 0" using arg_cong[OF assms, of "\<lambda>w. bit w 0"] by (simp add: bit_simps)
  have v: "(h OR EHF_PRI_VALID) AND EHF_PRI_VALID = 1"
    by (rule bit_word_eqI) (auto simp: EHF_PRI_VALID_def bit_simps)
  then show "(h OR EHF_PRI_VALID) AND EHF_PRI_VALID \<noteq> 0" by simp
  have r: "(h OR 1) AND NOT 1 = h"
    by (rule bit_word_eqI) (use z in \<open>auto simp: bit_simps intro!: gr0I\<close>)
  then show "RAW_HANDLER (h OR EHF_PRI_VALID) = h"
    using v by (simp add: RAW_HANDLER_def EHF_PRI_VALID_def)
  show "h OR EHF_PRI_VALID = EHF_NO_HANDLER \<longrightarrow> h = 0"
    using r by (auto simp: EHF_NO_HANDLER_def EHF_PRI_VALID_def)
qed

lemma secure_IDX_TO_PRI: "IS_PRI_SECURE (IDX_TO_PRI e idx)"
proof -
  have "IDX_TO_PRI e idx AND 0x80 = push_bit (7 - pri_bits e) idx AND (0x7f AND 0x80)"
    unfolding IDX_TO_PRI_def by (simp only: and.assoc)
  then show ?thesis by (simp add: IS_PRI_SECURE_def)
qed

lemma small_irq:
  assumes "irq < (1020 :: u32)"
  shows "\<not> gicv3_is_intr_id_special_identifier irq" "irq AND INT_ID_MASK = irq" "irq \<noteq> INTR_ID_UNAVAILABLE"
proof -
  have u: "unat irq < 1020" using assms by (simp add: word_less_nat_alt)
  then show "\<not> gicv3_is_intr_id_special_identifier irq" "irq \<noteq> INTR_ID_UNAVAILABLE"
    by (auto simp: gicv3_is_intr_id_special_identifier_def PENDING_G1S_INTID_def INTR_ID_UNAVAILABLE_def word_le_nat_alt)
  have "INT_ID_MASK = mask 24" by (simp add: INT_ID_MASK_def mask_eq_exp_minus_1)
  then have "irq AND INT_ID_MASK = take_bit 24 irq" by (simp add: take_bit_eq_mask)
  also have "\<dots> = irq" using u by (simp add: word_unat_eq_iff unsigned_take_bit_eq take_bit_nat_eq_self)
  finally show "irq AND INT_ID_MASK = irq" .
qed

text \<open>A platform with eight levels, of which the last two are in use, and one CPU.\<close>

definition ehf_demo :: ehf_priorities where
  "ehf_demo = \<lparr>num_priorities = 8, pri_bits = 3\<rparr>"

definition el3_demo :: "u32 \<Rightarrow> el3_state" where
  "el3_demo pmr = \<lparr>icc_pmr = [pmr], icc_active = [[]], icc_hppi = [GIC_SPURIOUS_INTERRUPT],
     irq_group = \<lambda>b irq. True, irq_grpmod = \<lambda>b irq. False, irq_enabled = \<lambda>b irq. False,
     irq_pending = \<lambda>b irq. False, irq_active = \<lambda>b irq. False, irq_priority = \<lambda>b irq. 0xff, irq_router = \<lambda>irq. 0,
     ehf_data = [\<lparr>active_pri_bits = 0, init_pri_mask = 0, ns_pri_mask = 0\<rparr>],
     ehf_handlers = [0, 0, 0, 0, 0, 0, 1, 1],
     ns_context = [Some \<lparr>gp_regs = replicate 31 0, ctx_elr_el3 = 0, ctx_spsr_el3 = 0, ctx_scr_el3 = 0\<rparr>]\<rparr>"

lemma demo_conf: "ehf_conf_ok ehf_demo"
  by (simp add: ehf_conf_ok_def ehf_demo_def)

lemma demo_pmr: "icc_pmr (el3_demo m) = [m]"
  by (simp add: el3_demo_def)

lemma demo_activates:
  "ehf_activate_priority ehf_demo 0 0x60 (el3_demo 0xf0) = Some (activated 0 0x60 6 (el3_demo 0xf0))"
proof -
  have "pri_to_idx ehf_demo 0x60 (el3_demo 0xf0) = Some 6"
    by (simp add: pri_to_idx_Some ehf_demo_def el3_demo_def EHF_PRI_TO_IDX_def EHF_PRI_VALID_def)
  moreover have "plat_ic_get_running_priority 0 (el3_demo 0xf0) = Some 0xff"
    by (simp add: plat_ic_get_running_priority_def el3_demo_def)
  ultimately show ?thesis using activate_eq[of 0 "el3_demo 0xf0" "0xff" ehf_demo "0x60" 6]
    by (simp add: el3_demo_def)
qed

text \<open>(C27) Whenever the activation of a priority level succeeds, deactivating it afterwards
  succeeds as well and gives back the bitmap of active levels. If no level was active before, the
  priority mask is back to its old value too, and the whole state is the old one but for the saved
  mask, which is overwritten by the next first activation.\<close>

theorem activate_deactivate:
  assumes "ehf_conf_ok e" and "ehf_activate_priority e me p s = Some s1"
  shows "\<exists>s2. ehf_deactivate_priority e me p s1 = Some s2 \<and>
    active_pri_bits (ehf_data s2 ! me) = active_pri_bits (ehf_data s ! me) \<and>
    (active_pri_bits (ehf_data s ! me) = 0 \<and> icc_pmr s ! me < 0x100 \<longrightarrow>
       s2 = s\<lparr>ehf_data := (ehf_data s)[me := (ehf_data s ! me)\<lparr>init_pri_mask := ucast (icc_pmr s ! me)\<rparr>]\<rparr>)"
proof (rule activate_SomeE[OF assms(2)])
  fix run idx
  assume r: "plat_ic_get_running_priority me s = Some run" "p < run" and idx: "pri_to_idx e p s = Some idx"
    and me: "me < length (ehf_data s)" "me < length (icc_pmr s)"
    and low: "active_pri_bits (ehf_data s ! me) \<noteq> 0 \<longrightarrow> unat idx < builtin_ctz (active_pri_bits (ehf_data s ! me))"
    and s1: "s1 = activated me p idx s"
  note z = ctz_set_lower[of "unat idx", where 'a = 32, OF _ low, folded PRI_BIT_def]
  have i: "unat idx < LENGTH(32)" using idx_less_32[OF assms(1) idx] by simp
  have de: "ehf_deactivate_priority e me p s1 = Some (deactivated me p s1)"
    using deactivate_eq[of me s1 run e p idx] r idx me z[OF i] by (simp add: s1)
  have "ucast (ucast (icc_pmr s ! me) :: u8) = icc_pmr s ! me" if "icc_pmr s ! me < 0x100"
    using that by (rule u8_of_u32)
  then show ?thesis
    using de deactivated_activated[OF assms(1) idx me low] me
    by (cases s) (auto simp: s1 split: if_split_asm)
qed

theorem activate_deactivate_witness:
  "\<exists>s2. ehf_deactivate_priority ehf_demo 0 0x60 (activated 0 0x60 6 (el3_demo 0xf0)) = Some s2 \<and>
    active_pri_bits (ehf_data s2 ! 0) = 0"
proof -
  have "ehf_activate_priority ehf_demo 0 0x60 (el3_demo 0xf0) = Some (activated 0 0x60 6 (el3_demo 0xf0))"
    by (rule demo_activates)
  from activate_deactivate[OF demo_conf this] show ?thesis by (auto simp: el3_demo_def)
qed

text \<open>(C25) Through any sequence of activations, deactivations and changes of world on a CPU, in
  which the levels are secure priorities: while a level is active, the priority mask is a secure
  priority at least as urgent as the most urgent active level, so that neither non-secure
  interrupts nor interrupts of less urgent levels are signalled.\<close>

theorem active_levels_masked:
  assumes "ehf_conf_ok e" and "active_pri_bits (ehf_data s ! me) = 0" and "list_all secure_op ops"
    and "ehf_run e me ops s = Some s'" and "active_pri_bits (ehf_data s' ! me) \<noteq> 0"
  shows "icc_pmr s' ! me < 0x80 \<and>
    unat (EHF_PRI_TO_IDX (icc_pmr s' ! me) (pri_bits e)) \<le> builtin_ctz (active_pri_bits (ehf_data s' ! me))"
proof -
  have "masked e me s" using assms(2) by (simp add: masked_def)
  from masked_run[OF assms(1) this assms(3,4)] show ?thesis using assms(5) by (simp add: masked_def)
qed

theorem active_levels_masked_witness:
  "icc_pmr (activated 0 0x60 6 (el3_demo 0xf0)) ! 0 < 0x80"
proof -
  have "ehf_run ehf_demo 0 [Activate 0x60] (el3_demo 0xf0) = Some (activated 0 0x60 6 (el3_demo 0xf0))"
    by (simp add: demo_activates)
  from active_levels_masked[OF demo_conf _ _ this] show ?thesis
    by (simp add: el3_demo_def PRI_BIT_def)
qed



text \<open>(C28) Once a handler is registered for a priority level, it is called for exactly the
  interrupts of that priority: the handler of EL3 interrupts acknowledges the interrupt and passes
  it on; a second registration for the level panics.\<close>

theorem el3_interrupt_dispatch:
  assumes reg: "ehf_register_priority_handler e pri h s = Some s1"
    and me: "me < length (icc_hppi s1)" "me < length (icc_active s1)"
    and irq: "icc_hppi s1 ! me = irq" "irq < 1020" "irq_priority s1 (irq_bank me irq) irq = pri"
  shows "ehf_register_priority_handler e pri h' s1 = None \<and>
    (\<exists>s2. plat_ic_acknowledge_interrupt me s1 = Some (irq, s2) \<and>
      ehf_el3_interrupt_handler call e me INTR_ID_UNAVAILABLE flags s1 =
        map_option (\<lambda>(ret, s). (word_of_int ret, s)) (call h irq flags s2))"
proof -
  obtain idx where idx: "pri_to_idx e pri s = Some idx" and h: "h \<noteq> 0" "h AND 3 = 0" and p: "IDX_TO_PRI e idx = pri"
    and s1: "s1 = s\<lparr>ehf_handlers := (ehf_handlers s)[unat idx := h OR EHF_PRI_VALID]\<rparr>"
    and len: "unat idx < length (ehf_handlers s)"
    using reg by (auto simp: ehf_register_priority_handler_def bind_Some_iff)
  have valid: "(h OR EHF_PRI_VALID) AND EHF_PRI_VALID \<noteq> 0" and raw: "RAW_HANDLER (h OR EHF_PRI_VALID) = h"
    and no: "h OR EHF_PRI_VALID \<noteq> EHF_NO_HANDLER"
    using handler_tag[OF h(2)] h(1) by auto
  have idx1: "pri_to_idx e pri s1 = Some idx" using idx len valid by (auto simp: pri_to_idx_Some s1)
  have "IS_PRI_SECURE pri" unfolding p[symmetric] by (rule secure_IDX_TO_PRI)
  moreover have sp: "\<not> gicv3_is_intr_id_special_identifier irq" "irq AND INT_ID_MASK = irq" "irq \<noteq> INTR_ID_UNAVAILABLE"
    using small_irq[OF irq(2)] by auto
  moreover have "ehf_register_priority_handler e pri h' s1 = None"
    using idx1 len no by (simp add: ehf_register_priority_handler_def s1 assert_c_def)
  moreover obtain s2 where ack: "plat_ic_acknowledge_interrupt me s1 = Some (irq, s2)"
    and run: "plat_ic_get_running_priority me s2 = Some pri" and hs: "ehf_handlers s2 = ehf_handlers s1"
    using me irq sp by (simp add: plat_ic_acknowledge_interrupt_def plat_ic_get_running_priority_def Let_def)
  moreover have "pri_to_idx e pri s2 = Some idx" using idx1 by (simp add: pri_to_idx_def hs)
  moreover have "aread (ehf_handlers s1) (unat idx) = Some (h OR EHF_PRI_VALID)" using len by (simp add: s1)
  ultimately show ?thesis
    using p raw h(1)
    by (simp add: ehf_el3_interrupt_handler_def plat_ic_get_interrupt_id_def) (cases "call h irq flags s2", auto)
qed

theorem el3_interrupt_dispatch_witness:
  "ehf_el3_interrupt_handler (\<lambda>h irq flags s. Some (int (unat h), s)) ehf_demo 0 INTR_ID_UNAVAILABLE 0
     ((el3_demo 0xf0)\<lparr>icc_hppi := [40], irq_priority := \<lambda>b irq. 0x60, ehf_handlers := [0, 0, 0, 0, 0, 0, 0x1001, 1]\<rparr>) \<noteq> None"
proof -
  let ?s = "(el3_demo 0xf0)\<lparr>icc_hppi := [40], irq_priority := \<lambda>b irq. 0x60\<rparr>"
  have "pri_to_idx ehf_demo 0x60 ?s = Some 6"
    by (simp add: pri_to_idx_Some ehf_demo_def el3_demo_def EHF_PRI_TO_IDX_def EHF_PRI_VALID_def)
  then have "ehf_register_priority_handler ehf_demo 0x60 0x1000 ?s =
      Some (?s\<lparr>ehf_handlers := [0, 0, 0, 0, 0, 0, 0x1001, 1]\<rparr>)"
    by (simp add: ehf_register_priority_handler_def IDX_TO_PRI_def)
      (simp add: ehf_demo_def el3_demo_def EHF_NO_HANDLER_def EHF_PRI_VALID_def)
  from el3_interrupt_dispatch[OF this, of 0 40 8 "\<lambda>h irq flags s. Some (int (unat h), s)" 0] show ?thesis
    by (auto simp: el3_demo_def)
qed

text \<open>The start-up of the framework takes over the EL3 interrupts: when they have no handler
  yet, it succeeds, the handler is the one looked up for them, and every existing context has FIQ
  routed to EL3.\<close>

theorem ehf_init_takes_el3_interrupts:
  assumes "ehf_conf_ok e" and "intr_wf i" and "\<not> has_handler INTR_TYPE_EL3 i" and "h \<noteq> 0"
  shows "\<exists>i'. ehf_init e h i = Some i' \<and> intr_wf i' \<and> get_interrupt_type_handler INTR_TYPE_EL3 i' = Some h \<and>
    (\<forall>ss < 2. \<forall>r. ctx_scr i' ! ss = Some r \<longrightarrow> bit r 2)"
proof -
  let ?i = "registered INTR_TYPE_EL3 h 3 i"
  have flags: "set_interrupt_rm_flag (set_interrupt_rm_flag 0 NON_SECURE) SECURE = 3"
    by (simp add: set_interrupt_rm_flag_def unat_ss)
  have "register_interrupt_type_handler True INTR_TYPE_EL3 h 3 i = Some (0, ?i)"
    using assms by (simp add: register_eq has_handler_def rm_valid_def INTR_TYPE_FLAGS_MASK_def)
  then have "ehf_init e h i = Some ?i"
    using assms(1) by (simp add: ehf_init_def plat_ic_has_interrupt_type_def flags ehf_conf_ok_def)
  moreover have wf: "intr_wf ?i" using assms(2) by (rule registered_wf) simp
  moreover have "get_interrupt_type_handler INTR_TYPE_EL3 ?i = Some h"
    using assms(2) wf by (simp add: get_handler_eq registered_nth)
  moreover have "\<forall>ss < 2. \<forall>r. ctx_scr ?i ! ss = Some r \<longrightarrow> bit r 2"
    using assms(2) by (auto simp: registered_ctx intr_line_def bit_scr_with_bit less_Suc_eq numeral_eq_Suc)
  ultimately show ?thesis by blast
qed

theorem ehf_init_takes_el3_interrupts_witness:
  "\<exists>i'. ehf_init ehf_demo 0x2000 (intr_boot None (Some 0)) = Some i' \<and>
    get_interrupt_type_handler INTR_TYPE_EL3 i' = Some 0x2000"
  using ehf_init_takes_el3_interrupts[OF demo_conf, of "intr_boot None (Some 0)" "0x2000"]
  by (auto simp: intr_boot_def intr_wf_def has_handler_def)

text \<open>With another level active, activating a level, deactivating it and activating it again
  panics: the deactivation leaves the mask at the level that was deactivated instead of the one of
  the level that is now the most urgent.\<close>

theorem nested_reactivation_panics:
  assumes "ehf_conf_ok e" and "active_pri_bits (ehf_data s ! me) \<noteq> 0"
    and "ehf_activate_priority e me p s = Some s1" and "ehf_deactivate_priority e me p s1 = Some s2"
  shows "active_pri_bits (ehf_data s2 ! me) = active_pri_bits (ehf_data s ! me) \<and> icc_pmr s2 ! me = p \<and>
    ehf_activate_priority e me p s2 = None"
proof (rule activate_SomeE[OF assms(3)])
  fix run idx
  assume r: "plat_ic_get_running_priority me s = Some run" and idx: "pri_to_idx e p s = Some idx"
    and me: "me < length (ehf_data s)" "me < length (icc_pmr s)"
    and low: "active_pri_bits (ehf_data s ! me) \<noteq> 0 \<longrightarrow> unat idx < builtin_ctz (active_pri_bits (ehf_data s ! me))"
    and s1: "s1 = activated me p idx s"
  have "s2 = deactivated me p s1" using deactivate_SomeE[OF assms(4)] by blast
  then have s2: "s2 = s\<lparr>icc_pmr := (icc_pmr s)[me := p]\<rparr>"
    using deactivated_activated[OF assms(1) idx me low] assms(2) by (simp add: s1)
  then show ?thesis
    using activate_eq[of me s2 run e p idx] r idx me by simp
qed

theorem nested_reactivation_panics_witness:
  "ehf_activate_priority ehf_demo 0 0x60 ((el3_demo 0x60)\<lparr>ehf_data :=
     [\<lparr>active_pri_bits = 0x80, init_pri_mask = 0xf0, ns_pri_mask = 0\<rparr>]\<rparr>) = None"
proof -
  let ?s = "(el3_demo 0x70)\<lparr>ehf_data := [\<lparr>active_pri_bits = 0x80, init_pri_mask = 0xf0, ns_pri_mask = 0\<rparr>]\<rparr>"
  have r: "plat_ic_get_running_priority 0 ?s = Some 0xff" "pri_to_idx ehf_demo 0x60 ?s = Some 6"
    by (simp_all add: plat_ic_get_running_priority_def pri_to_idx_Some ehf_demo_def el3_demo_def
        EHF_PRI_TO_IDX_def EHF_PRI_VALID_def)
  have ctz: "builtin_ctz (0x80 :: u32) = 7" "builtin_ctz (0xc0 :: u32) = 6"
    by (rule ctz_eqI, simp, auto simp: less_Suc_eq numeral_eq_Suc)+
  have a: "ehf_activate_priority ehf_demo 0 0x60 ?s = Some (activated 0 0x60 6 ?s)"
    using activate_eq[OF r] by (simp add: el3_demo_def ctz)
  have d: "deactivated 0 0x60 (activated 0 0x60 6 ?s) = ?s\<lparr>icc_pmr := [0x60]\<rparr>"
    using deactivated_activated[OF demo_conf r(2), of 0] by (simp add: el3_demo_def ctz)
  have "ehf_deactivate_priority ehf_demo 0 0x60 (activated 0 0x60 6 ?s) = Some (?s\<lparr>icc_pmr := [0x60]\<rparr>)"
    using deactivate_eq[of 0 "activated 0 0x60 6 ?s" "0xff" ehf_demo "0x60" 6] r
    by (simp add: d demo_pmr PRI_BIT_def ctz)
  from nested_reactivation_panics[OF demo_conf _ a this] show ?thesis by (simp add: el3_demo_def)
qed

end
