(* ===== verification/SDEI.thy ===== *)
theory SDEI
  imports EHF
begin

section \<open>Software delegated exceptions: data\<close>

text \<open>
  The data of \<^verbatim>\<open>services/std_svc/sdei\<close>: event maps (the private and the shared array of
  \<^verbatim>\<open>sdei_global_mappings\<close>), event entries (one per shared map, one per private map and CPU) and the
  per-CPU state with the stack of dispatches, as an extension of the state of the exception
  handling framework. A pointer to a map is a \<open>map_ref\<close>, a pointer to an entry an \<open>entry_ref\<close>. The
  locks of the maps are the list of those that are held; taking a lock that is held does not
  return. Register writes that nothing in the code reads back are events of a log.
\<close>

unbundle bit_operations_syntax

subsection \<open>Constants\<close>

definition SDEI_EINVAL :: int where "SDEI_EINVAL = -2"
definition SDEI_EDENY :: int where "SDEI_EDENY = -3"
definition SDEI_EPEND :: int where "SDEI_EPEND = -5"
definition SDEI_ENOMEM :: int where "SDEI_ENOMEM = -10"

definition SDEI_STATF_REGISTERED :: nat where "SDEI_STATF_REGISTERED = 0"
definition SDEI_STATF_ENABLED :: nat where "SDEI_STATF_ENABLED = 1"
definition SDEI_STATF_RUNNING :: nat where "SDEI_STATF_RUNNING = 2"

definition SDEI_REGF_RM_ANY :: u64 where "SDEI_REGF_RM_ANY = 0"
definition SDEI_REGF_RM_PE :: u64 where "SDEI_REGF_RM_PE = 1"

definition SDEI_MAPF_DYNAMIC_SHIFT :: nat where "SDEI_MAPF_DYNAMIC_SHIFT = 1"
definition SDEI_MAPF_BOUND_SHIFT :: nat where "SDEI_MAPF_BOUND_SHIFT = 2"
definition SDEI_MAPF_SIGNALABLE_SHIFT :: nat where "SDEI_MAPF_SIGNALABLE_SHIFT = 3"
definition SDEI_MAPF_PRIVATE_SHIFT :: nat where "SDEI_MAPF_PRIVATE_SHIFT = 4"
definition SDEI_MAPF_CRITICAL_SHIFT :: nat where "SDEI_MAPF_CRITICAL_SHIFT = 5"
definition SDEI_MAPF_EXPLICIT_SHIFT :: nat where "SDEI_MAPF_EXPLICIT_SHIFT = 6"

definition SDEI_MAPF_DYNAMIC :: u32 where "SDEI_MAPF_DYNAMIC = push_bit SDEI_MAPF_DYNAMIC_SHIFT 1"
definition SDEI_MAPF_BOUND :: u32 where "SDEI_MAPF_BOUND = push_bit SDEI_MAPF_BOUND_SHIFT 1"
definition SDEI_MAPF_SIGNALABLE :: u32 where "SDEI_MAPF_SIGNALABLE = push_bit SDEI_MAPF_SIGNALABLE_SHIFT 1"
definition SDEI_MAPF_PRIVATE :: u32 where "SDEI_MAPF_PRIVATE = push_bit SDEI_MAPF_PRIVATE_SHIFT 1"
definition SDEI_MAPF_CRITICAL :: u32 where "SDEI_MAPF_CRITICAL = push_bit SDEI_MAPF_CRITICAL_SHIFT 1"
definition SDEI_MAPF_EXPLICIT :: u32 where "SDEI_MAPF_EXPLICIT = push_bit SDEI_MAPF_EXPLICIT_SHIFT 1"

definition SDEI_EVENT_0 :: int where "SDEI_EVENT_0 = 0"
definition SDEI_DYN_IRQ :: u32 where "SDEI_DYN_IRQ = 0"
definition LOWEST_INTR_PRIORITY :: u32 where "LOWEST_INTR_PRIORITY = 0xff"
definition SDEI_SAVED_GPREGS :: nat where "SDEI_SAVED_GPREGS = 18"
definition MAX_EVENT_NESTING :: nat where "MAX_EVENT_NESTING = 2"

lemmas sdei_defs =
  SDEI_EINVAL_def SDEI_EDENY_def SDEI_EPEND_def SDEI_ENOMEM_def SDEI_STATF_REGISTERED_def
  SDEI_STATF_ENABLED_def SDEI_STATF_RUNNING_def SDEI_REGF_RM_ANY_def SDEI_REGF_RM_PE_def
  SDEI_MAPF_DYNAMIC_SHIFT_def SDEI_MAPF_BOUND_SHIFT_def SDEI_MAPF_SIGNALABLE_SHIFT_def
  SDEI_MAPF_PRIVATE_SHIFT_def SDEI_MAPF_CRITICAL_SHIFT_def SDEI_MAPF_EXPLICIT_SHIFT_def
  SDEI_EVENT_0_def SDEI_DYN_IRQ_def LOWEST_INTR_PRIORITY_def SDEI_SAVED_GPREGS_def MAX_EVENT_NESTING_def

subsection \<open>Structures\<close>

record sdei_entry =
  se_ep :: u64
  se_arg :: u64
  se_affinity :: u64
  se_reg_flags :: u32
  se_state :: u8

record sdei_ev_map =
  ev_num :: int
  map_intr :: u32
  map_flags :: u32
  reg_count :: int

datatype map_ref = Private_map nat | Shared_map nat

datatype entry_ref = Private_entry nat | Shared_entry nat

text \<open>The function that waits for the completion of a dispatch, behind the jump buffer: the
  interrupt handler with what it still needs, or the explicit dispatch of an event.\<close>

datatype dispatch_jmp = Jmp_intr_handler u32 u32 map_ref | Jmp_dispatch_event map_ref

record sdei_dispatch_context =
  disp_map :: map_ref
  disp_x :: "u64 list"
  dispatch_jmp :: dispatch_jmp
  disp_elr_el3 :: u64
  disp_spsr_el3 :: u64

text \<open>The dispatch stack, latest context first: the used part of the array, whose length is
  \<^verbatim>\<open>stack_top\<close>.\<close>

record sdei_cpu_state =
  dispatch_stack :: "sdei_dispatch_context list"
  pe_masked :: bool
  pending_enables :: bool

datatype sdei_event =
    Ev_el1_sysregs_save u32
  | Ev_el1_sysregs_restore u32
  | Ev_next_eret u32
  | Ev_write_elr_spsr u32 u64 u64
  | Ev_masked_trigger u64 u32

record sdei_state = el3_state +
  private_maps :: "sdei_ev_map list"
  shared_maps :: "sdei_ev_map list"
  private_event_table :: "sdei_entry list"
  shared_event_table :: "sdei_entry list"
  sdei_cpus :: "sdei_cpu_state list"
  num_dyn_priv_slots :: u32
  num_dyn_shrd_slots :: u32
  map_locks :: "map_ref list"
  sdei_log :: "sdei_event list"

text \<open>The platform: priorities, topology, the check of an entry point, the address of
  \<^verbatim>\<open>sdei_intr_handler\<close>.\<close>

record sdei_env =
  sd_priorities :: ehf_priorities
  PLAT_SDEI_CRITICAL_PRI :: u32
  PLAT_SDEI_NORMAL_PRI :: u32
  sd_core_pos_by_mpidr :: "u64 \<Rightarrow> int"
  sd_read_mpidr :: "nat \<Rightarrow> u64"
  plat_sdei_validate_entry_point :: "u64 \<Rightarrow> u32 \<Rightarrow> int"
  sd_intr_handler_addr :: u64

definition sd_emit :: "sdei_event \<Rightarrow> sdei_state \<Rightarrow> sdei_state" where
  "sd_emit ev s = s\<lparr>sdei_log := sdei_log s @ [ev]\<rparr>"

subsection \<open>Properties of a map\<close>

definition is_event_private :: "sdei_ev_map \<Rightarrow> bool" where
  "is_event_private mp \<longleftrightarrow> map_flags mp AND push_bit SDEI_MAPF_PRIVATE_SHIFT 1 \<noteq> 0"

definition is_event_shared :: "sdei_ev_map \<Rightarrow> bool" where
  "is_event_shared mp \<longleftrightarrow> \<not> is_event_private mp"

definition is_event_critical :: "sdei_ev_map \<Rightarrow> bool" where
  "is_event_critical mp \<longleftrightarrow> map_flags mp AND push_bit SDEI_MAPF_CRITICAL_SHIFT 1 \<noteq> 0"

definition is_event_normal :: "sdei_ev_map \<Rightarrow> bool" where
  "is_event_normal mp \<longleftrightarrow> \<not> is_event_critical mp"

definition is_event_signalable :: "sdei_ev_map \<Rightarrow> bool" where
  "is_event_signalable mp \<longleftrightarrow> map_flags mp AND push_bit SDEI_MAPF_SIGNALABLE_SHIFT 1 \<noteq> 0"

definition is_map_dynamic :: "sdei_ev_map \<Rightarrow> bool" where
  "is_map_dynamic mp \<longleftrightarrow> map_flags mp AND push_bit SDEI_MAPF_DYNAMIC_SHIFT 1 \<noteq> 0"

definition is_map_bound :: "sdei_ev_map \<Rightarrow> bool" where
  "is_map_bound mp \<longleftrightarrow> map_flags mp AND push_bit SDEI_MAPF_BOUND_SHIFT 1 \<noteq> 0"

definition is_map_explicit :: "sdei_ev_map \<Rightarrow> bool" where
  "is_map_explicit mp \<longleftrightarrow> map_flags mp AND push_bit SDEI_MAPF_EXPLICIT_SHIFT 1 \<noteq> 0"

definition set_map_bound :: "sdei_ev_map \<Rightarrow> sdei_ev_map" where
  "set_map_bound mp = mp\<lparr>map_flags := map_flags mp OR push_bit SDEI_MAPF_BOUND_SHIFT 1\<rparr>"

definition clr_map_bound :: "sdei_ev_map \<Rightarrow> sdei_ev_map" where
  "clr_map_bound mp = mp\<lparr>map_flags := map_flags mp AND NOT (push_bit SDEI_MAPF_BOUND_SHIFT 1)\<rparr>"

definition is_secure_sgi :: "nat \<Rightarrow> u32 \<Rightarrow> 'a gic_state_scheme \<Rightarrow> bool option" where
  "is_secure_sgi me intr s =
     (if plat_ic_is_sgi intr then do { t \<leftarrow> plat_ic_get_interrupt_type me intr s; Some (t = INTR_TYPE_EL3) }
      else Some False)"

definition sdei_event_priority :: "sdei_env \<Rightarrow> sdei_ev_map \<Rightarrow> u32" where
  "sdei_event_priority e mp = (if is_event_critical mp then PLAT_SDEI_CRITICAL_PRI e else PLAT_SDEI_NORMAL_PRI e)"

definition get_ev_state_bit :: "sdei_entry \<Rightarrow> nat \<Rightarrow> bool" where
  "get_ev_state_bit se bit_no \<longleftrightarrow> ucast (se_state se) AND (push_bit bit_no 1 :: u32) \<noteq> 0"

text \<open>EL2 is the client when it is enabled for the non-secure state.\<close>

definition sdei_client_el :: "nat \<Rightarrow> 'a el3_state_scheme \<Rightarrow> u32 option" where
  "sdei_client_el me s = do {
     ctx \<leftarrow> aread (ns_context s) me;
     ns_ctx \<leftarrow> ctx;
     Some (if ctx_scr_el3 ns_ctx AND SCR_HCE_BIT \<noteq> 0 then MODE_EL2 else MODE_EL1)
   }"

subsection \<open>Access through pointers\<close>

fun get_map :: "map_ref \<Rightarrow> sdei_state \<Rightarrow> sdei_ev_map option" where
  "get_map (Private_map i) s = aread (private_maps s) i"
| "get_map (Shared_map i) s = aread (shared_maps s) i"

fun put_map :: "map_ref \<Rightarrow> sdei_ev_map \<Rightarrow> sdei_state \<Rightarrow> sdei_state" where
  "put_map (Private_map i) m s = s\<lparr>private_maps := (private_maps s)[i := m]\<rparr>"
| "put_map (Shared_map i) m s = s\<lparr>shared_maps := (shared_maps s)[i := m]\<rparr>"

fun get_entry :: "entry_ref \<Rightarrow> sdei_state \<Rightarrow> sdei_entry option" where
  "get_entry (Private_entry i) s = aread (private_event_table s) i"
| "get_entry (Shared_entry i) s = aread (shared_event_table s) i"

fun put_entry :: "entry_ref \<Rightarrow> sdei_entry \<Rightarrow> sdei_state \<Rightarrow> sdei_state" where
  "put_entry (Private_entry i) se s = s\<lparr>private_event_table := (private_event_table s)[i := se]\<rparr>"
| "put_entry (Shared_entry i) se s = s\<lparr>shared_event_table := (shared_event_table s)[i := se]\<rparr>"

definition sdei_map_lock :: "map_ref \<Rightarrow> sdei_state \<Rightarrow> sdei_state option" where
  "sdei_map_lock mp s = do {
     assert_c (mp \<notin> set (map_locks s));
     Some (s\<lparr>map_locks := mp # map_locks s\<rparr>)
   }"

definition sdei_map_unlock :: "map_ref \<Rightarrow> sdei_state \<Rightarrow> sdei_state" where
  "sdei_map_unlock mp s = s\<lparr>map_locks := remove1 mp (map_locks s)\<rparr>"

text \<open>The offset of a map in an array is meant for a map of that array.\<close>

definition get_event_entry :: "nat \<Rightarrow> map_ref \<Rightarrow> sdei_state \<Rightarrow> entry_ref option" where
  "get_event_entry me mp s = do {
     m \<leftarrow> get_map mp s;
     if is_event_private m
     then (case mp of Private_map idx \<Rightarrow> Some (Private_entry (me * length (private_maps s) + idx))
           | Shared_map _ \<Rightarrow> None)
     else (case mp of Shared_map idx \<Rightarrow> Some (Shared_entry idx) | Private_map _ \<Rightarrow> None)
   }"

definition find_event_map_by_intr :: "u32 \<Rightarrow> bool \<Rightarrow> sdei_state \<Rightarrow> map_ref option" where
  "find_event_map_by_intr intr_num shared s =
     (if shared then map_option Shared_map (find_index (\<lambda>m. map_intr m = intr_num) (shared_maps s))
      else map_option Private_map (find_index (\<lambda>m. map_intr m = intr_num) (private_maps s)))"

definition find_event_map :: "int \<Rightarrow> sdei_state \<Rightarrow> map_ref option" where
  "find_event_map num s =
     (case find_index (\<lambda>m. ev_num m = num) (private_maps s) of
        Some i \<Rightarrow> Some (Private_map i)
      | None \<Rightarrow> map_option Shared_map (find_index (\<lambda>m. ev_num m = num) (shared_maps s)))"

subsection \<open>The state machine of a handler\<close>

datatype sdei_action = DO_REGISTER | DO_RELEASE | DO_ENABLE | DO_DISABLE | DO_UNREGISTER | DO_ROUTING
  | DO_CONTEXT | DO_COMPLETE | DO_COMPLETE_RESUME | DO_DISPATCH

fun sdei_action_t :: "sdei_action \<Rightarrow> nat" where
  "sdei_action_t DO_REGISTER = 0"
| "sdei_action_t DO_RELEASE = 1"
| "sdei_action_t DO_ENABLE = 2"
| "sdei_action_t DO_DISABLE = 3"
| "sdei_action_t DO_UNREGISTER = 4"
| "sdei_action_t DO_ROUTING = 5"
| "sdei_action_t DO_CONTEXT = 6"
| "sdei_action_t DO_COMPLETE = 7"
| "sdei_action_t DO_COMPLETE_RESUME = 8"
| "sdei_action_t DO_DISPATCH = 9"

definition SDEI_STATE_INVALID :: u8 where "SDEI_STATE_INVALID = -1"
definition SDEI_STATE_NOP :: u8 where "SDEI_STATE_NOP = -2"
definition MAX_STATES :: nat where "MAX_STATES = 8"

text \<open>The rows in the order of the state value: bit 0 registered, bit 1 enabled, bit 2 running.\<close>

definition sdei_state_table :: "u8 list list" where
  "sdei_state_table = (let X = SDEI_STATE_INVALID; N = SDEI_STATE_NOP in
    [[1, N, X, X, X, X, X, X, X, X],
     [X, X, 3, N, 0, N, X, X, X, X],
     [X, X, X, X, X, X, X, X, X, X],
     [X, X, N, 1, 0, X, X, X, X, 7],
     [X, X, X, X, X, X, N, 0, 0, X],
     [X, X, 7, N, 4, X, N, 1, 1, X],
     [X, X, X, X, X, X, X, X, X, X],
     [X, X, N, 5, 4, X, N, 3, 3, X]])"

definition can_sdei_state_trans :: "entry_ref \<Rightarrow> sdei_action \<Rightarrow> sdei_state \<Rightarrow> (bool \<times> sdei_state) option" where
  "can_sdei_state_trans se_ref act s = do {
     se \<leftarrow> get_entry se_ref s;
     if unat (se_state se) \<ge> MAX_STATES then Some (False, s)
     else do {
       row \<leftarrow> aread sdei_state_table (unat (se_state se));
       next_state \<leftarrow> aread row (sdei_action_t act);
       if next_state = SDEI_STATE_INVALID then Some (False, s)
       else if next_state = SDEI_STATE_NOP then Some (True, s)
       else Some (True, put_entry se_ref (se\<lparr>se_state := next_state\<rparr>) s)
     }
   }"

end
