(* ===== verification/SDEI_Intr.thy ===== *)
theory SDEI_Intr
  imports SDEI
begin

section \<open>Software delegated exceptions: dispatch of events\<close>

text \<open>
  \<^verbatim>\<open>services/std_svc/sdei/sdei_intr_mgmt.c\<close>: masking of a CPU, the handler of SDEI interrupts, the
  explicit dispatch of an event and its completion. Dispatching saves the non-secure context and
  leaves EL3 for the client; the C function waits in \<^verbatim>\<open>setjmp()\<close> and goes on when the client
  completes the event. In the model it returns that the client runs, and \<open>sdei_resume\<close> is the rest
  of the function. The mitigation state of CVE-2018-3639 is not part of the context (the build
  option is off).
\<close>

unbundle bit_operations_syntax

definition get_interrupt_src_ss :: "u32 \<Rightarrow> u32" where
  "get_interrupt_src_ss flags = flags AND 1"

subsection \<open>Masking\<close>

definition sdei_pe_mask :: "nat \<Rightarrow> sdei_state \<Rightarrow> (int \<times> sdei_state) option" where
  "sdei_pe_mask me s = do {
     state \<leftarrow> aread (sdei_cpus s) me;
     if \<not> pe_masked state
     then Some (1, s\<lparr>sdei_cpus := (sdei_cpus s)[me := state\<lparr>pe_masked := True\<rparr>]\<rparr>)
     else Some (0, s)
   }"

fun unmask_private :: "nat \<Rightarrow> nat list \<Rightarrow> sdei_state \<Rightarrow> sdei_state option" where
  "unmask_private me [] s = Some s"
| "unmask_private me (i # is) s = do {
     m \<leftarrow> get_map (Private_map i) s;
     se_ref \<leftarrow> get_event_entry me (Private_map i) s;
     se \<leftarrow> get_entry se_ref s;
     s \<leftarrow> (if is_map_bound m \<and> get_ev_state_bit se SDEI_STATF_ENABLED
           then plat_ic_enable_interrupt me (map_intr m) s else Some s);
     unmask_private me is s
   }"

fun unmask_shared :: "nat \<Rightarrow> u64 \<Rightarrow> nat list \<Rightarrow> sdei_state \<Rightarrow> sdei_state option" where
  "unmask_shared me my_mpidr [] s = Some s"
| "unmask_shared me my_mpidr (i # is) s = do {
     se_ref \<leftarrow> get_event_entry me (Shared_map i) s;
     s \<leftarrow> sdei_map_lock (Shared_map i) s;
     m \<leftarrow> get_map (Shared_map i) s;
     se \<leftarrow> get_entry se_ref s;
     s \<leftarrow> (if is_map_bound m \<and> get_ev_state_bit se SDEI_STATF_ENABLED \<and>
              ucast (se_reg_flags se) = SDEI_REGF_RM_PE \<and> se_affinity se = my_mpidr
           then plat_ic_enable_interrupt me (map_intr m) s else Some s);
     let s = sdei_map_unlock (Shared_map i) s;
     unmask_shared me my_mpidr is s
   }"

definition sdei_pe_unmask :: "sdei_env \<Rightarrow> nat \<Rightarrow> sdei_state \<Rightarrow> sdei_state option" where
  "sdei_pe_unmask e me s = do {
     state \<leftarrow> aread (sdei_cpus s) me;
     let my_mpidr = sd_read_mpidr e me AND MPIDR_AFFINITY_MASK;
     s \<leftarrow> (if pending_enables state then do {
             s \<leftarrow> unmask_private me [0..<length (private_maps s)] s;
             unmask_shared me my_mpidr [0..<length (shared_maps s)] s
           } else Some s);
     state \<leftarrow> aread (sdei_cpus s) me;
     Some (s\<lparr>sdei_cpus := (sdei_cpus s)[me := state\<lparr>pending_enables := False, pe_masked := False\<rparr>]\<rparr>)
   }"

subsection \<open>The stack of dispatches\<close>

definition push_dispatch :: "nat \<Rightarrow> sdei_dispatch_context \<Rightarrow> sdei_state \<Rightarrow> sdei_state option" where
  "push_dispatch me disp_ctx s = do {
     state \<leftarrow> aread (sdei_cpus s) me;
     assert_c (length (dispatch_stack state) < MAX_EVENT_NESTING);
     Some (s\<lparr>sdei_cpus := (sdei_cpus s)[me := state\<lparr>dispatch_stack := disp_ctx # dispatch_stack state\<rparr>]\<rparr>)
   }"

definition pop_dispatch :: "nat \<Rightarrow> sdei_state \<Rightarrow> sdei_state option" where
  "pop_dispatch me s = do {
     state \<leftarrow> aread (sdei_cpus s) me;
     case dispatch_stack state of
       [] \<Rightarrow> Some s
     | disp_ctx # rest \<Rightarrow> do {
         assert_c (length (dispatch_stack state) \<le> MAX_EVENT_NESTING);
         Some (s\<lparr>sdei_cpus := (sdei_cpus s)[me := state\<lparr>dispatch_stack := rest\<rparr>]\<rparr>)
       }
   }"

definition get_outstanding_dispatch :: "nat \<Rightarrow> sdei_state \<Rightarrow> sdei_dispatch_context option option" where
  "get_outstanding_dispatch me s = do {
     state \<leftarrow> aread (sdei_cpus s) me;
     case dispatch_stack state of
       [] \<Rightarrow> Some None
     | disp_ctx # rest \<Rightarrow> do {
         assert_c (length (dispatch_stack state) \<le> MAX_EVENT_NESTING);
         Some (Some disp_ctx)
       }
   }"

definition ns_ctx_of :: "nat \<Rightarrow> sdei_state \<Rightarrow> cpu_context option" where
  "ns_ctx_of me s = Option.bind (aread (ns_context s) me) (\<lambda>ctx. ctx)"

definition save_event_ctx :: "nat \<Rightarrow> map_ref \<Rightarrow> dispatch_jmp \<Rightarrow> sdei_state \<Rightarrow> (sdei_dispatch_context \<times> sdei_state) option" where
  "save_event_ctx me mp jmp s = do {
     tgt_ctx \<leftarrow> ns_ctx_of me s;
     let disp_ctx = \<lparr>disp_map = mp, disp_x = take SDEI_SAVED_GPREGS (gp_regs tgt_ctx), dispatch_jmp = jmp,
                     disp_elr_el3 = ctx_elr_el3 tgt_ctx, disp_spsr_el3 = ctx_spsr_el3 tgt_ctx\<rparr>;
     s \<leftarrow> push_dispatch me disp_ctx s;
     Some (disp_ctx, s)
   }"

definition restore_event_ctx :: "sdei_dispatch_context \<Rightarrow> cpu_context \<Rightarrow> cpu_context" where
  "restore_event_ctx disp_ctx tgt_ctx =
     tgt_ctx\<lparr>gp_regs := disp_x disp_ctx @ drop SDEI_SAVED_GPREGS (gp_regs tgt_ctx),
             ctx_spsr_el3 := disp_spsr_el3 disp_ctx, ctx_elr_el3 := disp_elr_el3 disp_ctx\<rparr>"

definition save_secure_context :: "sdei_state \<Rightarrow> sdei_state" where
  "save_secure_context s = sd_emit (Ev_el1_sysregs_save SECURE) s"

definition restore_and_resume_secure_context :: "sdei_state \<Rightarrow> sdei_state" where
  "restore_and_resume_secure_context s =
     sd_emit (Ev_next_eret SECURE) (sd_emit (Ev_el1_sysregs_restore SECURE) s)"

definition restore_and_resume_ns_context :: "nat \<Rightarrow> sdei_state \<Rightarrow> sdei_state option" where
  "restore_and_resume_ns_context me s = do {
     let s = sd_emit (Ev_next_eret NON_SECURE) (sd_emit (Ev_el1_sysregs_restore NON_SECURE) s);
     ns_ctx \<leftarrow> ns_ctx_of me s;
     Some s
   }"

text \<open>\<^verbatim>\<open>cm_set_elr_spsr_el3()\<close> for the non-secure context.\<close>

definition set_ns_elr_spsr :: "u64 \<Rightarrow> u32 \<Rightarrow> cpu_context \<Rightarrow> cpu_context" where
  "set_ns_elr_spsr entrypoint spsr ctx = ctx\<lparr>ctx_elr_el3 := entrypoint, ctx_spsr_el3 := ucast spsr\<rparr>"

text \<open>The four arguments of the client's handler.\<close>

definition set_handler_args :: "int \<Rightarrow> u64 \<Rightarrow> u64 \<Rightarrow> u64 \<Rightarrow> u64 list \<Rightarrow> u64 list" where
  "set_handler_args num arg pc spsr x = x[0 := word_of_int num, 1 := arg, 2 := pc, 3 := spsr]"

definition setup_ns_dispatch :: "nat \<Rightarrow> map_ref \<Rightarrow> entry_ref \<Rightarrow> dispatch_jmp \<Rightarrow> sdei_state \<Rightarrow> sdei_state option" where
  "setup_ns_dispatch me mp se_ref jmp s = do {
     (disp_ctx, s) \<leftarrow> save_event_ctx me mp jmp s;
     m \<leftarrow> get_map mp s;
     se \<leftarrow> get_entry se_ref s;
     ctx \<leftarrow> ns_ctx_of me s;
     let ctx = ctx\<lparr>gp_regs := set_handler_args (ev_num m) (se_arg se) (disp_elr_el3 disp_ctx)
                                 (disp_spsr_el3 disp_ctx) (gp_regs ctx)\<rparr>;
     el \<leftarrow> sdei_client_el me s;
     let ctx = set_ns_elr_spsr (se_ep se) (SPSR_64 el MODE_SP_ELX DISABLE_ALL_EXCEPTIONS) ctx;
     Some (s\<lparr>ns_context := (ns_context s)[me := Some ctx]\<rparr>)
   }"

subsection \<open>The interrupt handler\<close>

definition handle_masked_trigger ::
  "sdei_env \<Rightarrow> nat \<Rightarrow> map_ref \<Rightarrow> entry_ref \<Rightarrow> u32 \<Rightarrow> sdei_state \<Rightarrow> sdei_state option" where
  "handle_masked_trigger e me mp se_ref intr_raw s = do {
     let my_mpidr = sd_read_mpidr e me AND MPIDR_AFFINITY_MASK;
     m \<leftarrow> get_map mp s;
     if ev_num m = SDEI_EVENT_0 then Some s
     else do {
       se \<leftarrow> get_entry se_ref s;
       let disable = (is_event_private m \<or> ucast (se_reg_flags se) = SDEI_REGF_RM_PE);
       assert_c (ucast (se_reg_flags se) = SDEI_REGF_RM_PE \<longrightarrow> se_affinity se = my_mpidr);
       if disable then do {
         s \<leftarrow> plat_ic_disable_interrupt me (map_intr m) s;
         s \<leftarrow> plat_ic_set_interrupt_pending me (map_intr m) s;
         s \<leftarrow> plat_ic_end_of_interrupt me intr_raw s;
         state \<leftarrow> aread (sdei_cpus s) me;
         Some (s\<lparr>sdei_cpus := (sdei_cpus s)[me := state\<lparr>pending_enables := True\<rparr>]\<rparr>)
       }
       else do {
         assert_c (plat_ic_is_spi (map_intr m));
         s \<leftarrow> plat_ic_set_interrupt_pending me (map_intr m) s;
         let s = sd_emit (Ev_masked_trigger my_mpidr (map_intr m)) s;
         plat_ic_end_of_interrupt me intr_raw s
       }
     }
   }"

definition lock_if_shared :: "sdei_ev_map \<Rightarrow> map_ref \<Rightarrow> sdei_state \<Rightarrow> sdei_state option" where
  "lock_if_shared m mp s = (if is_event_shared m then sdei_map_lock mp s else Some s)"

definition unlock_if_shared :: "sdei_ev_map \<Rightarrow> map_ref \<Rightarrow> sdei_state \<Rightarrow> sdei_state" where
  "unlock_if_shared m mp s = (if is_event_shared m then sdei_map_unlock mp s else s)"

text \<open>The value of a function that may leave EL3 for the client: returned, or waiting for the
  completion of the dispatch.\<close>

datatype 'r dispatched = Returned 'r | Client_runs

definition sdei_intr_handler ::
  "sdei_env \<Rightarrow> nat \<Rightarrow> u32 \<Rightarrow> u32 \<Rightarrow> sdei_state \<Rightarrow> (int dispatched \<times> sdei_state) option" where
  "sdei_intr_handler e me intr_raw flags s = do {
     let mpidr = sd_read_mpidr e me;
     let intr = plat_ic_get_interrupt_id intr_raw;
     mp \<leftarrow> find_event_map_by_intr intr (plat_ic_is_spi intr) s;
     m \<leftarrow> get_map mp s;
     assert_c (ev_num m = SDEI_EVENT_0 \<or> is_map_bound m);
     se_ref \<leftarrow> get_event_entry me mp s;
     state \<leftarrow> aread (sdei_cpus s) me;
     if pe_masked state then do {
       s \<leftarrow> lock_if_shared m mp s;
       s \<leftarrow> handle_masked_trigger e me mp se_ref intr_raw s;
       Some (Returned 0, unlock_if_shared m mp s)
     }
     else do {
       s \<leftarrow> lock_if_shared m mp s;
       se \<leftarrow> get_entry se_ref s;
       assert_c (is_event_shared m \<and> ucast (se_reg_flags se) = SDEI_REGF_RM_PE \<longrightarrow>
                 se_affinity se = mpidr AND MPIDR_AFFINITY_MASK);
       (ok, s) \<leftarrow> can_sdei_state_trans se_ref DO_DISPATCH s;
       if \<not> ok then do {
         se \<leftarrow> get_entry se_ref s;
         s \<leftarrow> (if get_ev_state_bit se SDEI_STATF_REGISTERED
               then plat_ic_set_interrupt_pending me (map_intr m) s else Some s);
         s \<leftarrow> plat_ic_end_of_interrupt me intr_raw s;
         Some (Returned 0, unlock_if_shared m mp s)
       }
       else do {
         disp_ctx \<leftarrow> get_outstanding_dispatch me s;
         (if is_event_critical m
          then (case disp_ctx of None \<Rightarrow> Some ()
                | Some d \<Rightarrow> do { dm \<leftarrow> get_map (disp_map d) s; assert_c (is_event_normal dm) })
          else assert_c (disp_ctx = None));
         let sec_state = get_interrupt_src_ss flags;
         let s = unlock_if_shared m mp s;
         s \<leftarrow> (if sec_state = SECURE then restore_and_resume_ns_context me (save_secure_context s) else Some s);
         s \<leftarrow> setup_ns_dispatch me mp se_ref (Jmp_intr_handler intr_raw sec_state mp) s;
         Some (Client_runs, s)
       }
     }
   }"

subsection \<open>Explicit dispatch\<close>

definition sdei_dispatch_event ::
  "sdei_env \<Rightarrow> nat \<Rightarrow> int \<Rightarrow> sdei_state \<Rightarrow> (int dispatched \<times> sdei_state) option" where
  "sdei_dispatch_event e me num s = do {
     state \<leftarrow> aread (sdei_cpus s) me;
     if pe_masked state then Some (Returned (-1), s)
     else if num = SDEI_EVENT_0 then Some (Returned (-1), s)
     else (case find_event_map num s of None \<Rightarrow> Some (Returned (-1), s)
     | Some mp \<Rightarrow> do {
       m \<leftarrow> get_map mp s;
       if \<not> is_map_explicit m then Some (Returned (-1), s)
       else do {
         disp_ctx \<leftarrow> get_outstanding_dispatch me s;
         refused \<leftarrow> (case disp_ctx of None \<Rightarrow> Some False
           | Some d \<Rightarrow> do {
               dm \<leftarrow> get_map (disp_map d) s;
               Some (is_event_critical dm \<or> is_event_normal m)
             });
         if refused then Some (Returned (-1), s)
         else do {
           se_ref \<leftarrow> get_event_entry me mp s;
           (ok, s) \<leftarrow> can_sdei_state_trans se_ref DO_DISPATCH s;
           if \<not> ok then Some (Returned (-1), s)
           else do {
             s \<leftarrow> ehf_activate_priority (sd_priorities e) me (sdei_event_priority e m) s;
             s \<leftarrow> restore_and_resume_ns_context me s;
             s \<leftarrow> setup_ns_dispatch me mp se_ref (Jmp_dispatch_event mp) s;
             Some (Client_runs, s)
           }
         }
       }
     })
   }"

text \<open>The rest of the two dispatching functions, after the client has completed the event.\<close>

fun sdei_resume :: "sdei_env \<Rightarrow> nat \<Rightarrow> dispatch_jmp \<Rightarrow> sdei_state \<Rightarrow> (int \<times> sdei_state) option" where
  "sdei_resume e me (Jmp_intr_handler intr_raw sec_state mp) s = do {
     let s = (if sec_state = SECURE then restore_and_resume_secure_context s else s);
     m \<leftarrow> get_map mp s;
     assert_c (\<not> (ev_num m \<noteq> SDEI_EVENT_0 \<and> \<not> is_map_bound m));
     s \<leftarrow> plat_ic_end_of_interrupt me intr_raw s;
     Some (0, s)
   }"
| "sdei_resume e me (Jmp_dispatch_event mp) s = do {
     m \<leftarrow> get_map mp s;
     s \<leftarrow> ehf_deactivate_priority (sd_priorities e) me (sdei_event_priority e m) s;
     Some (0, s)
   }"

subsection \<open>Completion\<close>

text \<open>Completing an event fails with a code, or goes on with the function that dispatched it,
  whose result it then is.\<close>

datatype completion = Not_completed int | Resumed int

definition sdei_event_complete ::
  "sdei_env \<Rightarrow> nat \<Rightarrow> bool \<Rightarrow> u64 \<Rightarrow> sdei_state \<Rightarrow> (completion \<times> sdei_state) option" where
  "sdei_event_complete e me resume pc s = do {
     client_el \<leftarrow> sdei_client_el me s;
     outstanding \<leftarrow> get_outstanding_dispatch me s;
     case outstanding of None \<Rightarrow> Some (Not_completed SDEI_EDENY, s)
     | Some disp_ctx \<Rightarrow>
       if resume \<and> plat_sdei_validate_entry_point e pc client_el \<noteq> 0 then Some (Not_completed SDEI_EDENY, s)
       else do {
         let mp = disp_map disp_ctx;
         m \<leftarrow> get_map mp s;
         se_ref \<leftarrow> get_event_entry me mp s;
         s \<leftarrow> lock_if_shared m mp s;
         (ok, s) \<leftarrow> can_sdei_state_trans se_ref (if resume then DO_COMPLETE_RESUME else DO_COMPLETE) s;
         let s = unlock_if_shared m mp s;
         if \<not> ok then Some (Not_completed SDEI_EDENY, s)
         else do {
           s \<leftarrow> pop_dispatch me s;
           ctx \<leftarrow> ns_ctx_of me s;
           let ctx = restore_event_ctx disp_ctx ctx;
           let ctx = (if resume
             then set_ns_elr_spsr pc (SPSR_64 client_el MODE_SP_ELX DISABLE_ALL_EXCEPTIONS) ctx else ctx);
           let s = s\<lparr>ns_context := (ns_context s)[me := Some ctx]\<rparr>;
           let s = (if resume
             then sd_emit (Ev_write_elr_spsr client_el (disp_elr_el3 disp_ctx) (disp_spsr_el3 disp_ctx)) s else s);
           (ret, s) \<leftarrow> sdei_resume e me (dispatch_jmp disp_ctx) s;
           Some (Resumed ret, s)
         }
       }
   }"

definition sdei_event_context :: "nat \<Rightarrow> u32 \<Rightarrow> sdei_state \<Rightarrow> (int \<times> sdei_state) option" where
  "sdei_event_context me param s =
     (if unat param \<ge> SDEI_SAVED_GPREGS then Some (SDEI_EINVAL, s)
      else do {
        outstanding \<leftarrow> get_outstanding_dispatch me s;
        case outstanding of None \<Rightarrow> Some (SDEI_EDENY, s)
        | Some disp_ctx \<Rightarrow> do {
            se_ref \<leftarrow> get_event_entry me (disp_map disp_ctx) s;
            (ok, s) \<leftarrow> can_sdei_state_trans se_ref DO_CONTEXT s;
            if \<not> ok then Some (SDEI_EDENY, s)
            else do {
              x \<leftarrow> aread (disp_x disp_ctx) (unat param);
              Some (sint x, s)
            }
          }
      })"

end
