(* ===== verification/SDEI_Main.thy ===== *)
theory SDEI_Main
  imports SDEI_Intr
begin

section \<open>Software delegated exceptions: the calls of the client\<close>

text \<open>
  \<^verbatim>\<open>services/std_svc/sdei/sdei_main.c\<close>: initialisation of the maps and of a CPU, every SDEI call and
  the SMC handler. Calls return a code and the new state. The retry loop of the bind call takes a
  list of what other CPUs do to the state meanwhile, one element per iteration: a change after the
  lookup of the interrupt, and a change between the lookup of a free slot and the taking of its
  lock.
\<close>

unbundle bit_operations_syntax

subsection \<open>Initialisation\<close>

datatype sdei_class = SDEI_NORMAL | SDEI_CRITICAL

definition init_map :: "sdei_ev_map \<Rightarrow> sdei_ev_map" where
  "init_map m = m\<lparr>reg_count := 0\<rparr>"

definition map_to_class :: "sdei_ev_map \<Rightarrow> sdei_class" where
  "map_to_class m = (if is_event_critical m then SDEI_CRITICAL else SDEI_NORMAL)"

definition clear_event_entries :: "sdei_entry \<Rightarrow> sdei_entry" where
  "clear_event_entries se = se\<lparr>se_ep := 0, se_arg := 0, se_affinity := 0, se_reg_flags := 0\<rparr>"

fun clear_private_entries :: "nat \<Rightarrow> nat list \<Rightarrow> sdei_state \<Rightarrow> sdei_state option" where
  "clear_private_entries me [] s = Some s"
| "clear_private_entries me (i # is) s = do {
     se_ref \<leftarrow> get_event_entry me (Private_map i) s;
     se \<leftarrow> get_entry se_ref s;
     clear_private_entries me is (put_entry se_ref ((clear_event_entries se)\<lparr>se_state := 0\<rparr>) s)
   }"

definition sdei_cpu_on_init :: "nat \<Rightarrow> sdei_state \<Rightarrow> sdei_state option" where
  "sdei_cpu_on_init me s = do {
     s \<leftarrow> clear_private_entries me [0..<length (private_maps s)] s;
     (ret, s) \<leftarrow> sdei_pe_mask me s;
     Some s
   }"

definition sdei_cpu_wakeup_init :: "nat \<Rightarrow> sdei_state \<Rightarrow> sdei_state option" where
  "sdei_cpu_wakeup_init me s = do {
     (ret, s) \<leftarrow> sdei_pe_mask me s;
     Some s
   }"

fun class_init_shared :: "sdei_class \<Rightarrow> nat list \<Rightarrow> int \<Rightarrow> sdei_state \<Rightarrow> sdei_state option" where
  "class_init_shared cls [] ev_num_so_far s = Some s"
| "class_init_shared cls (i # is) ev_num_so_far s = do {
     m \<leftarrow> get_map (Shared_map i) s;
     assert_c (ev_num_so_far < 0 \<or> ev_num m > ev_num_so_far);
     assert_c (ev_num m \<noteq> SDEI_EVENT_0);
     assert_c (ev_num m \<ge> 0);
     assert_c (is_event_shared m);
     assert_c (\<not> is_event_signalable m);
     assert_c (\<not> is_map_explicit m);
     if map_to_class m \<noteq> cls then class_init_shared cls is (ev_num m) s
     else do {
       (m', s) \<leftarrow>
         (if is_map_dynamic m then do {
            assert_c (map_intr m = SDEI_DYN_IRQ);
            assert_c (is_event_normal m);
            Some (m, s\<lparr>num_dyn_shrd_slots := num_dyn_shrd_slots s + 1\<rparr>)
          }
          else do {
            assert_c (plat_ic_is_spi (map_intr m));
            Some (set_map_bound m, s)
          });
       class_init_shared cls is (ev_num m) (put_map (Shared_map i) (init_map m') s)
     }
   }"

fun class_init_private :: "nat \<Rightarrow> sdei_class \<Rightarrow> nat list \<Rightarrow> int \<Rightarrow> bool \<Rightarrow> sdei_state \<Rightarrow> (bool \<times> sdei_state) option" where
  "class_init_private me cls [] ev_num_so_far zero_found s = Some (zero_found, s)"
| "class_init_private me cls (i # is) ev_num_so_far zero_found s = do {
     m \<leftarrow> get_map (Private_map i) s;
     assert_c (ev_num_so_far < 0 \<or> ev_num m > ev_num_so_far);
     zero_found \<leftarrow>
       (if ev_num m = SDEI_EVENT_0 then do {
          sgi \<leftarrow> is_secure_sgi me (map_intr m) s;
          assert_c sgi;
          assert_c (map_flags m = SDEI_MAPF_SIGNALABLE OR SDEI_MAPF_PRIVATE);
          Some True
        }
        else do {
          assert_c (\<not> is_event_signalable m);
          Some zero_found
        });
     assert_c (ev_num m \<ge> 0);
     assert_c (is_event_private m);
     assert_c (is_map_explicit m \<longrightarrow>
       map_flags m OR SDEI_MAPF_CRITICAL = SDEI_MAPF_EXPLICIT OR SDEI_MAPF_PRIVATE OR SDEI_MAPF_CRITICAL);
     if map_to_class m \<noteq> cls then class_init_private me cls is (ev_num m) zero_found s
     else do {
       (m', s) \<leftarrow>
         (if ev_num m \<noteq> SDEI_EVENT_0 then
            if is_map_dynamic m then do {
              assert_c (map_intr m = SDEI_DYN_IRQ);
              assert_c (is_event_normal m);
              Some (m, s\<lparr>num_dyn_priv_slots := num_dyn_priv_slots s + 1\<rparr>)
            }
            else if is_map_explicit m then do {
              assert_c (map_intr m = SDEI_DYN_IRQ);
              Some (m, s)
            }
            else do {
              assert_c (plat_ic_is_ppi (map_intr m));
              Some (set_map_bound m, s)
            }
          else Some (m, s));
       class_init_private me cls is (ev_num m) zero_found (put_map (Private_map i) (init_map m') s)
     }
   }"

definition sdei_class_init :: "nat \<Rightarrow> sdei_class \<Rightarrow> sdei_state \<Rightarrow> sdei_state option" where
  "sdei_class_init me cls s = do {
     s \<leftarrow> class_init_shared cls [0..<length (shared_maps s)] (-1) s;
     (zero_found, s) \<leftarrow> class_init_private me cls [0..<length (private_maps s)] (-1) False s;
     assert_c zero_found;
     sdei_cpu_on_init me s
   }"

definition sdei_init :: "sdei_env \<Rightarrow> nat \<Rightarrow> sdei_state \<Rightarrow> sdei_state option" where
  "sdei_init e me s = do {
     s \<leftarrow> sdei_class_init me SDEI_CRITICAL s;
     s \<leftarrow> sdei_class_init me SDEI_NORMAL s;
     s \<leftarrow> ehf_register_priority_handler (sd_priorities e) (PLAT_SDEI_CRITICAL_PRI e) (sd_intr_handler_addr e) s;
     ehf_register_priority_handler (sd_priorities e) (PLAT_SDEI_NORMAL_PRI e) (sd_intr_handler_addr e) s
   }"

subsection \<open>Registration\<close>

definition set_sdei_entry :: "u64 \<Rightarrow> u64 \<Rightarrow> u32 \<Rightarrow> u64 \<Rightarrow> sdei_entry \<Rightarrow> sdei_entry" where
  "set_sdei_entry ep arg flags affinity se =
     se\<lparr>se_ep := ep, se_arg := arg, se_affinity := affinity AND MPIDR_AFFINITY_MASK, se_reg_flags := flags\<rparr>"

definition MAKE_SDEI_VERSION :: "u64 \<Rightarrow> u64 \<Rightarrow> u64 \<Rightarrow> u64" where
  "MAKE_SDEI_VERSION major minor vendor = push_bit 48 major OR push_bit 32 minor OR vendor"

definition sdei_version :: u64 where
  "sdei_version = MAKE_SDEI_VERSION 1 0 0"

definition validate_flags :: "sdei_env \<Rightarrow> u64 \<Rightarrow> u64 \<Rightarrow> int" where
  "validate_flags e flags mpidr =
     (if flags = SDEI_REGF_RM_PE then (if sd_core_pos_by_mpidr e mpidr \<ge> 0 then 0 else SDEI_EINVAL)
      else if flags = SDEI_REGF_RM_ANY then 0
      else SDEI_EINVAL)"

definition routing_mode :: "u64 \<Rightarrow> u32" where
  "routing_mode flags = (if flags = SDEI_REGF_RM_ANY then INTR_ROUTING_MODE_ANY else INTR_ROUTING_MODE_PE)"

definition sdei_event_routing_set ::
  "sdei_env \<Rightarrow> nat \<Rightarrow> int \<Rightarrow> u64 \<Rightarrow> u64 \<Rightarrow> sdei_state \<Rightarrow> (int \<times> sdei_state) option" where
  "sdei_event_routing_set e me num flags mpidr s =
     (if validate_flags e flags mpidr \<noteq> 0 then Some (validate_flags e flags mpidr, s)
      else case find_event_map num s of None \<Rightarrow> Some (SDEI_EINVAL, s)
      | Some mp \<Rightarrow> do {
          m \<leftarrow> get_map mp s;
          if is_event_private m then Some (SDEI_EINVAL, s)
          else do {
            se_ref \<leftarrow> get_event_entry me mp s;
            s \<leftarrow> sdei_map_lock mp s;
            if \<not> is_map_bound m \<or> is_event_private m then Some (SDEI_EINVAL, sdei_map_unlock mp s)
            else do {
              (ok, s) \<leftarrow> can_sdei_state_trans se_ref DO_ROUTING s;
              if \<not> ok then Some (SDEI_EDENY, sdei_map_unlock mp s)
              else do {
                se \<leftarrow> get_entry se_ref s;
                let s = put_entry se_ref (se\<lparr>se_reg_flags := ucast flags\<rparr>) s;
                s \<leftarrow> plat_ic_set_spi_routing (sd_core_pos_by_mpidr e) (map_intr m) (routing_mode flags) mpidr s;
                Some (0, sdei_map_unlock mp s)
              }
            }
          }
        })"

text \<open>The part of the registration that takes over the interrupt of a bound map; the answer is
  whether the registration goes on.\<close>

definition take_interrupt ::
  "sdei_env \<Rightarrow> nat \<Rightarrow> int \<Rightarrow> sdei_ev_map \<Rightarrow> u64 \<Rightarrow> u64 \<Rightarrow> sdei_state \<Rightarrow> (bool \<times> sdei_state) option" where
  "take_interrupt e me num m flags mpidr s =
     (if \<not> is_map_bound m then Some (True, s)
      else do {
        act \<leftarrow> plat_ic_get_interrupt_active me (map_intr m) s;
        if act then Some (False, s)
        else do {
          type \<leftarrow> plat_ic_get_interrupt_type me (map_intr m) s;
          if type \<noteq> INTR_TYPE_NS then Some (False, s)
          else do {
            s \<leftarrow> plat_ic_disable_interrupt me (map_intr m) s;
            s \<leftarrow> (if num \<noteq> SDEI_EVENT_0 then plat_ic_clear_interrupt_pending me (map_intr m) s else Some s);
            s \<leftarrow> plat_ic_set_interrupt_type me (map_intr m) INTR_TYPE_EL3 s;
            s \<leftarrow> plat_ic_set_interrupt_priority me (map_intr m) (sdei_event_priority e m) s;
            s \<leftarrow> (if is_event_shared m
                  then plat_ic_set_spi_routing (sd_core_pos_by_mpidr e) (map_intr m) (routing_mode flags) mpidr s
                  else Some s);
            Some (True, s)
          }
        }
      })"

definition sdei_event_register ::
  "sdei_env \<Rightarrow> nat \<Rightarrow> int \<Rightarrow> u64 \<Rightarrow> u64 \<Rightarrow> u64 \<Rightarrow> u64 \<Rightarrow> sdei_state \<Rightarrow> (int \<times> sdei_state) option" where
  "sdei_event_register e me num ep arg flags mpidr s = do {
     bad_ep \<leftarrow> (if ep = 0 then Some True
                else do { el \<leftarrow> sdei_client_el me s; Some (plat_sdei_validate_entry_point e ep el \<noteq> 0) });
     if bad_ep then Some (SDEI_EINVAL, s)
     else if validate_flags e flags mpidr \<noteq> 0 then Some (validate_flags e flags mpidr, s)
     else (case find_event_map num s of None \<Rightarrow> Some (SDEI_EINVAL, s)
     | Some mp \<Rightarrow> do {
       m \<leftarrow> get_map mp s;
       let flags = (if is_event_private m then SDEI_REGF_RM_PE else flags);
       se_ref \<leftarrow> get_event_entry me mp s;
       s \<leftarrow> sdei_map_lock mp s;
       se \<leftarrow> get_entry se_ref s;
       let backup_state = se_state se;
       let fallback = (\<lambda>s. do {
         se \<leftarrow> get_entry se_ref s;
         Some (SDEI_EDENY, sdei_map_unlock mp (put_entry se_ref (se\<lparr>se_state := backup_state\<rparr>) s))
       });
       (ok, s) \<leftarrow> can_sdei_state_trans se_ref DO_REGISTER s;
       if \<not> ok then fallback s
       else if is_map_dynamic m \<and> \<not> is_map_bound m then fallback s
       else do {
         assert_c (if is_event_private m then reg_count m \<ge> 0 else reg_count m = 0);
         (go, s) \<leftarrow> take_interrupt e me num m flags mpidr s;
         if \<not> go then fallback s
         else do {
           se \<leftarrow> get_entry se_ref s;
           let s = put_entry se_ref (set_sdei_entry ep arg (ucast flags) mpidr se) s;
           let s = put_map mp (m\<lparr>reg_count := reg_count m + 1\<rparr>) s;
           Some (0, sdei_map_unlock mp s)
         }
       }
     })
   }"

definition release_interrupt :: "nat \<Rightarrow> int \<Rightarrow> sdei_ev_map \<Rightarrow> sdei_state \<Rightarrow> sdei_state option" where
  "release_interrupt me num m s =
     (if \<not> is_map_bound m then Some s
      else do {
        s \<leftarrow> plat_ic_disable_interrupt me (map_intr m) s;
        s \<leftarrow> (if num \<noteq> SDEI_EVENT_0 then plat_ic_clear_interrupt_pending me (map_intr m) s else Some s);
        type \<leftarrow> plat_ic_get_interrupt_type me (map_intr m) s;
        assert_c (type = INTR_TYPE_EL3);
        s \<leftarrow> plat_ic_set_interrupt_type me (map_intr m) INTR_TYPE_NS s;
        plat_ic_set_interrupt_priority me (map_intr m) LOWEST_INTR_PRIORITY s
      })"

definition sdei_event_unregister :: "nat \<Rightarrow> int \<Rightarrow> sdei_state \<Rightarrow> (int \<times> sdei_state) option" where
  "sdei_event_unregister me num s =
     (case find_event_map num s of None \<Rightarrow> Some (SDEI_EINVAL, s)
      | Some mp \<Rightarrow> do {
          m \<leftarrow> get_map mp s;
          se_ref \<leftarrow> get_event_entry me mp s;
          s \<leftarrow> sdei_map_lock mp s;
          (ok, s) \<leftarrow> can_sdei_state_trans se_ref DO_UNREGISTER s;
          if \<not> ok then do {
            se \<leftarrow> get_entry se_ref s;
            Some (if get_ev_state_bit se SDEI_STATF_RUNNING then SDEI_EPEND else SDEI_EDENY, sdei_map_unlock mp s)
          }
          else do {
            let m = m\<lparr>reg_count := reg_count m - 1\<rparr>;
            let s = put_map mp m s;
            assert_c (if is_event_private m then reg_count m \<ge> 0 else reg_count m = 0);
            s \<leftarrow> release_interrupt me num m s;
            se \<leftarrow> get_entry se_ref s;
            let s = put_entry se_ref (clear_event_entries se) s;
            Some (if get_ev_state_bit se SDEI_STATF_RUNNING then SDEI_EPEND else 0, sdei_map_unlock mp s)
          }
        })"

subsection \<open>Enabling\<close>

definition sdei_event_enable :: "nat \<Rightarrow> int \<Rightarrow> sdei_state \<Rightarrow> (int \<times> sdei_state) option" where
  "sdei_event_enable me num s =
     (case find_event_map num s of None \<Rightarrow> Some (SDEI_EINVAL, s)
      | Some mp \<Rightarrow> do {
          m \<leftarrow> get_map mp s;
          se_ref \<leftarrow> get_event_entry me mp s;
          s \<leftarrow> lock_if_shared m mp s;
          se \<leftarrow> get_entry se_ref s;
          let before = get_ev_state_bit se SDEI_STATF_ENABLED;
          (ok, s) \<leftarrow> can_sdei_state_trans se_ref DO_ENABLE s;
          if \<not> ok then Some (SDEI_EDENY, unlock_if_shared m mp s)
          else do {
            se \<leftarrow> get_entry se_ref s;
            let after = get_ev_state_bit se SDEI_STATF_ENABLED;
            s \<leftarrow> (if is_map_bound m \<and> \<not> before \<and> after then plat_ic_enable_interrupt me (map_intr m) s else Some s);
            Some (0, unlock_if_shared m mp s)
          }
        })"

definition sdei_event_disable :: "nat \<Rightarrow> int \<Rightarrow> sdei_state \<Rightarrow> (int \<times> sdei_state) option" where
  "sdei_event_disable me num s =
     (case find_event_map num s of None \<Rightarrow> Some (SDEI_EINVAL, s)
      | Some mp \<Rightarrow> do {
          m \<leftarrow> get_map mp s;
          se_ref \<leftarrow> get_event_entry me mp s;
          s \<leftarrow> lock_if_shared m mp s;
          se \<leftarrow> get_entry se_ref s;
          let before = get_ev_state_bit se SDEI_STATF_ENABLED;
          (ok, s) \<leftarrow> can_sdei_state_trans se_ref DO_DISABLE s;
          if \<not> ok then Some (SDEI_EDENY, unlock_if_shared m mp s)
          else do {
            se \<leftarrow> get_entry se_ref s;
            let after = get_ev_state_bit se SDEI_STATF_ENABLED;
            s \<leftarrow> (if is_map_bound m \<and> before \<and> \<not> after then plat_ic_disable_interrupt me (map_intr m) s else Some s);
            Some (0, unlock_if_shared m mp s)
          }
        })"

subsection \<open>Queries\<close>

definition sdei_event_get_info :: "nat \<Rightarrow> int \<Rightarrow> int \<Rightarrow> sdei_state \<Rightarrow> (int \<times> sdei_state) option" where
  "sdei_event_get_info me num info s =
     (case find_event_map num s of None \<Rightarrow> Some (SDEI_EINVAL, s)
      | Some mp \<Rightarrow> do {
          m \<leftarrow> get_map mp s;
          se_ref \<leftarrow> get_event_entry me mp s;
          s \<leftarrow> lock_if_shared m mp s;
          se \<leftarrow> get_entry se_ref s;
          let registered = get_ev_state_bit se SDEI_STATF_REGISTERED;
          let flags = ucast (se_reg_flags se);
          let affinity = se_affinity se;
          let s = unlock_if_shared m mp s;
          Some (if info = 0 then of_bool (is_event_shared m)
                else if info = 1 then of_bool (\<not> is_event_signalable m)
                else if info = 2 then of_bool (is_event_critical m)
                else if info = 3 then
                  (if \<not> is_event_shared m then SDEI_EINVAL
                   else if \<not> registered then SDEI_EDENY
                   else of_bool (flags = SDEI_REGF_RM_PE))
                else if info = 4 then
                  (if \<not> is_event_shared m then SDEI_EINVAL
                   else if \<not> registered then SDEI_EDENY
                   else if flags \<noteq> SDEI_REGF_RM_PE then SDEI_EINVAL
                   else sint affinity)
                else SDEI_EINVAL, s)
        })"

definition sdei_event_status :: "nat \<Rightarrow> int \<Rightarrow> sdei_state \<Rightarrow> (int \<times> sdei_state) option" where
  "sdei_event_status me num s =
     (case find_event_map num s of None \<Rightarrow> Some (SDEI_EINVAL, s)
      | Some mp \<Rightarrow> do {
          m \<leftarrow> get_map mp s;
          se_ref \<leftarrow> get_event_entry me mp s;
          s \<leftarrow> lock_if_shared m mp s;
          se \<leftarrow> get_entry se_ref s;
          let s = unlock_if_shared m mp s;
          Some (uint (se_state se), s)
        })"

definition sdei_features :: "u32 \<Rightarrow> sdei_state \<Rightarrow> u64" where
  "sdei_features feature s =
     (if feature = 0
      then push_bit 0 (ucast (num_dyn_priv_slots s) AND 0xffff) OR push_bit 16 (ucast (num_dyn_shrd_slots s) AND 0xffff)
      else word_of_int SDEI_EINVAL)"

subsection \<open>Binding\<close>

text \<open>One iteration of the loop: a result, or another try.\<close>

type_synonym interference = "(sdei_state \<Rightarrow> sdei_state) \<times> (sdei_state \<Rightarrow> sdei_state)"

definition bind_attempt ::
  "nat \<Rightarrow> u32 \<Rightarrow> interference \<Rightarrow> sdei_state \<Rightarrow> (int option \<times> sdei_state) option" where
  "bind_attempt me intr_num others s = do {
     let shared_mapping = plat_ic_is_spi intr_num;
     known \<leftarrow> (case find_event_map_by_intr intr_num shared_mapping s of
         None \<Rightarrow> Some None
       | Some mp \<Rightarrow> do {
           m \<leftarrow> get_map mp s;
           Some (if is_map_dynamic m then (if is_map_bound m then Some (ev_num m) else None)
                 else Some SDEI_EINVAL)
         });
     case known of Some r \<Rightarrow> Some (Some r, s)
     | None \<Rightarrow>
       (let s = fst others s in
        case find_event_map_by_intr SDEI_DYN_IRQ shared_mapping s of
          None \<Rightarrow> Some (Some SDEI_ENOMEM, s)
        | Some mp \<Rightarrow> do {
            m \<leftarrow> get_map mp s;
            assert_c (is_map_dynamic m);
            type \<leftarrow> plat_ic_get_interrupt_type me intr_num s;
            if type \<noteq> INTR_TYPE_NS then Some (Some SDEI_EDENY, s)
            else do {
              let s = snd others s;
              s \<leftarrow> sdei_map_lock mp s;
              m \<leftarrow> get_map mp s;
              if \<not> is_map_bound m
              then Some (Some (ev_num m), sdei_map_unlock mp (put_map mp (set_map_bound (m\<lparr>map_intr := intr_num\<rparr>)) s))
              else Some (None, sdei_map_unlock mp s)
            }
          })
   }"

fun bind_loop :: "nat \<Rightarrow> u32 \<Rightarrow> interference list \<Rightarrow> sdei_state \<Rightarrow> (int \<times> sdei_state) option" where
  "bind_loop me intr_num [] s = do {
     (r, s) \<leftarrow> bind_attempt me intr_num (\<lambda>s. s, \<lambda>s. s) s;
     case r of Some r \<Rightarrow> Some (r, s) | None \<Rightarrow> None
   }"
| "bind_loop me intr_num (others # rest) s = do {
     (r, s) \<leftarrow> bind_attempt me intr_num others s;
     case r of Some r \<Rightarrow> Some (r, s) | None \<Rightarrow> bind_loop me intr_num rest s
   }"

definition sdei_interrupt_bind ::
  "nat \<Rightarrow> u32 \<Rightarrow> interference list \<Rightarrow> sdei_state \<Rightarrow> (int \<times> sdei_state) option" where
  "sdei_interrupt_bind me intr_num others s =
     (if plat_ic_is_sgi intr_num then Some (SDEI_EINVAL, s) else bind_loop me intr_num others s)"

definition sdei_interrupt_release :: "nat \<Rightarrow> int \<Rightarrow> sdei_state \<Rightarrow> (int \<times> sdei_state) option" where
  "sdei_interrupt_release me num s =
     (case find_event_map num s of None \<Rightarrow> Some (SDEI_EINVAL, s)
      | Some mp \<Rightarrow> do {
          m \<leftarrow> get_map mp s;
          if \<not> is_map_dynamic m then Some (SDEI_EINVAL, s)
          else do {
            se_ref \<leftarrow> get_event_entry me mp s;
            s \<leftarrow> sdei_map_lock mp s;
            if reg_count m \<noteq> 0 then Some (SDEI_EDENY, sdei_map_unlock mp s)
            else do {
              (ok, s) \<leftarrow> can_sdei_state_trans se_ref DO_RELEASE s;
              if \<not> ok then Some (SDEI_EDENY, sdei_map_unlock mp s)
              else if is_map_bound m then do {
                act \<leftarrow> plat_ic_get_interrupt_active me (map_intr m) s;
                if act then Some (SDEI_EDENY, sdei_map_unlock mp s)
                else Some (0, sdei_map_unlock mp (put_map mp (clr_map_bound (m\<lparr>map_intr := SDEI_DYN_IRQ\<rparr>)) s))
              }
              else Some (SDEI_EINVAL, sdei_map_unlock mp s)
            }
          }
        })"

subsection \<open>Reset and signal\<close>

fun reset_maps :: "nat \<Rightarrow> map_ref list \<Rightarrow> int \<Rightarrow> sdei_state \<Rightarrow> (int \<times> sdei_state) option" where
  "reset_maps me [] final_ret s = Some (final_ret, s)"
| "reset_maps me (mp # mps) final_ret s = do {
     m \<leftarrow> get_map mp s;
     (ret, s) \<leftarrow> sdei_event_unregister me (ev_num m) s;
     reset_maps me mps (if ret = SDEI_EPEND \<and> final_ret = 0 then SDEI_EDENY else final_ret) s
   }"

definition sdei_private_reset :: "nat \<Rightarrow> sdei_state \<Rightarrow> (int \<times> sdei_state) option" where
  "sdei_private_reset me s = reset_maps me (map Private_map [0..<length (private_maps s)]) 0 s"

fun release_maps :: "nat \<Rightarrow> map_ref list \<Rightarrow> int \<Rightarrow> sdei_state \<Rightarrow> (int \<times> sdei_state) option" where
  "release_maps me [] final_ret s = Some (final_ret, s)"
| "release_maps me (mp # mps) final_ret s = do {
     m \<leftarrow> get_map mp s;
     if is_map_dynamic m \<and> is_map_bound m then do {
       (ret, s) \<leftarrow> sdei_interrupt_release me (ev_num m) s;
       release_maps me mps (if ret \<noteq> 0 \<and> final_ret = 0 then ret else final_ret) s
     }
     else release_maps me mps final_ret s
   }"

definition sdei_shared_reset :: "nat \<Rightarrow> sdei_state \<Rightarrow> (int \<times> sdei_state) option" where
  "sdei_shared_reset me s = do {
     (final_ret, s) \<leftarrow> reset_maps me (map Shared_map [0..<length (shared_maps s)]) 0 s;
     if final_ret \<noteq> 0 then Some (final_ret, s)
     else release_maps me (map Private_map [0..<length (private_maps s)] @ map Shared_map [0..<length (shared_maps s)]) 0 s
   }"

definition sdei_signal :: "sdei_env \<Rightarrow> nat \<Rightarrow> int \<Rightarrow> u64 \<Rightarrow> sdei_state \<Rightarrow> (int \<times> sdei_state) option" where
  "sdei_signal e me num target_pe s =
     (if num \<noteq> SDEI_EVENT_0 then Some (SDEI_EINVAL, s)
      else case find_event_map SDEI_EVENT_0 s of None \<Rightarrow> Some (SDEI_EINVAL, s)
      | Some mp \<Rightarrow> do {
          m \<leftarrow> get_map mp s;
          if \<not> is_event_signalable m then Some (SDEI_EINVAL, s)
          else if sd_core_pos_by_mpidr e target_pe < 0 then Some (SDEI_EINVAL, s)
          else do {
            s \<leftarrow> plat_ic_raise_el3_sgi (sd_core_pos_by_mpidr e) me (map_intr m) target_pe s;
            Some (0, s)
          }
        })"

subsection \<open>The SMC handler\<close>

definition SDEI_VERSION :: u32 where "SDEI_VERSION = 0xC4000020"
definition SDEI_EVENT_REGISTER :: u32 where "SDEI_EVENT_REGISTER = 0xC4000021"
definition SDEI_EVENT_ENABLE :: u32 where "SDEI_EVENT_ENABLE = 0xC4000022"
definition SDEI_EVENT_DISABLE :: u32 where "SDEI_EVENT_DISABLE = 0xC4000023"
definition SDEI_EVENT_CONTEXT :: u32 where "SDEI_EVENT_CONTEXT = 0xC4000024"
definition SDEI_EVENT_COMPLETE :: u32 where "SDEI_EVENT_COMPLETE = 0xC4000025"
definition SDEI_EVENT_COMPLETE_AND_RESUME :: u32 where "SDEI_EVENT_COMPLETE_AND_RESUME = 0xC4000026"
definition SDEI_EVENT_UNREGISTER :: u32 where "SDEI_EVENT_UNREGISTER = 0xC4000027"
definition SDEI_EVENT_STATUS :: u32 where "SDEI_EVENT_STATUS = 0xC4000028"
definition SDEI_EVENT_GET_INFO :: u32 where "SDEI_EVENT_GET_INFO = 0xC4000029"
definition SDEI_EVENT_ROUTING_SET :: u32 where "SDEI_EVENT_ROUTING_SET = 0xC400002A"
definition SDEI_PE_MASK :: u32 where "SDEI_PE_MASK = 0xC400002B"
definition SDEI_PE_UNMASK :: u32 where "SDEI_PE_UNMASK = 0xC400002C"
definition SDEI_INTERRUPT_BIND :: u32 where "SDEI_INTERRUPT_BIND = 0xC400002D"
definition SDEI_INTERRUPT_RELEASE :: u32 where "SDEI_INTERRUPT_RELEASE = 0xC400002E"
definition SDEI_EVENT_SIGNAL :: u32 where "SDEI_EVENT_SIGNAL = 0xC400002F"
definition SDEI_FEATURES :: u32 where "SDEI_FEATURES = 0xC4000030"
definition SDEI_PRIVATE_RESET :: u32 where "SDEI_PRIVATE_RESET = 0xC4000031"
definition SDEI_SHARED_RESET :: u32 where "SDEI_SHARED_RESET = 0xC4000032"

lemmas sdei_fids =
  SDEI_VERSION_def SDEI_EVENT_REGISTER_def SDEI_EVENT_ENABLE_def
  SDEI_EVENT_DISABLE_def SDEI_EVENT_CONTEXT_def SDEI_EVENT_COMPLETE_def
  SDEI_EVENT_COMPLETE_AND_RESUME_def SDEI_EVENT_UNREGISTER_def SDEI_EVENT_STATUS_def
  SDEI_EVENT_GET_INFO_def SDEI_EVENT_ROUTING_SET_def SDEI_PE_MASK_def
  SDEI_PE_UNMASK_def SDEI_INTERRUPT_BIND_def SDEI_INTERRUPT_RELEASE_def
  SDEI_EVENT_SIGNAL_def SDEI_FEATURES_def SDEI_PRIVATE_RESET_def
  SDEI_SHARED_RESET_def

definition GET_EL :: "u64 \<Rightarrow> u64" where
  "GET_EL mode = drop_bit 2 mode AND 0x3"

text \<open>The answer of the handler: a value in x0, or the end of a dispatch, where the non-secure
  context is the one that the event interrupted.\<close>

datatype sdei_smc_out = Smc_ret u64 | Smc_resumed int

definition ret1 :: "int \<times> sdei_state \<Rightarrow> (sdei_smc_out \<times> sdei_state) option" where
  "ret1 r = Some (Smc_ret (word_of_int (fst r)), snd r)"

definition complete_out :: "completion \<times> sdei_state \<Rightarrow> (sdei_smc_out \<times> sdei_state) option" where
  "complete_out r = (case fst r of Not_completed ret \<Rightarrow> Some (Smc_ret (word_of_int ret), snd r)
     | Resumed ret \<Rightarrow> Some (Smc_resumed ret, snd r))"

definition sdei_smc_handler ::
  "sdei_env \<Rightarrow> nat \<Rightarrow> u32 \<Rightarrow> u64 \<Rightarrow> u64 \<Rightarrow> u64 \<Rightarrow> u64 \<Rightarrow> u64 \<Rightarrow> u64 \<Rightarrow> interference list \<Rightarrow>
   sdei_state \<Rightarrow> (sdei_smc_out \<times> sdei_state) option" where
  "sdei_smc_handler e me smc_fid x1 x2 x3 x4 flags spsr_el3 others s = do {
     let ss = get_interrupt_src_ss (ucast flags);
     let num = sint (ucast x1 :: u32);
     if ss \<noteq> NON_SECURE then Some (Smc_ret SMC_UNK, s)
     else do {
       el \<leftarrow> sdei_client_el me s;
       if GET_EL spsr_el3 \<noteq> ucast el then Some (Smc_ret SMC_UNK, s)
       else if smc_fid = SDEI_VERSION then Some (Smc_ret sdei_version, s)
       else if smc_fid = SDEI_EVENT_REGISTER then do {
         ctx \<leftarrow> ns_ctx_of me s;
         x5 \<leftarrow> aread (gp_regs ctx) 5;
         Option.bind (sdei_event_register e me num x2 x3 x4 x5 s) ret1
       }
       else if smc_fid = SDEI_EVENT_ENABLE then Option.bind (sdei_event_enable me num s) ret1
       else if smc_fid = SDEI_EVENT_DISABLE then Option.bind (sdei_event_disable me num s) ret1
       else if smc_fid = SDEI_EVENT_CONTEXT then Option.bind (sdei_event_context me (ucast x1) s) ret1
       else if smc_fid = SDEI_EVENT_COMPLETE_AND_RESUME
       then Option.bind (sdei_event_complete e me True x1 s) complete_out
       else if smc_fid = SDEI_EVENT_COMPLETE
       then Option.bind (sdei_event_complete e me False x1 s) complete_out
       else if smc_fid = SDEI_EVENT_STATUS then Option.bind (sdei_event_status me num s) ret1
       else if smc_fid = SDEI_EVENT_GET_INFO
       then Option.bind (sdei_event_get_info me num (sint (ucast x2 :: u32)) s) ret1
       else if smc_fid = SDEI_EVENT_UNREGISTER then Option.bind (sdei_event_unregister me num s) ret1
       else if smc_fid = SDEI_PE_UNMASK then do { s \<leftarrow> sdei_pe_unmask e me s; ret1 (0, s) }
       else if smc_fid = SDEI_PE_MASK then Option.bind (sdei_pe_mask me s) ret1
       else if smc_fid = SDEI_INTERRUPT_BIND then Option.bind (sdei_interrupt_bind me (ucast x1) others s) ret1
       else if smc_fid = SDEI_INTERRUPT_RELEASE then Option.bind (sdei_interrupt_release me num s) ret1
       else if smc_fid = SDEI_SHARED_RESET then Option.bind (sdei_shared_reset me s) ret1
       else if smc_fid = SDEI_PRIVATE_RESET then Option.bind (sdei_private_reset me s) ret1
       else if smc_fid = SDEI_EVENT_ROUTING_SET
       then Option.bind (sdei_event_routing_set e me num x2 x3 s) ret1
       else if smc_fid = SDEI_FEATURES then Some (Smc_ret (sdei_features (ucast x1) s), s)
       else if smc_fid = SDEI_EVENT_SIGNAL then Option.bind (sdei_signal e me num x2 s) ret1
       else Some (Smc_ret SMC_UNK, s)
     }
   }"

end
