(* ===== verification/SDEI_Facts.thy ===== *)
theory SDEI_Facts
  imports SDEI_Main
begin

section \<open>Software delegated exceptions: shared facts\<close>

text \<open>
  What the operations leave alone, the state machine as a function, and the lookup of an event:
  the facts from which the properties of the calls follow.
\<close>

unbundle bit_operations_syntax

subsection \<open>Frames\<close>

lemma get_map_frame [simp]:
  "get_map mp (put_entry r se s) = get_map mp s"
  "get_map mp (s\<lparr>map_locks := l\<rparr>) = get_map mp s"
  "get_map mp (s\<lparr>sdei_log := lg\<rparr>) = get_map mp s"
  "get_map mp (s\<lparr>sdei_cpus := cs\<rparr>) = get_map mp s"
  "get_map mp (s\<lparr>ns_context := ns\<rparr>) = get_map mp s"
  "get_map mp (s\<lparr>ehf_data := d\<rparr>) = get_map mp s"
  "get_map mp (s\<lparr>icc_pmr := pmr\<rparr>) = get_map mp s"
  "get_map mp (s\<lparr>icc_active := a\<rparr>) = get_map mp s"
  "get_map mp (s\<lparr>irq_enabled := f1\<rparr>) = get_map mp s"
  "get_map mp (s\<lparr>irq_pending := f1\<rparr>) = get_map mp s"
  "get_map mp (s\<lparr>irq_active := f1\<rparr>) = get_map mp s"
  "get_map mp (s\<lparr>irq_group := f1\<rparr>) = get_map mp s"
  "get_map mp (s\<lparr>irq_grpmod := f1\<rparr>) = get_map mp s"
  "get_map mp (s\<lparr>irq_priority := f2\<rparr>) = get_map mp s"
  "get_map mp (s\<lparr>irq_router := f3\<rparr>) = get_map mp s"
  by (cases mp; cases r; simp)+

lemma get_entry_frame [simp]:
  "get_entry r (put_map mp m s) = get_entry r s"
  "get_entry r (s\<lparr>map_locks := l\<rparr>) = get_entry r s"
  "get_entry r (s\<lparr>sdei_log := lg\<rparr>) = get_entry r s"
  "get_entry r (s\<lparr>sdei_cpus := cs\<rparr>) = get_entry r s"
  "get_entry r (s\<lparr>ns_context := ns\<rparr>) = get_entry r s"
  "get_entry r (s\<lparr>ehf_data := d\<rparr>) = get_entry r s"
  "get_entry r (s\<lparr>icc_pmr := pmr\<rparr>) = get_entry r s"
  "get_entry r (s\<lparr>icc_active := a\<rparr>) = get_entry r s"
  "get_entry r (s\<lparr>irq_enabled := f1\<rparr>) = get_entry r s"
  "get_entry r (s\<lparr>irq_pending := f1\<rparr>) = get_entry r s"
  "get_entry r (s\<lparr>irq_active := f1\<rparr>) = get_entry r s"
  "get_entry r (s\<lparr>irq_group := f1\<rparr>) = get_entry r s"
  "get_entry r (s\<lparr>irq_grpmod := f1\<rparr>) = get_entry r s"
  "get_entry r (s\<lparr>irq_priority := f2\<rparr>) = get_entry r s"
  "get_entry r (s\<lparr>irq_router := f3\<rparr>) = get_entry r s"
  by (cases r; cases mp; simp)+

lemma get_put_entry [simp]:
  "get_entry r s = Some se' \<Longrightarrow> get_entry r (put_entry r se s) = Some se"
  "put_entry r se2 (put_entry r se s) = put_entry r se2 s"
  by (cases r; simp)+

lemma put_entry_same [simp]: "get_entry r s = Some se \<Longrightarrow> put_entry r se s = s"
  by (cases r; cases s) simp_all

lemma get_put_map [simp]:
  "get_map mp s = Some m' \<Longrightarrow> get_map mp (put_map mp m s) = Some m"
  "put_map mp m2 (put_map mp m s) = put_map mp m2 s"
  by (cases mp; simp)+

lemma put_map_same [simp]: "get_map mp s = Some m \<Longrightarrow> put_map mp m s = s"
  by (cases mp; cases s) simp_all

lemma put_frame [simp]:
  "private_maps (put_entry r se s) = private_maps s" "shared_maps (put_entry r se s) = shared_maps s"
  "map_locks (put_entry r se s) = map_locks s" "map_locks (put_map mp m s) = map_locks s"
  "sdei_cpus (put_entry r se s) = sdei_cpus s" "sdei_cpus (put_map mp m s) = sdei_cpus s"
  "ns_context (put_entry r se s) = ns_context s" "ns_context (put_map mp m s) = ns_context s"
  "icc_pmr (put_entry r se s) = icc_pmr s" "icc_pmr (put_map mp m s) = icc_pmr s"
  "icc_active (put_entry r se s) = icc_active s" "icc_active (put_map mp m s) = icc_active s"
  "irq_active (put_entry r se s) = irq_active s" "irq_active (put_map mp m s) = irq_active s"
  "irq_group (put_entry r se s) = irq_group s" "irq_group (put_map mp m s) = irq_group s"
  "irq_grpmod (put_entry r se s) = irq_grpmod s" "irq_grpmod (put_map mp m s) = irq_grpmod s"
  "irq_enabled (put_entry r se s) = irq_enabled s" "irq_enabled (put_map mp m s) = irq_enabled s"
  "irq_pending (put_entry r se s) = irq_pending s" "irq_pending (put_map mp m s) = irq_pending s"
  "irq_priority (put_entry r se s) = irq_priority s" "irq_priority (put_map mp m s) = irq_priority s"
  "irq_router (put_entry r se s) = irq_router s" "irq_router (put_map mp m s) = irq_router s"
  by (cases r; cases mp; simp)+

text \<open>Updates in a normal order: locks outermost, then entries, then maps.\<close>

lemma put_commute [simp]:
  "put_entry r se (s\<lparr>map_locks := l\<rparr>) = (put_entry r se s)\<lparr>map_locks := l\<rparr>"
  "put_map mp m (s\<lparr>map_locks := l\<rparr>) = (put_map mp m s)\<lparr>map_locks := l\<rparr>"
  "put_map mp m (put_entry r se s) = put_entry r se (put_map mp m s)"
  by (cases r; cases mp; simp)+

lemma locks_same [simp]: "s\<lparr>map_locks := map_locks s\<rparr> = s" "(put_entry r se s)\<lparr>map_locks := map_locks s\<rparr> = put_entry r se s"
  "(put_map mp m s)\<lparr>map_locks := map_locks s\<rparr> = put_map mp m s"
  by (cases s; cases r; cases mp; simp)+

lemma unlock_locked [simp]:
  "sdei_map_unlock mp (s\<lparr>map_locks := mp # l\<rparr>) = s\<lparr>map_locks := l\<rparr>"
  by (simp add: sdei_map_unlock_def)

subsection \<open>The state machine\<close>

text \<open>The new state of a permitted action.\<close>

definition sdei_next :: "u8 \<Rightarrow> sdei_action \<Rightarrow> u8 option" where
  "sdei_next st act =
     (if unat st \<ge> MAX_STATES then None
      else let n = sdei_state_table ! unat st ! sdei_action_t act
      in if n = SDEI_STATE_INVALID then None else if n = SDEI_STATE_NOP then Some st else Some n)"

lemmas sdei_next_eval = sdei_next_def MAX_STATES_def sdei_state_table_def SDEI_STATE_INVALID_def
  SDEI_STATE_NOP_def Let_def

definition sdei_states :: "u8 set" where
  "sdei_states = {0, 1, 3, 4, 5, 7}"

lemma table_shape:
  "length sdei_state_table = MAX_STATES" "i < MAX_STATES \<Longrightarrow> sdei_action_t act < length (sdei_state_table ! i)"
proof -
  show "length sdei_state_table = MAX_STATES" by (simp add: sdei_state_table_def MAX_STATES_def)
  have "\<forall>row \<in> set sdei_state_table. length row = 10" by (simp add: sdei_state_table_def)
  moreover have "sdei_action_t act < 10" by (cases act) simp_all
  ultimately show "sdei_action_t act < length (sdei_state_table ! i)" if "i < MAX_STATES"
    using that \<open>length sdei_state_table = MAX_STATES\<close> by simp
qed

lemma can_trans_eq:
  assumes "get_entry r s = Some se"
  shows "can_sdei_state_trans r act s = Some (case sdei_next (se_state se) act of
     None \<Rightarrow> (False, s) | Some st \<Rightarrow> (True, put_entry r (se\<lparr>se_state := st\<rparr>) s))"
proof -
  have "se\<lparr>se_state := se_state se\<rparr> = se" by simp
  then show ?thesis
    using assms table_shape(1) table_shape(2)[of "unat (se_state se)" act]
    by (simp add: can_sdei_state_trans_def sdei_next_def Let_def not_le)
qed

lemma sdei_next_Some:
  assumes "sdei_next st act = Some st'" shows "st \<in> sdei_states \<and> st' \<in> sdei_states"
proof -
  have "unat st < 8" using assms by (simp add: sdei_next_def MAX_STATES_def split: if_split_asm)
  then have "unat st \<in> {0, 1, 2, 3, 4, 5, 6, 7}" by auto
  then have "st \<in> {0, 1, 2, 3, 4, 5, 6, 7}" by (auto simp: word_unat_eq_iff)
  then show ?thesis
    using assms by (elim insertE emptyE; cases act)
      (simp_all add: sdei_next_eval sdei_states_def)
qed

lemma sdei_next_cases:
  "sdei_next st DO_REGISTER = (if st = 0 then Some 1 else None)"
  "sdei_next st DO_RELEASE = (if st = 0 then Some 0 else None)"
  "sdei_next st DO_ENABLE = (if st = 1 then Some 3 else if st = 5 then Some 7 else if st = 3 \<or> st = 7 then Some st else None)"
  "sdei_next st DO_DISABLE = (if st = 3 then Some 1 else if st = 7 then Some 5 else if st = 1 \<or> st = 5 then Some st else None)"
  "sdei_next st DO_UNREGISTER = (if st = 1 \<or> st = 3 then Some 0 else if st = 5 \<or> st = 7 then Some 4 else None)"
  "sdei_next st DO_ROUTING = (if st = 1 then Some 1 else None)"
  "sdei_next st DO_CONTEXT = (if st = 4 \<or> st = 5 \<or> st = 7 then Some st else None)"
  "sdei_next st DO_COMPLETE = (if st = 4 then Some 0 else if st = 5 then Some 1 else if st = 7 then Some 3 else None)"
  "sdei_next st DO_COMPLETE_RESUME = (if st = 4 then Some 0 else if st = 5 then Some 1 else if st = 7 then Some 3 else None)"
  "sdei_next st DO_DISPATCH = (if st = 3 then Some 7 else None)"
proof -
  have c: "st \<in> {0, 1, 2, 3, 4, 5, 6, 7} \<or> unat st \<ge> 8"
  proof (cases "unat st < 8")
    case True
    then have "unat st \<in> {0, 1, 2, 3, 4, 5, 6, 7}" by auto
    then show ?thesis by (auto simp: word_unat_eq_iff)
  qed simp
  have big: "sdei_next st act = None \<and> st \<noteq> 0 \<and> st \<noteq> 1 \<and> st \<noteq> 3 \<and> st \<noteq> 4 \<and> st \<noteq> 5 \<and> st \<noteq> 7"
    if "unat st \<ge> 8" for act
    using that by (auto simp: sdei_next_def MAX_STATES_def)
  note goal = c[THEN disjE]
  show "sdei_next st DO_REGISTER = (if st = 0 then Some 1 else None)"
    by (rule goal) (auto simp: sdei_next_eval dest: big)
  show "sdei_next st DO_RELEASE = (if st = 0 then Some 0 else None)"
    by (rule goal) (auto simp: sdei_next_eval dest: big)
  show "sdei_next st DO_ENABLE = (if st = 1 then Some 3 else if st = 5 then Some 7 else if st = 3 \<or> st = 7 then Some st else None)"
    by (rule goal) (auto simp: sdei_next_eval dest: big)
  show "sdei_next st DO_DISABLE = (if st = 3 then Some 1 else if st = 7 then Some 5 else if st = 1 \<or> st = 5 then Some st else None)"
    by (rule goal) (auto simp: sdei_next_eval dest: big)
  show "sdei_next st DO_UNREGISTER = (if st = 1 \<or> st = 3 then Some 0 else if st = 5 \<or> st = 7 then Some 4 else None)"
    by (rule goal) (auto simp: sdei_next_eval dest: big)
  show "sdei_next st DO_ROUTING = (if st = 1 then Some 1 else None)"
    by (rule goal) (auto simp: sdei_next_eval dest: big)
  show "sdei_next st DO_CONTEXT = (if st = 4 \<or> st = 5 \<or> st = 7 then Some st else None)"
    by (rule goal) (auto simp: sdei_next_eval dest: big)
  show "sdei_next st DO_COMPLETE = (if st = 4 then Some 0 else if st = 5 then Some 1 else if st = 7 then Some 3 else None)"
    by (rule goal) (auto simp: sdei_next_eval dest: big)
  show "sdei_next st DO_COMPLETE_RESUME = (if st = 4 then Some 0 else if st = 5 then Some 1 else if st = 7 then Some 3 else None)"
    by (rule goal) (auto simp: sdei_next_eval dest: big)
  show "sdei_next st DO_DISPATCH = (if st = 3 then Some 7 else None)"
    by (rule goal) (auto simp: sdei_next_eval dest: big)
qed

lemma ev_state_bits:
  "se_state se \<in> sdei_states \<Longrightarrow> get_ev_state_bit se SDEI_STATF_REGISTERED \<longleftrightarrow> se_state se \<in> {1, 3, 5, 7}"
  "se_state se \<in> sdei_states \<Longrightarrow> get_ev_state_bit se SDEI_STATF_ENABLED \<longleftrightarrow> se_state se \<in> {3, 7}"
  "se_state se \<in> sdei_states \<Longrightarrow> get_ev_state_bit se SDEI_STATF_RUNNING \<longleftrightarrow> se_state se \<in> {4, 5, 7}"
  by (auto simp: sdei_states_def get_ev_state_bit_def SDEI_STATF_REGISTERED_def SDEI_STATF_ENABLED_def
      SDEI_STATF_RUNNING_def)

subsection \<open>Looking up an event\<close>

text \<open>The sizes of the arrays for \<open>n\<close> CPUs, each with a non-secure context that has the
  registers to save; the maps are in the
  array of their kind, and the interrupt of a bound map is of that kind too.\<close>

definition sdei_shape :: "nat \<Rightarrow> sdei_state \<Rightarrow> bool" where
  "sdei_shape n s \<longleftrightarrow> length (sdei_cpus s) = n \<and> length (icc_pmr s) = n \<and> length (icc_active s) = n \<and>
     length (ehf_data s) = n \<and> length (ns_context s) = n \<and> None \<notin> set (ns_context s) \<and>
     (\<forall>ctx. Some ctx \<in> set (ns_context s) \<longrightarrow> SDEI_SAVED_GPREGS \<le> length (gp_regs ctx)) \<and>
     length (private_event_table s) = n * length (private_maps s) \<and>
     length (shared_event_table s) = length (shared_maps s) \<and>
     (\<forall>m \<in> set (private_maps s). is_event_private m) \<and> (\<forall>m \<in> set (shared_maps s). is_event_shared m)"

definition intr_ok :: "sdei_ev_map \<Rightarrow> bool" where
  "intr_ok m \<longleftrightarrow> (is_map_bound m \<longrightarrow> ev_num m \<noteq> SDEI_EVENT_0 \<and>
     (if is_event_private m then plat_ic_is_ppi (map_intr m) else plat_ic_is_spi (map_intr m)))"

lemma shape_client_el: "sdei_shape n s \<Longrightarrow> me < n \<Longrightarrow> \<exists>el. sdei_client_el me s = Some el"
  by (auto simp: sdei_shape_def sdei_client_el_def in_set_conv_nth)

lemma shape_ns_ctx:
  assumes "sdei_shape n s" "me < n"
  shows "\<exists>ctx. ns_ctx_of me s = Some ctx \<and> ns_context s ! me = Some ctx \<and> SDEI_SAVED_GPREGS \<le> length (gp_regs ctx)"
proof -
  have i: "ns_context s ! me \<in> set (ns_context s)" using assms by (auto simp: sdei_shape_def)
  then obtain ctx where "ns_context s ! me = Some ctx" using assms(1) by (metis option.exhaust sdei_shape_def)
  with i show ?thesis using assms by (auto simp: sdei_shape_def ns_ctx_of_def)
qed

lemma shape_entry:
  assumes sh: "sdei_shape n s" and me: "me < n" and m: "get_map mp s = Some m"
  shows "\<exists>r se. get_event_entry me mp s = Some r \<and> get_entry r s = Some se"
proof (cases mp)
  case (Private_map i)
  have i: "i < length (private_maps s)" and pr: "is_event_private m"
    using m sh Private_map by (auto simp: sdei_shape_def)
  have "Suc me * length (private_maps s) \<le> n * length (private_maps s)"
    using me by (intro mult_le_mono1) simp
  then have "me * length (private_maps s) + i < n * length (private_maps s)" using i by simp
  then show ?thesis using m Private_map pr sh by (auto simp: get_event_entry_def sdei_shape_def)
next
  case (Shared_map i)
  then show ?thesis using m sh by (auto simp: get_event_entry_def sdei_shape_def is_event_shared_def)
qed

text \<open>The event \<open>num\<close> as CPU \<open>me\<close> sees it.\<close>

definition event_at :: "nat \<Rightarrow> int \<Rightarrow> sdei_state \<Rightarrow> map_ref \<Rightarrow> sdei_ev_map \<Rightarrow> entry_ref \<Rightarrow> sdei_entry \<Rightarrow> bool" where
  "event_at me num s mp m r se \<longleftrightarrow> find_event_map num s = Some mp \<and> get_map mp s = Some m \<and>
     get_event_entry me mp s = Some r \<and> get_entry r s = Some se"

lemma find_event_map_Some:
  "find_event_map num s = Some mp \<Longrightarrow> \<exists>m. get_map mp s = Some m \<and> ev_num m = num"
  by (auto simp: find_event_map_def split: option.split_asm dest!: find_index_Some)

lemma event_at_exists:
  assumes "sdei_shape n s" "me < n" "find_event_map num s = Some mp"
  obtains m r se where "event_at me num s mp m r se" "ev_num m = num"
  using find_event_map_Some[OF assms(3)] shape_entry[OF assms(1,2)] assms(3) that
  unfolding event_at_def by blast

lemma find_event_map_put_map:
  assumes "get_map mp s = Some m" "ev_num m' = ev_num m"
  shows "find_event_map num (put_map mp m' s) = find_event_map num s"
  using assms by (cases mp) (auto simp: find_event_map_def find_index_update split: option.split)

lemma find_event_map_frame [simp]:
  "find_event_map num (put_entry r se s) = find_event_map num s"
  "find_event_map num (s\<lparr>map_locks := l\<rparr>) = find_event_map num s"
  "find_event_map num (s\<lparr>sdei_cpus := cs\<rparr>) = find_event_map num s"
  "find_event_map num (s\<lparr>irq_enabled := f1\<rparr>) = find_event_map num s"
  "find_event_map num (s\<lparr>irq_pending := f1\<rparr>) = find_event_map num s"
  "find_event_map num (s\<lparr>irq_group := f1\<rparr>) = find_event_map num s"
  "find_event_map num (s\<lparr>irq_grpmod := f1\<rparr>) = find_event_map num s"
  "find_event_map num (s\<lparr>irq_priority := f2\<rparr>) = find_event_map num s"
  "find_event_map num (s\<lparr>irq_router := f3\<rparr>) = find_event_map num s"
  by (simp_all add: find_event_map_def cong: option.case_cong)

lemma get_event_entry_put_map:
  assumes "get_map mp s = Some m" "is_event_private m' = is_event_private m"
  shows "get_event_entry me mp (put_map mp m' s) = get_event_entry me mp s"
  using assms by (cases mp) (auto simp: get_event_entry_def)

lemma get_event_entry_frame [simp]:
  "get_event_entry me mp (put_entry r se s) = get_event_entry me mp s"
  "get_event_entry me mp (s\<lparr>map_locks := l\<rparr>) = get_event_entry me mp s"
  "get_event_entry me mp (s\<lparr>sdei_cpus := cs\<rparr>) = get_event_entry me mp s"
  "get_event_entry me mp (s\<lparr>irq_enabled := f1\<rparr>) = get_event_entry me mp s"
  "get_event_entry me mp (s\<lparr>irq_pending := f1\<rparr>) = get_event_entry me mp s"
  "get_event_entry me mp (s\<lparr>irq_group := f1\<rparr>) = get_event_entry me mp s"
  "get_event_entry me mp (s\<lparr>irq_grpmod := f1\<rparr>) = get_event_entry me mp s"
  "get_event_entry me mp (s\<lparr>irq_priority := f2\<rparr>) = get_event_entry me mp s"
  "get_event_entry me mp (s\<lparr>irq_router := f3\<rparr>) = get_event_entry me mp s"
  by (cases mp; simp add: get_event_entry_def cong: if_cong)+

subsection \<open>Taking over and returning an interrupt\<close>

definition irq_taken :: "nat \<Rightarrow> u32 \<Rightarrow> u32 \<Rightarrow> sdei_state \<Rightarrow> sdei_state" where
  "irq_taken me irq pri s = (let b = irq_bank me irq in
     s\<lparr>irq_enabled := upd2 (irq_enabled s) b irq False, irq_pending := upd2 (irq_pending s) b irq False,
       irq_group := upd2 (irq_group s) b irq False, irq_grpmod := upd2 (irq_grpmod s) b irq False,
       irq_priority := upd2 (irq_priority s) b irq pri\<rparr>)"

definition irq_returned :: "nat \<Rightarrow> u32 \<Rightarrow> sdei_state \<Rightarrow> sdei_state" where
  "irq_returned me irq s = (let b = irq_bank me irq in
     s\<lparr>irq_enabled := upd2 (irq_enabled s) b irq False, irq_pending := upd2 (irq_pending s) b irq False,
       irq_group := upd2 (irq_group s) b irq True, irq_grpmod := upd2 (irq_grpmod s) b irq False,
       irq_priority := upd2 (irq_priority s) b irq LOWEST_INTR_PRIORITY\<rparr>)"

definition irq_routed :: "u32 \<Rightarrow> u64 \<Rightarrow> u64 \<Rightarrow> sdei_state \<Rightarrow> sdei_state" where
  "irq_routed irq flags mpidr s = s\<lparr>irq_router := (irq_router s)(irq :=
     gicd_irouter_val_from_mpidr mpidr (if flags = SDEI_REGF_RM_ANY then GICV3_IRM_ANY else GICV3_IRM_PE))\<rparr>"

lemma kind_bounds:
  "plat_ic_is_ppi irq \<Longrightarrow> irq \<le> MAX_SPI_ID \<and> irq < PENDING_G1S_INTID \<and> MIN_PPI_ID \<le> irq \<and> \<not> MIN_LPI_ID \<le> irq"
  "plat_ic_is_spi irq \<Longrightarrow> irq \<le> MAX_SPI_ID \<and> irq < PENDING_G1S_INTID \<and> MIN_PPI_ID \<le> irq \<and> \<not> MIN_LPI_ID \<le> irq"
  by (auto simp: plat_ic_is_ppi_def plat_ic_is_spi_def MAX_SPI_ID_def PENDING_G1S_INTID_def MIN_PPI_ID_def
      MIN_SPI_ID_def MIN_LPI_ID_def word_le_nat_alt word_less_nat_alt)

lemma intr_ok_bounds:
  assumes "intr_ok m" "is_map_bound m"
  shows "map_intr m \<le> MAX_SPI_ID" "map_intr m < PENDING_G1S_INTID" "MIN_PPI_ID \<le> map_intr m" "\<not> MIN_LPI_ID \<le> map_intr m"
    "ev_num m \<noteq> SDEI_EVENT_0" "is_event_shared m \<Longrightarrow> plat_ic_is_spi (map_intr m)"
  using assms kind_bounds[of "map_intr m"] by (auto simp: intr_ok_def is_event_shared_def split: if_split_asm)

lemma routing_eq:
  assumes "plat_ic_is_spi irq" "validate_flags e flags mpidr = 0"
  shows "plat_ic_set_spi_routing (sd_core_pos_by_mpidr e) irq (routing_mode flags) mpidr s = Some (irq_routed irq flags mpidr s)"
proof -
  have "flags = SDEI_REGF_RM_PE \<and> sd_core_pos_by_mpidr e mpidr \<ge> 0 \<or> flags = SDEI_REGF_RM_ANY"
    using assms(2) by (auto simp: validate_flags_def SDEI_EINVAL_def split: if_split_asm)
  then show ?thesis
    using assms(1) by (auto simp: plat_ic_set_spi_routing_def routing_mode_def gicv3_set_spi_routing_def irq_routed_def
        plat_ic_is_spi_def INTR_ROUTING_MODE_PE_def INTR_ROUTING_MODE_ANY_def GICV3_IRM_PE_def GICV3_IRM_ANY_def
        SDEI_REGF_RM_PE_def SDEI_REGF_RM_ANY_def)
qed

lemma take_interrupt_bound:
  assumes b: "is_map_bound m" and ok: "intr_ok m" and me: "me < length (icc_pmr s)" and num: "num = ev_num m"
    and fl: "is_event_shared m \<Longrightarrow> validate_flags e flags mpidr = 0"
  shows "take_interrupt e me num m flags mpidr s = Some (
     if irq_active s (irq_bank me (map_intr m)) (map_intr m) \<or> \<not> irq_group s (irq_bank me (map_intr m)) (map_intr m)
     then (False, s)
     else (True, (if is_event_shared m then irq_routed (map_intr m) flags mpidr else (\<lambda>s. s))
                   (irq_taken me (map_intr m) (sdei_event_priority e m) s)))"
proof -
  note bd = intr_ok_bounds[OF ok b]
  show ?thesis
    using b me bd routing_eq[OF bd(6) fl]
    by (auto simp: take_interrupt_def num plat_ic_get_interrupt_active_def gicv3_get_interrupt_active_def
        plat_ic_get_interrupt_type_def gicv3_get_interrupt_type_def plat_ic_disable_interrupt_def
        gicv3_disable_interrupt_def plat_ic_clear_interrupt_pending_def gicv3_clear_interrupt_pending_def
        plat_ic_set_interrupt_type_def gicv3_set_interrupt_type_def plat_ic_set_interrupt_priority_def
        gicv3_set_interrupt_priority_def irq_taken_def Let_def)
qed

lemma release_interrupt_bound:
  assumes b: "is_map_bound m" and ok: "intr_ok m" and me: "me < length (icc_pmr s)" and num: "num = ev_num m"
    and el3: "\<not> irq_group s (irq_bank me (map_intr m)) (map_intr m)" "\<not> irq_grpmod s (irq_bank me (map_intr m)) (map_intr m)"
  shows "release_interrupt me num m s = Some (irq_returned me (map_intr m) s)"
proof -
  note bd = intr_ok_bounds[OF ok b]
  show ?thesis
    using b me bd el3
    by (auto simp: release_interrupt_def num
        plat_ic_get_interrupt_type_def gicv3_get_interrupt_type_def plat_ic_disable_interrupt_def
        gicv3_disable_interrupt_def plat_ic_clear_interrupt_pending_def gicv3_clear_interrupt_pending_def
        plat_ic_set_interrupt_type_def gicv3_set_interrupt_type_def plat_ic_set_interrupt_priority_def
        gicv3_set_interrupt_priority_def irq_returned_def Let_def)
qed

lemma irq_frame [simp]:
  "get_map mp (irq_taken me i p s) = get_map mp s" "get_entry r (irq_taken me i p s) = get_entry r s"
  "get_map mp (irq_returned me i s) = get_map mp s" "get_entry r (irq_returned me i s) = get_entry r s"
  "get_map mp (irq_routed i fl a s) = get_map mp s" "get_entry r (irq_routed i fl a s) = get_entry r s"
  "find_event_map num (irq_taken me i p s) = find_event_map num s"
  "find_event_map num (irq_returned me i s) = find_event_map num s"
  "find_event_map num (irq_routed i fl a s) = find_event_map num s"
  "get_event_entry me' mp (irq_taken me i p s) = get_event_entry me' mp s"
  "get_event_entry me' mp (irq_returned me i s) = get_event_entry me' mp s"
  "get_event_entry me' mp (irq_routed i fl a s) = get_event_entry me' mp s"
  "map_locks (irq_taken me i p s) = map_locks s" "map_locks (irq_returned me i s) = map_locks s"
  "map_locks (irq_routed i fl a s) = map_locks s"
  "icc_pmr (irq_taken me i p s) = icc_pmr s" "icc_pmr (irq_returned me i s) = icc_pmr s"
  "icc_pmr (irq_routed i fl a s) = icc_pmr s"
  by (simp_all add: irq_taken_def irq_returned_def irq_routed_def Let_def)

lemma irq_commute [simp]:
  "irq_taken me i p (s\<lparr>map_locks := l\<rparr>) = (irq_taken me i p s)\<lparr>map_locks := l\<rparr>"
  "irq_returned me i (s\<lparr>map_locks := l\<rparr>) = (irq_returned me i s)\<lparr>map_locks := l\<rparr>"
  "irq_routed i fl a (s\<lparr>map_locks := l\<rparr>) = (irq_routed i fl a s)\<lparr>map_locks := l\<rparr>"
  "irq_taken me i p (put_entry r se s) = put_entry r se (irq_taken me i p s)"
  "irq_returned me i (put_entry r se s) = put_entry r se (irq_returned me i s)"
  "irq_routed i fl a (put_entry r se s) = put_entry r se (irq_routed i fl a s)"
  "irq_taken me i p (put_map mp m s) = put_map mp m (irq_taken me i p s)"
  "irq_returned me i (put_map mp m s) = put_map mp m (irq_returned me i s)"
  "irq_routed i fl a (put_map mp m s) = put_map mp m (irq_routed i fl a s)"
  by (cases r; cases mp; simp add: irq_taken_def irq_returned_def irq_routed_def Let_def)+

subsection \<open>Registration in closed form\<close>

text \<open>When a registration is accepted, and what it makes of the state.\<close>

definition may_register :: "nat \<Rightarrow> sdei_ev_map \<Rightarrow> sdei_entry \<Rightarrow> sdei_state \<Rightarrow> bool" where
  "may_register me m se s \<longleftrightarrow> se_state se = 0 \<and> (is_map_dynamic m \<longrightarrow> is_map_bound m) \<and>
     (is_map_bound m \<longrightarrow> \<not> irq_active s (irq_bank me (map_intr m)) (map_intr m) \<and>
        irq_group s (irq_bank me (map_intr m)) (map_intr m))"

definition intr_registered :: "sdei_env \<Rightarrow> nat \<Rightarrow> sdei_ev_map \<Rightarrow> u64 \<Rightarrow> u64 \<Rightarrow> sdei_state \<Rightarrow> sdei_state" where
  "intr_registered e me m flags mpidr s =
     (if is_map_bound m
      then (if is_event_shared m then irq_routed (map_intr m) flags mpidr else (\<lambda>s. s))
             (irq_taken me (map_intr m) (sdei_event_priority e m) s)
      else s)"

definition event_registered ::
  "sdei_env \<Rightarrow> nat \<Rightarrow> map_ref \<Rightarrow> sdei_ev_map \<Rightarrow> entry_ref \<Rightarrow> sdei_entry \<Rightarrow> u64 \<Rightarrow> u64 \<Rightarrow> u64 \<Rightarrow> u64 \<Rightarrow> sdei_state \<Rightarrow> sdei_state" where
  "event_registered e me mp m r se ep arg flags mpidr s =
     (let flags = (if is_event_private m then SDEI_REGF_RM_PE else flags) in
      put_entry r (set_sdei_entry ep arg (ucast flags) mpidr (se\<lparr>se_state := 1\<rparr>))
        (put_map mp (m\<lparr>reg_count := reg_count m + 1\<rparr>) (intr_registered e me m flags mpidr s)))"

lemma sdei_register_unknown:
  assumes "sdei_client_el me s = Some el" "find_event_map num s = None"
  shows "sdei_event_register e me num ep arg flags mpidr s = Some (SDEI_EINVAL, s)"
  using assms by (simp add: sdei_event_register_def validate_flags_def Let_def)

lemma sdei_register_eq:
  assumes ev: "event_at me num s mp m r se" and num: "ev_num m = num" and el: "sdei_client_el me s = Some el"
    and ok: "intr_ok m" and me: "me < length (icc_pmr s)" and free: "mp \<notin> set (map_locks s)"
    and cnt: "se_state se = 0 \<Longrightarrow> if is_event_private m then reg_count m \<ge> 0 else reg_count m = 0"
  shows "sdei_event_register e me num ep arg flags mpidr s = Some (
     if ep = 0 \<or> plat_sdei_validate_entry_point e ep el \<noteq> 0 \<or> validate_flags e flags mpidr \<noteq> 0 then (SDEI_EINVAL, s)
     else if may_register me m se s then (0, event_registered e me mp m r se ep arg flags mpidr s)
     else (SDEI_EDENY, s))"
proof (cases "ep = 0 \<or> plat_sdei_validate_entry_point e ep el \<noteq> 0 \<or> validate_flags e flags mpidr \<noteq> 0")
  case True
  have "validate_flags e flags mpidr \<noteq> 0 \<Longrightarrow> validate_flags e flags mpidr = SDEI_EINVAL"
    by (auto simp: validate_flags_def split: if_split_asm)
  with True show ?thesis using el by (auto simp: sdei_event_register_def)
next
  case False
  let ?fl = "if is_event_private m then SDEI_REGF_RM_PE else flags"
  let ?s1 = "(put_entry r (se\<lparr>se_state := 1\<rparr>) s)\<lparr>map_locks := mp # map_locks s\<rparr>"
  have lk: "find_event_map num s = Some mp" "get_map mp s = Some m" "get_event_entry me mp s = Some r"
    "get_entry r s = Some se"
    using ev by (simp_all add: event_at_def)
  have trans: "can_sdei_state_trans r DO_REGISTER (s\<lparr>map_locks := mp # map_locks s\<rparr>) =
      Some (if se_state se = 0 then (True, ?s1) else (False, s\<lparr>map_locks := mp # map_locks s\<rparr>))"
    using lk can_trans_eq[of r "s\<lparr>map_locks := mp # map_locks s\<rparr>" se DO_REGISTER] by (simp add: sdei_next_cases)
  have same: "se\<lparr>se_state := se_state se\<rparr> = se" by simp
  have take: "take_interrupt e me num m ?fl mpidr ?s1 = Some (
      if is_map_bound m \<and> (irq_active s (irq_bank me (map_intr m)) (map_intr m) \<or>
        \<not> irq_group s (irq_bank me (map_intr m)) (map_intr m)) then (False, ?s1)
      else (True, (put_entry r (se\<lparr>se_state := 1\<rparr>) (intr_registered e me m ?fl mpidr s))\<lparr>map_locks := mp # map_locks s\<rparr>))"
  proof (cases "is_map_bound m")
    case True
    then show ?thesis
      using take_interrupt_bound[OF True ok, of me ?s1 num e ?fl mpidr] me num False
      by (simp add: intr_registered_def is_event_shared_def)
  qed (simp add: take_interrupt_def intr_registered_def)
  note ev' = sdei_event_register_def sdei_map_lock_def Let_def may_register_def same
  consider "se_state se \<noteq> 0" | "is_map_dynamic m" "\<not> is_map_bound m"
    | "se_state se = 0" "is_map_bound m" | "se_state se = 0" "\<not> is_map_dynamic m" "\<not> is_map_bound m" by blast
  then show ?thesis
  proof cases
    case 3
    then show ?thesis
      using False lk free el cnt trans take
      by (simp add: ev' intr_registered_def) (simp add: event_registered_def intr_registered_def)
  next
    case 4
    then show ?thesis
      using False lk free el cnt trans take
      by (simp add: ev' intr_registered_def) (simp add: event_registered_def intr_registered_def)
  qed (use False lk free el trans in \<open>simp_all add: ev'\<close>)
qed

definition event_unregistered ::
  "nat \<Rightarrow> map_ref \<Rightarrow> sdei_ev_map \<Rightarrow> entry_ref \<Rightarrow> sdei_entry \<Rightarrow> u8 \<Rightarrow> sdei_state \<Rightarrow> sdei_state" where
  "event_unregistered me mp m r se st s =
     put_entry r (clear_event_entries (se\<lparr>se_state := st\<rparr>)) (put_map mp (m\<lparr>reg_count := reg_count m - 1\<rparr>)
       (if is_map_bound m then irq_returned me (map_intr m) s else s))"

lemma map_upd_frame [simp]:
  "is_map_bound (m\<lparr>reg_count := c\<rparr>) = is_map_bound m" "is_event_private (m\<lparr>reg_count := c\<rparr>) = is_event_private m"
  "is_event_shared (m\<lparr>reg_count := c\<rparr>) = is_event_shared m" "is_map_dynamic (m\<lparr>reg_count := c\<rparr>) = is_map_dynamic m"
  "is_event_critical (m\<lparr>reg_count := c\<rparr>) = is_event_critical m" "intr_ok (m\<lparr>reg_count := c\<rparr>) = intr_ok m"
  "sdei_event_priority e (m\<lparr>reg_count := c\<rparr>) = sdei_event_priority e m"
  by (simp_all add: is_map_bound_def is_event_private_def is_event_shared_def is_map_dynamic_def
      is_event_critical_def intr_ok_def sdei_event_priority_def)

lemma sdei_unregister_eq:
  assumes ev: "event_at me num s mp m r se" and num: "ev_num m = num"
    and ok: "intr_ok m" and me: "me < length (icc_pmr s)" and free: "mp \<notin> set (map_locks s)"
    and cnt: "se_state se \<in> {1, 3, 5, 7} \<Longrightarrow> if is_event_private m then reg_count m \<ge> 1 else reg_count m = 1"
    and el3: "se_state se \<in> {1, 3, 5, 7} \<Longrightarrow> is_map_bound m \<Longrightarrow>
      \<not> irq_group s (irq_bank me (map_intr m)) (map_intr m) \<and> \<not> irq_grpmod s (irq_bank me (map_intr m)) (map_intr m)"
  shows "sdei_event_unregister me num s = Some (case sdei_next (se_state se) DO_UNREGISTER of
      None \<Rightarrow> (if get_ev_state_bit se SDEI_STATF_RUNNING then SDEI_EPEND else SDEI_EDENY, s)
    | Some st \<Rightarrow> (if st = 4 then SDEI_EPEND else 0, event_unregistered me mp m r se st s))"
proof -
  let ?l = "s\<lparr>map_locks := mp # map_locks s\<rparr>"
  have lk: "find_event_map num s = Some mp" "get_map mp s = Some m" "get_event_entry me mp s = Some r"
    "get_entry r s = Some se"
    using ev by (simp_all add: event_at_def)
  have lock: "sdei_map_lock mp s = Some ?l" using free by (simp add: sdei_map_lock_def)
  have gl: "get_entry r ?l = Some se" using lk by simp
  show ?thesis
  proof (cases "sdei_next (se_state se) DO_UNREGISTER")
    case None
    then show ?thesis using lk lock can_trans_eq[OF gl, of DO_UNREGISTER] by (simp add: sdei_event_unregister_def)
  next
    case (Some st)
    let ?m = "m\<lparr>reg_count := reg_count m - 1\<rparr>" let ?se = "se\<lparr>se_state := st\<rparr>"
    have st: "se_state se \<in> {1, 3, 5, 7}" "st = 0 \<or> st = 4"
      using Some by (auto simp: sdei_next_cases split: if_split_asm)
    have bit: "get_ev_state_bit ?se SDEI_STATF_RUNNING \<longleftrightarrow> st = 4"
      using st(2) by (auto simp: get_ev_state_bit_def SDEI_STATF_RUNNING_def)
    have rel: "release_interrupt me num ?m (put_entry r ?se (put_map mp ?m s)\<lparr>map_locks := mp # map_locks s\<rparr>) =
        Some ((put_entry r ?se (put_map mp ?m (if is_map_bound m then irq_returned me (map_intr m) s else s)))
          \<lparr>map_locks := mp # map_locks s\<rparr>)"
    proof (cases "is_map_bound m")
      case True
      then show ?thesis
        using release_interrupt_bound[of ?m me "put_entry r ?se (put_map mp ?m s)\<lparr>map_locks := mp # map_locks s\<rparr>" num]
          ok me num el3[OF st(1) True] by simp
    qed (simp add: release_interrupt_def)
    have "if is_event_private ?m then 0 \<le> reg_count ?m else reg_count ?m = 0" using cnt[OF st(1)] by (simp split: if_split_asm)
    then show ?thesis
      using Some lk lock rel bit can_trans_eq[OF gl, of DO_UNREGISTER]
      by (simp add: sdei_event_unregister_def event_unregistered_def Let_def)
  qed
qed

end
