(* ===== verification/SDEI_Inv.thy ===== *)
theory SDEI_Inv
  imports SDEI_Facts
begin

section \<open>Software delegated exceptions: the invariant\<close>

text \<open>
  The invariant that ties maps, entries and the interrupt controller together, and its
  preservation by the calls of the client: the counts of registrations are right, states are those
  of the state machine, the interrupt of a registered event belongs to EL3, and no two maps are
  bound to the same interrupt.
\<close>

unbundle bit_operations_syntax

subsection \<open>Entries of a map\<close>

text \<open>The entry of a map for a CPU, with the number of private maps; a shared map has one entry.\<close>

fun eref :: "nat \<Rightarrow> nat \<Rightarrow> map_ref \<Rightarrow> entry_ref" where
  "eref L c (Private_map i) = Private_entry (c * L + i)"
| "eref L c (Shared_map i) = Shared_entry i"

fun slots :: "nat \<Rightarrow> map_ref \<Rightarrow> nat" where
  "slots n (Private_map i) = n"
| "slots n (Shared_map i) = 1"

fun slot :: "nat \<Rightarrow> map_ref \<Rightarrow> nat" where
  "slot me (Private_map i) = me"
| "slot me (Shared_map i) = 0"

abbreviation entry_of :: "nat \<Rightarrow> map_ref \<Rightarrow> sdei_state \<Rightarrow> sdei_entry option" where
  "entry_of c mp s \<equiv> get_entry (eref (length (private_maps s)) c mp) s"

definition se_registered :: "sdei_entry \<Rightarrow> bool" where
  "se_registered se \<longleftrightarrow> se_state se \<in> {1, 3, 5, 7}"

definition st_registered :: "sdei_entry option \<Rightarrow> bool" where
  "st_registered x = (case x of None \<Rightarrow> False | Some se \<Rightarrow> se_registered se)"

definition reg_slots :: "nat \<Rightarrow> map_ref \<Rightarrow> sdei_state \<Rightarrow> nat set" where
  "reg_slots n mp s = {c. c < slots n mp \<and> st_registered (entry_of c mp s)}"

lemma slot_less: "me < n \<Longrightarrow> slot me mp < slots n mp"
  by (cases mp) auto

lemma eref_slot: "eref L (slot me mp) mp = eref L me mp"
  by (cases mp) auto

lemma shape_get_event_entry:
  assumes "sdei_shape n s" "get_map mp s = Some m"
  shows "get_event_entry me mp s = Some (eref (length (private_maps s)) me mp)"
  using assms by (cases mp) (auto simp: get_event_entry_def sdei_shape_def is_event_shared_def)

lemma get_map_less:
  "get_map mp s = Some m \<Longrightarrow> (case mp of Private_map i \<Rightarrow> i < length (private_maps s) | Shared_map i \<Rightarrow> i < length (shared_maps s))"
  by (cases mp) auto

lemma eref_inj:
  assumes "get_map mp s = Some m" "get_map mp' s = Some m'" "c < slots n mp" "c' < slots n mp'"
    "eref (length (private_maps s)) c mp = eref (length (private_maps s)) c' mp'"
  shows "mp = mp' \<and> c = c'"
proof (cases mp)
  case (Private_map i)
  then obtain i' where mp': "mp' = Private_map i'" using assms(5) by (cases mp') auto
  let ?L = "length (private_maps s)"
  have lt: "i < ?L" "i' < ?L" using assms(1,2) Private_map mp' by auto
  have e: "c * ?L + i = c' * ?L + i'" using assms(5) Private_map mp' by simp
  have d: "(k * ?L + j) div ?L = k" if "j < ?L" for k j using that by (auto simp: div_add1_eq)
  have "c = c'" using d[OF lt(1), of c] d[OF lt(2), of c'] e by simp
  then show ?thesis using e Private_map mp' by simp
next
  case (Shared_map i)
  then show ?thesis using assms by (cases mp') auto
qed

lemma get_map_put_map:
  "get_map mp s = Some m0 \<Longrightarrow> get_map mp2 (put_map mp m s) = (if mp2 = mp then Some m else get_map mp2 s)"
  by (cases mp; cases mp2) (auto simp: aread_def)

lemma get_entry_put_entry:
  "get_entry r s = Some se0 \<Longrightarrow> get_entry r2 (put_entry r se s) = (if r2 = r then Some se else get_entry r2 s)"
  by (cases r; cases r2) (auto simp: aread_def)

subsection \<open>The invariant\<close>

definition map_ok :: "nat \<Rightarrow> sdei_state \<Rightarrow> map_ref \<Rightarrow> sdei_ev_map \<Rightarrow> bool" where
  "map_ok n s mp m \<longleftrightarrow> intr_ok m \<and> reg_count m = int (card (reg_slots n mp s)) \<and>
     (is_map_dynamic m \<longrightarrow> ev_num m \<noteq> SDEI_EVENT_0) \<and>
     (is_map_dynamic m \<and> \<not> is_map_bound m \<longrightarrow> reg_count m = 0 \<and> map_intr m = SDEI_DYN_IRQ) \<and>
     (is_map_bound m \<longrightarrow> (\<forall>c \<in> reg_slots n mp s. \<not> irq_group s (irq_bank c (map_intr m)) (map_intr m) \<and>
        \<not> irq_grpmod s (irq_bank c (map_intr m)) (map_intr m)))"

definition disp_ok :: "sdei_state \<Rightarrow> sdei_dispatch_context list \<Rightarrow> bool" where
  "disp_ok s ds \<longleftrightarrow> length ds \<le> MAX_EVENT_NESTING \<and>
     (\<forall>d \<in> set ds. get_map (disp_map d) s \<noteq> None \<and> length (disp_x d) = SDEI_SAVED_GPREGS)"

definition bound_once :: "sdei_state \<Rightarrow> bool" where
  "bound_once s \<longleftrightarrow> (\<forall>mp m mp' m'. get_map mp s = Some m \<and> get_map mp' s = Some m' \<and> is_map_bound m \<and>
     is_map_bound m' \<and> map_intr m = map_intr m' \<longrightarrow> mp = mp')"

definition sdei_inv :: "nat \<Rightarrow> sdei_state \<Rightarrow> bool" where
  "sdei_inv n s \<longleftrightarrow> sdei_shape n s \<and> map_locks s = [] \<and>
     distinct (map ev_num (private_maps s @ shared_maps s)) \<and>
     (\<forall>se \<in> set (private_event_table s) \<union> set (shared_event_table s). se_state se \<in> sdei_states) \<and>
     (\<forall>ds \<in> set (map dispatch_stack (sdei_cpus s)). disp_ok s ds) \<and>
     (\<forall>mp m. get_map mp s = Some m \<longrightarrow> map_ok n s mp m) \<and> bound_once s"

lemma inv_simps:
  assumes "sdei_inv n s"
  shows "sdei_shape n s" "map_locks s = []" "length (icc_pmr s) = n"
    "get_map mp s = Some m \<Longrightarrow> map_ok n s mp m"
    "get_entry r s = Some se \<Longrightarrow> se_state se \<in> sdei_states"
    "get_map mp s = Some m \<Longrightarrow> get_map mp' s = Some m' \<Longrightarrow> is_map_bound m \<Longrightarrow> is_map_bound m' \<Longrightarrow>
       map_intr m = map_intr m' \<Longrightarrow> mp = mp'"
proof -
  show "sdei_shape n s" "map_locks s = []" using assms by (simp_all add: sdei_inv_def)
  show "length (icc_pmr s) = n" using assms by (simp add: sdei_inv_def sdei_shape_def)
  show "get_map mp s = Some m \<Longrightarrow> map_ok n s mp m" using assms by (simp add: sdei_inv_def)
  show "get_map mp s = Some m \<Longrightarrow> get_map mp' s = Some m' \<Longrightarrow> is_map_bound m \<Longrightarrow> is_map_bound m' \<Longrightarrow>
      map_intr m = map_intr m' \<Longrightarrow> mp = mp'"
    using assms unfolding sdei_inv_def bound_once_def by blast
  show "get_entry r s = Some se \<Longrightarrow> se_state se \<in> sdei_states"
    using assms by (cases r) (auto simp: sdei_inv_def)
qed

lemma inv_event:
  assumes "sdei_inv n s" "me < n" "find_event_map num s = Some mp"
  obtains m se where "event_at me num s mp m (eref (length (private_maps s)) me mp) se" "ev_num m = num"
    "map_ok n s mp m" "se_state se \<in> sdei_states"
proof -
  obtain m r se where ev: "event_at me num s mp m r se" "ev_num m = num"
    using event_at_exists[OF inv_simps(1)[OF assms(1)] assms(2,3)] by blast
  then have "r = eref (length (private_maps s)) me mp"
    using shape_get_event_entry[OF inv_simps(1)[OF assms(1)], of mp m me] by (simp add: event_at_def)
  then show thesis using that ev inv_simps[OF assms(1)] by (auto simp: event_at_def)
qed

subsection \<open>Changing one entry\<close>

text \<open>An operation of CPU \<open>me\<close> that changes the entry of one map, its count of registrations and
  the bits of its interrupt, and nothing else that the invariant speaks about.\<close>

definition event_changed ::
  "nat \<Rightarrow> map_ref \<Rightarrow> sdei_ev_map \<Rightarrow> sdei_entry \<Rightarrow> sdei_state \<Rightarrow> sdei_ev_map \<Rightarrow> sdei_entry \<Rightarrow> sdei_state \<Rightarrow> bool" where
  "event_changed me mp m se s m' se' s' \<longleftrightarrow>
     map dispatch_stack (sdei_cpus s') = map dispatch_stack (sdei_cpus s) \<and> icc_pmr s' = icc_pmr s \<and>
     icc_active s' = icc_active s \<and> ehf_data s' = ehf_data s \<and> ns_context s' = ns_context s \<and> map_locks s' = map_locks s \<and>
     ev_num m' = ev_num m \<and> map_intr m' = map_intr m \<and> map_flags m' = map_flags m \<and>
     (\<exists>s0. s' = put_entry (eref (length (private_maps s)) me mp) se' (put_map mp m' s0) \<and>
       private_maps s0 = private_maps s \<and> shared_maps s0 = shared_maps s \<and>
       private_event_table s0 = private_event_table s \<and> shared_event_table s0 = shared_event_table s) \<and>
     (\<forall>b i. (b, i) \<noteq> (irq_bank me (map_intr m), map_intr m) \<or> \<not> is_map_bound m \<longrightarrow>
        irq_group s' b i = irq_group s b i \<and> irq_grpmod s' b i = irq_grpmod s b i)"

lemma get_cong:
  "private_maps s0 = private_maps s \<Longrightarrow> shared_maps s0 = shared_maps s \<Longrightarrow> get_map mp s0 = get_map mp s"
  "private_event_table s0 = private_event_table s \<Longrightarrow> shared_event_table s0 = shared_event_table s \<Longrightarrow>
     get_entry r s0 = get_entry r s"
  by (cases mp; simp) (cases r; simp)

lemma changed_maps:
  assumes "event_changed me mp m se s m' se' s'" "get_map mp s = Some m"
    "get_entry (eref (length (private_maps s)) me mp) s = Some se"
  shows "get_map mp2 s' = (if mp2 = mp then Some m' else get_map mp2 s)"
    "get_entry r s' = (if r = eref (length (private_maps s)) me mp then Some se' else get_entry r s)"
    "length (private_maps s') = length (private_maps s)"
    "map ev_num (private_maps s' @ shared_maps s') = map ev_num (private_maps s @ shared_maps s)"
proof -
  obtain s0 where s': "s' = put_entry (eref (length (private_maps s)) me mp) se' (put_map mp m' s0)"
    and eq: "private_maps s0 = private_maps s" "shared_maps s0 = shared_maps s"
      "private_event_table s0 = private_event_table s" "shared_event_table s0 = shared_event_table s"
    using assms(1) by (auto simp: event_changed_def)
  have g: "get_map mp s0 = Some m" "get_entry (eref (length (private_maps s)) me mp) s0 = Some se"
    using assms(2,3) get_cong[of s0 s] eq by simp_all
  show "get_map mp2 s' = (if mp2 = mp then Some m' else get_map mp2 s)"
    using get_map_put_map[OF g(1)] get_cong(1)[of s0 s] eq by (simp add: s')
  show "get_entry r s' = (if r = eref (length (private_maps s)) me mp then Some se' else get_entry r s)"
    using get_entry_put_entry[of "eref (length (private_maps s)) me mp" "put_map mp m' s0" se r se'] g(2)
      get_cong(2)[of s0 s] eq by (simp add: s')
  have len: "length (private_maps (put_map mp m' s0)) = length (private_maps s)" using eq by (cases mp) simp_all
  then show "length (private_maps s') = length (private_maps s)" by (simp add: s')
  have "ev_num m' = ev_num m" using assms(1) by (simp add: event_changed_def)
  then show "map ev_num (private_maps s' @ shared_maps s') = map ev_num (private_maps s @ shared_maps s)"
    using eq assms(2) by (cases mp) (auto simp: s' map_update list_update_same_conv)
qed

lemma bank_slot:
  assumes "intr_ok m" "is_map_bound m" "is_event_private m = (case mp of Private_map _ \<Rightarrow> True | Shared_map _ \<Rightarrow> False)"
  shows "irq_bank (slot me mp) (map_intr m) = irq_bank me (map_intr m)"
proof (cases mp)
  case (Shared_map i)
  then have "plat_ic_is_spi (map_intr m)" using assms by (simp add: intr_ok_def)
  then show ?thesis by (auto simp: irq_bank_def plat_ic_is_spi_def)
qed simp

lemma shape_kind:
  assumes "sdei_shape n s" "get_map mp s = Some m"
  shows "is_event_private m = (case mp of Private_map _ \<Rightarrow> True | Shared_map _ \<Rightarrow> False)"
  using assms by (cases mp) (auto simp: sdei_shape_def is_event_shared_def)

lemma reg_slots_changed:
  assumes sh: "sdei_shape n s" and me: "me < n" and m: "get_map mp s = Some m" "get_map mp2 s = Some m2"
    and e: "get_entry (eref (length (private_maps s)) me mp) s = Some se"
    and ch: "event_changed me mp m se s m' se' s'"
  shows "reg_slots n mp2 s' =
     (if mp2 \<noteq> mp then reg_slots n mp2 s
      else if se_registered se' then insert (slot me mp) (reg_slots n mp s) else reg_slots n mp s - {slot me mp})"
proof -
  let ?L = "length (private_maps s)"
  note c = changed_maps[OF ch m(1) e]
  have r: "eref ?L k mp2 = eref ?L me mp \<longleftrightarrow> mp2 = mp \<and> k = slot me mp" if "k < slots n mp2" for k
    using eref_inj[OF m(2) m(1) that slot_less[OF me]] eref_slot[of ?L me mp] by metis
  have upd: "st_registered (entry_of k mp2 s') =
      (if mp2 = mp \<and> k = slot me mp then se_registered se' else st_registered (entry_of k mp2 s))"
    if "k < slots n mp2" for k
    using r[OF that] by (simp add: c(2,3) st_registered_def)
  show ?thesis
  proof (rule set_eqI)
    fix k
    have "k \<in> reg_slots n mp2 s' \<longleftrightarrow> k < slots n mp2 \<and>
        (if mp2 = mp \<and> k = slot me mp then se_registered se' else st_registered (entry_of k mp2 s))"
      unfolding reg_slots_def using upd[of k] by blast
    then show "k \<in> reg_slots n mp2 s' \<longleftrightarrow> k \<in> (if mp2 \<noteq> mp then reg_slots n mp2 s
      else if se_registered se' then insert (slot me mp) (reg_slots n mp s) else reg_slots n mp s - {slot me mp})"
      using slot_less[OF me, of mp] by (auto simp: reg_slots_def)
  qed
qed

lemma finite_reg_slots [simp]: "finite (reg_slots n mp s)"
  by (simp add: reg_slots_def)

lemma slot_in_reg_slots:
  assumes "me < n" "get_entry (eref (length (private_maps s)) me mp) s = Some se"
  shows "slot me mp \<in> reg_slots n mp s \<longleftrightarrow> se_registered se"
  using assms slot_less[OF assms(1), of mp] by (simp add: reg_slots_def st_registered_def eref_slot)

lemma shape_changed:
  assumes sh: "sdei_shape n s" and m: "get_map mp s = Some m"
    and e: "get_entry (eref (length (private_maps s)) me mp) s = Some se"
    and ch: "event_changed me mp m se s m' se' s'"
  shows "sdei_shape n s'"
proof -
  obtain s0 where s': "s' = put_entry (eref (length (private_maps s)) me mp) se' (put_map mp m' s0)"
    and eq: "private_maps s0 = private_maps s" "shared_maps s0 = shared_maps s"
      "private_event_table s0 = private_event_table s" "shared_event_table s0 = shared_event_table s"
    using ch by (auto simp: event_changed_def)
  have k: "is_event_private m' = is_event_private m"
    using ch by (simp add: event_changed_def is_event_private_def)
  have "length (private_event_table s') = length (private_event_table s)"
    "length (shared_event_table s') = length (shared_event_table s)"
    "length (private_maps s') = length (private_maps s)" "length (shared_maps s') = length (shared_maps s)"
    using eq by (cases mp; simp add: s')+
  moreover have "\<forall>x \<in> set (private_maps s'). is_event_private x" "\<forall>x \<in> set (shared_maps s'). is_event_shared x"
    using sh m k eq shape_kind[OF sh m]
    by (cases mp; auto simp: s' sdei_shape_def is_event_shared_def dest!: set_update_subset_insert[THEN subsetD])+
  moreover have "length (sdei_cpus s') = length (sdei_cpus s)"
    using ch by (intro map_eq_imp_length_eq) (auto simp: event_changed_def)
  ultimately show ?thesis using sh ch by (simp add: sdei_shape_def event_changed_def)
qed

lemma registered_irq_changed:
  assumes inv: "sdei_inv n s" and me: "me < n" and m: "get_map mp s = Some m"
    and e: "get_entry (eref (length (private_maps s)) me mp) s = Some se"
    and ch: "event_changed me mp m se s m' se' s'"
    and el3: "is_map_bound m \<Longrightarrow> se_registered se' \<Longrightarrow>
      \<not> irq_group s' (irq_bank me (map_intr m)) (map_intr m) \<and> \<not> irq_grpmod s' (irq_bank me (map_intr m)) (map_intr m)"
    and b: "is_map_bound m" and c: "c \<in> reg_slots n mp s'"
  shows "\<not> irq_group s' (irq_bank c (map_intr m)) (map_intr m) \<and> \<not> irq_grpmod s' (irq_bank c (map_intr m)) (map_intr m)"
proof -
  note sh = inv_simps(1)[OF inv] and ok = inv_simps(4)[OF inv m]
  have rs: "reg_slots n mp s' = (if se_registered se' then insert (slot me mp) (reg_slots n mp s)
      else reg_slots n mp s - {slot me mp})"
    using reg_slots_changed[OF sh me m m e ch] by simp
  have bank: "irq_bank (slot me mp) (map_intr m) = irq_bank me (map_intr m)"
    using ok by (intro bank_slot shape_kind[OF sh m] b) (simp add: map_ok_def)
  show ?thesis
  proof (cases "irq_bank c (map_intr m) = irq_bank me (map_intr m)")
    case True
    then have "c = slot me mp"
      using b ok shape_kind[OF sh m] c
      by (cases mp) (auto simp: irq_bank_def map_ok_def intr_ok_def plat_ic_is_ppi_def reg_slots_def split: if_split_asm)
    then show ?thesis using el3[OF b] c rs True by (auto split: if_split_asm)
  next
    case False
    then have "c \<in> reg_slots n mp s" using c rs bank by (auto split: if_split_asm)
    moreover have "irq_group s' (irq_bank c (map_intr m)) (map_intr m) = irq_group s (irq_bank c (map_intr m)) (map_intr m) \<and>
        irq_grpmod s' (irq_bank c (map_intr m)) (map_intr m) = irq_grpmod s (irq_bank c (map_intr m)) (map_intr m)"
      using ch False by (simp add: event_changed_def)
    ultimately show ?thesis using ok b by (simp add: map_ok_def)
  qed
qed

lemma map_ok_changed:
  assumes inv: "sdei_inv n s" and me: "me < n" and m: "get_map mp s = Some m"
    and e: "get_entry (eref (length (private_maps s)) me mp) s = Some se"
    and ch: "event_changed me mp m se s m' se' s'"
    and cnt: "reg_count m' = reg_count m + of_bool (se_registered se') - of_bool (se_registered se)"
    and dyn: "is_map_dynamic m \<Longrightarrow> \<not> is_map_bound m \<Longrightarrow> \<not> se_registered se'"
    and el3: "is_map_bound m \<Longrightarrow> se_registered se' \<Longrightarrow>
      \<not> irq_group s' (irq_bank me (map_intr m)) (map_intr m) \<and> \<not> irq_grpmod s' (irq_bank me (map_intr m)) (map_intr m)"
  shows "map_ok n s' mp m'"
proof -
  note sh = inv_simps(1)[OF inv] and ok = inv_simps(4)[OF inv m]
  have rs: "reg_slots n mp s' = (if se_registered se' then insert (slot me mp) (reg_slots n mp s)
      else reg_slots n mp s - {slot me mp})"
    using reg_slots_changed[OF sh me m m e ch] by simp
  have si: "slot me mp \<in> reg_slots n mp s \<longleftrightarrow> se_registered se" by (rule slot_in_reg_slots[OF me e])
  have f: "map_intr m' = map_intr m" "map_flags m' = map_flags m" "ev_num m' = ev_num m"
    using ch by (simp_all add: event_changed_def)
  have pr: "is_map_bound m' = is_map_bound m" "is_map_dynamic m' = is_map_dynamic m" "intr_ok m' = intr_ok m"
    using f by (simp_all add: is_map_bound_def is_map_dynamic_def intr_ok_def is_event_private_def)
  have card: "reg_count m' = int (card (reg_slots n mp s'))"
  proof (cases "se_registered se'")
    case True
    then show ?thesis using ok si cnt rs by (simp add: map_ok_def card_insert_if)
  next
    case False
    show ?thesis
    proof (cases "se_registered se")
      case True
      then have "0 < card (reg_slots n mp s)" using si by (auto simp: card_gt_0_iff)
      then show ?thesis using ok si cnt rs False True by (simp add: map_ok_def of_nat_diff)
    next
      case False': False
      then show ?thesis using ok si cnt rs False by (simp add: map_ok_def)
    qed
  qed
  note irq' = registered_irq_changed[OF inv me m e ch el3]
  have "is_map_dynamic m \<and> \<not> is_map_bound m \<longrightarrow> reg_count m' = 0 \<and> map_intr m = SDEI_DYN_IRQ"
  proof
    assume "is_map_dynamic m \<and> \<not> is_map_bound m"
    moreover from this have "card (reg_slots n mp s) = 0" "map_intr m = SDEI_DYN_IRQ" using ok by (auto simp: map_ok_def)
    ultimately show "reg_count m' = 0 \<and> map_intr m = SDEI_DYN_IRQ" using card dyn rs by simp
  qed
  then show ?thesis using ok card pr f irq' by (simp add: map_ok_def)
qed

lemma map_ok_other:
  assumes inv: "sdei_inv n s" and me: "me < n" and m: "get_map mp s = Some m" "get_map mp2 s = Some m2" and ne: "mp2 \<noteq> mp"
    and e: "get_entry (eref (length (private_maps s)) me mp) s = Some se"
    and ch: "event_changed me mp m se s m' se' s'"
  shows "map_ok n s' mp2 m2"
proof -
  note ok = inv_simps(4)[OF inv m(2)]
  have rs: "reg_slots n mp2 s' = reg_slots n mp2 s"
    using reg_slots_changed[OF inv_simps(1)[OF inv] me m e ch] ne by simp
  have "irq_group s' b (map_intr m2) = irq_group s b (map_intr m2) \<and>
      irq_grpmod s' b (map_intr m2) = irq_grpmod s b (map_intr m2)" if "is_map_bound m2" for b
  proof -
    have "map_intr m2 \<noteq> map_intr m \<or> \<not> is_map_bound m" using inv_simps(6)[OF inv m(2,1) that] ne by blast
    then show ?thesis using ch by (auto simp: event_changed_def)
  qed
  then show ?thesis using ok rs by (auto simp: map_ok_def)
qed

lemma entries_changed:
  assumes m: "get_map mp s = Some m"
    and e: "get_entry (eref (length (private_maps s)) me mp) s = Some se"
    and ch: "event_changed me mp m se s m' se' s'"
  shows "set (private_event_table s') \<union> set (shared_event_table s') \<subseteq>
     insert se' (set (private_event_table s) \<union> set (shared_event_table s))"
proof -
  obtain s0 where s': "s' = put_entry (eref (length (private_maps s)) me mp) se' (put_map mp m' s0)"
    and eq: "private_event_table s0 = private_event_table s" "shared_event_table s0 = shared_event_table s"
    using ch by (auto simp: event_changed_def)
  show ?thesis
    using eq by (cases mp) (auto simp: s' dest!: set_update_subset_insert[THEN subsetD])
qed

lemma inv_changed:
  assumes inv: "sdei_inv n s" and me: "me < n" and m: "get_map mp s = Some m"
    and e: "get_entry (eref (length (private_maps s)) me mp) s = Some se"
    and ch: "event_changed me mp m se s m' se' s'" and st: "se_state se' \<in> sdei_states"
    and cnt: "reg_count m' = reg_count m + of_bool (se_registered se') - of_bool (se_registered se)"
    and dyn: "is_map_dynamic m \<Longrightarrow> \<not> is_map_bound m \<Longrightarrow> \<not> se_registered se'"
    and el3: "is_map_bound m \<Longrightarrow> se_registered se' \<Longrightarrow>
      \<not> irq_group s' (irq_bank me (map_intr m)) (map_intr m) \<and> \<not> irq_grpmod s' (irq_bank me (map_intr m)) (map_intr m)"
  shows "sdei_inv n s'"
proof -
  note c = changed_maps[OF ch m e]
  have f: "map_intr m' = map_intr m" "is_map_bound m' = is_map_bound m" "map_locks s' = map_locks s"
    "map dispatch_stack (sdei_cpus s') = map dispatch_stack (sdei_cpus s)"
    using ch by (simp_all add: event_changed_def is_map_bound_def)
  have oks: "map_ok n s' mp2 m2" if "get_map mp2 s' = Some m2" for mp2 m2
    using that map_ok_changed[OF inv me m e ch cnt dyn el3] map_ok_other[OF inv me m _ _ e ch]
    by (auto simp: c(1) split: if_split_asm)
  have "mp1 = mp2" if "get_map mp1 s' = Some m1" "get_map mp2 s' = Some m2" "is_map_bound m1" "is_map_bound m2"
      "map_intr m1 = map_intr m2" for mp1 mp2 m1 m2
    using that f inv_simps(6)[OF inv] m unfolding c(1) by (auto split: if_split_asm)
  then have "bound_once s'" unfolding bound_once_def by blast
  moreover have "disp_ok s' k" if "k \<in> set (map dispatch_stack (sdei_cpus s'))" for k
    using that inv unfolding f(4) by (auto simp: sdei_inv_def disp_ok_def c(1))
  moreover have "\<forall>x \<in> set (private_event_table s') \<union> set (shared_event_table s'). se_state x \<in> sdei_states"
    using entries_changed[OF m e ch] inv st by (auto simp: sdei_inv_def)
  ultimately show ?thesis
    using inv shape_changed[OF inv_simps(1)[OF inv] m e ch] f(3) c(4) oks unfolding sdei_inv_def by simp
qed

subsection \<open>Registration and enabling\<close>

lemma irq_fields [simp]:
  "private_maps (irq_taken me i p s) = private_maps s" "shared_maps (irq_taken me i p s) = shared_maps s"
  "private_event_table (irq_taken me i p s) = private_event_table s" "shared_event_table (irq_taken me i p s) = shared_event_table s"
  "private_maps (irq_returned me i s) = private_maps s" "shared_maps (irq_returned me i s) = shared_maps s"
  "private_event_table (irq_returned me i s) = private_event_table s" "shared_event_table (irq_returned me i s) = shared_event_table s"
  "private_maps (irq_routed i fl a s) = private_maps s" "shared_maps (irq_routed i fl a s) = shared_maps s"
  "private_event_table (irq_routed i fl a s) = private_event_table s" "shared_event_table (irq_routed i fl a s) = shared_event_table s"
  "sdei_cpus (irq_taken me i p s) = sdei_cpus s" "icc_active (irq_taken me i p s) = icc_active s"
  "ehf_data (irq_taken me i p s) = ehf_data s" "ns_context (irq_taken me i p s) = ns_context s"
  "sdei_cpus (irq_returned me i s) = sdei_cpus s" "icc_active (irq_returned me i s) = icc_active s"
  "ehf_data (irq_returned me i s) = ehf_data s" "ns_context (irq_returned me i s) = ns_context s"
  "sdei_cpus (irq_routed i fl a s) = sdei_cpus s" "icc_active (irq_routed i fl a s) = icc_active s"
  "ehf_data (irq_routed i fl a s) = ehf_data s" "ns_context (irq_routed i fl a s) = ns_context s"
  "irq_group (irq_routed i fl a s) = irq_group s" "irq_grpmod (irq_routed i fl a s) = irq_grpmod s"
  by (simp_all add: irq_taken_def irq_returned_def irq_routed_def Let_def)

lemma irq_groups [simp]:
  "irq_group (irq_taken me i p s) b j = (\<not> (b = irq_bank me i \<and> j = i) \<and> irq_group s b j)"
  "irq_grpmod (irq_taken me i p s) b j = (\<not> (b = irq_bank me i \<and> j = i) \<and> irq_grpmod s b j)"
  "irq_group (irq_returned me i s) b j = (b = irq_bank me i \<and> j = i \<or> irq_group s b j)"
  "irq_grpmod (irq_returned me i s) b j = (\<not> (b = irq_bank me i \<and> j = i) \<and> irq_grpmod s b j)"
  by (auto simp: irq_taken_def irq_returned_def Let_def)

lemma put_more [simp]:
  "ehf_data (put_entry r se s) = ehf_data s" "ehf_data (put_map mp m s) = ehf_data s"
  by (cases r; cases mp; simp)+

lemma event_register_eq:
  assumes inv: "sdei_inv n s" and me: "me < n" and ev: "event_at me num s mp m r se" and num: "ev_num m = num"
    and el: "sdei_client_el me s = Some el"
  shows "sdei_event_register e me num ep arg flags mpidr s = Some (
     if ep = 0 \<or> plat_sdei_validate_entry_point e ep el \<noteq> 0 \<or> validate_flags e flags mpidr \<noteq> 0 then (SDEI_EINVAL, s)
     else if may_register me m se s then (0, event_registered e me mp m r se ep arg flags mpidr s)
     else (SDEI_EDENY, s))"
proof (rule sdei_register_eq[OF ev num el])
  have lk: "get_map mp s = Some m" "get_entry (eref (length (private_maps s)) me mp) s = Some se"
    using ev shape_get_event_entry[OF inv_simps(1)[OF inv], of mp m me] by (auto simp: event_at_def)
  note ok = inv_simps(4)[OF inv lk(1)]
  show "if is_event_private m then 0 \<le> reg_count m else reg_count m = 0" if "se_state se = 0"
  proof (cases mp)
    case (Shared_map i)
    have "0 \<notin> reg_slots n mp s" using slot_in_reg_slots[OF me lk(2)] that Shared_map by (simp add: se_registered_def)
    then have "reg_slots n mp s = {}" using Shared_map by (auto simp: reg_slots_def)
    then show ?thesis using ok by (simp add: map_ok_def)
  qed (use ok shape_kind[OF inv_simps(1)[OF inv] lk(1)] in \<open>simp add: map_ok_def\<close>)
  show "intr_ok m" "me < length (icc_pmr s)" "mp \<notin> set (map_locks s)"
    using ok me inv_simps[OF inv] by (simp_all add: map_ok_def)
qed

lemma inv_event_registered:
  assumes inv: "sdei_inv n s" and me: "me < n" and m: "get_map mp s = Some m"
    and e: "get_entry (eref (length (private_maps s)) me mp) s = Some se" and may: "may_register me m se s"
  shows "sdei_inv n (event_registered env me mp m (eref (length (private_maps s)) me mp) se ep arg flags mpidr s)"
proof (rule inv_changed[OF inv me m e])
  let ?r = "eref (length (private_maps s)) me mp"
  let ?s' = "event_registered env me mp m ?r se ep arg flags mpidr s"
  let ?fl = "if is_event_private m then SDEI_REGF_RM_PE else flags"
  show "event_changed me mp m se s (m\<lparr>reg_count := reg_count m + 1\<rparr>)
      (set_sdei_entry ep arg (ucast ?fl) mpidr (se\<lparr>se_state := 1\<rparr>)) ?s'"
    unfolding event_changed_def event_registered_def Let_def
    by (intro conjI exI[of _ "intr_registered env me m ?fl mpidr s"]) (auto simp: intr_registered_def)
  show "se_state (set_sdei_entry ep arg (ucast ?fl) mpidr (se\<lparr>se_state := 1\<rparr>)) \<in> sdei_states"
    by (simp add: set_sdei_entry_def sdei_states_def)
  show "reg_count (m\<lparr>reg_count := reg_count m + 1\<rparr>) = reg_count m +
      of_bool (se_registered (set_sdei_entry ep arg (ucast ?fl) mpidr (se\<lparr>se_state := 1\<rparr>))) - of_bool (se_registered se)"
    using may by (simp add: set_sdei_entry_def se_registered_def may_register_def)
qed (use may in \<open>auto simp: may_register_def event_registered_def intr_registered_def Let_def\<close>)

lemma inv_register:
  assumes inv: "sdei_inv n s" and me: "me < n"
  shows "\<exists>ret s'. sdei_event_register e me num ep arg flags mpidr s = Some (ret, s') \<and> sdei_inv n s'"
proof -
  obtain el where el: "sdei_client_el me s = Some el" using shape_client_el[OF inv_simps(1)[OF inv] me] by blast
  show ?thesis
  proof (cases "find_event_map num s")
    case None
    then show ?thesis using sdei_register_unknown[OF el] inv by blast
  next
    case (Some mp)
    let ?r = "eref (length (private_maps s)) me mp"
    obtain m se where ev: "event_at me num s mp m ?r se" "ev_num m = num" using inv_event[OF inv me Some] by blast
    then have lk: "get_map mp s = Some m" "get_entry ?r s = Some se" by (simp_all add: event_at_def)
    show ?thesis using event_register_eq[OF inv me ev el] inv_event_registered[OF inv me lk] inv by auto
  qed
qed

lemma registered_el3:
  assumes inv: "sdei_inv n s" and me: "me < n" and m: "get_map mp s = Some m"
    and e: "get_entry (eref (length (private_maps s)) me mp) s = Some se" and r: "se_registered se" and b: "is_map_bound m"
  shows "\<not> irq_group s (irq_bank me (map_intr m)) (map_intr m) \<and> \<not> irq_grpmod s (irq_bank me (map_intr m)) (map_intr m)"
proof -
  note ok = inv_simps(4)[OF inv m]
  have "slot me mp \<in> reg_slots n mp s" using slot_in_reg_slots[OF me e] r by simp
  then have "\<not> irq_group s (irq_bank (slot me mp) (map_intr m)) (map_intr m) \<and>
      \<not> irq_grpmod s (irq_bank (slot me mp) (map_intr m)) (map_intr m)"
    using ok b unfolding map_ok_def by blast
  moreover have "irq_bank (slot me mp) (map_intr m) = irq_bank me (map_intr m)"
    using ok by (intro bank_slot b shape_kind[OF inv_simps(1)[OF inv] m]) (simp add: map_ok_def)
  ultimately show ?thesis by simp
qed

lemma unbound_unregistered:
  assumes inv: "sdei_inv n s" and me: "me < n" and m: "get_map mp s = Some m"
    and e: "get_entry (eref (length (private_maps s)) me mp) s = Some se" and d: "is_map_dynamic m" "\<not> is_map_bound m"
  shows "\<not> se_registered se"
proof -
  have "card (reg_slots n mp s) = 0" using inv_simps(4)[OF inv m] d by (auto simp: map_ok_def)
  then show ?thesis using slot_in_reg_slots[OF me e] by simp
qed

definition same_size :: "sdei_state \<Rightarrow> sdei_state \<Rightarrow> bool" where
  "same_size s s' \<longleftrightarrow> length (private_maps s') = length (private_maps s) \<and> length (shared_maps s') = length (shared_maps s)"

lemma same_size_put [simp]: "same_size s (put_map mp m s)" "same_size s s"
  by (cases mp; simp add: same_size_def)+

lemma unregister_eq:
  assumes inv: "sdei_inv n s" and me: "me < n" and ev: "event_at me num s mp m r se" and num: "ev_num m = num"
  shows "sdei_event_unregister me num s = Some (case sdei_next (se_state se) DO_UNREGISTER of
      None \<Rightarrow> (if get_ev_state_bit se SDEI_STATF_RUNNING then SDEI_EPEND else SDEI_EDENY, s)
    | Some st \<Rightarrow> (if st = 4 then SDEI_EPEND else 0, event_unregistered me mp m r se st s))"
proof (rule sdei_unregister_eq[OF ev num])
  have lk: "get_map mp s = Some m" "get_entry (eref (length (private_maps s)) me mp) s = Some se"
    using ev shape_get_event_entry[OF inv_simps(1)[OF inv], of mp m me] by (auto simp: event_at_def)
  note sh = inv_simps(1)[OF inv] and ok = inv_simps(4)[OF inv lk(1)] and slot = slot_in_reg_slots[OF me lk(2)]
  show "if is_event_private m then 1 \<le> reg_count m else reg_count m = 1" if "se_state se \<in> {1, 3, 5, 7}"
  proof -
    have "slot me mp \<in> reg_slots n mp s" using slot that by (simp add: se_registered_def)
    then have "0 < card (reg_slots n mp s)" by (auto simp: card_gt_0_iff)
    moreover have "card (reg_slots n mp s) \<le> 1" if "\<not> is_event_private m"
      using that shape_kind[OF sh lk(1)] card_mono[of "{0}" "reg_slots n mp s"]
      by (cases mp) (auto simp: reg_slots_def)
    ultimately show ?thesis using ok by (auto simp: map_ok_def)
  qed
  show "\<not> irq_group s (irq_bank me (map_intr m)) (map_intr m) \<and> \<not> irq_grpmod s (irq_bank me (map_intr m)) (map_intr m)"
    if "se_state se \<in> {1, 3, 5, 7}" "is_map_bound m"
    using registered_el3[OF inv me lk] that by (simp add: se_registered_def)
  show "intr_ok m" "me < length (icc_pmr s)" "mp \<notin> set (map_locks s)"
    using ok me inv_simps[OF inv] by (simp_all add: map_ok_def)
qed

lemma inv_event_unregistered:
  assumes inv: "sdei_inv n s" and me: "me < n" and m: "get_map mp s = Some m"
    and e: "get_entry (eref (length (private_maps s)) me mp) s = Some se" and nx: "sdei_next (se_state se) DO_UNREGISTER = Some st"
  shows "sdei_inv n (event_unregistered me mp m (eref (length (private_maps s)) me mp) se st s)"
proof (rule inv_changed[OF inv me m e])
  let ?r = "eref (length (private_maps s)) me mp" and ?se = "clear_event_entries (se\<lparr>se_state := st\<rparr>)"
  have st: "se_registered se" "st = 0 \<or> st = 4"
    using nx by (auto simp: sdei_next_cases se_registered_def split: if_split_asm)
  show "event_changed me mp m se s (m\<lparr>reg_count := reg_count m - 1\<rparr>) ?se (event_unregistered me mp m ?r se st s)"
    unfolding event_changed_def event_unregistered_def
    by (intro conjI exI[of _ "if is_map_bound m then irq_returned me (map_intr m) s else s"]) auto
  show "se_state ?se \<in> sdei_states" using st by (auto simp: clear_event_entries_def sdei_states_def)
  have no: "\<not> se_registered ?se" using st by (auto simp: clear_event_entries_def se_registered_def)
  then show "reg_count (m\<lparr>reg_count := reg_count m - 1\<rparr>) = reg_count m + of_bool (se_registered ?se) - of_bool (se_registered se)"
    and "\<not> se_registered ?se" using st by simp_all
  show "is_map_bound m \<Longrightarrow> se_registered ?se \<Longrightarrow>
      \<not> irq_group (event_unregistered me mp m ?r se st s) (irq_bank me (map_intr m)) (map_intr m) \<and>
      \<not> irq_grpmod (event_unregistered me mp m ?r se st s) (irq_bank me (map_intr m)) (map_intr m)"
    using no by simp
qed

lemma inv_unregister:
  assumes inv: "sdei_inv n s" and me: "me < n"
  shows "\<exists>ret s'. sdei_event_unregister me num s = Some (ret, s') \<and> sdei_inv n s' \<and> same_size s s'"
proof (cases "find_event_map num s")
  case None
  then show ?thesis using inv by (simp add: sdei_event_unregister_def)
next
  case (Some mp)
  let ?r = "eref (length (private_maps s)) me mp"
  obtain m se where ev: "event_at me num s mp m ?r se" "ev_num m = num" using inv_event[OF inv me Some] by blast
  then have lk: "get_map mp s = Some m" "get_entry ?r s = Some se" by (simp_all add: event_at_def)
  have "same_size s (event_unregistered me mp m ?r se st s)" for st
    by (cases mp) (simp_all add: event_unregistered_def same_size_def)
  then show ?thesis
    using unregister_eq[OF inv me ev] inv_event_unregistered[OF inv me lk] inv by (auto split: option.split)
qed

subsection \<open>Changes that keep a registration\<close>

text \<open>The fields that the invariant reads, apart from maps and entries.\<close>

definition same_frame :: "sdei_state \<Rightarrow> sdei_state \<Rightarrow> bool" where
  "same_frame s s0 \<longleftrightarrow> private_maps s0 = private_maps s \<and> shared_maps s0 = shared_maps s \<and>
     private_event_table s0 = private_event_table s \<and> shared_event_table s0 = shared_event_table s \<and>
     map dispatch_stack (sdei_cpus s0) = map dispatch_stack (sdei_cpus s) \<and> icc_pmr s0 = icc_pmr s \<and> icc_active s0 = icc_active s \<and>
     ehf_data s0 = ehf_data s \<and> ns_context s0 = ns_context s \<and> map_locks s0 = map_locks s \<and>
     irq_group s0 = irq_group s \<and> irq_grpmod s0 = irq_grpmod s"

lemma inv_entry:
  assumes inv: "sdei_inv n s" and me: "me < n" and m: "get_map mp s = Some m"
    and e: "get_entry (eref (length (private_maps s)) me mp) s = Some se"
    and st: "se_state se' \<in> sdei_states" and reg: "se_registered se' = se_registered se" and fr: "same_frame s s0"
  shows "sdei_inv n (put_entry (eref (length (private_maps s)) me mp) se' s0)"
proof (rule inv_changed[OF inv me m e])
  let ?s' = "put_entry (eref (length (private_maps s)) me mp) se' s0"
  have "get_map mp s0 = Some m" using m get_cong(1)[of s0 s] fr by (simp add: same_frame_def)
  then have "put_map mp m s0 = s0" by (rule put_map_same)
  then show "event_changed me mp m se s m se' ?s'"
    unfolding event_changed_def using fr by (intro conjI exI[of _ s0]) (auto simp: same_frame_def)
  show "is_map_dynamic m \<Longrightarrow> \<not> is_map_bound m \<Longrightarrow> \<not> se_registered se'"
    using unbound_unregistered[OF inv me m e] reg by simp
  show "is_map_bound m \<Longrightarrow> se_registered se' \<Longrightarrow>
      \<not> irq_group ?s' (irq_bank me (map_intr m)) (map_intr m) \<and> \<not> irq_grpmod ?s' (irq_bank me (map_intr m)) (map_intr m)"
    using registered_el3[OF inv me m e] reg fr by (simp add: same_frame_def)
qed (simp_all add: st reg)

lemma inv_same:
  assumes "sdei_inv n s" "same_frame s s0" shows "sdei_inv n s0"
proof -
  have g: "get_map mp s0 = get_map mp s" "get_entry r s0 = get_entry r s" for mp r
    using assms(2) get_cong[of s0 s] by (simp_all add: same_frame_def)
  have sl: "reg_slots n mp s0 = reg_slots n mp s" for mp
    using assms(2) by (simp add: reg_slots_def g same_frame_def)
  have ok: "map_ok n s0 mp m = map_ok n s mp m" for mp m
    using assms(2) by (simp add: map_ok_def sl same_frame_def)
  have d: "disp_ok s0 ds = disp_ok s ds" and b: "bound_once s0 = bound_once s" for ds
    by (simp_all add: disp_ok_def bound_once_def g)
  have "length (sdei_cpus s0) = length (sdei_cpus s)"
    using assms(2) by (intro map_eq_imp_length_eq) (auto simp: same_frame_def)
  then show ?thesis
    using assms unfolding sdei_inv_def g ok d b same_frame_def by (simp add: sdei_shape_def)
qed

subsection \<open>Enabling in closed form\<close>

definition shared_lock :: "sdei_ev_map \<Rightarrow> map_ref \<Rightarrow> map_ref list \<Rightarrow> map_ref list" where
  "shared_lock m mp l = (if is_event_shared m then mp # l else l)"

lemma lock_if_shared_eq:
  "mp \<notin> set (map_locks s) \<Longrightarrow> lock_if_shared m mp s = Some (s\<lparr>map_locks := shared_lock m mp (map_locks s)\<rparr>)"
  by (cases s) (simp add: lock_if_shared_def sdei_map_lock_def shared_lock_def)

lemma unlock_if_shared_eq [simp]:
  "unlock_if_shared m mp (s\<lparr>map_locks := shared_lock m mp l\<rparr>) = s\<lparr>map_locks := l\<rparr>"
  by (simp add: unlock_if_shared_def shared_lock_def)

definition irq_enable_if :: "bool \<Rightarrow> nat \<Rightarrow> u32 \<Rightarrow> bool \<Rightarrow> sdei_state \<Rightarrow> sdei_state" where
  "irq_enable_if c me irq v s = (if c then s\<lparr>irq_enabled := upd2 (irq_enabled s) (irq_bank me irq) irq v\<rparr> else s)"

lemma irq_enable_if_frame [simp]:
  "same_frame s (irq_enable_if c me irq v s)"
  "irq_enable_if c me irq v (s0\<lparr>map_locks := l\<rparr>) = (irq_enable_if c me irq v s0)\<lparr>map_locks := l\<rparr>"
  "irq_enable_if c me irq v (put_entry r se s0) = put_entry r se (irq_enable_if c me irq v s0)"
  "map_locks (irq_enable_if c me irq v s0) = map_locks s0"
  "get_entry r (irq_enable_if c me irq v s0) = get_entry r s0"
  "get_map mp (irq_enable_if c me irq v s0) = get_map mp s0"
  "icc_pmr (irq_enable_if c me irq v s0) = icc_pmr s0"
  by (cases r; simp add: irq_enable_if_def same_frame_def)+

lemma plat_ic_enable_eq:
  assumes "intr_ok m" "is_map_bound m" "me < length (icc_pmr s)"
  shows "plat_ic_enable_interrupt me (map_intr m) s = Some (irq_enable_if True me (map_intr m) True s)"
    "plat_ic_disable_interrupt me (map_intr m) s = Some (irq_enable_if True me (map_intr m) False s)"
  using assms intr_ok_bounds[OF assms(1,2)]
  by (simp_all add: plat_ic_enable_interrupt_def gicv3_enable_interrupt_def plat_ic_disable_interrupt_def gicv3_disable_interrupt_def
      irq_enable_if_def)

lemma irq_enable_if_False [simp]: "irq_enable_if False me irq v s = s"
  by (simp add: irq_enable_if_def)

lemma sdei_enable_eq:
  assumes ev: "event_at me num s mp m r se" and ok: "intr_ok m" and me: "me < length (icc_pmr s)" and free: "mp \<notin> set (map_locks s)"
  shows "sdei_event_enable me num s = Some (case sdei_next (se_state se) DO_ENABLE of
      None \<Rightarrow> (SDEI_EDENY, s)
    | Some st \<Rightarrow> (0, put_entry r (se\<lparr>se_state := st\<rparr>) (irq_enable_if (is_map_bound m \<and>
        \<not> get_ev_state_bit se SDEI_STATF_ENABLED \<and> get_ev_state_bit (se\<lparr>se_state := st\<rparr>) SDEI_STATF_ENABLED) me (map_intr m) True s)))"
proof -
  let ?l = "s\<lparr>map_locks := shared_lock m mp (map_locks s)\<rparr>"
  have lk: "find_event_map num s = Some mp" "get_map mp s = Some m" "get_event_entry me mp s = Some r"
    "get_entry r s = Some se" and gl: "get_entry r ?l = Some se"
    using ev by (simp_all add: event_at_def)
  note lock = lock_if_shared_eq[OF free, of m] and tr = can_trans_eq[OF gl, of DO_ENABLE]
  show ?thesis
  proof (cases "sdei_next (se_state se) DO_ENABLE")
    case (Some st)
    let ?se = "se\<lparr>se_state := st\<rparr>"
    let ?c = "is_map_bound m \<and> \<not> get_ev_state_bit se SDEI_STATF_ENABLED \<and> get_ev_state_bit ?se SDEI_STATF_ENABLED"
    show ?thesis
    proof (cases ?c)
      case True
      then have "plat_ic_enable_interrupt me (map_intr m) (put_entry r ?se ?l) = Some (irq_enable_if True me (map_intr m) True (put_entry r ?se ?l))"
        using plat_ic_enable_eq(1)[OF ok, of me "put_entry r ?se ?l"] me by simp
      with True show ?thesis using lk lock tr Some by (simp add: sdei_event_enable_def Let_def)
    next
      case False
      then show ?thesis using lk lock tr Some by (auto simp add: sdei_event_enable_def Let_def)
    qed
  qed (use lk lock tr in \<open>simp add: sdei_event_enable_def Let_def\<close>)
qed

lemma sdei_disable_eq:
  assumes ev: "event_at me num s mp m r se" and ok: "intr_ok m" and me: "me < length (icc_pmr s)" and free: "mp \<notin> set (map_locks s)"
  shows "sdei_event_disable me num s = Some (case sdei_next (se_state se) DO_DISABLE of
      None \<Rightarrow> (SDEI_EDENY, s)
    | Some st \<Rightarrow> (0, put_entry r (se\<lparr>se_state := st\<rparr>) (irq_enable_if (is_map_bound m \<and>
        get_ev_state_bit se SDEI_STATF_ENABLED \<and> \<not> get_ev_state_bit (se\<lparr>se_state := st\<rparr>) SDEI_STATF_ENABLED) me (map_intr m) False s)))"
proof -
  let ?l = "s\<lparr>map_locks := shared_lock m mp (map_locks s)\<rparr>"
  have lk: "find_event_map num s = Some mp" "get_map mp s = Some m" "get_event_entry me mp s = Some r"
    "get_entry r s = Some se" and gl: "get_entry r ?l = Some se"
    using ev by (simp_all add: event_at_def)
  note lock = lock_if_shared_eq[OF free, of m] and tr = can_trans_eq[OF gl, of DO_DISABLE]
  show ?thesis
  proof (cases "sdei_next (se_state se) DO_DISABLE")
    case (Some st)
    let ?se = "se\<lparr>se_state := st\<rparr>"
    let ?c = "is_map_bound m \<and> get_ev_state_bit se SDEI_STATF_ENABLED \<and> \<not> get_ev_state_bit ?se SDEI_STATF_ENABLED"
    show ?thesis
    proof (cases ?c)
      case True
      then have "plat_ic_disable_interrupt me (map_intr m) (put_entry r ?se ?l) = Some (irq_enable_if True me (map_intr m) False (put_entry r ?se ?l))"
        using plat_ic_enable_eq(2)[OF ok, of me "put_entry r ?se ?l"] me by simp
      with True show ?thesis using lk lock tr Some by (simp add: sdei_event_disable_def Let_def)
    next
      case False
      then show ?thesis using lk lock tr Some by (auto simp add: sdei_event_disable_def Let_def)
    qed
  qed (use lk lock tr in \<open>simp add: sdei_event_disable_def Let_def\<close>)
qed

end
