(* ===== verification/SDEI_Calls.thy ===== *)
theory SDEI_Calls
  imports SDEI_Inv
begin

section \<open>Software delegated exceptions: every call keeps the invariant\<close>

text \<open>
  The calls of the client never fail an assertion in a state of the invariant, and keep it: the
  lemmas \<open>inv_*\<close>, one per call, and their composition in the SMC handler.
\<close>

unbundle bit_operations_syntax

lemma next_registered:
  assumes "sdei_next (se_state se) act = Some st" "act = DO_ENABLE \<or> act = DO_DISABLE \<or> act = DO_ROUTING \<or> act = DO_CONTEXT"
  shows "se_registered (se\<lparr>se_state := st\<rparr>) = se_registered se"
  using assms by (auto simp: sdei_next_cases se_registered_def split: if_split_asm)

lemma inv_enable:
  assumes inv: "sdei_inv n s" and me: "me < n"
  shows "\<exists>ret s'. sdei_event_enable me num s = Some (ret, s') \<and> sdei_inv n s'"
proof (cases "find_event_map num s")
  case None
  then show ?thesis using inv by (simp add: sdei_event_enable_def)
next
  case (Some mp)
  let ?r = "eref (length (private_maps s)) me mp"
  obtain m se where ev: "event_at me num s mp m ?r se" and ok: "map_ok n s mp m"
    using inv_event[OF inv me Some] by blast
  then have lk: "get_map mp s = Some m" "get_entry ?r s = Some se" by (simp_all add: event_at_def)
  have "sdei_inv n (put_entry ?r (se\<lparr>se_state := st\<rparr>) (irq_enable_if c me (map_intr m) True s))"
    if "sdei_next (se_state se) DO_ENABLE = Some st" for st c
    by (rule inv_entry[OF inv me lk]) (use sdei_next_Some[OF that] next_registered[OF that] in simp_all)
  then show ?thesis
    using sdei_enable_eq[OF ev] ok me inv inv_simps[OF inv] by (auto simp: map_ok_def split: option.split)
qed

lemma inv_disable:
  assumes inv: "sdei_inv n s" and me: "me < n"
  shows "\<exists>ret s'. sdei_event_disable me num s = Some (ret, s') \<and> sdei_inv n s'"
proof (cases "find_event_map num s")
  case None
  then show ?thesis using inv by (simp add: sdei_event_disable_def)
next
  case (Some mp)
  let ?r = "eref (length (private_maps s)) me mp"
  obtain m se where ev: "event_at me num s mp m ?r se" and ok: "map_ok n s mp m"
    using inv_event[OF inv me Some] by blast
  then have lk: "get_map mp s = Some m" "get_entry ?r s = Some se" by (simp_all add: event_at_def)
  have "sdei_inv n (put_entry ?r (se\<lparr>se_state := st\<rparr>) (irq_enable_if c me (map_intr m) False s))"
    if "sdei_next (se_state se) DO_DISABLE = Some st" for st c
    by (rule inv_entry[OF inv me lk]) (use sdei_next_Some[OF that] next_registered[OF that] in simp_all)
  then show ?thesis
    using sdei_disable_eq[OF ev] ok me inv inv_simps[OF inv] by (auto simp: map_ok_def split: option.split)
qed

lemma sdei_routing_eq:
  assumes ev: "event_at me num s mp m r se" and ok: "intr_ok m" and free: "mp \<notin> set (map_locks s)"
  shows "sdei_event_routing_set e me num flags mpidr s = Some (
     if validate_flags e flags mpidr \<noteq> 0 \<or> is_event_private m \<or> \<not> is_map_bound m then (SDEI_EINVAL, s)
     else if se_state se \<noteq> 1 then (SDEI_EDENY, s)
     else (0, put_entry r (se\<lparr>se_reg_flags := ucast flags\<rparr>) (irq_routed (map_intr m) flags mpidr s)))"
proof -
  let ?l = "s\<lparr>map_locks := mp # map_locks s\<rparr>"
  have lk: "find_event_map num s = Some mp" "get_map mp s = Some m" "get_event_entry me mp s = Some r"
    "get_entry r s = Some se" and gl: "get_entry r ?l = Some se"
    using ev by (simp_all add: event_at_def)
  have lock: "sdei_map_lock mp s = Some ?l" using free by (simp add: sdei_map_lock_def)
  have bad: "validate_flags e flags mpidr \<noteq> 0 \<Longrightarrow> validate_flags e flags mpidr = SDEI_EINVAL"
    by (auto simp: validate_flags_def split: if_split_asm)
  have same: "se\<lparr>se_state := se_state se\<rparr> = se" by simp
  have tr: "can_sdei_state_trans r DO_ROUTING ?l = Some (se_state se = 1, ?l)"
    using can_trans_eq[OF gl, of DO_ROUTING] lk same by (simp add: sdei_next_cases)
  show ?thesis
  proof (cases "validate_flags e flags mpidr \<noteq> 0 \<or> is_event_private m \<or> \<not> is_map_bound m")
    case True
    then show ?thesis using lk lock bad by (auto simp: sdei_event_routing_set_def)
  next
    case False
    then have "plat_ic_is_spi (map_intr m)" using intr_ok_bounds(6)[OF ok] by (simp add: is_event_shared_def)
    from routing_eq[OF this, of e flags mpidr] False show ?thesis
      using lk lock tr by (simp add: sdei_event_routing_set_def Let_def)
  qed
qed

lemma inv_routing:
  assumes inv: "sdei_inv n s" and me: "me < n"
  shows "\<exists>ret s'. sdei_event_routing_set e me num flags mpidr s = Some (ret, s') \<and> sdei_inv n s'"
proof (cases "find_event_map num s")
  case None
  then show ?thesis using inv by (simp add: sdei_event_routing_set_def)
next
  case (Some mp)
  let ?r = "eref (length (private_maps s)) me mp"
  obtain m se where ev: "event_at me num s mp m ?r se" and ok: "map_ok n s mp m" and st: "se_state se \<in> sdei_states"
    using inv_event[OF inv me Some] by blast
  then have lk: "get_map mp s = Some m" "get_entry ?r s = Some se" by (simp_all add: event_at_def)
  have "sdei_inv n (put_entry ?r (se\<lparr>se_reg_flags := ucast flags\<rparr>) (irq_routed (map_intr m) flags mpidr s))"
    by (rule inv_entry[OF inv me lk]) (use st in \<open>simp_all add: se_registered_def same_frame_def\<close>)
  then show ?thesis
    using sdei_routing_eq[OF ev, of e flags mpidr] ok inv inv_simps[OF inv] by (auto simp: map_ok_def)
qed

subsection \<open>Queries\<close>

lemma put_locks_same [simp]: "s\<lparr>map_locks := map_locks s\<rparr> = s"
  by (cases s) simp

lemma inv_info:
  assumes inv: "sdei_inv n s" and me: "me < n"
  shows "\<exists>ret. sdei_event_get_info me num info s = Some (ret, s)"
proof (cases "find_event_map num s")
  case (Some mp)
  obtain m se where ev: "event_at me num s mp m (eref (length (private_maps s)) me mp) se"
    using inv_event[OF inv me Some] by blast
  have "mp \<notin> set (map_locks s)" using inv_simps(2)[OF inv] by simp
  then show ?thesis
    using ev lock_if_shared_eq[of mp s m] by (simp add: event_at_def sdei_event_get_info_def Let_def)
qed (simp add: sdei_event_get_info_def)

lemma inv_status:
  assumes inv: "sdei_inv n s" and me: "me < n"
  shows "\<exists>ret. sdei_event_status me num s = Some (ret, s)"
proof (cases "find_event_map num s")
  case (Some mp)
  obtain m se where ev: "event_at me num s mp m (eref (length (private_maps s)) me mp) se"
    using inv_event[OF inv me Some] by blast
  have "mp \<notin> set (map_locks s)" using inv_simps(2)[OF inv] by simp
  then show ?thesis
    using ev lock_if_shared_eq[of mp s m] by (simp add: event_at_def sdei_event_status_def Let_def)
qed (simp add: sdei_event_status_def)

lemma inv_stack:
  assumes "sdei_inv n s" "me < n"
  shows "get_outstanding_dispatch me s = Some (case dispatch_stack (sdei_cpus s ! me) of [] \<Rightarrow> None | d # _ \<Rightarrow> Some d)"
    "disp_ok s (dispatch_stack (sdei_cpus s ! me))" "me < length (sdei_cpus s)"
proof -
  show "me < length (sdei_cpus s)" using assms by (simp add: sdei_inv_def sdei_shape_def)
  then show ok: "disp_ok s (dispatch_stack (sdei_cpus s ! me))" using assms(1) by (simp add: sdei_inv_def)
  show "get_outstanding_dispatch me s = Some (case dispatch_stack (sdei_cpus s ! me) of [] \<Rightarrow> None | d # _ \<Rightarrow> Some d)"
    using ok \<open>me < length (sdei_cpus s)\<close> by (auto simp: get_outstanding_dispatch_def disp_ok_def split: list.split)
qed

lemma inv_context:
  assumes inv: "sdei_inv n s" and me: "me < n"
  shows "\<exists>ret. sdei_event_context me param s = Some (ret, s)"
proof (cases "dispatch_stack (sdei_cpus s ! me)")
  case Nil
  then show ?thesis using inv_stack[OF inv me] by (simp add: sdei_event_context_def)
next
  case (Cons d rest)
  then obtain m where m: "get_map (disp_map d) s = Some m" and x: "length (disp_x d) = SDEI_SAVED_GPREGS"
    using inv_stack(2)[OF inv me] by (auto simp: disp_ok_def)
  obtain r se where r: "get_event_entry me (disp_map d) s = Some r" "get_entry r s = Some se"
    using shape_entry[OF inv_simps(1)[OF inv] me m] by blast
  have "se\<lparr>se_state := se_state se\<rparr> = se" by simp
  then have "can_sdei_state_trans r DO_CONTEXT s = Some (se_state se = 4 \<or> se_state se = 5 \<or> se_state se = 7, s)"
    using can_trans_eq[OF r(2), of DO_CONTEXT] r(2) by (auto simp: sdei_next_cases)
  then show ?thesis
    using inv_stack(1)[OF inv me] Cons r x by (auto simp: sdei_event_context_def)
qed

subsection \<open>Masking\<close>

lemma stacks_update:
  "me < length cs \<Longrightarrow> dispatch_stack c = dispatch_stack (cs ! me) \<Longrightarrow> map dispatch_stack (cs[me := c]) = map dispatch_stack cs"
  by (metis list_update_id map_update)

lemma inv_pe_mask:
  assumes inv: "sdei_inv n s" and me: "me < n"
  shows "\<exists>ret s'. sdei_pe_mask me s = Some (ret, s') \<and> sdei_inv n s'"
proof -
  have "me < length (sdei_cpus s)" by (rule inv_stack(3)[OF inv me])
  moreover from this have "same_frame s (s\<lparr>sdei_cpus := (sdei_cpus s)[me := (sdei_cpus s ! me)\<lparr>pe_masked := True\<rparr>]\<rparr>)"
    using stacks_update[of me "sdei_cpus s"] by (simp add: same_frame_def)
  ultimately show ?thesis using inv inv_same[OF inv] by (auto simp: sdei_pe_mask_def)
qed

lemma same_frame_enabled: "same_frame s (s\<lparr>irq_enabled := f\<rparr>)"
  by (simp add: same_frame_def)

lemma unmask_private_total:
  assumes "sdei_inv n s" "me < n" "set is \<subseteq> {..<length (private_maps s)}"
  shows "\<exists>f. unmask_private me is s = Some (s\<lparr>irq_enabled := f\<rparr>)"
  using assms
proof (induction "is" arbitrary: s)
  case Nil
  show ?case by (simp add: exI[of _ "irq_enabled s"])
next
  case (Cons i rest)
  let ?m = "private_maps s ! i"
  have m: "get_map (Private_map i) s = Some ?m" using Cons.prems by simp
  obtain r se where r: "get_event_entry me (Private_map i) s = Some r" "get_entry r s = Some se"
    using shape_entry[OF inv_simps(1)[OF Cons.prems(1)] Cons.prems(2) m] by blast
  have ok: "intr_ok ?m" "me < length (icc_pmr s)"
    using inv_simps(3)[OF Cons.prems(1)] inv_simps(4)[OF Cons.prems(1) m] Cons.prems(2) by (simp_all add: map_ok_def)
  let ?c = "is_map_bound ?m \<and> get_ev_state_bit se SDEI_STATF_ENABLED"
  obtain g where g: "irq_enable_if ?c me (map_intr ?m) True s = s\<lparr>irq_enabled := g\<rparr>"
    using that[of "irq_enabled s"] that by (cases ?c) (auto simp: irq_enable_if_def)
  have "(if ?c then plat_ic_enable_interrupt me (map_intr ?m) s else Some s) = Some (s\<lparr>irq_enabled := g\<rparr>)"
    using plat_ic_enable_eq(1)[OF ok(1) _ ok(2)] g by (auto simp: irq_enable_if_def)
  moreover have "\<exists>f. unmask_private me rest (s\<lparr>irq_enabled := g\<rparr>) = Some (s\<lparr>irq_enabled := g\<rparr>\<lparr>irq_enabled := f\<rparr>)"
    by (rule Cons.IH) (use Cons.prems inv_same[OF Cons.prems(1) same_frame_enabled] in simp_all)
  ultimately show ?case using m r by simp
qed

lemma unmask_shared_total:
  assumes "sdei_inv n s" "me < n" "set is \<subseteq> {..<length (shared_maps s)}"
  shows "\<exists>f. unmask_shared me aff is s = Some (s\<lparr>irq_enabled := f\<rparr>)"
  using assms
proof (induction "is" arbitrary: s)
  case Nil
  show ?case by (simp add: exI[of _ "irq_enabled s"])
next
  case (Cons i rest)
  let ?m = "shared_maps s ! i" and ?l = "s\<lparr>map_locks := [Shared_map i]\<rparr>"
  have m: "get_map (Shared_map i) s = Some ?m" using Cons.prems by simp
  obtain r se where r: "get_event_entry me (Shared_map i) s = Some r" "get_entry r s = Some se"
    using shape_entry[OF inv_simps(1)[OF Cons.prems(1)] Cons.prems(2) m] by blast
  have ok: "intr_ok ?m" "me < length (icc_pmr ?l)"
    using inv_simps(3)[OF Cons.prems(1)] inv_simps(4)[OF Cons.prems(1) m] Cons.prems(2) by (simp_all add: map_ok_def)
  have free: "map_locks s = []" by (rule inv_simps(2)[OF Cons.prems(1)])
  then have lock: "sdei_map_lock (Shared_map i) s = Some ?l" by (simp add: sdei_map_lock_def)
  let ?c = "is_map_bound ?m \<and> get_ev_state_bit se SDEI_STATF_ENABLED \<and>
      ucast (se_reg_flags se) = SDEI_REGF_RM_PE \<and> se_affinity se = aff"
  obtain g where g: "irq_enable_if ?c me (map_intr ?m) True s = s\<lparr>irq_enabled := g\<rparr>"
    using that[of "irq_enabled s"] that by (cases ?c) (auto simp: irq_enable_if_def)
  have en: "(if ?c then plat_ic_enable_interrupt me (map_intr ?m) ?l else Some ?l) = Some (s\<lparr>irq_enabled := g\<rparr>\<lparr>map_locks := [Shared_map i]\<rparr>)"
  proof -
    have "(if ?c then plat_ic_enable_interrupt me (map_intr ?m) ?l else Some ?l) = Some (irq_enable_if ?c me (map_intr ?m) True ?l)"
      using plat_ic_enable_eq(1)[OF ok(1) _ ok(2)] by (simp add: if_distrib irq_enable_if_def)
    then show ?thesis unfolding irq_enable_if_frame(2) g .
  qed
  have un: "sdei_map_unlock (Shared_map i) (s\<lparr>irq_enabled := g\<rparr>\<lparr>map_locks := [Shared_map i]\<rparr>) = s\<lparr>irq_enabled := g\<rparr>"
    using free by (cases s) (simp add: sdei_map_unlock_def)
  have "\<exists>f. unmask_shared me aff rest (s\<lparr>irq_enabled := g\<rparr>) = Some (s\<lparr>irq_enabled := g\<rparr>\<lparr>irq_enabled := f\<rparr>)"
    by (rule Cons.IH) (use Cons.prems inv_same[OF Cons.prems(1) same_frame_enabled] in simp_all)
  then show ?case using m r lock en un by (simp add: Let_def del: unlock_locked)
qed

lemma inv_pe_unmask:
  assumes inv: "sdei_inv n s" and me: "me < n"
  shows "\<exists>s'. sdei_pe_unmask e me s = Some s' \<and> sdei_inv n s'"
proof -
  let ?aff = "sd_read_mpidr e me AND MPIDR_AFFINITY_MASK"
  have len: "me < length (sdei_cpus s)" by (rule inv_stack(3)[OF inv me])
  obtain f where f: "unmask_private me [0..<length (private_maps s)] s = Some (s\<lparr>irq_enabled := f\<rparr>)"
    using unmask_private_total[OF inv me, of "[0..<length (private_maps s)]"] by (auto simp: lessThan_atLeast0)
  note inv1 = inv_same[OF inv same_frame_enabled, of f]
  obtain f' where f': "unmask_shared me ?aff [0..<length (shared_maps s)] (s\<lparr>irq_enabled := f\<rparr>) = Some (s\<lparr>irq_enabled := f'\<rparr>)"
    using unmask_shared_total[OF inv1 me, of "[0..<length (shared_maps s)]" ?aff] by (auto simp: lessThan_atLeast0)
  have "\<exists>g. (if pending_enables (sdei_cpus s ! me) then do {
             s \<leftarrow> unmask_private me [0..<length (private_maps s)] s;
             unmask_shared me ?aff [0..<length (shared_maps s)] s
           } else Some s) = Some (s\<lparr>irq_enabled := g\<rparr>)"
    using f f' by (auto intro: exI[of _ "irq_enabled s"])
  then obtain g where g: "(if pending_enables (sdei_cpus s ! me) then do {
             s \<leftarrow> unmask_private me [0..<length (private_maps s)] s;
             unmask_shared me ?aff [0..<length (shared_maps s)] s
           } else Some s) = Some (s\<lparr>irq_enabled := g\<rparr>)" by blast
  have "same_frame s (s\<lparr>irq_enabled := g\<rparr>\<lparr>sdei_cpus := (sdei_cpus s)[me := (sdei_cpus s ! me)\<lparr>pending_enables := False, pe_masked := False\<rparr>]\<rparr>)"
    using stacks_update[OF len] by (simp add: same_frame_def)
  from inv_same[OF inv this] g len show ?thesis by (simp add: sdei_pe_unmask_def Let_def)
qed

subsection \<open>Binding and releasing\<close>

text \<open>A change of the interrupt of a dynamic map that nobody is registered for.\<close>

lemma inv_rebound:
  assumes inv: "sdei_inv n s" and m: "get_map mp s = Some m" and free: "is_map_dynamic m" "reg_count m = 0"
    and m': "ev_num m' = ev_num m" "reg_count m' = 0" "is_event_private m' = is_event_private m" "is_map_dynamic m'" "intr_ok m'"
    and un: "\<not> is_map_bound m' \<Longrightarrow> map_intr m' = SDEI_DYN_IRQ"
    and once: "\<And>mp2 m2. is_map_bound m' \<Longrightarrow> get_map mp2 s = Some m2 \<Longrightarrow> is_map_bound m2 \<Longrightarrow>
      map_intr m2 = map_intr m' \<Longrightarrow> mp2 = mp"
  shows "sdei_inv n (put_map mp m' s)"
proof -
  let ?s = "put_map mp m' s"
  note sh = inv_simps(1)[OF inv] and ok = inv_simps(4)[OF inv m] and g = get_map_put_map[OF m, of _ m']
  have len: "length (private_maps ?s) = length (private_maps s)" "length (shared_maps ?s) = length (shared_maps s)"
    "private_event_table ?s = private_event_table s" "shared_event_table ?s = shared_event_table s"
    by (cases mp; simp)+
  have rs: "reg_slots n mp2 ?s = reg_slots n mp2 s" for mp2 by (simp add: reg_slots_def len)
  have "card (reg_slots n mp s) = 0" using ok free by (auto simp: map_ok_def)
  then have none: "reg_slots n mp s = {}" by simp
  have oks: "map_ok n ?s mp2 m2" if "get_map mp2 ?s = Some m2" for mp2 m2
  proof (cases "mp2 = mp")
    case True
    have "map_ok n ?s mp m'" using ok free m' un none by (auto simp: map_ok_def rs)
    moreover have "m2 = m'" using that True by (simp add: g)
    ultimately show ?thesis using True by simp
  next
    case False
    then have "map_ok n s mp2 m2" using that inv_simps(4)[OF inv] by (simp add: g)
    then show ?thesis by (auto simp: map_ok_def rs)
  qed
  have nums: "map ev_num (private_maps ?s @ shared_maps ?s) = map ev_num (private_maps s @ shared_maps s)"
    using m m'(1) by (cases mp) (auto simp: map_update list_update_same_conv)
  have once': "bound_once ?s" unfolding bound_once_def
  proof (intro allI impI, elim conjE)
    fix mp1 m1 mp2 m2
    assume a: "get_map mp1 ?s = Some m1" "get_map mp2 ?s = Some m2" "is_map_bound m1" "is_map_bound m2" "map_intr m1 = map_intr m2"
    from a(1,2) have "(if mp1 = mp then Some m' else get_map mp1 s) = Some m1" "(if mp2 = mp then Some m' else get_map mp2 s) = Some m2"
      unfolding g by simp_all
    then show "mp1 = mp2"
      using a(3-5) once[of mp1 m1] once[of mp2 m2] inv_simps(6)[OF inv, of mp1 m1 mp2 m2]
      by (auto split: if_split_asm)
  qed
  have "disp_ok ?s ds" if "ds \<in> set (map dispatch_stack (sdei_cpus ?s))" for ds
    using that inv by (auto simp: sdei_inv_def disp_ok_def g)
  moreover have "sdei_shape n ?s"
  proof -
    have "\<forall>x \<in> set (private_maps ?s). is_event_private x" "\<forall>x \<in> set (shared_maps ?s). is_event_shared x"
      using sh m'(3) shape_kind[OF sh m]
      by (cases mp; auto simp: sdei_shape_def is_event_shared_def dest!: set_update_subset_insert[THEN subsetD])+
    then show ?thesis using sh by (simp add: sdei_shape_def len)
  qed
  ultimately show ?thesis using inv oks once' nums unfolding sdei_inv_def by (simp add: len)
qed

lemma flag_bit: "map_flags m AND push_bit k 1 \<noteq> 0 \<longleftrightarrow> bit (map_flags m) k"
  by (simp add: push_bit_eq_mult and_exp_eq_0_iff_not_bit)

lemma bound_flag [simp]:
  "is_map_bound (set_map_bound m)" "\<not> is_map_bound (clr_map_bound m)"
  "is_event_private (set_map_bound m) = is_event_private m" "is_event_private (clr_map_bound m) = is_event_private m"
  "is_map_dynamic (set_map_bound m) = is_map_dynamic m" "is_map_dynamic (clr_map_bound m) = is_map_dynamic m"
  "ev_num (set_map_bound m) = ev_num m" "ev_num (clr_map_bound m) = ev_num m"
  "map_intr (set_map_bound m) = map_intr m" "map_intr (clr_map_bound m) = map_intr m"
  "reg_count (set_map_bound m) = reg_count m" "reg_count (clr_map_bound m) = reg_count m"
  unfolding is_map_bound_def is_event_private_def is_map_dynamic_def flag_bit
  by (simp_all add: set_map_bound_def clr_map_bound_def bit_simps SDEI_MAPF_BOUND_SHIFT_def
      SDEI_MAPF_PRIVATE_SHIFT_def SDEI_MAPF_DYNAMIC_SHIFT_def)

lemma intr_upd [simp]:
  "is_map_bound (m\<lparr>map_intr := i\<rparr>) = is_map_bound m" "is_event_private (m\<lparr>map_intr := i\<rparr>) = is_event_private m"
  "is_map_dynamic (m\<lparr>map_intr := i\<rparr>) = is_map_dynamic m"
  by (simp_all add: is_map_bound_def is_event_private_def is_map_dynamic_def)

lemma sdei_release_eq:
  assumes ev: "event_at me num s mp m r se" and ok: "intr_ok m" and me: "me < length (icc_pmr s)" and free: "mp \<notin> set (map_locks s)"
  shows "sdei_interrupt_release me num s = Some (
     if \<not> is_map_dynamic m then (SDEI_EINVAL, s)
     else if reg_count m \<noteq> 0 \<or> se_state se \<noteq> 0 then (SDEI_EDENY, s)
     else if \<not> is_map_bound m then (SDEI_EINVAL, s)
     else if irq_active s (irq_bank me (map_intr m)) (map_intr m) then (SDEI_EDENY, s)
     else (0, put_map mp (clr_map_bound (m\<lparr>map_intr := SDEI_DYN_IRQ\<rparr>)) s))"
proof -
  let ?l = "s\<lparr>map_locks := mp # map_locks s\<rparr>"
  have lk: "find_event_map num s = Some mp" "get_map mp s = Some m" "get_event_entry me mp s = Some r"
    "get_entry r s = Some se" and gl: "get_entry r ?l = Some se"
    using ev by (simp_all add: event_at_def)
  have lock: "sdei_map_lock mp s = Some ?l" using free by (simp add: sdei_map_lock_def)
  have same: "se\<lparr>se_state := se_state se\<rparr> = se" by simp
  have tr: "can_sdei_state_trans r DO_RELEASE ?l = Some (se_state se = 0, ?l)"
    using can_trans_eq[OF gl, of DO_RELEASE] lk same by (simp add: sdei_next_cases)
  have act: "plat_ic_get_interrupt_active me (map_intr m) ?l = Some (irq_active s (irq_bank me (map_intr m)) (map_intr m))"
    if "is_map_bound m"
    using me intr_ok_bounds[OF ok that] by (simp add: plat_ic_get_interrupt_active_def gicv3_get_interrupt_active_def)
  have un: "sdei_map_unlock mp ?l = s" by simp
  show ?thesis
    using lk lock tr act by (simp add: sdei_interrupt_release_def Let_def)
qed

lemma inv_release:
  assumes inv: "sdei_inv n s" and me: "me < n"
  shows "\<exists>ret s'. sdei_interrupt_release me num s = Some (ret, s') \<and> sdei_inv n s' \<and> same_size s s'"
proof (cases "find_event_map num s")
  case None
  then show ?thesis using inv by (simp add: sdei_interrupt_release_def)
next
  case (Some mp)
  let ?r = "eref (length (private_maps s)) me mp"
  obtain m se where ev: "event_at me num s mp m ?r se" and ok: "map_ok n s mp m"
    using inv_event[OF inv me Some] by blast
  then have m: "get_map mp s = Some m" by (simp add: event_at_def)
  have "sdei_inv n (put_map mp (clr_map_bound (m\<lparr>map_intr := SDEI_DYN_IRQ\<rparr>)) s)" if "is_map_dynamic m" "reg_count m = 0"
    by (rule inv_rebound[OF inv m that]) (use that in \<open>simp_all add: intr_ok_def\<close>)
  then show ?thesis
    using sdei_release_eq[OF ev] ok me inv inv_simps[OF inv] by (auto simp: map_ok_def)
qed

lemma find_by_intr_Some:
  assumes "find_event_map_by_intr irq sh s = Some mp"
  shows "\<exists>m. get_map mp s = Some m \<and> map_intr m = irq \<and> (sh \<longleftrightarrow> (case mp of Private_map _ \<Rightarrow> False | Shared_map _ \<Rightarrow> True))"
  using assms by (auto simp: find_event_map_by_intr_def split: if_split_asm dest!: find_index_Some)

lemma find_by_intr_None:
  assumes "find_event_map_by_intr irq sh s = None" "get_map mp s = Some m"
    "sh \<longleftrightarrow> (case mp of Private_map _ \<Rightarrow> False | Shared_map _ \<Rightarrow> True)"
  shows "map_intr m \<noteq> irq"
  using assms by (cases mp) (auto simp: find_event_map_by_intr_def find_index_None split: if_split_asm)

text \<open>Free slots are dynamic; a platform that lists an explicit event before its dynamic ones
  does not have this.\<close>

definition dyn_slots :: "sdei_state \<Rightarrow> bool" where
  "dyn_slots s \<longleftrightarrow> (\<forall>m \<in> set (private_maps s) \<union> set (shared_maps s). map_intr m = SDEI_DYN_IRQ \<longrightarrow> is_map_dynamic m)"

lemma dyn_slots_map:
  "dyn_slots s \<Longrightarrow> get_map mp s = Some m \<Longrightarrow> map_intr m = SDEI_DYN_IRQ \<Longrightarrow> is_map_dynamic m"
  by (cases mp) (auto simp: dyn_slots_def)

lemma irq_zero: "\<not> plat_ic_is_spi SDEI_DYN_IRQ" "\<not> plat_ic_is_ppi SDEI_DYN_IRQ" "plat_ic_is_sgi SDEI_DYN_IRQ"
  by (simp_all add: plat_ic_is_spi_def plat_ic_is_ppi_def plat_ic_is_sgi_def SDEI_DYN_IRQ_def MIN_SPI_ID_def
      MIN_PPI_ID_def MIN_SGI_ID_def)

lemma unbound_iff:
  assumes "sdei_inv n s" "dyn_slots s" "get_map mp s = Some m"
  shows "map_intr m = SDEI_DYN_IRQ \<longleftrightarrow> is_map_dynamic m \<and> \<not> is_map_bound m"
  using inv_simps(4)[OF assms(1,3)] dyn_slots_map[OF assms(2,3)] irq_zero
  by (auto simp: map_ok_def intr_ok_def split: if_split_asm)

lemma kinds_complete:
  assumes "irq < PENDING_G1S_INTID" "\<not> plat_ic_is_sgi irq" "\<not> plat_ic_is_spi irq"
  shows "plat_ic_is_ppi irq"
  using assms by (auto simp: plat_ic_is_sgi_def plat_ic_is_spi_def plat_ic_is_ppi_def PENDING_G1S_INTID_def MAX_SPI_ID_def
      MIN_SGI_ID_def MIN_SPI_ID_def MIN_PPI_ID_def word_le_nat_alt word_less_nat_alt)

text \<open>The answer of the lookup of an interrupt: the event, a refusal, or that it has none.\<close>

definition bound_event :: "u32 \<Rightarrow> sdei_state \<Rightarrow> int option" where
  "bound_event irq s = (case find_event_map_by_intr irq (plat_ic_is_spi irq) s of None \<Rightarrow> None
     | Some mp \<Rightarrow> (case get_map mp s of None \<Rightarrow> None
       | Some m \<Rightarrow> Some (if is_map_dynamic m then ev_num m else SDEI_EINVAL)))"

definition ns_irq :: "nat \<Rightarrow> u32 \<Rightarrow> sdei_state \<Rightarrow> bool" where
  "ns_irq me irq s = irq_group s (irq_bank me irq) irq"

lemma lookup_bound:
  assumes inv: "sdei_inv n s" and irq: "\<not> plat_ic_is_sgi irq"
    and f: "find_event_map_by_intr irq (plat_ic_is_spi irq) s = Some mp" and m: "get_map mp s = Some m"
  shows "is_map_dynamic m \<Longrightarrow> is_map_bound m"
  using inv_simps(4)[OF inv m] find_by_intr_Some[OF f] m irq irq_zero by (auto simp: map_ok_def)

lemma type_is_ns:
  assumes "irq < PENDING_G1S_INTID" "me < length (icc_pmr s)"
  shows "\<exists>t. plat_ic_get_interrupt_type me irq s = Some t \<and> (t = INTR_TYPE_NS \<longleftrightarrow> ns_irq me irq s)"
proof -
  have "\<not> irq \<ge> MIN_LPI_ID" using assms(1) by (auto simp: PENDING_G1S_INTID_def MIN_LPI_ID_def word_le_nat_alt word_less_nat_alt)
  then show ?thesis
    using assms by (auto simp: plat_ic_get_interrupt_type_def gicv3_get_interrupt_type_def ns_irq_def Let_def
        INTR_TYPE_NS_def INTR_TYPE_EL3_def INTR_TYPE_S_EL1_def)
qed

lemma bind_attempt_eq:
  assumes inv: "sdei_inv n s" "sdei_inv n (f s)" "map_locks (g (f s)) = []" and dyn: "dyn_slots (f s)" and me: "me < n"
    and irq: "\<not> plat_ic_is_sgi irq" "irq < PENDING_G1S_INTID"
    and dom: "\<And>mp m. get_map mp (f s) = Some m \<Longrightarrow> \<exists>m'. get_map mp (g (f s)) = Some m'"
  shows "bind_attempt me irq (f, g) s = (case bound_event irq s of Some r \<Rightarrow> Some (Some r, s)
     | None \<Rightarrow> (case find_event_map_by_intr SDEI_DYN_IRQ (plat_ic_is_spi irq) (f s) of None \<Rightarrow> Some (Some SDEI_ENOMEM, f s)
       | Some mp \<Rightarrow> if \<not> ns_irq me irq (f s) then Some (Some SDEI_EDENY, f s)
           else (let m = the (get_map mp (g (f s))) in
             if \<not> is_map_bound m then Some (Some (ev_num m), put_map mp (set_map_bound (m\<lparr>map_intr := irq\<rparr>)) (g (f s)))
             else Some (None, g (f s)))))"
proof (cases "find_event_map_by_intr irq (plat_ic_is_spi irq) s")
  case (Some mp)
  then obtain m where m: "get_map mp s = Some m" using find_by_intr_Some by blast
  then show ?thesis
    using Some lookup_bound[OF inv(1) irq(1) Some m] by (simp add: bind_attempt_def bound_event_def)
next
  case none: None
  let ?t = "g (f s)"
  obtain t where t: "plat_ic_get_interrupt_type me irq (f s) = Some t" "t = INTR_TYPE_NS \<longleftrightarrow> ns_irq me irq (f s)"
    using type_is_ns[OF irq(2)] inv_simps(3)[OF inv(2)] me by blast
  show ?thesis
  proof (cases "find_event_map_by_intr SDEI_DYN_IRQ (plat_ic_is_spi irq) (f s)")
    case None
    then show ?thesis using none by (simp add: bind_attempt_def bound_event_def Let_def)
  next
    case (Some mp)
    then obtain m where m: "get_map mp (f s) = Some m" "is_map_dynamic m"
      using find_by_intr_Some[OF Some] dyn_slots_map[OF dyn] by blast
    obtain m' where m': "get_map mp ?t = Some m'" using dom[OF m(1)] by blast
    have lock: "sdei_map_lock mp ?t = Some (?t\<lparr>map_locks := [mp]\<rparr>)" using inv(3) by (simp add: sdei_map_lock_def)
    have un: "sdei_map_unlock mp (?t\<lparr>map_locks := [mp]\<rparr>) = ?t"
      "sdei_map_unlock mp (put_map mp x (?t\<lparr>map_locks := [mp]\<rparr>)) = put_map mp x ?t" for x
      using inv(3) by (cases mp; cases ?t; simp add: sdei_map_unlock_def)+
    show ?thesis
      using none Some m m' lock un t by (simp add: bind_attempt_def bound_event_def Let_def del: unlock_locked)
  qed
qed

text \<open>A call that no other CPU disturbs.\<close>

definition interrupt_bound :: "nat \<Rightarrow> u32 \<Rightarrow> sdei_state \<Rightarrow> int \<times> sdei_state" where
  "interrupt_bound me irq s = (case bound_event irq s of Some r \<Rightarrow> (r, s)
     | None \<Rightarrow> (case find_event_map_by_intr SDEI_DYN_IRQ (plat_ic_is_spi irq) s of None \<Rightarrow> (SDEI_ENOMEM, s)
       | Some mp \<Rightarrow> if \<not> ns_irq me irq s then (SDEI_EDENY, s)
           else (let m = the (get_map mp s) in (ev_num m, put_map mp (set_map_bound (m\<lparr>map_intr := irq\<rparr>)) s))))"

lemma bind_eq:
  assumes inv: "sdei_inv n s" and dyn: "dyn_slots s" and me: "me < n" and irq: "irq < PENDING_G1S_INTID"
  shows "sdei_interrupt_bind me irq [] s = Some (if plat_ic_is_sgi irq then (SDEI_EINVAL, s) else interrupt_bound me irq s)"
proof (cases "plat_ic_is_sgi irq")
  case False
  have nb: "\<not> is_map_bound (the (get_map mp s))" if "find_event_map_by_intr SDEI_DYN_IRQ (plat_ic_is_spi irq) s = Some mp" for mp
    using find_by_intr_Some[OF that] unbound_iff[OF inv dyn] by auto
  show ?thesis
    using bind_attempt_eq[of n s "\<lambda>s. s" "\<lambda>s. s", OF inv _ _ _ me False irq] inv dyn inv_simps(2)[OF inv] nb False
    by (auto simp: sdei_interrupt_bind_def interrupt_bound_def Let_def split: option.split)
qed (simp add: sdei_interrupt_bind_def)

lemma inv_interrupt_bound:
  assumes inv: "sdei_inv n s" and dyn: "dyn_slots s" and irq: "irq < PENDING_G1S_INTID" "\<not> plat_ic_is_sgi irq"
  shows "sdei_inv n (snd (interrupt_bound me irq s))"
proof -
  let ?sh = "plat_ic_is_spi irq"
  have new: "sdei_inv n (put_map mp (set_map_bound (m\<lparr>map_intr := irq\<rparr>)) s)"
    if none: "bound_event irq s = None" and f: "find_event_map_by_intr SDEI_DYN_IRQ ?sh s = Some mp" and m: "get_map mp s = Some m" for mp m
  proof -
    have kind: "?sh \<longleftrightarrow> (case mp of Private_map _ \<Rightarrow> False | Shared_map _ \<Rightarrow> True)" and un: "is_map_dynamic m" "\<not> is_map_bound m"
      using find_by_intr_Some[OF f] m unbound_iff[OF inv dyn m] by auto
    have ok: "map_ok n s mp m" by (rule inv_simps(4)[OF inv m])
    have no: "find_event_map_by_intr irq ?sh s = None"
      using none find_by_intr_Some by (fastforce simp: bound_event_def split: option.split_asm)
    have pr: "is_event_private m \<longleftrightarrow> \<not> ?sh" using shape_kind[OF inv_simps(1)[OF inv] m] kind by (cases mp) simp_all
    show ?thesis
    proof (rule inv_rebound[OF inv m un(1)])
      show "intr_ok (set_map_bound (m\<lparr>map_intr := irq\<rparr>))"
        using ok un pr kinds_complete[OF irq] by (simp add: intr_ok_def map_ok_def)
      fix mp2 m2
      assume m2: "get_map mp2 s = Some m2" "is_map_bound m2" "map_intr m2 = map_intr (set_map_bound (m\<lparr>map_intr := irq\<rparr>))"
      have "intr_ok m2" using inv_simps(4)[OF inv m2(1)] by (simp add: map_ok_def)
      then have "?sh \<longleftrightarrow> (case mp2 of Private_map _ \<Rightarrow> False | Shared_map _ \<Rightarrow> True)"
        using m2 shape_kind[OF inv_simps(1)[OF inv] m2(1)]
        by (cases mp2) (auto simp: intr_ok_def plat_ic_is_ppi_def plat_ic_is_spi_def)
      from find_by_intr_None[OF no m2(1) this] show "mp2 = mp" using m2(3) by simp
    qed (use ok un in \<open>auto simp: map_ok_def\<close>)
  qed
  show ?thesis
  proof (cases "bound_event irq s")
    case None
    show ?thesis
    proof (cases "find_event_map_by_intr SDEI_DYN_IRQ ?sh s")
      case (Some mp)
      then show ?thesis using None new[OF None Some] inv find_by_intr_Some[OF Some]
        by (auto simp: interrupt_bound_def Let_def)
    qed (use None inv in \<open>simp add: interrupt_bound_def\<close>)
  qed (use inv in \<open>simp add: interrupt_bound_def\<close>)
qed

lemma inv_bind:
  assumes inv: "sdei_inv n s" and dyn: "dyn_slots s" and me: "me < n" and irq: "irq < PENDING_G1S_INTID"
  shows "\<exists>ret s'. sdei_interrupt_bind me irq [] s = Some (ret, s') \<and> sdei_inv n s'"
  using bind_eq[OF assms] inv inv_interrupt_bound[OF inv dyn irq, of me] by (cases "interrupt_bound me irq s") auto

subsection \<open>Reset\<close>

definition has_maps :: "map_ref list \<Rightarrow> sdei_state \<Rightarrow> bool" where
  "has_maps mps s \<longleftrightarrow> (\<forall>mp \<in> set mps. get_map mp s \<noteq> None)"

lemma has_maps_size: "has_maps mps s \<Longrightarrow> same_size s s' \<Longrightarrow> has_maps mps s'"
  unfolding has_maps_def same_size_def
proof
  fix mp assume a: "\<forall>mp \<in> set mps. get_map mp s \<noteq> None" "mp \<in> set mps"
    "length (private_maps s') = length (private_maps s) \<and> length (shared_maps s') = length (shared_maps s)"
  then have "get_map mp s \<noteq> None" by blast
  then show "get_map mp s' \<noteq> None" using a(3) by (cases mp) (auto simp: aread_def split: if_split_asm)
qed

lemma inv_reset_maps:
  assumes "sdei_inv n s" "me < n" "has_maps mps s"
  shows "\<exists>ret s'. reset_maps me mps fr s = Some (ret, s') \<and> sdei_inv n s' \<and> same_size s s'"
  using assms
proof (induction mps arbitrary: fr s)
  case (Cons mp mps)
  obtain m where m: "get_map mp s = Some m" using Cons.prems(3) by (auto simp: has_maps_def)
  obtain ret s1 where s1: "sdei_event_unregister me (ev_num m) s = Some (ret, s1)" "sdei_inv n s1" "same_size s s1"
    using inv_unregister[OF Cons.prems(1,2)] by blast
  have "has_maps mps s1" using has_maps_size[OF _ s1(3), of mps] Cons.prems(3) by (simp add: has_maps_def)
  from Cons.IH[OF s1(2) Cons.prems(2) this, of "if ret = SDEI_EPEND \<and> fr = 0 then SDEI_EDENY else fr"]
  show ?case using m s1 by (auto simp: same_size_def)
qed simp

lemma inv_release_maps:
  assumes "sdei_inv n s" "me < n" "has_maps mps s"
  shows "\<exists>ret s'. release_maps me mps fr s = Some (ret, s') \<and> sdei_inv n s'"
  using assms
proof (induction mps arbitrary: fr s)
  case (Cons mp mps)
  obtain m where m: "get_map mp s = Some m" using Cons.prems(3) by (auto simp: has_maps_def)
  obtain ret s1 where s1: "sdei_interrupt_release me (ev_num m) s = Some (ret, s1)" "sdei_inv n s1" "same_size s s1"
    using inv_release[OF Cons.prems(1,2)] by blast
  have "has_maps mps s1" "has_maps mps s" using has_maps_size[OF _ s1(3), of mps] Cons.prems(3) by (simp_all add: has_maps_def)
  with Cons.IH[OF s1(2) Cons.prems(2)] Cons.IH[OF Cons.prems(1,2)] show ?case using m s1 by simp
qed simp

lemma has_all_maps: "has_maps (map Private_map [0..<length (private_maps s)]) s" "has_maps (map Shared_map [0..<length (shared_maps s)]) s"
  by (auto simp: has_maps_def)

lemma inv_private_reset:
  assumes "sdei_inv n s" "me < n"
  shows "\<exists>ret s'. sdei_private_reset me s = Some (ret, s') \<and> sdei_inv n s'"
  using inv_reset_maps[OF assms has_all_maps(1), of 0] by (auto simp: sdei_private_reset_def)

lemma inv_shared_reset:
  assumes "sdei_inv n s" "me < n"
  shows "\<exists>ret s'. sdei_shared_reset me s = Some (ret, s') \<and> sdei_inv n s'"
proof -
  obtain ret s1 where s1: "reset_maps me (map Shared_map [0..<length (shared_maps s)]) 0 s = Some (ret, s1)" "sdei_inv n s1"
    using inv_reset_maps[OF assms has_all_maps(2), of 0] by blast
  have "has_maps (map Private_map [0..<length (private_maps s1)] @ map Shared_map [0..<length (shared_maps s1)]) s1"
    using has_all_maps[of s1] by (auto simp: has_maps_def)
  from inv_release_maps[OF s1(2) assms(2) this, of 0] show ?thesis
    using s1 by (simp add: sdei_shared_reset_def)
qed

end
