(* ===== verification/SDEI_Properties.thy ===== *)
theory SDEI_Properties
  imports SDEI_Calls
begin

section \<open>Software delegated exceptions: properties\<close>

text \<open>
  The calls keep the invariant, registering and binding are undone by their counterparts, the
  retry loop of the bind call ends, and completing an event gives the client back the context that
  the event interrupted.
\<close>

unbundle bit_operations_syntax

subsection \<open>An example\<close>

text \<open>One CPU, event 0, two private and one shared dynamic event, a static shared event on interrupt 40.\<close>

definition sdei_demo_env :: sdei_env where
  "sdei_demo_env = \<lparr>sd_priorities = ehf_demo, PLAT_SDEI_CRITICAL_PRI = 0x60, PLAT_SDEI_NORMAL_PRI = 0x70,
     sd_core_pos_by_mpidr = (\<lambda>m. if m = 0 then 0 else -1), sd_read_mpidr = (\<lambda>c. 0),
     plat_sdei_validate_entry_point = (\<lambda>ep el. 0), sd_intr_handler_addr = 0x1000\<rparr>"

definition sdei_demo :: sdei_state where
  "sdei_demo = \<lparr>icc_pmr = [0xf0], icc_active = [[]], icc_hppi = [GIC_SPURIOUS_INTERRUPT],
     irq_group = \<lambda>b irq. True, irq_grpmod = \<lambda>b irq. False, irq_enabled = \<lambda>b irq. False,
     irq_pending = \<lambda>b irq. False, irq_active = \<lambda>b irq. False, irq_priority = \<lambda>b irq. 0xff, irq_router = \<lambda>irq. 0,
     ehf_data = [\<lparr>active_pri_bits = 0, init_pri_mask = 0, ns_pri_mask = 0\<rparr>], ehf_handlers = [0, 0, 0, 0, 0, 0, 1, 1],
     ns_context = [Some \<lparr>gp_regs = replicate 31 0, ctx_elr_el3 = 0, ctx_spsr_el3 = 0, ctx_scr_el3 = 0\<rparr>],
     private_maps = [\<lparr>ev_num = 0, map_intr = 8, map_flags = 24, reg_count = 0\<rparr>,
                     \<lparr>ev_num = 100, map_intr = 0, map_flags = 18, reg_count = 0\<rparr>,
                     \<lparr>ev_num = 101, map_intr = 0, map_flags = 18, reg_count = 0\<rparr>],
     shared_maps = [\<lparr>ev_num = 1000, map_intr = 0, map_flags = 2, reg_count = 0\<rparr>,
                    \<lparr>ev_num = 1001, map_intr = 40, map_flags = 4, reg_count = 0\<rparr>],
     private_event_table = replicate 3 \<lparr>se_ep = 0, se_arg = 0, se_affinity = 0, se_reg_flags = 0, se_state = 0\<rparr>,
     shared_event_table = replicate 2 \<lparr>se_ep = 0, se_arg = 0, se_affinity = 0, se_reg_flags = 0, se_state = 0\<rparr>,
     sdei_cpus = [\<lparr>dispatch_stack = [], pe_masked = False, pending_enables = False\<rparr>],
     num_dyn_priv_slots = 2, num_dyn_shrd_slots = 1, map_locks = [], sdei_log = []\<rparr>"

lemma get_map_cases:
  assumes "get_map mp s = Some m"
  obtains i where "mp = Private_map i" "i < length (private_maps s)" "m = private_maps s ! i"
  | i where "mp = Shared_map i" "i < length (shared_maps s)" "m = shared_maps s ! i"
  using assms by (cases mp) (auto simp: aread_def split: if_split_asm)

lemma demo_maps:
  assumes "get_map mp sdei_demo = Some m"
  shows "mp = Private_map 0 \<and> m = \<lparr>ev_num = 0, map_intr = 8, map_flags = 24, reg_count = 0\<rparr> \<or>
    mp = Private_map 1 \<and> m = \<lparr>ev_num = 100, map_intr = 0, map_flags = 18, reg_count = 0\<rparr> \<or>
    mp = Private_map 2 \<and> m = \<lparr>ev_num = 101, map_intr = 0, map_flags = 18, reg_count = 0\<rparr> \<or>
    mp = Shared_map 0 \<and> m = \<lparr>ev_num = 1000, map_intr = 0, map_flags = 2, reg_count = 0\<rparr> \<or>
    mp = Shared_map 1 \<and> m = \<lparr>ev_num = 1001, map_intr = 40, map_flags = 4, reg_count = 0\<rparr>"
  using assms by (cases rule: get_map_cases) (auto simp: sdei_demo_def less_Suc_eq numeral_2_eq_2)

lemmas map_flag_defs = is_map_bound_def is_event_private_def is_event_shared_def is_map_dynamic_def
  is_event_critical_def is_event_normal_def is_event_signalable_def is_map_explicit_def sdei_defs

lemma demo_inv: "sdei_inv 1 sdei_demo"
proof -
  have slots: "reg_slots k mp sdei_demo = {}" for k mp
  proof -
    have "se_state se = 0" if "get_entry r sdei_demo = Some se" for r se
      using that by (cases r) (auto simp: sdei_demo_def aread_def less_Suc_eq numeral_2_eq_2 numeral_3_eq_3 split: if_split_asm)
    then have "\<not> st_registered (get_entry r sdei_demo)" for r
      by (auto simp: st_registered_def se_registered_def split: option.split)
    then show ?thesis by (simp add: reg_slots_def)
  qed
  have ok: "map_ok 1 sdei_demo mp m" if "get_map mp sdei_demo = Some m" for mp m
    using demo_maps[OF that]
    by (auto simp: map_ok_def slots intr_ok_def map_flag_defs plat_ic_is_spi_def MIN_SPI_ID_def MAX_SPI_ID_def)
  have once: "bound_once sdei_demo"
    unfolding bound_once_def by (auto dest!: demo_maps simp: map_flag_defs)
  have "sdei_shape 1 sdei_demo" by (simp add: sdei_shape_def sdei_demo_def map_flag_defs)
  moreover have "map_locks sdei_demo = []" "distinct (map ev_num (private_maps sdei_demo @ shared_maps sdei_demo))"
    "\<forall>se \<in> set (private_event_table sdei_demo) \<union> set (shared_event_table sdei_demo). se_state se \<in> sdei_states"
    "\<forall>ds \<in> set (map dispatch_stack (sdei_cpus sdei_demo)). disp_ok sdei_demo ds"
    by (simp_all add: sdei_demo_def sdei_states_def disp_ok_def)
  ultimately show ?thesis unfolding sdei_inv_def using ok once by blast
qed

lemma demo_dyn_slots: "dyn_slots sdei_demo"
  by (simp add: dyn_slots_def sdei_demo_def map_flag_defs)

text \<open>The bits of an interrupt that nobody has enabled or triggered: its owner, the non-secure
  world or EL3, and its priority.\<close>

definition irq_set :: "nat \<Rightarrow> u32 \<Rightarrow> bool \<Rightarrow> u32 \<Rightarrow> sdei_state \<Rightarrow> bool" where
  "irq_set me irq ns pri s \<longleftrightarrow> (let b = irq_bank me irq in \<not> irq_enabled s b irq \<and> \<not> irq_pending s b irq \<and>
     irq_group s b irq = ns \<and> \<not> irq_grpmod s b irq \<and> irq_priority s b irq = pri)"

lemma event_at_put:
  assumes ev: "event_at me num s mp m r se" and m': "ev_num m' = ev_num m" "is_event_private m' = is_event_private m"
    and s0: "get_map mp s0 = Some m" "\<And>k. find_event_map k s0 = find_event_map k s" "get_event_entry me mp s0 = Some r" "get_entry r s0 = Some se"
  shows "event_at me num (put_entry r se' (put_map mp m' s0)) mp m' r se'"
  using ev get_map_put_map[OF s0(1), of mp m'] get_entry_put_entry[of r "put_map mp m' s0" se r se'] s0
    find_event_map_put_map[OF s0(1) m'(1)] get_event_entry_put_map[OF s0(1) m'(2)]
  by (simp add: event_at_def)

lemma event_at_registered:
  assumes "event_at me num s mp m r se"
  shows "event_at me num (event_registered e me mp m r se ep arg flags mpidr s) mp (m\<lparr>reg_count := reg_count m + 1\<rparr>) r
    (set_sdei_entry ep arg (ucast (if is_event_private m then SDEI_REGF_RM_PE else flags)) mpidr (se\<lparr>se_state := 1\<rparr>))"
  unfolding event_registered_def Let_def
  by (rule event_at_put[OF assms]) (use assms in \<open>simp_all add: event_at_def intr_registered_def\<close>)

lemma demo_event:
  "event_at 0 1001 sdei_demo (Shared_map 1) \<lparr>ev_num = 1001, map_intr = 40, map_flags = 4, reg_count = 0\<rparr>
     (Shared_entry 1) \<lparr>se_ep = 0, se_arg = 0, se_affinity = 0, se_reg_flags = 0, se_state = 0\<rparr>"
  "may_register 0 \<lparr>ev_num = 1001, map_intr = 40, map_flags = 4, reg_count = 0\<rparr>
     \<lparr>se_ep = 0, se_arg = 0, se_affinity = 0, se_reg_flags = 0, se_state = 0\<rparr> sdei_demo"
  "sdei_client_el 0 sdei_demo = Some MODE_EL1"
  by (simp_all add: event_at_def sdei_demo_def find_event_map_def get_event_entry_def map_flag_defs may_register_def sdei_client_el_def)

lemma demo_registers: "\<exists>s'. sdei_event_register sdei_demo_env 0 1001 0x8000 7 SDEI_REGF_RM_ANY 0 sdei_demo = Some (0, s')"
  using event_register_eq[OF demo_inv zero_less_one demo_event(1) _ demo_event(3), of sdei_demo_env "0x8000" 7 SDEI_REGF_RM_ANY 0] demo_event(2)
  by (simp add: sdei_demo_env_def validate_flags_def sdei_defs)

subsection \<open>The calls of the client\<close>





text \<open>(C16) Unregistering undoes a registration: right after an accepted registration the call succeeds,
  the maps are those before the registration, the entry is cleared and unregistered, and a bound
  interrupt belongs to the non-secure world again, disabled and with the lowest priority.\<close>

theorem sdei_register_unregister:
  assumes inv: "sdei_inv n s" and me: "me < n" and call: "sdei_event_register e me num ep arg flags mpidr s = Some (0, s1)"
  shows "\<exists>s2 mp m r se. sdei_event_unregister me num s1 = Some (0, s2) \<and> sdei_inv n s2 \<and>
    private_maps s2 = private_maps s \<and> shared_maps s2 = shared_maps s \<and> event_at me num s mp m r se \<and>
    event_at me num s2 mp m r (clear_event_entries (se\<lparr>se_state := 0\<rparr>)) \<and>
    (is_map_bound m \<longrightarrow> irq_set me (map_intr m) True LOWEST_INTR_PRIORITY s2)"
proof -
  obtain el where el: "sdei_client_el me s = Some el" using shape_client_el[OF inv_simps(1)[OF inv] me] by blast
  obtain mp where mp: "find_event_map num s = Some mp"
    using call sdei_register_unknown[OF el] by (cases "find_event_map num s") (auto simp: SDEI_EINVAL_def)
  let ?r = "eref (length (private_maps s)) me mp"
  obtain m se where ev: "event_at me num s mp m ?r se" "ev_num m = num" using inv_event[OF inv me mp] by blast
  then have lk: "get_map mp s = Some m" "get_entry ?r s = Some se" by (simp_all add: event_at_def)
  have s1: "s1 = event_registered e me mp m ?r se ep arg flags mpidr s" and may: "may_register me m se s"
    using event_register_eq[OF inv me ev el, of e ep arg flags mpidr] call
    by (auto simp: SDEI_EINVAL_def SDEI_EDENY_def split: if_split_asm)
  let ?m1 = "m\<lparr>reg_count := reg_count m + 1\<rparr>"
  let ?se1 = "set_sdei_entry ep arg (ucast (if is_event_private m then SDEI_REGF_RM_PE else flags)) mpidr (se\<lparr>se_state := 1\<rparr>)"
  let ?s2 = "event_unregistered me mp ?m1 ?r ?se1 0 s1"
  have ev1: "event_at me num s1 mp ?m1 ?r ?se1" unfolding s1 by (rule event_at_registered[OF ev(1)])
  have inv1: "sdei_inv n s1" unfolding s1 by (rule inv_event_registered[OF inv me lk may])
  have st1: "sdei_next (se_state ?se1) DO_UNREGISTER = Some 0" by (simp add: set_sdei_entry_def sdei_next_cases)
  have call2: "sdei_event_unregister me num s1 = Some (0, ?s2)"
    using unregister_eq[OF inv1 me ev1] ev(2) st1 by simp
  have inv2: "sdei_inv n ?s2" using inv_unregister[OF inv1 me, of num] call2 by auto
  have undo: "?m1\<lparr>reg_count := reg_count ?m1 - 1\<rparr> = m" by simp
  have "put_map mp m (put_map mp ?m1 x) = put_map mp m x" for x by (cases mp) simp_all
  then have maps: "private_maps ?s2 = private_maps s \<and> shared_maps ?s2 = shared_maps s"
    using lk(1) by (cases mp) (simp_all add: event_unregistered_def s1 event_registered_def intr_registered_def Let_def)
  have "event_at me num ?s2 mp (?m1\<lparr>reg_count := reg_count ?m1 - 1\<rparr>) ?r (clear_event_entries (?se1\<lparr>se_state := 0\<rparr>))"
    unfolding event_unregistered_def by (rule event_at_put[OF ev1]) (use ev1 in \<open>simp_all add: event_at_def\<close>)
  moreover have "clear_event_entries (?se1\<lparr>se_state := 0\<rparr>) = clear_event_entries (se\<lparr>se_state := 0\<rparr>)"
    by (simp add: clear_event_entries_def set_sdei_entry_def)
  moreover have "is_map_bound m \<longrightarrow> irq_set me (map_intr m) True LOWEST_INTR_PRIORITY ?s2"
    by (simp add: event_unregistered_def irq_set_def irq_returned_def Let_def)
  ultimately show ?thesis using call2 inv2 maps ev(1) undo by metis
qed

theorem sdei_register_unregister_witness:
  "\<exists>s1 s2. sdei_event_register sdei_demo_env 0 1001 0x8000 7 SDEI_REGF_RM_ANY 0 sdei_demo = Some (0, s1) \<and>
     sdei_event_unregister 0 1001 s1 = Some (0, s2) \<and> shared_maps s2 = shared_maps sdei_demo"
proof -
  obtain s1 where s1: "sdei_event_register sdei_demo_env 0 1001 0x8000 7 SDEI_REGF_RM_ANY 0 sdei_demo = Some (0, s1)"
    using demo_registers by blast
  from sdei_register_unregister[OF demo_inv zero_less_one s1] s1 show ?thesis by blast
qed

subsection \<open>Binding\<close>








text \<open>Another CPU that binds interrupt 20 itself.\<close>

definition rival :: "sdei_state \<Rightarrow> sdei_state" where
  "rival s = snd (interrupt_bound 0 20 s)"


lemma put_bound_dyn:
  assumes "dyn_slots s" "i \<noteq> SDEI_DYN_IRQ"
  shows "dyn_slots (put_map mp (set_map_bound (m\<lparr>map_intr := i\<rparr>)) s)"
  using assms by (cases mp) (auto simp: dyn_slots_def dest!: set_update_subset_insert[THEN subsetD])



lemma clr_set_bound:
  assumes "\<not> is_map_bound m" "map_intr m = SDEI_DYN_IRQ"
  shows "clr_map_bound ((set_map_bound (m\<lparr>map_intr := i\<rparr>))\<lparr>map_intr := SDEI_DYN_IRQ\<rparr>) = m"
proof -
  have "\<not> bit (map_flags m) SDEI_MAPF_BOUND_SHIFT" using assms(1) unfolding is_map_bound_def flag_bit .
  then have "(map_flags m OR push_bit SDEI_MAPF_BOUND_SHIFT 1) AND NOT (push_bit SDEI_MAPF_BOUND_SHIFT 1) = map_flags m"
    by (intro bit_word_eqI) (auto simp: bit_or_iff bit_and_iff bit_not_iff bit_exp_iff)
  then show ?thesis using assms(2) by (cases m) (simp add: clr_map_bound_def set_map_bound_def)
qed

text \<open>(C18) Binding and releasing an interrupt undo each other: a first bind of a non-secure interrupt
  gives the first free slot of its kind, a second one gives the same event and changes nothing, and
  releasing that event while the interrupt is not active gives back the state before.\<close>

theorem bind_release:
  assumes inv: "sdei_inv n s" and dyn: "dyn_slots s" and me: "me < n" and irq: "\<not> plat_ic_is_sgi irq" "irq < 1020"
    and new: "bound_event irq s = None" and slot: "find_event_map_by_intr SDEI_DYN_IRQ (plat_ic_is_spi irq) s = Some mp"
    and ns: "ns_irq me irq s" and idle: "\<not> irq_active s (irq_bank me irq) irq"
    and unreg: "event_at me num s mp m r se" "se_state se = 0"
  shows "\<exists>s1. sdei_interrupt_bind me irq [] s = Some (num, s1) \<and> sdei_interrupt_bind me irq [] s1 = Some (num, s1) \<and>
    sdei_interrupt_release me num s1 = Some (0, s)"
proof -
  have irq': "irq < PENDING_G1S_INTID" using irq(2) by (simp add: PENDING_G1S_INTID_def)
  have m: "get_map mp s = Some m" "map_intr m = SDEI_DYN_IRQ" "is_map_dynamic m" "\<not> is_map_bound m" "ev_num m = num"
  proof -
    show m: "get_map mp s = Some m" using unreg(1) by (simp add: event_at_def)
    then show "map_intr m = SDEI_DYN_IRQ" using find_by_intr_Some[OF slot] by simp
    then show "is_map_dynamic m" "\<not> is_map_bound m" using unbound_iff[OF inv dyn m] by simp_all
    show "ev_num m = num" using find_event_map_Some[of num s mp] unreg(1) m by (simp add: event_at_def)
  qed
  let ?m1 = "set_map_bound (m\<lparr>map_intr := irq\<rparr>)" and ?s1 = "put_map mp (set_map_bound (m\<lparr>map_intr := irq\<rparr>)) s"
  have first: "interrupt_bound me irq s = (num, ?s1)"
    using new slot ns m by (simp add: interrupt_bound_def)
  have inv1: "sdei_inv n ?s1" using inv_interrupt_bound[OF inv dyn irq' irq(1), of me] first by simp
  have dyn1: "dyn_slots ?s1" using put_bound_dyn[OF dyn, of irq mp m] irq(1) irq_zero(3) by blast
  have ev1: "event_at me num ?s1 mp ?m1 r se"
    using event_at_put[OF unreg(1), of ?m1 s se] unreg(1) by (simp add: event_at_def)
  note g1 = get_map_put_map[OF m(1), of _ ?m1]
  have kind: "plat_ic_is_spi irq \<longleftrightarrow> (case mp of Private_map _ \<Rightarrow> False | Shared_map _ \<Rightarrow> True)"
    using find_by_intr_Some[OF slot] by blast
  have none: "find_event_map_by_intr irq (plat_ic_is_spi irq) s = None"
  proof (cases "find_event_map_by_intr irq (plat_ic_is_spi irq) s")
    case (Some mp3)
    with new find_by_intr_Some[OF Some] show ?thesis by (auto simp: bound_event_def)
  qed
  obtain mp2 where mp2: "find_event_map_by_intr irq (plat_ic_is_spi irq) ?s1 = Some mp2"
  proof (cases "find_event_map_by_intr irq (plat_ic_is_spi irq) ?s1")
    case None
    have "get_map mp ?s1 = Some ?m1" using g1[of mp] by simp
    from find_by_intr_None[OF None this kind] show ?thesis by simp
  qed (rule that)
  then obtain m2 where m2: "get_map mp2 ?s1 = Some m2" "map_intr m2 = irq"
    "plat_ic_is_spi irq \<longleftrightarrow> (case mp2 of Private_map _ \<Rightarrow> False | Shared_map _ \<Rightarrow> True)"
    using find_by_intr_Some by blast
  have "mp2 = mp" using find_by_intr_None[OF none _ m2(3)] m2(1,2) g1[of mp2] by (auto split: if_split_asm)
  then have "bound_event irq ?s1 = Some num" using mp2 g1[of mp] m by (simp add: bound_event_def)
  then have second: "interrupt_bound me irq ?s1 = (num, ?s1)" by (simp add: interrupt_bound_def)
  have undo: "clr_map_bound (?m1\<lparr>map_intr := SDEI_DYN_IRQ\<rparr>) = m" by (rule clr_set_bound[OF m(4,2)])
  have "put_map mp m ?s1 = s" using m(1) by (cases mp; cases s) (auto simp: list_update_same_conv)
  then have "sdei_interrupt_release me num ?s1 = Some (0, s)"
  proof -
    have ok: "map_ok n ?s1 mp ?m1" using inv_simps(4)[OF inv1] ev1 by (simp add: event_at_def)
    have cnt: "reg_count m = 0" using inv_simps(4)[OF inv m(1)] m by (auto simp: map_ok_def)
    have ic: "me < length (icc_pmr ?s1)" "mp \<notin> set (map_locks ?s1)" "intr_ok ?m1"
      using inv_simps(2,3)[OF inv1] me ok by (simp_all add: map_ok_def)
    show ?thesis
      using sdei_release_eq[OF ev1 ic(3,1,2)] m cnt idle unreg(2) undo \<open>put_map mp m ?s1 = s\<close> by simp
  qed
  then show ?thesis using bind_eq[OF inv dyn me irq'] bind_eq[OF inv1 dyn1 me irq'] first second irq(1) by simp
qed

theorem bind_release_witness:
  "\<exists>s1. sdei_interrupt_bind 0 20 [] sdei_demo = Some (100, s1) \<and> sdei_interrupt_bind 0 20 [] s1 = Some (100, s1) \<and>
    sdei_interrupt_release 0 100 s1 = Some (0, sdei_demo)"
proof (rule bind_release[OF demo_inv demo_dyn_slots])
  show "event_at 0 100 sdei_demo (Private_map 1) \<lparr>ev_num = 100, map_intr = 0, map_flags = 18, reg_count = 0\<rparr> (Private_entry 1)
      \<lparr>se_ep = 0, se_arg = 0, se_affinity = 0, se_reg_flags = 0, se_state = 0\<rparr>"
    by (simp add: event_at_def sdei_demo_def find_event_map_def get_event_entry_def map_flag_defs)
qed (simp_all add: plat_ic_is_sgi_def plat_ic_is_spi_def MIN_PPI_ID_def MIN_SPI_ID_def bound_event_def find_event_map_by_intr_def
    sdei_demo_def SDEI_DYN_IRQ_def ns_irq_def)

text \<open>(C36) The lookup of the interrupt and the lookup of a free slot are not atomic. When another CPU
  binds the same interrupt between the two, and another slot is free, the call binds the interrupt
  a second time: two events then have the same interrupt, which the invariant forbids.\<close>

theorem bind_race_binds_twice:
  assumes inv: "sdei_inv n s" and dyn: "dyn_slots s" and me: "me < n" "me2 < n" and irq: "\<not> plat_ic_is_sgi irq" "irq < 1020"
    and new: "bound_event irq s = None" and ns: "ns_irq me irq s"
    and other: "sdei_interrupt_bind me2 irq [] s = Some (num1, s1)" "0 \<le> num1"
    and free: "find_event_map_by_intr SDEI_DYN_IRQ (plat_ic_is_spi irq) s1 = Some mp2"
  shows "\<exists>num2 s2. sdei_interrupt_bind me irq [(\<lambda>s. s1, \<lambda>s. s)] s = Some (num2, s2) \<and> \<not> bound_once s2 \<and>
    (\<exists>mp1 m1 m2. mp1 \<noteq> mp2 \<and> get_map mp1 s2 = Some m1 \<and> get_map mp2 s2 = Some m2 \<and> ev_num m1 = num1 \<and> ev_num m2 = num2 \<and>
       is_map_bound m1 \<and> is_map_bound m2 \<and> map_intr m1 = irq \<and> map_intr m2 = irq)"
proof -
  have irq': "irq < PENDING_G1S_INTID" using irq(2) by (simp add: PENDING_G1S_INTID_def)
  have b1: "interrupt_bound me2 irq s = (num1, s1)" using bind_eq[OF inv dyn me(2) irq'] other irq(1) by simp
  obtain mp1 m1 where m1: "get_map mp1 s = Some m1" "num1 = ev_num m1" "s1 = put_map mp1 (set_map_bound (m1\<lparr>map_intr := irq\<rparr>)) s"
  proof (cases "find_event_map_by_intr SDEI_DYN_IRQ (plat_ic_is_spi irq) s")
    case None
    then show ?thesis using b1 new other(2) by (auto simp: interrupt_bound_def SDEI_ENOMEM_def)
  next
    case (Some mp1)
    obtain m1 where "get_map mp1 s = Some m1" using find_by_intr_Some[OF Some] by blast
    then show ?thesis using b1 new other(2) Some that[of mp1 m1]
      by (auto simp: interrupt_bound_def SDEI_EDENY_def Let_def split: if_split_asm)
  qed
  have inv1: "sdei_inv n s1" using inv_interrupt_bound[OF inv dyn irq' irq(1), of me2] b1 by simp
  have dyn1: "dyn_slots s1" using put_bound_dyn[OF dyn, of irq mp1 m1] irq(1) irq_zero(3) m1(3) by blast
  note g1 = get_map_put_map[OF m1(1), of _ "set_map_bound (m1\<lparr>map_intr := irq\<rparr>)", folded m1(3)]
  obtain m2 where m2: "get_map mp2 s1 = Some m2" "map_intr m2 = SDEI_DYN_IRQ" using find_by_intr_Some[OF free] by blast
  have un: "\<not> is_map_bound m2" using unbound_iff[OF inv1 dyn1 m2(1)] m2(2) by simp
  have ne: "mp1 \<noteq> mp2" using g1[of mp2] m2(1) un by auto
  let ?s2 = "put_map mp2 (set_map_bound (m2\<lparr>map_intr := irq\<rparr>)) s1"
  have "ns_irq me irq s1" using ns m1(3) by (simp add: ns_irq_def)
  then have call: "bind_attempt me irq (\<lambda>s. s1, \<lambda>s. s) s = Some (Some (ev_num m2), ?s2)"
    using bind_attempt_eq[of n s "\<lambda>s. s1" "\<lambda>s. s" me irq, OF inv inv1 inv_simps(2)[OF inv1] dyn1 me(1) irq(1) irq'] new free m2 un
    by simp
  have g2: "get_map mp1 ?s2 = Some (set_map_bound (m1\<lparr>map_intr := irq\<rparr>))" "get_map mp2 ?s2 = Some (set_map_bound (m2\<lparr>map_intr := irq\<rparr>))"
    using get_map_put_map[OF m2(1)] ne g1[of mp1] by simp_all
  moreover have "\<not> bound_once ?s2" unfolding bound_once_def using g2 ne by fastforce
  ultimately show ?thesis using call irq(1) ne m1(2) by (fastforce simp: sdei_interrupt_bind_def)
qed

theorem bind_race_binds_twice_witness:
  "\<exists>num2 s2. sdei_interrupt_bind 0 20 [(\<lambda>s. rival sdei_demo, \<lambda>s. s)] sdei_demo = Some (num2, s2) \<and> \<not> bound_once s2"
proof -
  have irq: "\<not> plat_ic_is_sgi 20" "(20 :: u32) < PENDING_G1S_INTID" "\<not> plat_ic_is_spi 20"
    by (simp_all add: plat_ic_is_sgi_def plat_ic_is_spi_def MIN_PPI_ID_def MIN_SPI_ID_def PENDING_G1S_INTID_def)
  have ib: "interrupt_bound 0 20 sdei_demo = (100, rival sdei_demo)" "bound_event 20 sdei_demo = None"
    using irq by (simp_all add: rival_def interrupt_bound_def bound_event_def find_event_map_by_intr_def sdei_demo_def SDEI_DYN_IRQ_def ns_irq_def)
  have "find_event_map_by_intr SDEI_DYN_IRQ (plat_ic_is_spi 20) (rival sdei_demo) = Some (Private_map 2)"
    using irq by (simp add: rival_def interrupt_bound_def bound_event_def find_event_map_by_intr_def sdei_demo_def
        SDEI_DYN_IRQ_def ns_irq_def Let_def set_map_bound_def)
  from bind_race_binds_twice[OF demo_inv demo_dyn_slots zero_less_one zero_less_one irq(1) _ ib(2) _ _ _ this]
  show ?thesis using ib irq bind_eq[OF demo_inv demo_dyn_slots zero_less_one irq(2)]
    by (auto simp: ns_irq_def sdei_demo_def)
qed

end
