(* ===== verification/SDEI_Dispatch.thy ===== *)
theory SDEI_Dispatch
  imports SDEI_Properties
begin

section \<open>Software delegated exceptions: dispatch and completion\<close>

text \<open>
  An event that interrupts the non-secure client is dispatched to its handler, and completing it
  gives back the interrupted context. The client runs in between and may leave anything in its
  registers.
\<close>

unbundle bit_operations_syntax

subsection \<open>Setting up a dispatch\<close>

text \<open>The context that is saved, and the one in which the handler of the client starts.\<close>

definition saved_ctx :: "map_ref \<Rightarrow> dispatch_jmp \<Rightarrow> cpu_context \<Rightarrow> sdei_dispatch_context" where
  "saved_ctx mp jmp ctx = \<lparr>disp_map = mp, disp_x = take SDEI_SAVED_GPREGS (gp_regs ctx), dispatch_jmp = jmp,
     disp_elr_el3 = ctx_elr_el3 ctx, disp_spsr_el3 = ctx_spsr_el3 ctx\<rparr>"

definition handler_ctx :: "sdei_ev_map \<Rightarrow> sdei_entry \<Rightarrow> u32 \<Rightarrow> cpu_context \<Rightarrow> cpu_context" where
  "handler_ctx m se el ctx = ctx\<lparr>
     gp_regs := (gp_regs ctx)[0 := word_of_int (ev_num m), 1 := se_arg se, 2 := ctx_elr_el3 ctx, 3 := ctx_spsr_el3 ctx],
     ctx_elr_el3 := se_ep se, ctx_spsr_el3 := ucast (SPSR_64 el MODE_SP_ELX DISABLE_ALL_EXCEPTIONS)\<rparr>"

definition pushed :: "nat \<Rightarrow> sdei_dispatch_context \<Rightarrow> sdei_state \<Rightarrow> sdei_cpu_state list" where
  "pushed me d s = (sdei_cpus s)[me := (sdei_cpus s ! me)\<lparr>dispatch_stack := d # dispatch_stack (sdei_cpus s ! me)\<rparr>]"

lemma setup_eq:
  assumes "ns_ctx_of me s = Some ctx" "me < length (sdei_cpus s)" "length (dispatch_stack (sdei_cpus s ! me)) < MAX_EVENT_NESTING"
    "get_map mp s = Some m" "get_entry r s = Some se" "sdei_client_el me s = Some el"
  shows "setup_ns_dispatch me mp r jmp s = Some (s\<lparr>sdei_cpus := pushed me (saved_ctx mp jmp ctx) s,
     ns_context := (ns_context s)[me := Some (handler_ctx m se el ctx)]\<rparr>)"
proof -
  let ?s = "s\<lparr>sdei_cpus := pushed me (saved_ctx mp jmp ctx) s\<rparr>"
  have "push_dispatch me (saved_ctx mp jmp ctx) s = Some ?s"
    using assms(2,3) by (simp add: push_dispatch_def pushed_def)
  moreover have "ns_ctx_of me ?s = ns_ctx_of me s" "sdei_client_el me ?s = sdei_client_el me s"
    by (simp_all add: ns_ctx_of_def sdei_client_el_def)
  ultimately show ?thesis
    using assms by (simp add: setup_ns_dispatch_def save_event_ctx_def saved_ctx_def handler_ctx_def
        set_handler_args_def set_ns_elr_spsr_def Let_def)
qed

subsection \<open>The interrupt handler\<close>

text \<open>The event of an interrupt can be dispatched: enabled and not running, on a CPU that is not
  masked and meant for it, with nothing running, or a normal event if this one is critical.\<close>

definition dispatchable ::
  "sdei_env \<Rightarrow> nat \<Rightarrow> u32 \<Rightarrow> map_ref \<Rightarrow> sdei_ev_map \<Rightarrow> entry_ref \<Rightarrow> sdei_entry \<Rightarrow> sdei_state \<Rightarrow> bool" where
  "dispatchable e me intr mp m r se s \<longleftrightarrow>
     find_event_map_by_intr intr (plat_ic_is_spi intr) s = Some mp \<and> get_map mp s = Some m \<and>
     get_event_entry me mp s = Some r \<and> get_entry r s = Some se \<and> (ev_num m = SDEI_EVENT_0 \<or> is_map_bound m) \<and>
     \<not> pe_masked (sdei_cpus s ! me) \<and> se_state se = 3 \<and>
     (is_event_shared m \<and> ucast (se_reg_flags se) = SDEI_REGF_RM_PE \<longrightarrow>
        se_affinity se = sd_read_mpidr e me AND MPIDR_AFFINITY_MASK) \<and>
     (case dispatch_stack (sdei_cpus s ! me) of [] \<Rightarrow> True
      | d # ds \<Rightarrow> ds = [] \<and> is_event_critical m \<and> (\<exists>dm. get_map (disp_map d) s = Some dm \<and> is_event_normal dm))"

text \<open>Interrupting the secure world switches to the non-secure context first.\<close>

definition switched :: "u32 \<Rightarrow> sdei_state \<Rightarrow> sdei_state" where
  "switched sec s = (if sec = SECURE
     then s\<lparr>sdei_log := sdei_log s @ [Ev_el1_sysregs_save SECURE, Ev_el1_sysregs_restore NON_SECURE, Ev_next_eret NON_SECURE]\<rparr> else s)"

lemma switched_frame [simp]:
  "get_map mp (switched sec s) = get_map mp s" "get_entry r (switched sec s) = get_entry r s"
  "sdei_cpus (switched sec s) = sdei_cpus s" "ns_context (switched sec s) = ns_context s"
  "ns_ctx_of me (switched sec s) = ns_ctx_of me s" "sdei_client_el me (switched sec s) = sdei_client_el me s"
  "map_locks (switched sec s) = map_locks s"
  by (simp_all add: switched_def ns_ctx_of_def sdei_client_el_def)

lemma put_entry_more [simp]:
  "(put_entry r se s)\<lparr>map_locks := map_locks s\<rparr> = put_entry r se s"
  "ns_ctx_of me (put_entry r se s) = ns_ctx_of me s" "sdei_client_el me (put_entry r se s) = sdei_client_el me s"
  by (cases r; cases s; simp add: ns_ctx_of_def sdei_client_el_def)+

lemma outstanding_put [simp]:
  "get_outstanding_dispatch me (put_entry r se s) = get_outstanding_dispatch me s"
  "get_outstanding_dispatch me (s\<lparr>map_locks := l\<rparr>) = get_outstanding_dispatch me s"
  by (cases r; simp add: get_outstanding_dispatch_def)+

lemma intr_handler_eq:
  assumes inv: "sdei_inv n s" and me: "me < n" and d: "dispatchable e me (plat_ic_get_interrupt_id raw) mp m r se s"
    and ctx: "ns_ctx_of me s = Some ctx" and el: "sdei_client_el me s = Some el"
  shows "sdei_intr_handler e me raw flags s = Some (Client_runs,
     (let sec = get_interrupt_src_ss flags; s0 = switched sec (put_entry r (se\<lparr>se_state := 7\<rparr>) s)
      in s0\<lparr>sdei_cpus := pushed me (saved_ctx mp (Jmp_intr_handler raw sec mp) ctx) s,
            ns_context := (ns_context s)[me := Some (handler_ctx m se el ctx)]\<rparr>))"
proof -
  let ?l = "s\<lparr>map_locks := shared_lock m mp (map_locks s)\<rparr>" and ?se = "se\<lparr>se_state := 7\<rparr>" and ?sec = "get_interrupt_src_ss flags"
  let ?s0 = "switched ?sec (put_entry r ?se s)"
  note st = inv_stack[OF inv me]
  have lock: "lock_if_shared m mp s = Some ?l" using inv_simps(2)[OF inv] by (intro lock_if_shared_eq) simp
  have gl: "get_entry r ?l = Some se" using d by (simp add: dispatchable_def)
  have tr: "can_sdei_state_trans r DO_DISPATCH ?l = Some (True, (put_entry r ?se s)\<lparr>map_locks := shared_lock m mp (map_locks s)\<rparr>)"
    using can_trans_eq[OF gl, of DO_DISPATCH] d by (simp add: sdei_next_cases dispatchable_def)
  have sw: "(if ?sec = SECURE then restore_and_resume_ns_context me (save_secure_context (put_entry r ?se s)) else Some (put_entry r ?se s)) = Some ?s0"
    using ctx by (simp add: switched_def restore_and_resume_ns_context_def save_secure_context_def sd_emit_def ns_ctx_of_def)
  have "length (dispatch_stack (sdei_cpus s ! me)) < MAX_EVENT_NESTING"
    using d by (auto simp: dispatchable_def MAX_EVENT_NESTING_def split: list.split_asm)
  moreover have "get_entry r ?s0 = Some ?se" using d get_entry_put_entry[of r s se r ?se] by (simp add: dispatchable_def)
  ultimately have su: "setup_ns_dispatch me mp r jmp ?s0 = Some (?s0\<lparr>sdei_cpus := pushed me (saved_ctx mp jmp ctx) s,
      ns_context := (ns_context s)[me := Some (handler_ctx m se el ctx)]\<rparr>)" for jmp
    using setup_eq[of me ?s0 ctx mp m r ?se el jmp] ctx el d st(3) by (simp add: dispatchable_def pushed_def handler_ctx_def)
  show ?thesis
    using d lock tr sw su st(1,3)
    by (auto simp: sdei_intr_handler_def dispatchable_def Let_def split: list.split_asm)
qed

subsection \<open>Completion\<close>

text \<open>The state while the client runs, with \<open>c\<close> as its context.\<close>

definition client_runs :: "nat \<Rightarrow> u32 \<Rightarrow> entry_ref \<Rightarrow> sdei_entry \<Rightarrow> sdei_dispatch_context \<Rightarrow> cpu_context \<Rightarrow> sdei_state \<Rightarrow> sdei_state" where
  "client_runs me sec r se d c s = (switched sec (put_entry r (se\<lparr>se_state := 7\<rparr>) s))
     \<lparr>sdei_cpus := pushed me d s, ns_context := (ns_context s)[me := Some c]\<rparr>"

lemma get_event_entry_more [simp]:
  "get_event_entry me mp (switched sec s) = get_event_entry me mp s"
  "get_event_entry me mp (s\<lparr>ns_context := ns\<rparr>) = get_event_entry me mp s"
  by (cases mp; simp add: get_event_entry_def switched_def cong: if_cong)+

lemma client_runs_facts:
  assumes me: "me < length (sdei_cpus s)" "me < length (ns_context s)" and e: "get_entry r s = Some se"
    and st: "length (dispatch_stack (sdei_cpus s ! me)) < MAX_EVENT_NESTING"
  shows "get_map mp (client_runs me sec r se d c s) = get_map mp s"
    "get_event_entry me mp (client_runs me sec r se d c s) = get_event_entry me mp s"
    "get_entry r (client_runs me sec r se d c s) = Some (se\<lparr>se_state := 7\<rparr>)"
    "get_outstanding_dispatch me (client_runs me sec r se d c s) = Some (Some d)"
    "\<exists>el. sdei_client_el me (client_runs me sec r se d c s) = Some el"
    "ns_ctx_of me (client_runs me sec r se d c s) = Some c"
    "map_locks (client_runs me sec r se d c s) = map_locks s"
  using me st get_entry_put_entry[OF e, of r]
  by (simp_all add: client_runs_def get_outstanding_dispatch_def pushed_def sdei_client_el_def ns_ctx_of_def)

lemma put_entry_commute:
  "put_entry r x (s\<lparr>sdei_cpus := cs\<rparr>) = (put_entry r x s)\<lparr>sdei_cpus := cs\<rparr>"
  "put_entry r x (s\<lparr>ns_context := ns\<rparr>) = (put_entry r x s)\<lparr>ns_context := ns\<rparr>"
  "put_entry r x (switched sec s) = switched sec (put_entry r x s)"
  by (cases r; cases s; simp add: switched_def)+

lemma put_entry_twice: "put_entry r x (put_entry r y s) = put_entry r x s"
  by (cases r) simp_all

lemma complete_pops:
  assumes me: "me < length (sdei_cpus s)" "me < length (ns_context s)" and e: "get_entry r s = Some se" "se_state se = 3"
    and st: "length (dispatch_stack (sdei_cpus s ! me)) < MAX_EVENT_NESTING"
  shows "pop_dispatch me (put_entry r (se\<lparr>se_state := 3\<rparr>) (client_runs me sec r se d c s)) =
     Some ((switched sec s)\<lparr>ns_context := (ns_context s)[me := Some c]\<rparr>)"
proof -
  have se: "se\<lparr>se_state := 3\<rparr> = se" using e(2) by simp
  have "put_entry r se (client_runs me sec r se d c s) =
      (switched sec s)\<lparr>sdei_cpus := pushed me d s, ns_context := (ns_context s)[me := Some c]\<rparr>"
    unfolding client_runs_def put_entry_commute put_entry_twice put_entry_same[OF e(1)] ..
  moreover have "(pushed me d s)[me := (pushed me d s ! me)\<lparr>dispatch_stack := dispatch_stack (sdei_cpus s ! me)\<rparr>] = sdei_cpus s"
    using me(1) by (simp add: pushed_def)
  moreover have "(switched sec s)\<lparr>sdei_cpus := x, ns_context := y, sdei_cpus := sdei_cpus s\<rparr> = (switched sec s)\<lparr>ns_context := y\<rparr>" for x y
    by (cases s) (simp add: switched_def)
  ultimately show ?thesis
    using me(1) st unfolding se by (simp add: pop_dispatch_def pushed_def)
qed

lemma complete_eq:
  assumes inv: "sdei_inv n s" and me: "me < n" and d: "dispatchable e me intr mp m r se s"
    and ctx: "disp = saved_ctx mp jmp ctx"
  shows "sdei_event_complete e me False pc (client_runs me sec r se disp c s) =
    do { (ret, s') \<leftarrow> sdei_resume e me jmp ((switched sec s)\<lparr>ns_context := (ns_context s)[me := Some (restore_event_ctx disp c)]\<rparr>);
         Some (Resumed ret, s') }"
proof -
  let ?t = "client_runs me sec r se disp c s" and ?se = "se\<lparr>se_state := 7\<rparr>"
  have lk: "get_map mp s = Some m" "get_event_entry me mp s = Some r" "get_entry r s = Some se" "se_state se = 3"
    and stk: "length (dispatch_stack (sdei_cpus s ! me)) < MAX_EVENT_NESTING"
    using d by (auto simp: dispatchable_def MAX_EVENT_NESTING_def split: list.split_asm)
  have len: "me < length (sdei_cpus s)" "me < length (ns_context s)"
    using inv_simps(1)[OF inv] me by (simp_all add: sdei_shape_def)
  note t = client_runs_facts[OF len lk(3) stk]
  have free: "map_locks ?t = []" using t(7) inv_simps(2)[OF inv] by simp
  then have lock: "lock_if_shared m mp ?t = Some (?t\<lparr>map_locks := shared_lock m mp []\<rparr>)"
    using lock_if_shared_eq[of mp ?t m] by simp
  have gl: "get_entry r (?t\<lparr>map_locks := shared_lock m mp []\<rparr>) = Some ?se" using t(3) by simp
  have tr: "can_sdei_state_trans r DO_COMPLETE (?t\<lparr>map_locks := shared_lock m mp []\<rparr>) =
      Some (True, (put_entry r (se\<lparr>se_state := 3\<rparr>) ?t)\<lparr>map_locks := shared_lock m mp []\<rparr>)"
    using can_trans_eq[OF gl, of DO_COMPLETE] by (simp add: sdei_next_cases)
  have un: "(put_entry r (se\<lparr>se_state := 3\<rparr>) ?t)\<lparr>map_locks := []\<rparr> = put_entry r (se\<lparr>se_state := 3\<rparr>) ?t"
    using free put_entry_more(1)[where r = r and se = "se\<lparr>se_state := 3\<rparr>" and s = ?t] by simp
  have cx: "ns_ctx_of me ((switched sec s)\<lparr>ns_context := (ns_context s)[me := Some c]\<rparr>) = Some c"
    using len by (simp add: ns_ctx_of_def)
  obtain el where "sdei_client_el me ?t = Some el" using t(5) by blast
  then show ?thesis
    using t(1,2,4) lk(1,2) lock tr un cx complete_pops[OF len lk(3,4) stk, of sec disp c] ctx
    by (simp add: sdei_event_complete_def Let_def saved_ctx_def)
qed

lemma take_4_update: "4 \<le> length xs \<Longrightarrow> take 4 (xs[0 := a, 1 := b, 2 := c, 3 := d]) = [a, b, c, d]"
  by (auto simp: numeral_eq_Suc Suc_le_length_iff)

subsection \<open>Properties\<close>

text \<open>(C14) Dispatch and completion of an event fit together. The interrupt of an event that can be
  dispatched makes the client start at its handler with the event number, its argument and the
  interrupted program counter and state in x0 to x3. Whatever the client has left in its registers,
  completing the event then goes on in the interrupt handler, which returns 0: the registers x0 to
  x17, the program counter and the state of the interrupted context are restored, the interrupt is
  ended, the event is enabled and not running, the dispatch stack is as before, and the secure world
  is resumed if it was interrupted. Nothing else has changed.\<close>

theorem sdei_dispatch_complete:
  assumes inv: "sdei_inv n s" and me: "me < n" and d: "dispatchable e me (plat_ic_get_interrupt_id raw) mp m r se s"
    and acked: "icc_active s ! me = (raw, pri) # rest" and ctx: "ns_ctx_of me s = Some ctx"
  shows "\<exists>s1 c1. sdei_intr_handler e me raw flags s = Some (Client_runs, s1) \<and> ns_ctx_of me s1 = Some c1 \<and>
    ctx_elr_el3 c1 = se_ep se \<and>
    take 4 (gp_regs c1) = [word_of_int (ev_num m), se_arg se, ctx_elr_el3 ctx, ctx_spsr_el3 ctx] \<and>
    (\<forall>c pc. sdei_event_complete e me False pc (s1\<lparr>ns_context := (ns_context s1)[me := Some c]\<rparr>) = Some (Resumed 0,
       s\<lparr>ns_context := (ns_context s)[me := Some (c\<lparr>
            gp_regs := take SDEI_SAVED_GPREGS (gp_regs ctx) @ drop SDEI_SAVED_GPREGS (gp_regs c),
            ctx_spsr_el3 := ctx_spsr_el3 ctx, ctx_elr_el3 := ctx_elr_el3 ctx\<rparr>)],
         icc_active := (icc_active s)[me := rest],
         irq_active := upd2 (irq_active s) (irq_bank me raw) raw False,
         sdei_log := sdei_log s @ (if get_interrupt_src_ss flags = SECURE
            then [Ev_el1_sysregs_save SECURE, Ev_el1_sysregs_restore NON_SECURE, Ev_next_eret NON_SECURE,
                  Ev_el1_sysregs_restore SECURE, Ev_next_eret SECURE] else [])\<rparr>))"
proof -
  let ?sec = "get_interrupt_src_ss flags" let ?jmp = "Jmp_intr_handler raw ?sec mp"
  obtain el where el: "sdei_client_el me s = Some el" using shape_client_el[OF inv_simps(1)[OF inv] me] by blast
  let ?c1 = "handler_ctx m se el ctx" and ?disp = "saved_ctx mp ?jmp ctx"
  have len: "me < length (ns_context s)" "me < length (icc_active s)" and regs: "SDEI_SAVED_GPREGS \<le> length (gp_regs ctx)"
    using inv_simps(1)[OF inv] me shape_ns_ctx[OF inv_simps(1)[OF inv] me] ctx by (auto simp: sdei_shape_def)
  have m: "get_map mp s = Some m" "ev_num m = SDEI_EVENT_0 \<or> is_map_bound m" using d by (simp_all add: dispatchable_def)
  have call: "sdei_intr_handler e me raw flags s = Some (Client_runs, client_runs me ?sec r se ?disp ?c1 s)"
    using intr_handler_eq[OF inv me d ctx el, of flags] by (simp add: client_runs_def Let_def)
  have nsx: "(client_runs me ?sec r se ?disp ?c1 s)\<lparr>ns_context := (ns_context (client_runs me ?sec r se ?disp ?c1 s))[me := Some c]\<rparr> =
      client_runs me ?sec r se ?disp c s" for c by (simp add: client_runs_def)
  have four: "take 4 (gp_regs ?c1) = [word_of_int (ev_num m), se_arg se, ctx_elr_el3 ctx, ctx_spsr_el3 ctx]"
    using regs take_4_update[of "gp_regs ctx"] by (simp add: handler_ctx_def SDEI_SAVED_GPREGS_def)
  have "ns_ctx_of me (client_runs me ?sec r se ?disp ?c1 s) = Some ?c1"
    using len by (simp add: client_runs_def ns_ctx_of_def)
  moreover have "ctx_elr_el3 ?c1 = se_ep se" by (simp add: handler_ctx_def)
  moreover have "sdei_event_complete e me False pc (client_runs me ?sec r se ?disp c s) = Some (Resumed 0,
       s\<lparr>ns_context := (ns_context s)[me := Some (c\<lparr>
            gp_regs := take SDEI_SAVED_GPREGS (gp_regs ctx) @ drop SDEI_SAVED_GPREGS (gp_regs c),
            ctx_spsr_el3 := ctx_spsr_el3 ctx, ctx_elr_el3 := ctx_elr_el3 ctx\<rparr>)],
         icc_active := (icc_active s)[me := rest],
         irq_active := upd2 (irq_active s) (irq_bank me raw) raw False,
         sdei_log := sdei_log s @ (if ?sec = SECURE
            then [Ev_el1_sysregs_save SECURE, Ev_el1_sysregs_restore NON_SECURE, Ev_next_eret NON_SECURE,
                  Ev_el1_sysregs_restore SECURE, Ev_next_eret SECURE] else [])\<rparr>)" for c pc
    unfolding complete_eq[OF inv me d refl]
    using m acked len(2) by (cases mp; cases s) (simp_all add: switched_def restore_and_resume_secure_context_def sd_emit_def
        plat_ic_end_of_interrupt_def restore_event_ctx_def saved_ctx_def Let_def)
  ultimately show ?thesis
    by (intro exI[of _ "client_runs me ?sec r se ?disp ?c1 s"] exI[of _ ?c1] conjI allI) (simp_all only: call four nsx)
qed

text \<open>The example with the static event registered and enabled, and its interrupt acknowledged while the
  client runs with 5 in x0 at address 0x400.\<close>

definition sdei_busy :: sdei_state where
  "sdei_busy = sdei_demo\<lparr>
     shared_maps := (shared_maps sdei_demo)[1 := \<lparr>ev_num = 1001, map_intr = 40, map_flags = 4, reg_count = 1\<rparr>],
     shared_event_table := (shared_event_table sdei_demo)[1 :=
       \<lparr>se_ep = 0x8000, se_arg = 7, se_affinity = 0, se_reg_flags = 0, se_state = 3\<rparr>],
     irq_group := (\<lambda>b irq. irq \<noteq> 40), irq_active := (\<lambda>b irq. irq = 40), icc_active := [[(40, 0x70)]],
     ns_context := [Some \<lparr>gp_regs = 5 # replicate 30 0, ctx_elr_el3 = 0x400, ctx_spsr_el3 = 5, ctx_scr_el3 = 0\<rparr>]\<rparr>"

text \<open>The examples differ from the first one in the entry of the static event only, and in the number of
  CPUs. They share the proof of the invariant.\<close>

abbreviation unused_entry :: sdei_entry where
  "unused_entry \<equiv> \<lparr>se_ep = 0, se_arg = 0, se_affinity = 0, se_reg_flags = 0, se_state = 0\<rparr>"

abbreviation static_map :: "sdei_entry \<Rightarrow> sdei_ev_map" where
  "static_map se \<equiv> \<lparr>ev_num = 1001, map_intr = 40, map_flags = 4, reg_count = (if se_registered se then 1 else 0)\<rparr>"

definition one_event :: "nat \<Rightarrow> sdei_entry \<Rightarrow> sdei_state \<Rightarrow> bool" where
  "one_event n se s \<longleftrightarrow> private_maps s = private_maps sdei_demo \<and>
     shared_maps s = [\<lparr>ev_num = 1000, map_intr = 0, map_flags = 2, reg_count = 0\<rparr>, static_map se] \<and>
     private_event_table s = replicate (3 * n) unused_entry \<and> shared_event_table s = [unused_entry, se] \<and>
     map_locks s = [] \<and> map dispatch_stack (sdei_cpus s) = replicate n [] \<and> se_state se \<in> sdei_states \<and>
     \<not> irq_group s 0 40 \<and> \<not> irq_grpmod s 0 40"

lemma replicate_two: "replicate 2 x = [x, x]"
  by (simp add: numeral_2_eq_2)

lemma one_event_maps:
  assumes "one_event n se s" "get_map mp s = Some m"
  shows "mp = Private_map 0 \<and> m = \<lparr>ev_num = 0, map_intr = 8, map_flags = 24, reg_count = 0\<rparr> \<or>
    mp = Private_map 1 \<and> m = \<lparr>ev_num = 100, map_intr = 0, map_flags = 18, reg_count = 0\<rparr> \<or>
    mp = Private_map 2 \<and> m = \<lparr>ev_num = 101, map_intr = 0, map_flags = 18, reg_count = 0\<rparr> \<or>
    mp = Shared_map 0 \<and> m = \<lparr>ev_num = 1000, map_intr = 0, map_flags = 2, reg_count = 0\<rparr> \<or>
    mp = Shared_map 1 \<and> m = static_map se"
proof -
  have l: "private_maps s = private_maps sdei_demo" "shared_maps s = [\<lparr>ev_num = 1000, map_intr = 0, map_flags = 2, reg_count = 0\<rparr>, static_map se]"
    using assms(1) by (simp_all add: one_event_def)
  from assms(2) show ?thesis
    by (cases rule: get_map_cases) (auto simp: l sdei_demo_def less_Suc_eq numeral_2_eq_2)
qed

lemma one_event_slots:
  assumes "one_event n se s"
  shows "reg_slots k mp s = (if mp = Shared_map 1 \<and> se_registered se then {0} else {})"
proof -
  have tabs: "private_event_table s = replicate (3 * n) unused_entry" "shared_event_table s = [unused_entry, se]"
    using assms by (simp_all add: one_event_def)
  have reg: "st_registered (get_entry r s) = (r = Shared_entry 1 \<and> se_registered se)" for r
  proof (cases r)
    case (Private_entry i)
    then show ?thesis by (simp add: tabs aread_def st_registered_def se_registered_def)
  next
    case (Shared_entry i)
    then show ?thesis
      by (cases "i = 0"; cases "i = 1") (simp_all add: tabs aread_def st_registered_def se_registered_def)
  qed
  show ?thesis unfolding reg_slots_def reg by (cases mp) auto
qed

lemma one_event_inv:
  assumes one: "one_event n se s" and shape: "sdei_shape n s"
  shows "sdei_inv n s"
proof -
  have irqs: "\<not> irq_group s 0 40" "\<not> irq_grpmod s 0 40" using one by (simp_all add: one_event_def)
  have ok: "map_ok n s mp m" if "get_map mp s = Some m" for mp m
    using one_event_maps[OF one that]
    by (elim disjE conjE) (simp_all add: map_ok_def one_event_slots[OF one] intr_ok_def map_flag_defs plat_ic_is_spi_def
        MIN_SPI_ID_def MAX_SPI_ID_def irqs irq_bank_def)
  have "bound_once s"
    unfolding bound_once_def by (auto dest!: one_event_maps[OF one] simp: map_flag_defs)
  moreover have "map_locks s = []" "distinct (map ev_num (private_maps s @ shared_maps s))"
    "\<forall>se \<in> set (private_event_table s) \<union> set (shared_event_table s). se_state se \<in> sdei_states"
    "\<forall>ds \<in> set (map dispatch_stack (sdei_cpus s)). disp_ok s ds"
    using one by (auto simp: one_event_def sdei_demo_def sdei_states_def disp_ok_def)
  ultimately show ?thesis unfolding sdei_inv_def using ok shape by blast
qed

lemma busy_inv: "sdei_inv 1 sdei_busy"
proof (rule one_event_inv)
  show "one_event 1 (shared_event_table sdei_busy ! 1) sdei_busy"
    by (simp add: one_event_def sdei_busy_def sdei_demo_def sdei_states_def se_registered_def replicate_two)
  show "sdei_shape 1 sdei_busy"
    by (simp add: sdei_busy_def sdei_shape_def sdei_demo_def map_flag_defs)
qed

lemma busy_dispatchable:
  "dispatchable sdei_demo_env 0 (plat_ic_get_interrupt_id 40) (Shared_map 1) \<lparr>ev_num = 1001, map_intr = 40, map_flags = 4, reg_count = 1\<rparr>
     (Shared_entry 1) \<lparr>se_ep = 0x8000, se_arg = 7, se_affinity = 0, se_reg_flags = 0, se_state = 3\<rparr> sdei_busy"
  by (simp add: dispatchable_def plat_ic_get_interrupt_id_def gicv3_is_intr_id_special_identifier_def PENDING_G1S_INTID_def
      GIC_SPURIOUS_INTERRUPT_def INT_ID_MASK_def find_event_map_by_intr_def plat_ic_is_spi_def MIN_SPI_ID_def MAX_SPI_ID_def
      get_event_entry_def sdei_busy_def sdei_demo_def map_flag_defs Let_def)

theorem sdei_dispatch_complete_witness:
  "\<exists>s1 s2. sdei_intr_handler sdei_demo_env 0 40 1 sdei_busy = Some (Client_runs, s1) \<and>
     sdei_event_complete sdei_demo_env 0 False 0
       (s1\<lparr>ns_context := (ns_context s1)[0 := Some \<lparr>gp_regs = replicate 31 9, ctx_elr_el3 = 0x8010, ctx_spsr_el3 = 3, ctx_scr_el3 = 0\<rparr>]\<rparr>) =
       Some (Resumed 0, s2) \<and>
     (case ns_context s2 ! 0 of Some c \<Rightarrow> gp_regs c ! 0 = 5 \<and> ctx_elr_el3 c = 0x400 | None \<Rightarrow> False) \<and> icc_active s2 = [[]]"
proof -
  have a: "icc_active sdei_busy ! 0 = (40, 0x70) # []"
    and c: "ns_ctx_of 0 sdei_busy = Some \<lparr>gp_regs = 5 # replicate 30 0, ctx_elr_el3 = 0x400, ctx_spsr_el3 = 5, ctx_scr_el3 = 0\<rparr>"
    by (simp_all add: sdei_busy_def ns_ctx_of_def)
  from sdei_dispatch_complete[OF busy_inv zero_less_one busy_dispatchable a c, of 1] obtain s1 where
    s1: "sdei_intr_handler sdei_demo_env 0 40 1 sdei_busy = Some (Client_runs, s1)" and
    s2: "\<And>c pc. sdei_event_complete sdei_demo_env 0 False pc (s1\<lparr>ns_context := (ns_context s1)[0 := Some c]\<rparr>) = Some (Resumed 0,
       sdei_busy\<lparr>ns_context := (ns_context sdei_busy)[0 := Some (c\<lparr>
            gp_regs := take SDEI_SAVED_GPREGS (5 # replicate 30 0) @ drop SDEI_SAVED_GPREGS (gp_regs c),
            ctx_spsr_el3 := 5, ctx_elr_el3 := 0x400\<rparr>)],
         icc_active := (icc_active sdei_busy)[0 := []],
         irq_active := upd2 (irq_active sdei_busy) (irq_bank 0 40) 40 False,
         sdei_log := sdei_log sdei_busy @ (if get_interrupt_src_ss 1 = SECURE
            then [Ev_el1_sysregs_save SECURE, Ev_el1_sysregs_restore NON_SECURE, Ev_next_eret NON_SECURE,
                  Ev_el1_sysregs_restore SECURE, Ev_next_eret SECURE] else [])\<rparr>)"
    by auto
  show ?thesis using s1 s2 by (simp add: sdei_busy_def SDEI_SAVED_GPREGS_def)
qed

subsection \<open>The state machine of a handler\<close>

text \<open>Every action of the state machine leaves the entry of an event in one of the six states in
  which an enabled handler is registered. A refused action changes nothing; a permitted one changes
  the state of that entry only, and each bit only changes through its own actions: registering and
  unregistering, enabling, disabling or unregistering, dispatching and completing.\<close>

theorem sdei_state_machine:
  assumes "get_entry r s = Some se" and "se_state se \<in> sdei_states"
  shows "\<exists>ok st. can_sdei_state_trans r act s = Some (ok, put_entry r (se\<lparr>se_state := st\<rparr>) s) \<and> st \<in> sdei_states \<and>
    (\<not> ok \<longrightarrow> st = se_state se) \<and>
    (let old = get_ev_state_bit se; new = get_ev_state_bit (se\<lparr>se_state := st\<rparr>) in
       (new SDEI_STATF_ENABLED \<longrightarrow> new SDEI_STATF_REGISTERED) \<and>
       (new SDEI_STATF_REGISTERED \<noteq> old SDEI_STATF_REGISTERED \<longrightarrow> act = (if new SDEI_STATF_REGISTERED then DO_REGISTER else DO_UNREGISTER)) \<and>
       (new SDEI_STATF_ENABLED \<and> \<not> old SDEI_STATF_ENABLED \<longrightarrow> act = DO_ENABLE) \<and>
       (old SDEI_STATF_ENABLED \<and> \<not> new SDEI_STATF_ENABLED \<longrightarrow> act = DO_DISABLE \<or> act = DO_UNREGISTER) \<and>
       (new SDEI_STATF_RUNNING \<and> \<not> old SDEI_STATF_RUNNING \<longrightarrow> act = DO_DISPATCH) \<and>
       (old SDEI_STATF_RUNNING \<and> \<not> new SDEI_STATF_RUNNING \<longrightarrow> act = DO_COMPLETE \<or> act = DO_COMPLETE_RESUME))"
proof (cases "sdei_next (se_state se) act")
  case None
  have "se\<lparr>se_state := se_state se\<rparr> = se" by simp
  then show ?thesis
    using assms can_trans_eq[OF assms(1), of act] None ev_state_bits[OF assms(2)]
    by (intro exI[of _ False] exI[of _ "se_state se"]) (auto simp: Let_def)
next
  case (Some st)
  have st: "st \<in> sdei_states" "se_state (se\<lparr>se_state := st\<rparr>) \<in> sdei_states" using sdei_next_Some[OF Some] by simp_all
  show ?thesis
    using can_trans_eq[OF assms(1), of act] Some st
    by (intro exI[of _ True] exI[of _ st], unfold Let_def ev_state_bits[OF assms(2)] ev_state_bits[OF st(2)])
      (cases act; auto simp: sdei_next_cases split: if_split_asm)
qed

theorem sdei_state_machine_witness:
  "\<exists>ok st. can_sdei_state_trans (Shared_entry 1) DO_DISABLE sdei_busy = Some (ok, put_entry (Shared_entry 1)
     (\<lparr>se_ep = 0x8000, se_arg = 7, se_affinity = 0, se_reg_flags = 0, se_state = 3\<rparr>\<lparr>se_state := st\<rparr>) sdei_busy) \<and> st \<in> sdei_states"
proof -
  have "get_entry (Shared_entry 1) sdei_busy = Some \<lparr>se_ep = 0x8000, se_arg = 7, se_affinity = 0, se_reg_flags = 0, se_state = 3\<rparr>"
    by (simp add: sdei_busy_def sdei_demo_def)
  from sdei_state_machine[OF this, of DO_DISABLE] show ?thesis by (auto simp: sdei_states_def)
qed

subsection \<open>Divergences\<close>

text \<open>(C37) Rerouting a shared event to another CPU programs the interrupt controller but leaves the
  affinity in the entry of the event. The query for the affinity then gives the old value, and the
  interrupt of the event fails an assertion on every other CPU, the new target included, whether
  events are masked there or not.\<close>

theorem routing_set_keeps_affinity:
  assumes inv: "sdei_inv n s" and me: "me < n" "me2 < n" and ev: "event_at me num s mp m r se"
    and call: "sdei_event_routing_set e me num SDEI_REGF_RM_PE mpidr s = Some (0, s')"
    and fi: "find_event_map_by_intr (map_intr m) True s = Some mp"
    and new: "sd_read_mpidr e me2 AND MPIDR_AFFINITY_MASK \<noteq> se_affinity se" and irq: "plat_ic_get_interrupt_id raw = map_intr m"
  shows "sdei_event_get_info me num 4 s' = Some (sint (se_affinity se), s') \<and> sdei_intr_handler e me2 raw flags s' = None"
proof -
  have lk: "get_map mp s = Some m" "get_event_entry me mp s = Some r" "get_entry r s = Some se" "find_event_map num s = Some mp"
    using ev by (simp_all add: event_at_def)
  have ok: "intr_ok m" using inv_simps(4)[OF inv lk(1)] by (simp add: map_ok_def)
  have free: "mp \<notin> set (map_locks s)" using inv_simps(2)[OF inv] by simp
  let ?se = "se\<lparr>se_reg_flags := ucast SDEI_REGF_RM_PE\<rparr>"
  have c: "\<not> is_event_private m" "is_map_bound m" "se_state se = 1"
    and s': "s' = put_entry r ?se (irq_routed (map_intr m) SDEI_REGF_RM_PE mpidr s)"
    using sdei_routing_eq[OF ev ok free, of e SDEI_REGF_RM_PE mpidr] call
    by (auto simp: SDEI_EINVAL_def SDEI_EDENY_def split: if_split_asm)
  have sh: "is_event_shared m" "ev_num m \<noteq> SDEI_EVENT_0" "plat_ic_is_spi (map_intr m)"
    using c ok intr_ok_bounds[OF ok c(2)] by (simp_all add: is_event_shared_def)
  have g: "get_map mp s' = Some m" "get_entry r s' = Some ?se" "find_event_map num s' = Some mp" "get_event_entry me mp s' = Some r"
    "map_locks s' = map_locks s"
    using lk get_entry_put_entry[of r "irq_routed (map_intr m) SDEI_REGF_RM_PE mpidr s" se r ?se] by (simp_all add: s')
  have fl: "(ucast (se_reg_flags ?se) :: u64) = SDEI_REGF_RM_PE" by (simp add: SDEI_REGF_RM_PE_def)
  have bit: "get_ev_state_bit ?se SDEI_STATF_REGISTERED" using c(3) by (simp add: get_ev_state_bit_def SDEI_STATF_REGISTERED_def)
  have lock: "lock_if_shared m mp s' = Some (s'\<lparr>map_locks := shared_lock m mp (map_locks s')\<rparr>)"
    using lock_if_shared_eq[of mp s' m] g(5) free by simp
  have info: "sdei_event_get_info me num 4 s' = Some (sint (se_affinity se), s')"
    using g lock bit fl sh(1) by (simp add: sdei_event_get_info_def Let_def)
  obtain i where i: "mp = Shared_map i" using shape_kind[OF inv_simps(1)[OF inv] lk(1)] c(1) by (cases mp) auto
  have r2: "get_event_entry me2 mp s' = Some r" using g(1,4) i c(1) by (simp add: get_event_entry_def)
  have cpu: "me2 < length (sdei_cpus s')" using inv_stack(3)[OF inv me(2)] by (simp add: s')
  have fi': "find_event_map_by_intr (map_intr m) True s' = Some mp"
    using fi by (cases r) (simp_all add: s' find_event_map_by_intr_def)
  have "sdei_intr_handler e me2 raw flags s' = None"
    using irq sh g(1,2) fi' r2 cpu lock new fl c(2)
    by (simp add: sdei_intr_handler_def handle_masked_trigger_def Let_def)
  with info show ?thesis by blast
qed

text \<open>Two CPUs, the static event registered for CPU 0 and then routed to CPU 1.\<close>

definition sdei_pair_env :: sdei_env where
  "sdei_pair_env = sdei_demo_env\<lparr>sd_core_pos_by_mpidr := (\<lambda>m. if m = 0 then 0 else if m = 1 then 1 else -1),
     sd_read_mpidr := (\<lambda>c. of_nat c)\<rparr>"

definition sdei_pair :: sdei_state where
  "sdei_pair = sdei_busy\<lparr>icc_pmr := [0xf0, 0xf0], icc_active := [[], []], ehf_data := ehf_data sdei_demo @ ehf_data sdei_demo,
     ns_context := ns_context sdei_demo @ ns_context sdei_demo, private_event_table := replicate 6 unused_entry,
     shared_event_table := [unused_entry, \<lparr>se_ep = 0x8000, se_arg = 7, se_affinity = 0, se_reg_flags = 1, se_state = 1\<rparr>],
     sdei_cpus := sdei_cpus sdei_demo @ sdei_cpus sdei_demo\<rparr>"

lemma pair_inv: "sdei_inv 2 sdei_pair"
proof (rule one_event_inv)
  show "one_event 2 (shared_event_table sdei_pair ! 1) sdei_pair"
    by (simp add: one_event_def sdei_pair_def sdei_busy_def sdei_demo_def sdei_states_def se_registered_def replicate_two)
  show "sdei_shape 2 sdei_pair"
    by (simp add: sdei_pair_def sdei_busy_def sdei_shape_def sdei_demo_def map_flag_defs)
qed

theorem routing_set_keeps_affinity_witness:
  "\<exists>s'. sdei_event_routing_set sdei_pair_env 0 1001 SDEI_REGF_RM_PE 1 sdei_pair = Some (0, s') \<and>
     sdei_event_get_info 0 1001 4 s' = Some (0, s') \<and> sdei_intr_handler sdei_pair_env 1 40 1 s' = None"
proof -
  let ?m = "\<lparr>ev_num = 1001, map_intr = 40, map_flags = 4, reg_count = 1\<rparr>"
  let ?se = "\<lparr>se_ep = 0x8000, se_arg = 7, se_affinity = 0, se_reg_flags = 1, se_state = 1\<rparr>"
  have ev: "event_at 0 1001 sdei_pair (Shared_map 1) ?m (Shared_entry 1) ?se"
    by (simp add: event_at_def sdei_pair_def sdei_busy_def sdei_demo_def find_event_map_def get_event_entry_def map_flag_defs)
  have m: "get_map (Shared_map 1) sdei_pair = Some ?m" using ev by (simp add: event_at_def)
  have ok: "intr_ok ?m" using inv_simps(4)[OF pair_inv m] by (simp add: map_ok_def)
  have free: "Shared_map 1 \<notin> set (map_locks sdei_pair)" using inv_simps(2)[OF pair_inv] by simp
  obtain s' where call: "sdei_event_routing_set sdei_pair_env 0 1001 SDEI_REGF_RM_PE 1 sdei_pair = Some (0, s')"
    using sdei_routing_eq[OF ev ok free, of sdei_pair_env SDEI_REGF_RM_PE 1]
    by (simp add: map_flag_defs sdei_pair_env_def sdei_demo_env_def validate_flags_def)
  have fi: "find_event_map_by_intr (map_intr ?m) True sdei_pair = Some (Shared_map 1)"
    by (simp add: find_event_map_by_intr_def sdei_pair_def sdei_busy_def sdei_demo_def)
  have "sd_read_mpidr sdei_pair_env 1 AND MPIDR_AFFINITY_MASK \<noteq> se_affinity ?se"
    by (simp add: sdei_pair_env_def MPIDR_AFFINITY_MASK_def)
  moreover have "plat_ic_get_interrupt_id 40 = map_intr ?m"
    by (simp add: plat_ic_get_interrupt_id_def gicv3_is_intr_id_special_identifier_def PENDING_G1S_INTID_def
      GIC_SPURIOUS_INTERRUPT_def INT_ID_MASK_def Let_def)
  ultimately show ?thesis
    using routing_set_keeps_affinity[OF pair_inv _ _ ev call fi, of 1 40 1] call by simp
qed

text \<open>(C38) The interrupt of event 0 that arrives while events are masked is dropped without ending it: the
  handler returns with the state unchanged, so that the running priority of the CPU stays at the
  priority of the interrupt and holds back every later interrupt that is not more urgent.\<close>

theorem masked_event0_stays_active:
  assumes inv: "sdei_inv n s" and me: "me < n" and fi: "find_event_map_by_intr (plat_ic_get_interrupt_id raw) False s = Some mp"
    and m: "get_map mp s = Some m" "ev_num m = SDEI_EVENT_0" and sgi: "\<not> plat_ic_is_spi (plat_ic_get_interrupt_id raw)"
    and masked: "pe_masked (sdei_cpus s ! me)" and acked: "icc_active s ! me = (raw, pri) # rest"
  shows "sdei_intr_handler e me raw flags s = Some (Returned 0, s) \<and> plat_ic_get_running_priority me s = Some pri"
proof -
  obtain i where mp: "mp = Private_map i" using find_by_intr_Some[OF fi] by (cases mp) auto
  then have "\<not> is_event_shared m" using shape_kind[OF inv_simps(1)[OF inv] m(1)] by (simp add: is_event_shared_def)
  moreover obtain r where "get_event_entry me mp s = Some r" using shape_entry[OF inv_simps(1)[OF inv] me m(1)] by blast
  moreover have "me < length (sdei_cpus s)" "me < length (icc_active s)"
    using inv_simps(1)[OF inv] me by (simp_all add: sdei_shape_def)
  ultimately show ?thesis
    using fi m sgi masked acked by (simp add: sdei_intr_handler_def handle_masked_trigger_def lock_if_shared_def unlock_if_shared_def
        plat_ic_get_running_priority_def Let_def)
qed

theorem masked_event0_stays_active_witness:
  "\<exists>s. pe_masked (sdei_cpus s ! 0) \<and> icc_active s = [[(8, 0x70)]] \<and> sdei_intr_handler sdei_demo_env 0 8 1 s = Some (Returned 0, s) \<and>
     plat_ic_get_running_priority 0 s = Some 0x70"
proof -
  let ?s = "sdei_busy\<lparr>icc_active := [[(8, 0x70)]],
    sdei_cpus := [\<lparr>dispatch_stack = [], pe_masked = True, pending_enables = False\<rparr>]\<rparr>"
  have inv: "sdei_inv 1 ?s"
  proof (rule one_event_inv)
    show "one_event 1 (shared_event_table sdei_busy ! 1) ?s"
      by (simp add: one_event_def sdei_busy_def sdei_demo_def sdei_states_def se_registered_def replicate_two)
    show "sdei_shape 1 ?s"
      by (simp add: sdei_busy_def sdei_shape_def sdei_demo_def map_flag_defs)
  qed
  have irq: "plat_ic_get_interrupt_id 8 = 8" "\<not> plat_ic_is_spi 8"
    by (simp_all add: plat_ic_get_interrupt_id_def gicv3_is_intr_id_special_identifier_def PENDING_G1S_INTID_def
      GIC_SPURIOUS_INTERRUPT_def INT_ID_MASK_def Let_def plat_ic_is_spi_def MIN_SPI_ID_def)
  have fi: "find_event_map_by_intr (plat_ic_get_interrupt_id 8) False ?s = Some (Private_map 0)"
    and m: "get_map (Private_map 0) ?s = Some \<lparr>ev_num = 0, map_intr = 8, map_flags = 24, reg_count = 0\<rparr>"
    by (simp_all add: irq find_event_map_by_intr_def sdei_busy_def sdei_demo_def)
  have "sdei_intr_handler sdei_demo_env 0 8 1 ?s = Some (Returned 0, ?s) \<and> plat_ic_get_running_priority 0 ?s = Some 0x70"
    by (rule masked_event0_stays_active[OF inv zero_less_one fi m, of "0x70" "[]"]) (simp_all add: irq SDEI_EVENT_0_def)
  then show ?thesis by (intro exI[of _ ?s]) simp
qed

text \<open>The interrupt number of a bind call is not checked. For a number between 1020 and 8191 that no
  map has, a free private slot makes the first attempt ask the interrupt controller for the type of
  an interrupt that does not exist. That fails an assertion, whatever other CPUs do later.\<close>

theorem bind_unchecked_number:
  assumes dyn: "dyn_slots s" and irq: "1020 \<le> irq" "irq < 8192"
    and new: "find_event_map_by_intr irq False s = None" and free: "find_event_map_by_intr SDEI_DYN_IRQ False s = Some mp"
  shows "bind_attempt me irq (\<lambda>s. s, g) s = None \<and> sdei_interrupt_bind me irq ((\<lambda>s. s, g) # later) s = None"
proof -
  have k: "\<not> plat_ic_is_sgi irq" "\<not> plat_ic_is_spi irq" "\<not> irq < PENDING_G1S_INTID" "\<not> irq \<ge> MIN_LPI_ID"
    using irq by (auto simp: plat_ic_is_sgi_def plat_ic_is_spi_def MIN_PPI_ID_def MAX_SPI_ID_def PENDING_G1S_INTID_def
        MIN_LPI_ID_def word_le_nat_alt word_less_nat_alt)
  obtain m where "get_map mp s = Some m" "is_map_dynamic m"
    using find_by_intr_Some[OF free] dyn_slots_map[OF dyn] by blast
  then have "bind_attempt me irq (\<lambda>s. s, g) s = None"
    using k new free by (simp add: bind_attempt_def Let_def plat_ic_get_interrupt_type_def gicv3_get_interrupt_type_def)
  then show ?thesis using k by (simp add: sdei_interrupt_bind_def)
qed

theorem bind_unchecked_number_witness:
  "sdei_interrupt_bind 0 4096 [(\<lambda>s. s, \<lambda>s. s)] sdei_demo = None"
proof -
  have maps: "find_event_map_by_intr 4096 False sdei_demo = None" "find_event_map_by_intr SDEI_DYN_IRQ False sdei_demo = Some (Private_map 1)"
    by (simp_all add: find_event_map_by_intr_def sdei_demo_def SDEI_DYN_IRQ_def)
  have "(1020::u32) \<le> 4096" "(4096::u32) < 8192" by simp_all
  from bind_unchecked_number[OF demo_dyn_slots this maps] show ?thesis by (rule conjunct2)
qed

end
