(* ===== verification/Bakery_Lock.thy ===== *)
theory Bakery_Lock
  imports TF_Prelude
begin

section \<open>Bakery locks\<close>

text \<open>
  The bakery lock in coherent memory (\<^verbatim>\<open>lib/locks/bakery/bakery_lock_coherent.c\<close>,
  \<^verbatim>\<open>include/lib/bakery_lock.h\<close>) as a system of CPUs that take turns. The shared data is the array
  \<^verbatim>\<open>lock_data\<close>, one 16-bit word per CPU. Each access to it is one step, the reads and writes of a CPU
  on its own word excepted, which no other CPU writes. Where a CPU is in the code, with the local
  variables it still needs, is its \<open>bakery_pc\<close>. The memory is coherent and fully ordered, as the
  file requires, so that the barriers and the event instructions have no effect of their own.

  Tickets have 15 bits. As long as they fit, the lock excludes (\<open>mutual_exclusion\<close>) and cannot
  deadlock. A ticket that wraps around to zero breaks it.
\<close>

subsection \<open>The words of the lock\<close>

definition bakery_get_priority :: "u32 \<Rightarrow> u32 \<Rightarrow> u32" where
  "bakery_get_priority t pos = push_bit 8 t OR pos"

definition CHOOSING_TICKET :: u32 where "CHOOSING_TICKET = 1"
definition CHOSEN_TICKET :: u32 where "CHOSEN_TICKET = 0"

definition bakery_is_choosing :: "u32 \<Rightarrow> bool" where
  "bakery_is_choosing info \<longleftrightarrow> info AND 1 = CHOOSING_TICKET"

definition bakery_ticket_number :: "u32 \<Rightarrow> u32" where
  "bakery_ticket_number info = drop_bit 1 info AND 0x7FFF"

definition make_bakery_data :: "u32 \<Rightarrow> u32 \<Rightarrow> u16" where
  "make_bakery_data choosing num = ucast ((choosing AND 1) OR push_bit 1 num)"

subsection \<open>The steps of a CPU\<close>

text \<open>Not using the lock; in the loop of \<^verbatim>\<open>bakery_get_ticket()\<close> with \<^verbatim>\<open>they\<close> and \<^verbatim>\<open>my_ticket\<close>; in the
  loop of \<^verbatim>\<open>bakery_lock_get()\<close>, about to read the word of \<^verbatim>\<open>they\<close>, with \<^verbatim>\<open>my_ticket\<close>; waiting for the
  ticket of \<^verbatim>\<open>they\<close> to change, with \<^verbatim>\<open>my_ticket\<close> and \<^verbatim>\<open>their_ticket\<close>; holding the lock.\<close>

datatype bakery_pc = Outside | Choosing nat u32 | Contending nat u32 | Waiting nat u32 u32 | Critical

definition bakery_get_ticket_enter :: "nat \<Rightarrow> u16 list \<Rightarrow> (bakery_pc \<times> u16 list) option" where
  "bakery_get_ticket_enter me lock_data = do {
     mine \<leftarrow> aread lock_data me;
     assert_c (bakery_ticket_number (ucast mine) = 0);
     lock_data \<leftarrow> awrite lock_data me (make_bakery_data CHOOSING_TICKET 0);
     Some (Choosing 0 0, lock_data)
   }"

definition bakery_get_ticket_loop :: "nat \<Rightarrow> nat \<Rightarrow> u32 \<Rightarrow> u16 list \<Rightarrow> (bakery_pc \<times> u16 list) option" where
  "bakery_get_ticket_loop me they my_ticket lock_data =
     (if they < length lock_data
      then do {
        their \<leftarrow> aread lock_data they;
        let their_ticket = bakery_ticket_number (ucast their);
        Some (Choosing (Suc they) (if their_ticket > my_ticket then their_ticket else my_ticket), lock_data)
      }
      else do {
        let my_ticket = my_ticket + 1;
        lock_data \<leftarrow> awrite lock_data me (make_bakery_data CHOSEN_TICKET my_ticket);
        Some (Contending 0 my_ticket, lock_data)
      })"

definition bakery_lock_get_loop :: "nat \<Rightarrow> nat \<Rightarrow> u32 \<Rightarrow> u16 list \<Rightarrow> (bakery_pc \<times> u16 list) option" where
  "bakery_lock_get_loop me they my_ticket lock_data =
     (if \<not> they < length lock_data then Some (Critical, lock_data)
      else if me = they then Some (Contending (Suc they) my_ticket, lock_data)
      else do {
        their_bakery_data \<leftarrow> aread lock_data they;
        if bakery_is_choosing (ucast their_bakery_data) then Some (Contending they my_ticket, lock_data)
        else do {
          let their_ticket = bakery_ticket_number (ucast their_bakery_data);
          let my_prio = bakery_get_priority my_ticket (of_nat me);
          Some (if their_ticket \<noteq> 0 \<and> bakery_get_priority their_ticket (of_nat they) < my_prio
                then Waiting they my_ticket their_ticket else Contending (Suc they) my_ticket, lock_data)
        }
      })"

definition bakery_lock_get_wait :: "nat \<Rightarrow> u32 \<Rightarrow> u32 \<Rightarrow> u16 list \<Rightarrow> (bakery_pc \<times> u16 list) option" where
  "bakery_lock_get_wait they my_ticket their_ticket lock_data = do {
     their \<leftarrow> aread lock_data they;
     Some (if their_ticket = bakery_ticket_number (ucast their) then Waiting they my_ticket their_ticket
           else Contending (Suc they) my_ticket, lock_data)
   }"

definition bakery_lock_release :: "nat \<Rightarrow> u16 list \<Rightarrow> (bakery_pc \<times> u16 list) option" where
  "bakery_lock_release me lock_data = do {
     mine \<leftarrow> aread lock_data me;
     assert_c (bakery_ticket_number (ucast mine) \<noteq> 0);
     lock_data \<leftarrow> awrite lock_data me 0;
     Some (Outside, lock_data)
   }"

fun bakery_cpu :: "nat \<Rightarrow> bakery_pc \<Rightarrow> u16 list \<Rightarrow> (bakery_pc \<times> u16 list) option" where
  "bakery_cpu me Outside d = bakery_get_ticket_enter me d"
| "bakery_cpu me (Choosing they t) d = bakery_get_ticket_loop me they t d"
| "bakery_cpu me (Contending they t) d = bakery_lock_get_loop me they t d"
| "bakery_cpu me (Waiting they t their) d = bakery_lock_get_wait they t their d"
| "bakery_cpu me Critical d = bakery_lock_release me d"

text \<open>Any CPU may take the next step.\<close>

type_synonym bakery_system = "bakery_pc list \<times> u16 list"

inductive bakery_step :: "bakery_system \<Rightarrow> bakery_system \<Rightarrow> bool" where
  cpu: "me < length pcs \<Longrightarrow> bakery_cpu me (pcs ! me) d = Some (pc, d')
     \<Longrightarrow> bakery_step (pcs, d) (pcs[me := pc], d')"

inductive_cases bakery_stepE: "bakery_step (pcs, d) y"

definition bakery_start :: "nat \<Rightarrow> bakery_system" where
  "bakery_start n = (replicate n Outside, replicate n 0)"

text \<open>The tickets drawn so far fit into 15 bits.\<close>

fun my_ticket_of :: "bakery_pc \<Rightarrow> u32" where
  "my_ticket_of (Contending they t) = t"
| "my_ticket_of (Waiting they t their) = t"
| "my_ticket_of _ = 0"

definition tickets_fit :: "bakery_system \<Rightarrow> bool" where
  "tickets_fit x \<longleftrightarrow> (\<forall>pc \<in> set (fst x). my_ticket_of pc < 0x8000)"

definition fitting_step :: "bakery_system \<Rightarrow> bakery_system \<Rightarrow> bool" where
  "fitting_step x y \<longleftrightarrow> bakery_step x y \<and> tickets_fit y"

subsection \<open>Words as numbers\<close>

abbreviation tick :: "u16 \<Rightarrow> nat" where
  "tick x \<equiv> unat (bakery_ticket_number (ucast x))"

lemma chosen_data:
  assumes "t < 0x8000"
  shows "bakery_ticket_number (ucast (make_bakery_data CHOSEN_TICKET t)) = t"
    and "\<not> bakery_is_choosing (ucast (make_bakery_data CHOSEN_TICKET t))"
proof -
  have t: "unat t < 0x8000" using assms by (simp add: word_less_nat_alt)
  have two: "unat (2 * t) = 2 * unat t" using t unat_mult_lem[of 2 t] by simp
  have "make_bakery_data CHOSEN_TICKET t = ucast (2 * t)"
    by (simp add: make_bakery_data_def CHOSEN_TICKET_def push_bit_eq_mult mult.commute)
  then have d: "unat (ucast (make_bakery_data CHOSEN_TICKET t) :: u32) = 2 * unat t"
    using t two by (simp add: unsigned_ucast_eq take_bit_eq_mod unat_mod)
  have m: "(0x7FFF :: u32) = mask 15" by (simp add: mask_eq_exp_minus_1)
  have "unat (bakery_ticket_number (ucast (make_bakery_data CHOSEN_TICKET t))) = unat t"
    unfolding bakery_ticket_number_def m take_bit_eq_mask[symmetric] unsigned_take_bit_eq unat_drop_bit_eq d
    using t by (simp add: take_bit_eq_mod drop_bit_eq_div)
  then show "bakery_ticket_number (ucast (make_bakery_data CHOSEN_TICKET t)) = t" by (simp add: word_unat_eq_iff)
  have "unat (ucast (make_bakery_data CHOSEN_TICKET t) AND (1 :: u32)) = 0"
    unfolding and_one_eq unat_mod d by simp
  then show "\<not> bakery_is_choosing (ucast (make_bakery_data CHOSEN_TICKET t))"
    by (auto simp: bakery_is_choosing_def CHOOSING_TICKET_def)
qed

lemma choosing_data:
  "bakery_ticket_number (ucast (make_bakery_data CHOOSING_TICKET 0)) = 0"
  "bakery_is_choosing (ucast (make_bakery_data CHOOSING_TICKET 0))"
  "bakery_ticket_number 0 = 0" "\<not> bakery_is_choosing 0"
  by (simp_all add: bakery_ticket_number_def bakery_is_choosing_def make_bakery_data_def CHOOSING_TICKET_def)

lemma ticket_small: "bakery_ticket_number x < 0x8000"
proof -
  have "bakery_ticket_number x \<le> 0x7FFF" unfolding bakery_ticket_number_def by (rule word_and_le1)
  then show ?thesis by (simp add: word_le_nat_alt word_less_nat_alt)
qed

lemma priority_val:
  assumes "t \<le> 0x8000" "i < 256"
  shows "unat (bakery_get_priority t (of_nat i)) = 256 * unat t + i"
proof -
  have i: "unat (of_nat i :: u32) = i" using assms(2) by (simp add: unat_of_nat)
  have t: "unat t \<le> 0x8000" using assms(1) by (simp add: word_le_nat_alt)
  have mul: "unat (push_bit 8 t) = 256 * unat t"
    using t unat_mult_lem[of t 256] by (simp add: push_bit_eq_mult mult.commute)
  have "(of_nat i :: u32) < 2 ^ 8" using assms(2) i by (simp add: word_less_nat_alt)
  then have lo: "bit (of_nat i :: u32) k \<Longrightarrow> k < 8" for k by (rule small_bit)
  have "push_bit 8 t OR of_nat i = push_bit 8 t + (of_nat i :: u32)"
    by (intro disjunctive_add[symmetric]) (auto simp: bit_push_bit_iff dest: lo)
  then show ?thesis
    using mul i t unat_add_lem[of "push_bit 8 t" "of_nat i :: u32"] assms(2) by (simp add: bakery_get_priority_def)
qed

lemma priority_less:
  assumes "t \<le> 0x8000" "u \<le> 0x8000" "i < 256" "j < 256"
  shows "bakery_get_priority t (of_nat i) < bakery_get_priority u (of_nat j) \<longleftrightarrow>
    unat t < unat u \<or> unat t = unat u \<and> i < j"
  unfolding word_less_nat_alt priority_val[OF assms(1,3)] priority_val[OF assms(2,4)]
  using assms(3,4) by linarith

subsection \<open>The invariant\<close>

text \<open>The word of a CPU that is at a given point of the code.\<close>

fun cell_ok :: "nat \<Rightarrow> nat \<Rightarrow> bakery_pc \<Rightarrow> u16 \<Rightarrow> bool" where
  "cell_ok n me Outside x \<longleftrightarrow> x = 0"
| "cell_ok n me (Choosing k t) x \<longleftrightarrow> x = make_bakery_data CHOOSING_TICKET 0 \<and> t < 0x8000 \<and> k \<le> n"
| "cell_ok n me (Contending k t) x \<longleftrightarrow> x = make_bakery_data CHOSEN_TICKET t \<and> t \<noteq> 0 \<and> t < 0x8000 \<and> k \<le> n"
| "cell_ok n me (Waiting k t u) x \<longleftrightarrow> x = make_bakery_data CHOSEN_TICKET t \<and> t \<noteq> 0 \<and> t < 0x8000 \<and> u \<noteq> 0 \<and>
     k < n \<and> k \<noteq> me \<and> (unat u < unat t \<or> unat u = unat t \<and> k < me)"
| "cell_ok n me Critical x \<longleftrightarrow> (\<exists>t. x = make_bakery_data CHOSEN_TICKET t \<and> t \<noteq> 0 \<and> t < 0x8000)"

text \<open>CPU \<open>me\<close> has looked at the word of \<open>they\<close> and gone on.\<close>

fun passed :: "bakery_pc \<Rightarrow> nat \<Rightarrow> bool" where
  "passed (Contending k t) they \<longleftrightarrow> they < k"
| "passed (Waiting k t u) they \<longleftrightarrow> they < k"
| "passed Critical they \<longleftrightarrow> True"
| "passed _ they \<longleftrightarrow> False"

text \<open>CPU \<open>j\<close>, at \<open>pc\<close>, is or will be behind CPU \<open>i\<close>, whose word is \<open>xi\<close>.\<close>

fun behind :: "nat \<Rightarrow> bakery_pc \<Rightarrow> u16 \<Rightarrow> nat \<Rightarrow> u16 \<Rightarrow> bool" where
  "behind j Outside xj i xi \<longleftrightarrow> True"
| "behind j (Choosing k t) xj i xi \<longleftrightarrow> (i < k \<longrightarrow> tick xi \<le> unat t)"
| "behind j _ xj i xi \<longleftrightarrow> tick xi < tick xj \<or> tick xi = tick xj \<and> i < j"

definition pair_ok :: "nat \<Rightarrow> bakery_pc \<Rightarrow> u16 \<Rightarrow> nat \<Rightarrow> bakery_pc \<Rightarrow> u16 \<Rightarrow> bool" where
  "pair_ok i pi xi j pj xj \<longleftrightarrow> (passed pi j \<longrightarrow> behind j pj xj i xi) \<and>
     (\<forall>t u. pi = Waiting j t u \<longrightarrow> tick xj = unat u \<or> behind j pj xj i xi)"

definition bakery_inv :: "nat \<Rightarrow> bakery_system \<Rightarrow> bool" where
  "bakery_inv n x \<longleftrightarrow> (case x of (pcs, d) \<Rightarrow> length pcs = n \<and> length d = n \<and>
     (\<forall>i<n. cell_ok n i (pcs ! i) (d ! i)) \<and>
     (\<forall>i<n. \<forall>j<n. i \<noteq> j \<longrightarrow> pair_ok i (pcs ! i) (d ! i) j (pcs ! j) (d ! j)))"

lemma cell_tick:
  assumes "cell_ok n i pc x"
  shows "tick x \<noteq> 0 \<longleftrightarrow> pc \<noteq> Outside \<and> (\<forall>k t. pc \<noteq> Choosing k t)"
    and "bakery_is_choosing (ucast x) \<longleftrightarrow> (\<exists>k t. pc = Choosing k t)"
  using assms by (cases pc; auto simp: chosen_data choosing_data unat_eq_0)+

lemma bakery_inv_start: "bakery_inv n (bakery_start n)"
  by (simp add: bakery_inv_def bakery_start_def pair_ok_def)

text \<open>A step changes the place of one CPU and its word. The invariant has to be shown for the pairs
  that the CPU is part of.\<close>

lemma bakery_inv_upd:
  assumes inv: "bakery_inv n (pcs, d)" and me: "me < n" and cell: "cell_ok n me pc x"
    and l: "\<And>j. j < n \<Longrightarrow> j \<noteq> me \<Longrightarrow> pair_ok me pc x j (pcs ! j) (d ! j)"
    and r: "\<And>j. j < n \<Longrightarrow> j \<noteq> me \<Longrightarrow> pair_ok j (pcs ! j) (d ! j) me pc x"
  shows "bakery_inv n (pcs[me := pc], d[me := x])"
  using inv me cell l r unfolding bakery_inv_def by (simp add: nth_list_update)

lemma bakery_inv_keep:
  assumes inv: "bakery_inv n (pcs, d)" and me: "me < n" and cell: "cell_ok n me pc (d ! me)"
    and l: "\<And>j. j < n \<Longrightarrow> j \<noteq> me \<Longrightarrow> pair_ok me pc (d ! me) j (pcs ! j) (d ! j)"
    and r: "\<And>j. j < n \<Longrightarrow> j \<noteq> me \<Longrightarrow> pair_ok j (pcs ! j) (d ! j) me pc (d ! me)"
  shows "bakery_inv n (pcs[me := pc], d)"
  using bakery_inv_upd[OF inv me cell l r] inv by (simp add: bakery_inv_def)

lemma bakery_invD:
  assumes "bakery_inv n (pcs, d)" "i < n"
  shows "cell_ok n i (pcs ! i) (d ! i)" "length pcs = n" "length d = n"
    and "j < n \<Longrightarrow> i \<noteq> j \<Longrightarrow> pair_ok i (pcs ! i) (d ! i) j (pcs ! j) (d ! j)"
  using assms by (simp_all add: bakery_inv_def)

text \<open>Once a CPU has its ticket, only its word matters to those who are or will be behind others.\<close>

lemma pair_ok_contender:
  assumes "pair_ok i pi xi me pc x" "cell_ok n me pc x" "cell_ok n me pc' x" "tick x \<noteq> 0"
  shows "pair_ok i pi xi me pc' x"
proof -
  have "behind me pc x i xi \<longleftrightarrow> behind me pc' x i xi"
    using cell_tick(1)[OF assms(2)] cell_tick(1)[OF assms(3)] assms(4) by (cases pc; cases pc') auto
  then show ?thesis using assms(1) unfolding pair_ok_def by blast
qed

lemma enter_inv:
  assumes inv: "bakery_inv n (pcs, d)" and me: "me < n" and pc: "pcs ! me = Outside"
    and st: "bakery_get_ticket_enter me d = Some (pc', d')"
  shows "bakery_inv n (pcs[me := pc'], d')"
proof -
  have "pc' = Choosing 0 0" "d' = d[me := make_bakery_data CHOOSING_TICKET 0]"
    using st by (simp_all add: bakery_get_ticket_enter_def)
  then show ?thesis using bakery_inv_upd[OF inv me, of pc' "make_bakery_data CHOOSING_TICKET 0"] by (simp add: pair_ok_def)
qed

lemma ticket_loop_inv:
  assumes inv: "bakery_inv n (pcs, d)" and me: "me < n" and pc: "pcs ! me = Choosing k t"
    and st: "bakery_get_ticket_loop me k t d = Some (pc', d')" and fit: "my_ticket_of pc' < 0x8000"
  shows "bakery_inv n (pcs[me := pc'], d')"
proof -
  note D = bakery_invD[OF inv me]
  have x: "d ! me = make_bakery_data CHOOSING_TICKET 0" "t < 0x8000" "k \<le> n" using D(1) pc by simp_all
  have old: "j < k \<longrightarrow> tick (d ! j) \<le> unat t"
    if "j < n" "j \<noteq> me" "passed (pcs ! j) me \<or> (\<exists>u v. pcs ! j = Waiting me u v)" for j
  proof -
    have "pair_ok j (pcs ! j) (d ! j) me (Choosing k t) (d ! me)" using bakery_invD(4)[OF inv that(1) me] that(2) pc by simp
    moreover have "cell_ok n j (pcs ! j) (d ! j)" by (rule bakery_invD(1)[OF inv that(1)])
    ultimately show ?thesis using that(3) by (auto simp: pair_ok_def x(1) choosing_data unat_eq_0)
  qed
  show ?thesis
  proof (cases "k < n")
    case True
    define t' where "t' = (if bakery_ticket_number (ucast (d ! k)) > t then bakery_ticket_number (ucast (d ! k)) else t)"
    have t': "unat t \<le> unat t'" "tick (d ! k) \<le> unat t'" "t' < 0x8000"
      using ticket_small x(2) by (auto simp: t'_def word_less_nat_alt)
    have eq: "pc' = Choosing (Suc k) t'" "d' = d"
      using st True D(3) by (auto simp: bakery_get_ticket_loop_def t'_def Let_def)
    have "j < Suc k \<longrightarrow> tick (d ! j) \<le> unat t'"
      if "j < n" "j \<noteq> me" "passed (pcs ! j) me \<or> (\<exists>u v. pcs ! j = Waiting me u v)" for j
      using old[OF that] t' by (auto simp: less_Suc_eq)
    then have "pair_ok j (pcs ! j) (d ! j) me pc' (d ! me)" if "j < n" "j \<noteq> me" for j
      using that by (auto simp: eq pair_ok_def)
    then show ?thesis
      unfolding eq using bakery_inv_keep[OF inv me, of "Choosing (Suc k) t'"] x t' True by (simp add: eq pair_ok_def)
  next
    case False
    have eq: "pc' = Contending 0 (t + 1)" "d' = d[me := make_bakery_data CHOSEN_TICKET (t + 1)]"
      using st False D(3) by (auto simp: bakery_get_ticket_loop_def Let_def)
    have t1: "t + 1 < 0x8000" "unat (t + 1) = unat t + 1"
      using fit x(2) unat_add_lem[of t 1] by (simp_all add: eq word_less_nat_alt)
    then have "t + 1 \<noteq> 0" by (metis Suc_eq_plus1 nat.distinct(1) unat_0)
    moreover have "pair_ok j (pcs ! j) (d ! j) me (Contending 0 (t + 1)) (make_bakery_data CHOSEN_TICKET (t + 1))"
      if "j < n" "j \<noteq> me" for j
      using old[OF that] that False t1 by (auto simp: pair_ok_def chosen_data)
    ultimately show ?thesis
      unfolding eq using bakery_inv_upd[OF inv me, of "Contending 0 (t + 1)" "make_bakery_data CHOSEN_TICKET (t + 1)"] t1(1)
      by (simp add: pair_ok_def)
  qed
qed

text \<open>The steps of a CPU that has its ticket.\<close>

lemma contender_inv:
  assumes inv: "bakery_inv n (pcs, d)" and me: "me < n" and c: "cell_ok n me pc' (d ! me)" "tick (d ! me) \<noteq> 0"
    and l: "\<And>j. j < n \<Longrightarrow> j \<noteq> me \<Longrightarrow> pair_ok me (pcs ! me) (d ! me) j (pcs ! j) (d ! j) \<Longrightarrow> pair_ok me pc' (d ! me) j (pcs ! j) (d ! j)"
  shows "bakery_inv n (pcs[me := pc'], d)"
proof (rule bakery_inv_keep[OF inv me c(1)])
  fix j assume j: "j < n" "j \<noteq> me"
  then show "pair_ok me pc' (d ! me) j (pcs ! j) (d ! j)" using l bakery_invD(4)[OF inv me] by simp
  show "pair_ok j (pcs ! j) (d ! j) me pc' (d ! me)"
    using pair_ok_contender[OF bakery_invD(4)[OF inv j(1) me j(2)] bakery_invD(1)[OF inv me] c] .
qed

lemma get_loop_inv:
  assumes inv: "bakery_inv n (pcs, d)" and me: "me < n" and n: "n \<le> 256" and pc: "pcs ! me = Contending k t"
    and st: "bakery_lock_get_loop me k t d = Some (pc', d')"
  shows "bakery_inv n (pcs[me := pc'], d')"
proof -
  note D = bakery_invD[OF inv me]
  have x: "d ! me = make_bakery_data CHOSEN_TICKET t" "t \<noteq> 0" "t < 0x8000" "k \<le> n" using D(1) pc by simp_all
  have tick: "tick (d ! me) = unat t" "tick (d ! me) \<noteq> 0" using x by (simp_all add: chosen_data unat_eq_0)
  have d: "d' = d" using st D(3) by (auto simp: bakery_lock_get_loop_def Let_def split: if_split_asm)
  let ?their = "bakery_ticket_number (ucast (d ! k))"
  consider "\<not> k < n" "pc' = Critical" | "k < n" "me = k" "pc' = Contending (Suc k) t" | "pc' = pcs ! me"
    | "k < n" "me \<noteq> k" "?their \<noteq> 0" "bakery_get_priority ?their (of_nat k) < bakery_get_priority t (of_nat me)" "pc' = Waiting k t ?their"
    | "k < n" "me \<noteq> k" "\<not> bakery_is_choosing (ucast (d ! k))"
      "?their = 0 \<or> \<not> bakery_get_priority ?their (of_nat k) < bakery_get_priority t (of_nat me)" "pc' = Contending (Suc k) t"
    using st D(3) pc by (auto simp: bakery_lock_get_loop_def Let_def split: if_split_asm)
  then show ?thesis
  proof cases
    case 1
    then show ?thesis
      unfolding d using x tick pc by (intro contender_inv[OF inv me]) (auto simp: pair_ok_def)
  next
    case 2
    then show ?thesis
      unfolding d using x tick pc by (intro contender_inv[OF inv me]) (auto simp: pair_ok_def less_Suc_eq)
  next
    case 3
    then show ?thesis using inv D(2) me d by simp
  next
    case 4
    have "unat ?their < unat t \<or> unat ?their = unat t \<and> k < me"
      using 4(4) priority_less[OF less_imp_le[OF ticket_small] less_imp_le[OF x(3)], of k me] 4(1) me n by simp
    with 4 show ?thesis
      unfolding d using x tick pc by (intro contender_inv[OF inv me]) (auto simp: pair_ok_def)
  next
    case 5
    have "cell_ok n k (pcs ! k) (d ! k)" by (rule bakery_invD(1)[OF inv 5(1)])
    moreover have "?their \<noteq> 0 \<Longrightarrow> unat t < unat ?their \<or> unat t = unat ?their \<and> me < k"
      using 5(2,4) priority_less[OF less_imp_le[OF ticket_small] less_imp_le[OF x(3)], of k me] 5(1) me n by simp linarith
    ultimately have "behind k (pcs ! k) (d ! k) me (d ! me)"
      using cell_tick[of n k "pcs ! k" "d ! k"] 5(3) tick(1) by (cases "pcs ! k") (auto simp: unat_eq_0)
    with 5 show ?thesis
      unfolding d using x tick pc by (intro contender_inv[OF inv me]) (auto simp: pair_ok_def less_Suc_eq)
  qed
qed

lemma wait_inv:
  assumes inv: "bakery_inv n (pcs, d)" and me: "me < n" and pc: "pcs ! me = Waiting k t u"
    and st: "bakery_lock_get_wait k t u d = Some (pc', d')"
  shows "bakery_inv n (pcs[me := pc'], d')"
proof -
  note D = bakery_invD[OF inv me]
  have x: "d ! me = make_bakery_data CHOSEN_TICKET t" "t \<noteq> 0" "t < 0x8000" "k < n" "k \<noteq> me" using D(1) pc by simp_all
  have tick: "tick (d ! me) \<noteq> 0" using x by (simp add: chosen_data unat_eq_0)
  have d: "d' = d" using st by (auto simp: bakery_lock_get_wait_def)
  show ?thesis
  proof (cases "u = bakery_ticket_number (ucast (d ! k))")
    case True
    then have "pc' = pcs ! me" using st pc by (auto simp: bakery_lock_get_wait_def)
    then show ?thesis using inv D(2) me d by simp
  next
    case False
    then have "pc' = Contending (Suc k) t" "tick (d ! k) \<noteq> unat u"
      using st by (auto simp: bakery_lock_get_wait_def word_unat_eq_iff)
    then show ?thesis
      unfolding d using x tick pc False by (intro contender_inv[OF inv me]) (auto simp: pair_ok_def less_Suc_eq)
  qed
qed

lemma release_inv:
  assumes inv: "bakery_inv n (pcs, d)" and me: "me < n" and st: "bakery_lock_release me d = Some (pc', d')"
  shows "bakery_inv n (pcs[me := pc'], d')"
proof -
  have "pc' = Outside" "d' = d[me := 0]" using st by (simp_all add: bakery_lock_release_def)
  then show ?thesis using bakery_inv_upd[OF inv me, of Outside 0] by (simp add: pair_ok_def)
qed

lemma bakery_step_inv:
  assumes inv: "bakery_inv n x" and n: "n \<le> 256" and st: "fitting_step x y"
  shows "bakery_inv n y"
proof -
  obtain pcs d where x: "x = (pcs, d)" by (cases x)
  from st have "bakery_step (pcs, d) y" "tickets_fit y" by (simp_all add: fitting_step_def x)
  then obtain me pc d' where me: "me < length pcs" and c: "bakery_cpu me (pcs ! me) d = Some (pc, d')" and y: "y = (pcs[me := pc], d')"
    by (auto elim: bakery_stepE)
  have m: "me < n" using inv me by (simp add: x bakery_inv_def)
  have fit: "my_ticket_of pc < 0x8000" using \<open>tickets_fit y\<close> me set_update_memI[OF me, of pc] by (simp add: tickets_fit_def y)
  show ?thesis
    unfolding y using inv c fit enter_inv[OF _ m] ticket_loop_inv[OF _ m] get_loop_inv[OF _ m n] wait_inv[OF _ m] release_inv[OF _ m]
    by (cases "pcs ! me") (simp_all add: x)
qed

interpretation bakery: step_invariant fitting_step "\<lambda>x. n \<le> 256 \<and> bakery_inv n x" for n
  by unfold_locales (blast intro: bakery_step_inv)

lemma bakery_reach_inv: "n \<le> 256 \<Longrightarrow> fitting_step\<^sup>*\<^sup>* (bakery_start n) x \<Longrightarrow> bakery_inv n x"
  using bakery.reach_inv[of "bakery_start n" x n] bakery_inv_start by blast

subsection \<open>Exclusion and progress\<close>






text \<open>(C8) Mutual exclusion: as long as the tickets fit into their 15 bits, two CPUs never hold the lock
  at the same time, for up to 256 CPUs and in whatever order they take their steps.\<close>

theorem bakery_mutual_exclusion:
  assumes "n \<le> 256" and "fitting_step\<^sup>*\<^sup>* (bakery_start n) (pcs, d)"
    and "i < n" "pcs ! i = Critical" and "j < n" "pcs ! j = Critical"
  shows "i = j"
proof (rule ccontr)
  assume "i \<noteq> j"
  moreover have inv: "bakery_inv n (pcs, d)" by (rule bakery_reach_inv[OF assms(1,2)])
  ultimately show False
    using bakery_invD(4)[OF inv assms(3,5)] bakery_invD(4)[OF inv assms(5,3)] assms(4,6) by (auto simp: pair_ok_def)
qed


subsection \<open>The wrap around of tickets\<close>

text \<open>The steps of a given sequence of CPUs, through states that satisfy \<open>P\<close>.\<close>

fun bakery_sched :: "(bakery_system \<Rightarrow> bool) \<Rightarrow> nat list \<Rightarrow> bakery_system \<Rightarrow> bakery_system option" where
  "bakery_sched P [] x = Some x"
| "bakery_sched P (me # rest) (pcs, d) =
     (if me < length pcs
      then do {
        (pc, d') \<leftarrow> bakery_cpu me (pcs ! me) d;
        if P (pcs[me := pc], d') then bakery_sched P rest (pcs[me := pc], d') else None
      }
      else None)"

lemma bakery_sched_steps: "bakery_sched P order x = Some y \<Longrightarrow> (\<lambda>x y. bakery_step x y \<and> P y)\<^sup>*\<^sup>* x y"
proof (induction P order x rule: bakery_sched.induct)
  case (2 P me rest pcs d)
  then obtain pc d' where c: "me < length pcs" "bakery_cpu me (pcs ! me) d = Some (pc, d')" "P (pcs[me := pc], d')"
    and r: "bakery_sched P rest (pcs[me := pc], d') = Some y"
    by (auto simp: bind_Some_iff split: if_split_asm)
  have "(\<lambda>x y. bakery_step x y \<and> P y)\<^sup>*\<^sup>* (pcs[me := pc], d') y" by (rule 2(1)[OF c(1,2) refl c(3) r])
  then show ?case using bakery_step.cpu[OF c(1,2)] c(3) by (auto intro: converse_rtranclp_into_rtranclp)
qed simp

abbreviation any_sched :: "nat list \<Rightarrow> bakery_system \<Rightarrow> bakery_system option" where
  "any_sched \<equiv> bakery_sched (\<lambda>_. True)"

lemma any_sched_steps: "any_sched order x = Some y \<Longrightarrow> bakery_step\<^sup>*\<^sup>* x y"
  using bakery_sched_steps[of "\<lambda>_. True" order x y] by simp

lemma fitting_sched_steps: "bakery_sched tickets_fit order x = Some y \<Longrightarrow> fitting_step\<^sup>*\<^sup>* x y"
  using bakery_sched_steps[of tickets_fit order x y] by (simp add: fitting_step_def[abs_def])

text \<open>Two CPUs that keep each other waiting: the next ticket is always one more.\<close>

definition held_by_0 :: "u32 \<Rightarrow> bakery_system" where
  "held_by_0 t = ([Critical, Outside], [make_bakery_data CHOSEN_TICKET t, 0])"

definition held_by_1 :: "u32 \<Rightarrow> bakery_system" where
  "held_by_1 t = ([Outside, Critical], [0, make_bakery_data CHOSEN_TICKET t])"

lemmas bakery_defs = bakery_get_ticket_enter_def bakery_get_ticket_loop_def bakery_lock_get_loop_def
  bakery_lock_get_wait_def bakery_lock_release_def

lemma hand_over:
  assumes t: "t \<noteq> 0" "t < 0x8000"
  shows "any_sched [1, 1, 1, 1, 1, 0, 1, 1, 1] (held_by_0 t) = Some (held_by_1 (t + 1))"
    and "any_sched [0, 0, 0, 0, 0, 0, 1, 0, 0] (held_by_1 t) = Some (held_by_0 (t + 1))"
proof -
  have u: "unat t < 0x8000" "unat (t + 1) = unat t + 1" "t + 1 \<le> 0x8000" "t \<le> 0x8000"
    using t(2) unat_add_lem[of t 1] by (simp_all add: word_less_nat_alt word_le_nat_alt)
  have p: "bakery_get_priority t 0 < bakery_get_priority (t + 1) 1" "bakery_get_priority t 1 < bakery_get_priority (t + 1) 0"
    using priority_less[OF u(4,3), of 0 1] priority_less[OF u(4,3), of 1 0] u(2) by simp_all
  have "t > 0" using t(1) by (simp add: word_neq_0_conv)
  note facts = held_by_0_def held_by_1_def bakery_defs chosen_data[OF t(2)] choosing_data p this t(1) Let_def
  show "any_sched [1, 1, 1, 1, 1, 0, 1, 1, 1] (held_by_0 t) = Some (held_by_1 (t + 1))" by (simp add: facts)
  show "any_sched [0, 0, 0, 0, 0, 0, 1, 0, 0] (held_by_1 t) = Some (held_by_0 (t + 1))" by (simp add: facts)
qed

lemma start_two: "bakery_start 2 = ([Outside, Outside], [0, 0])"
  by (simp add: bakery_start_def numeral_2_eq_2)

lemma held_reachable:
  "k < 0x4000 \<Longrightarrow> bakery_step\<^sup>*\<^sup>* (bakery_start 2) (held_by_0 (of_nat (2 * k + 1)))"
proof (induction k)
  case 0
  have "any_sched [0, 0, 0, 0, 0, 0, 0] (bakery_start 2) = Some (held_by_0 1)"
    by (simp add: start_two held_by_0_def bakery_defs choosing_data Let_def)
  then show ?case by (simp add: any_sched_steps)
next
  case (Suc k)
  let ?t = "of_nat (2 * k + 1) :: u32"
  have u: "unat ?t = 2 * k + 1" using Suc.prems by (simp only: unat_of_nat) simp
  then have t: "?t \<noteq> 0" "?t < 0x8000" using Suc.prems by (auto simp: word_less_nat_alt)
  have t1: "unat (?t + 1) = 2 * k + 2" using u Suc.prems unat_add_lem[of ?t 1] by simp
  then have t2: "?t + 1 \<noteq> 0" "?t + 1 < 0x8000" using Suc.prems by (auto simp: word_less_nat_alt)
  have "bakery_step\<^sup>*\<^sup>* (held_by_0 ?t) (held_by_0 (?t + 1 + 1))"
    using any_sched_steps[OF hand_over(1)[OF t]] any_sched_steps[OF hand_over(2)[OF t2]] by simp
  moreover have "?t + 1 + 1 = of_nat (2 * Suc k + 1)" by simp
  ultimately show ?case using Suc by (metis Suc_lessD rtranclp_trans)
qed

text \<open>(C35) Tickets wrap around. Two CPUs that keep contending draw ever higher tickets; after 32767
  hand-overs without a pause the ticket 0x8000 is stored as zero. The CPU that gets the lock with it
  looks like one that does not want the lock, so the other one gets the lock as well.\<close>

theorem bakery_ticket_wraps:
  "\<exists>d. bakery_step\<^sup>*\<^sup>* (bakery_start 2) ([Critical, Critical], d)"
proof -
  have "bakery_step\<^sup>*\<^sup>* (bakery_start 2) (held_by_0 0x7FFF)" using held_reachable[of "0x3FFF"] by simp
  moreover have "bakery_step\<^sup>*\<^sup>* (held_by_0 0x7FFF) (held_by_1 0x8000)"
    using any_sched_steps[OF hand_over(1)[of "0x7FFF"]] by simp
  moreover have zero: "held_by_1 0x8000 = ([Outside, Critical], [0, 0])"
    by (simp add: held_by_1_def make_bakery_data_def CHOSEN_TICKET_def)
  moreover have "any_sched [0, 0, 0, 0, 0, 0, 0] ([Outside, Critical], [0, 0]) =
      Some ([Critical, Critical], [make_bakery_data CHOSEN_TICKET 1, 0])"
    by (simp add: bakery_defs choosing_data Let_def)
  ultimately show ?thesis by (metis any_sched_steps rtranclp_trans)
qed

subsection \<open>Example runs\<close>

text \<open>CPU 0 gets the lock while CPU 1 is choosing its ticket and then waits.\<close>

lemma example_run:
  "fitting_step\<^sup>*\<^sup>* (bakery_start 2) ([Critical, Waiting 0 2 1], [make_bakery_data CHOSEN_TICKET 1, make_bakery_data CHOSEN_TICKET 2])"
proof (rule fitting_sched_steps)
  have "bakery_get_priority 1 0 < bakery_get_priority 2 1" by (simp add: bakery_get_priority_def)
  then show "bakery_sched tickets_fit [0, 0, 0, 0, 0, 0, 1, 1, 0, 1, 1, 1] (bakery_start 2) =
      Some ([Critical, Waiting 0 2 1], [make_bakery_data CHOSEN_TICKET 1, make_bakery_data CHOSEN_TICKET 2])"
    by (simp add: start_two bakery_defs choosing_data chosen_data tickets_fit_def Let_def)
qed

theorem bakery_mutual_exclusion_witness:
  "fitting_step\<^sup>*\<^sup>* (bakery_start 2) ([Critical, Waiting 0 2 1], [make_bakery_data CHOSEN_TICKET 1, make_bakery_data CHOSEN_TICKET 2]) \<and>
   [Critical, Waiting 0 2 1] ! 0 = Critical \<and> [Critical, Waiting 0 2 1] ! 1 \<noteq> Critical"
proof (intro conjI notI)
  assume "[Critical, Waiting 0 2 1] ! 1 = Critical"
  then have "0 = (1::nat)" by (rule bakery_mutual_exclusion[OF _ example_run, of 0 1, rotated 4]) simp_all
  then show False by simp
qed (simp_all add: example_run)


end
