(* ===== verification/Xlat_Tables.thy ===== *)
theory Xlat_Tables
  imports Interrupt_Mgmt
begin

section \<open>Translation tables\<close>

text \<open>
  The translation table library (\<^verbatim>\<open>lib/xlat_tables_v2\<close>) for AArch64 with 4 KiB pages: the list of memory
  regions of a context, the tables built from it, and the run-time changes of regions and
  attributes. The build option \<^verbatim>\<open>PLAT_XLAT_TABLES_DYNAMIC\<close> is a field of the context.

  A table is a list of 64-bit descriptors. The tables of a context lie next to each other in memory,
  at \<open>xc_tables_addr\<close>; the address that a table descriptor holds is turned back into the number of a
  table. Writes of descriptors and TLB invalidations are recorded in the order they happen, cache
  maintenance is not.
\<close>

subsection \<open>Descriptors and levels\<close>

definition XLAT_TABLE_LEVEL_MAX :: nat where "XLAT_TABLE_LEVEL_MAX = 3"
definition XLAT_TABLE_ENTRIES :: nat where "XLAT_TABLE_ENTRIES = 512"
definition PAGE_SIZE_SHIFT :: nat where "PAGE_SIZE_SHIFT = 12"
definition XLAT_TABLE_ENTRIES_SHIFT :: nat where "XLAT_TABLE_ENTRIES_SHIFT = 9"
definition MIN_LVL_BLOCK_DESC :: nat where "MIN_LVL_BLOCK_DESC = 1"

definition XLAT_ADDR_SHIFT :: "nat \<Rightarrow> nat" where
  "XLAT_ADDR_SHIFT level = PAGE_SIZE_SHIFT + (XLAT_TABLE_LEVEL_MAX - level) * XLAT_TABLE_ENTRIES_SHIFT"

definition XLAT_BLOCK_SIZE :: "nat \<Rightarrow> u64" where
  "XLAT_BLOCK_SIZE level = push_bit (XLAT_ADDR_SHIFT level) 1"

definition XLAT_BLOCK_MASK :: "nat \<Rightarrow> u64" where
  "XLAT_BLOCK_MASK level = XLAT_BLOCK_SIZE level - 1"

definition XLAT_TABLE_IDX :: "u64 \<Rightarrow> nat \<Rightarrow> u64" where
  "XLAT_TABLE_IDX virtual_addr level = drop_bit (XLAT_ADDR_SHIFT level) virtual_addr AND 0x1FF"

definition PAGE_SIZE :: u64 where "PAGE_SIZE = push_bit PAGE_SIZE_SHIFT 1"
definition IS_PAGE_ALIGNED :: "u64 \<Rightarrow> bool" where
  "IS_PAGE_ALIGNED addr \<longleftrightarrow> addr AND (PAGE_SIZE - 1) = 0"

definition INVALID_DESC :: u64 where "INVALID_DESC = 0"
definition BLOCK_DESC :: u64 where "BLOCK_DESC = 1"
definition TABLE_DESC :: u64 where "TABLE_DESC = 3"
definition PAGE_DESC :: u64 where "PAGE_DESC = 3"
definition DESC_MASK :: u64 where "DESC_MASK = 3"
definition TABLE_ADDR_MASK :: u64 where "TABLE_ADDR_MASK = 0x0000FFFFFFFFF000"

definition LOWER_ATTRS :: "u64 \<Rightarrow> u64" where "LOWER_ATTRS x = push_bit 2 (x AND 0xFFF)"
definition UPPER_ATTRS :: "u64 \<Rightarrow> u64" where "UPPER_ATTRS x = push_bit 52 (x AND 7)"
definition XN :: u64 where "XN = 4"
definition UXN :: u64 where "UXN = 4"
definition PXN :: u64 where "PXN = 2"
definition ACCESS_FLAG :: u64 where "ACCESS_FLAG = 0x100"
definition OSH :: u64 where "OSH = 0x80"
definition ISH :: u64 where "ISH = 0xC0"
definition AP_RO :: u64 where "AP_RO = 0x20"
definition AP_RW :: u64 where "AP_RW = 0"
definition AP_ACCESS_UNPRIVILEGED :: u64 where "AP_ACCESS_UNPRIVILEGED = 0x10"
definition AP_NO_ACCESS_UNPRIVILEGED :: u64 where "AP_NO_ACCESS_UNPRIVILEGED = 0"
definition AP_ONE_VA_RANGE_RES1 :: u64 where "AP_ONE_VA_RANGE_RES1 = 0x10"
definition NS :: u64 where "NS = 8"
definition ATTR_NON_CACHEABLE_INDEX :: u64 where "ATTR_NON_CACHEABLE_INDEX = 2"
definition ATTR_DEVICE_INDEX :: u64 where "ATTR_DEVICE_INDEX = 1"
definition ATTR_IWBWA_OWBWA_NTR_INDEX :: u64 where "ATTR_IWBWA_OWBWA_NTR_INDEX = 0"

definition MT_TYPE :: "u32 \<Rightarrow> u32" where "MT_TYPE attr = attr AND 7"
definition MT_DEVICE :: u32 where "MT_DEVICE = 0"
definition MT_NON_CACHEABLE :: u32 where "MT_NON_CACHEABLE = 1"
definition MT_MEMORY :: u32 where "MT_MEMORY = 2"
definition MT_RW :: u32 where "MT_RW = 8"
definition MT_NS :: u32 where "MT_NS = 0x10"
definition MT_EXECUTE_NEVER :: u32 where "MT_EXECUTE_NEVER = 0x20"
definition MT_USER :: u32 where "MT_USER = 0x40"
definition MT_DYNAMIC :: u32 where "MT_DYNAMIC = 0x80000000"

definition EL1_EL0_REGIME :: int where "EL1_EL0_REGIME = 1"
definition EL2_REGIME :: int where "EL2_REGIME = 2"
definition EL3_REGIME :: int where "EL3_REGIME = 3"

definition GET_XLAT_TABLE_LEVEL_BASE :: "u64 \<Rightarrow> nat" where
  "GET_XLAT_TABLE_LEVEL_BASE sz =
     (if sz > push_bit (XLAT_ADDR_SHIFT 0) 1 then 0
      else if sz > push_bit (XLAT_ADDR_SHIFT 1) 1 then 1
      else if sz > push_bit (XLAT_ADDR_SHIFT 2) 1 then 2 else 3)"

definition GET_NUM_BASE_LEVEL_ENTRIES :: "u64 \<Rightarrow> nat" where
  "GET_NUM_BASE_LEVEL_ENTRIES sz = unat (drop_bit (XLAT_ADDR_SHIFT (GET_XLAT_TABLE_LEVEL_BASE sz)) sz)"

subsection \<open>Regions and contexts\<close>

record mmap_region =
  base_pa :: u64
  base_va :: u64
  mm_size :: u64
  mm_attr :: u32
  granularity :: u64

definition end_pa_of :: "mmap_region \<Rightarrow> u64" where "end_pa_of mm = base_pa mm + mm_size mm - 1"
definition end_va_of :: "mmap_region \<Rightarrow> u64" where "end_va_of mm = base_va mm + mm_size mm - 1"

datatype table_ref = Base_table | Sub_table nat

datatype xlat_event = Ev_entry table_ref nat u64 | Ev_tlbi u64 | Ev_tlbi_sync

record xlat_ctx =
  pa_max_address :: u64
  va_max_address :: u64
  mmap :: "mmap_region list"
  mmap_num :: nat
  tables :: "u64 list list"
  tables_num :: nat
  tables_mapped_regions :: "int list"
  next_table :: nat
  base_table :: "u64 list"
  base_table_entries :: nat
  max_pa :: u64
  max_va :: u64
  base_level :: nat
  initialized :: bool
  xlat_regime :: int
  xc_dynamic :: bool
  xc_tables_addr :: u64
  xlat_log :: "xlat_event list"

text \<open>The context that the registration macro sets up, with the build option for dynamic regions and the
  address at which the tables are linked; all its arrays are zero.\<close>

definition zero_region :: mmap_region where
  "zero_region = \<lparr>base_pa = 0, base_va = 0, mm_size = 0, mm_attr = 0, granularity = 0\<rparr>"

definition REGISTER_XLAT_CONTEXT_FULL_SPEC :: "bool \<Rightarrow> u64 \<Rightarrow> nat \<Rightarrow> nat \<Rightarrow> u64 \<Rightarrow> u64 \<Rightarrow> int \<Rightarrow> xlat_ctx" where
  "REGISTER_XLAT_CONTEXT_FULL_SPEC dyn tables_addr mmap_count xlat_tables_count virt_addr_space_size phy_addr_space_size regime =
     \<lparr>pa_max_address = phy_addr_space_size - 1, va_max_address = virt_addr_space_size - 1,
      mmap = replicate (mmap_count + 1) zero_region, mmap_num = mmap_count,
      tables = replicate xlat_tables_count (replicate XLAT_TABLE_ENTRIES 0), tables_num = xlat_tables_count,
      tables_mapped_regions = (if dyn then replicate xlat_tables_count 0 else []), next_table = 0,
      base_table = replicate (GET_NUM_BASE_LEVEL_ENTRIES virt_addr_space_size) 0,
      base_table_entries = GET_NUM_BASE_LEVEL_ENTRIES virt_addr_space_size, max_pa = 0, max_va = 0,
      base_level = GET_XLAT_TABLE_LEVEL_BASE virt_addr_space_size, initialized = False, xlat_regime = regime,
      xc_dynamic = dyn, xc_tables_addr = tables_addr, xlat_log = []\<rparr>"

definition xlat_emit :: "xlat_event \<Rightarrow> xlat_ctx \<Rightarrow> xlat_ctx" where
  "xlat_emit ev ctx = ctx\<lparr>xlat_log := xlat_log ctx @ [ev]\<rparr>"

definition xlat_table_addr :: "xlat_ctx \<Rightarrow> nat \<Rightarrow> u64" where
  "xlat_table_addr ctx i = xc_tables_addr ctx + of_nat (4096 * i)"

definition xlat_table_at :: "xlat_ctx \<Rightarrow> u64 \<Rightarrow> table_ref option" where
  "xlat_table_at ctx addr =
     (let off = addr - xc_tables_addr ctx in
      if off AND 0xFFF = 0 \<and> unat (off div 4096) < tables_num ctx then Some (Sub_table (unat (off div 4096))) else None)"

fun xlat_read :: "table_ref \<Rightarrow> nat \<Rightarrow> xlat_ctx \<Rightarrow> u64 option" where
  "xlat_read Base_table idx ctx = aread (base_table ctx) idx"
| "xlat_read (Sub_table i) idx ctx = do { t \<leftarrow> aread (tables ctx) i; aread t idx }"

fun xlat_write :: "table_ref \<Rightarrow> nat \<Rightarrow> u64 \<Rightarrow> xlat_ctx \<Rightarrow> xlat_ctx option" where
  "xlat_write Base_table idx v ctx = do {
     t \<leftarrow> awrite (base_table ctx) idx v;
     Some (xlat_emit (Ev_entry Base_table idx v) (ctx\<lparr>base_table := t\<rparr>))
   }"
| "xlat_write (Sub_table i) idx v ctx = do {
     t \<leftarrow> aread (tables ctx) i;
     t \<leftarrow> awrite t idx v;
     Some (xlat_emit (Ev_entry (Sub_table i) idx v) (ctx\<lparr>tables := (tables ctx)[i := t]\<rparr>))
   }"

subsection \<open>The pool of tables\<close>

definition xlat_table_get_index :: "xlat_ctx \<Rightarrow> table_ref \<Rightarrow> nat option" where
  "xlat_table_get_index ctx t =
     (case t of Base_table \<Rightarrow> None | Sub_table i \<Rightarrow> if i < tables_num ctx then Some i else None)"

fun xlat_table_scan :: "int list \<Rightarrow> nat \<Rightarrow> nat \<Rightarrow> nat option option" where
  "xlat_table_scan regions i 0 = Some None"
| "xlat_table_scan regions i (Suc k) = do {
     n \<leftarrow> aread regions i;
     if n = 0 then Some (Some i) else xlat_table_scan regions (Suc i) k
   }"

definition xlat_table_get_empty :: "xlat_ctx \<Rightarrow> (nat option \<times> xlat_ctx) option" where
  "xlat_table_get_empty ctx =
     (if xc_dynamic ctx
      then do {
        i \<leftarrow> xlat_table_scan (tables_mapped_regions ctx) 0 (tables_num ctx);
        Some (i, ctx)
      }
      else do {
        assert_c (next_table ctx < tables_num ctx);
        Some (Some (next_table ctx), ctx\<lparr>next_table := next_table ctx + 1\<rparr>)
      })"

definition xlat_table_inc_regions_count :: "table_ref \<Rightarrow> xlat_ctx \<Rightarrow> xlat_ctx option" where
  "xlat_table_inc_regions_count t ctx = do {
     idx \<leftarrow> xlat_table_get_index ctx t;
     n \<leftarrow> aread (tables_mapped_regions ctx) idx;
     Some (ctx\<lparr>tables_mapped_regions := (tables_mapped_regions ctx)[idx := n + 1]\<rparr>)
   }"

definition xlat_table_dec_regions_count :: "table_ref \<Rightarrow> xlat_ctx \<Rightarrow> xlat_ctx option" where
  "xlat_table_dec_regions_count t ctx = do {
     idx \<leftarrow> xlat_table_get_index ctx t;
     n \<leftarrow> aread (tables_mapped_regions ctx) idx;
     Some (ctx\<lparr>tables_mapped_regions := (tables_mapped_regions ctx)[idx := n - 1]\<rparr>)
   }"

definition xlat_table_is_empty :: "table_ref \<Rightarrow> xlat_ctx \<Rightarrow> bool option" where
  "xlat_table_is_empty t ctx = do {
     idx \<leftarrow> xlat_table_get_index ctx t;
     n \<leftarrow> aread (tables_mapped_regions ctx) idx;
     Some (n = 0)
   }"

subsection \<open>Descriptors of regions\<close>

definition xlat_arch_regime_get_xn_desc :: "int \<Rightarrow> u64 option" where
  "xlat_arch_regime_get_xn_desc regime =
     (if regime = EL1_EL0_REGIME then Some (UPPER_ATTRS UXN OR UPPER_ATTRS PXN)
      else do { assert_c (regime = EL2_REGIME \<or> regime = EL3_REGIME); Some (UPPER_ATTRS XN) })"

definition xlat_desc :: "int \<Rightarrow> u32 \<Rightarrow> u64 \<Rightarrow> nat \<Rightarrow> u64 option" where
  "xlat_desc regime attr addr_pa level = do {
     assert_c (addr_pa AND XLAT_BLOCK_MASK level = 0);
     let desc = addr_pa;
     let desc = desc OR (if level = XLAT_TABLE_LEVEL_MAX then PAGE_DESC else BLOCK_DESC);
     let desc = desc OR LOWER_ATTRS ACCESS_FLAG;
     let desc = desc OR (if attr AND MT_NS \<noteq> 0 then LOWER_ATTRS NS else 0);
     let desc = desc OR (if attr AND MT_RW \<noteq> 0 then LOWER_ATTRS AP_RW else LOWER_ATTRS AP_RO);
     desc \<leftarrow> (if regime = EL1_EL0_REGIME
              then Some (desc OR (if attr AND MT_USER \<noteq> 0 then LOWER_ATTRS AP_ACCESS_UNPRIVILEGED
                                  else LOWER_ATTRS AP_NO_ACCESS_UNPRIVILEGED))
              else do {
                assert_c (regime = EL2_REGIME \<or> regime = EL3_REGIME);
                Some (desc OR LOWER_ATTRS AP_ONE_VA_RANGE_RES1)
              });
     let mem_type = MT_TYPE attr;
     xn \<leftarrow> xlat_arch_regime_get_xn_desc regime;
     if mem_type = MT_DEVICE
     then Some (desc OR LOWER_ATTRS (ATTR_DEVICE_INDEX OR OSH) OR xn)
     else do {
       let desc = (if attr AND MT_RW \<noteq> 0 \<or> attr AND MT_EXECUTE_NEVER \<noteq> 0 then desc OR xn else desc);
       if mem_type = MT_MEMORY
       then Some (desc OR LOWER_ATTRS (ATTR_IWBWA_OWBWA_NTR_INDEX OR ISH))
       else do {
         assert_c (mem_type = MT_NON_CACHEABLE);
         Some (desc OR LOWER_ATTRS (ATTR_NON_CACHEABLE_INDEX OR OSH))
       }
     }
   }"

subsection \<open>Mapping a region\<close>

datatype action_t = ACTION_NONE | ACTION_WRITE_BLOCK_ENTRY | ACTION_CREATE_NEW_TABLE | ACTION_RECURSE_INTO_TABLE

definition xlat_tables_find_start_va :: "mmap_region \<Rightarrow> u64 \<Rightarrow> nat \<Rightarrow> u64" where
  "xlat_tables_find_start_va mm table_base_va level =
     (if base_va mm > table_base_va then base_va mm AND NOT (XLAT_BLOCK_MASK level) else table_base_va)"

definition xlat_tables_va_to_index :: "u64 \<Rightarrow> u64 \<Rightarrow> nat \<Rightarrow> u32" where
  "xlat_tables_va_to_index table_base_va va level = ucast (drop_bit (XLAT_ADDR_SHIFT level) (va - table_base_va))"

definition xlat_tables_map_region_action :: "mmap_region \<Rightarrow> u64 \<Rightarrow> u64 \<Rightarrow> u64 \<Rightarrow> nat \<Rightarrow> action_t option" where
  "xlat_tables_map_region_action mm desc_type dest_pa table_entry_base_va level =
     (let mm_end_va = end_va_of mm; table_entry_end_va = table_entry_base_va + XLAT_BLOCK_SIZE level - 1 in
      if base_va mm \<le> table_entry_base_va \<and> mm_end_va \<ge> table_entry_end_va
      then if level = 3
           then if desc_type = PAGE_DESC then Some ACTION_NONE
                else do { assert_c (desc_type = INVALID_DESC); Some ACTION_WRITE_BLOCK_ENTRY }
           else if desc_type = TABLE_DESC then Some ACTION_RECURSE_INTO_TABLE
           else if desc_type = INVALID_DESC
           then Some (if dest_pa AND XLAT_BLOCK_MASK level \<noteq> 0 \<or> level < MIN_LVL_BLOCK_DESC \<or>
                         granularity mm < XLAT_BLOCK_SIZE level
                      then ACTION_CREATE_NEW_TABLE else ACTION_WRITE_BLOCK_ENTRY)
           else do { assert_c (desc_type = BLOCK_DESC); Some ACTION_NONE }
      else if base_va mm \<le> table_entry_end_va \<or> mm_end_va \<ge> table_entry_base_va
      then do {
        assert_c (level < 3);
        if desc_type = INVALID_DESC then Some ACTION_CREATE_NEW_TABLE
        else do { assert_c (desc_type = TABLE_DESC); Some ACTION_RECURSE_INTO_TABLE }
      }
      else Some ACTION_NONE)"

text \<open>The recursive function, its loop, and the part of the loop body that deals with the entry. An entry
  gives the address with which the loop returns at once, or nothing when the loop goes on. The
  level of an entry has been checked by the assertion of the function.\<close>

function xlat_tables_map_region ::
  "xlat_ctx \<Rightarrow> mmap_region \<Rightarrow> u64 \<Rightarrow> table_ref \<Rightarrow> nat \<Rightarrow> nat \<Rightarrow> (u64 \<times> xlat_ctx) option"
and xlat_tables_map_loop ::
  "xlat_ctx \<Rightarrow> mmap_region \<Rightarrow> table_ref \<Rightarrow> nat \<Rightarrow> nat \<Rightarrow> nat \<Rightarrow> u64 \<Rightarrow> (u64 \<times> xlat_ctx) option"
and xlat_tables_map_entry ::
  "xlat_ctx \<Rightarrow> mmap_region \<Rightarrow> table_ref \<Rightarrow> nat \<Rightarrow> nat \<Rightarrow> u64 \<Rightarrow> (u64 option \<times> xlat_ctx) option" where
  "xlat_tables_map_region ctx mm table_base_va t table_entries level = do {
     assert_c (base_level ctx \<le> level \<and> level \<le> XLAT_TABLE_LEVEL_MAX);
     let table_idx_va = xlat_tables_find_start_va mm table_base_va level;
     let table_idx = unat (xlat_tables_va_to_index table_base_va table_idx_va level);
     ctx \<leftarrow> (if xc_dynamic ctx \<and> level > base_level ctx then xlat_table_inc_regions_count t ctx else Some ctx);
     xlat_tables_map_loop ctx mm t table_entries level table_idx table_idx_va
   }"
| "xlat_tables_map_loop ctx mm t table_entries level table_idx table_idx_va =
     (if \<not> table_idx < table_entries then Some (table_idx_va - 1, ctx)
      else do {
        (early, ctx) \<leftarrow> xlat_tables_map_entry ctx mm t level table_idx table_idx_va;
        case early of
          Some end_va \<Rightarrow> Some (end_va, ctx)
        | None \<Rightarrow>
            (let table_idx_va = table_idx_va + XLAT_BLOCK_SIZE level in
             if end_va_of mm \<le> table_idx_va then Some (table_idx_va - 1, ctx)
             else xlat_tables_map_loop ctx mm t table_entries level (table_idx + 1) table_idx_va)
      })"
| "xlat_tables_map_entry ctx mm t level table_idx table_idx_va =
     (if \<not> level \<le> XLAT_TABLE_LEVEL_MAX then None
      else do {
        desc \<leftarrow> xlat_read t table_idx ctx;
        let table_idx_pa = base_pa mm + table_idx_va - base_va mm;
        action \<leftarrow> xlat_tables_map_region_action mm (desc AND DESC_MASK) table_idx_pa table_idx_va level;
        case action of
          ACTION_WRITE_BLOCK_ENTRY \<Rightarrow> do {
            d \<leftarrow> xlat_desc (xlat_regime ctx) (mm_attr mm) table_idx_pa level;
            ctx \<leftarrow> xlat_write t table_idx d ctx;
            Some (None, ctx)
          }
        | ACTION_CREATE_NEW_TABLE \<Rightarrow> do {
            (subtable, ctx) \<leftarrow> xlat_table_get_empty ctx;
            case subtable of
              Some i \<Rightarrow> do {
                ctx \<leftarrow> xlat_write t table_idx (TABLE_DESC OR xlat_table_addr ctx i) ctx;
                (end_va, ctx) \<leftarrow> xlat_tables_map_region ctx mm table_idx_va (Sub_table i) XLAT_TABLE_ENTRIES (level + 1);
                Some (if end_va \<noteq> table_idx_va + XLAT_BLOCK_SIZE level - 1 then Some end_va else None, ctx)
              }
            | None \<Rightarrow> Some (Some table_idx_va, ctx)
          }
        | ACTION_RECURSE_INTO_TABLE \<Rightarrow> do {
            subtable \<leftarrow> xlat_table_at ctx (desc AND TABLE_ADDR_MASK);
            (end_va, ctx) \<leftarrow> xlat_tables_map_region ctx mm table_idx_va subtable XLAT_TABLE_ENTRIES (level + 1);
            Some (if end_va \<noteq> table_idx_va + XLAT_BLOCK_SIZE level - 1 then Some end_va else None, ctx)
          }
        | ACTION_NONE \<Rightarrow> Some (None, ctx)
      })"
  by pat_completeness auto
termination
  by (relation "inv_image (less_than <*lex*> less_than <*lex*> less_than)
    (\<lambda>x. case x of Inl (ctx, mm, va, t, n, level) \<Rightarrow> (4 - level, 2, 0)
       | Inr (Inl (ctx, mm, t, n, level, idx, va)) \<Rightarrow> (4 - level, 1, n - idx)
       | Inr (Inr (ctx, mm, t, level, idx, va)) \<Rightarrow> (4 - level, 0, 0))")
    (auto simp: XLAT_TABLE_LEVEL_MAX_def)

subsection \<open>Unmapping a region\<close>

definition xlat_tables_unmap_region_action :: "mmap_region \<Rightarrow> u64 \<Rightarrow> u64 \<Rightarrow> nat \<Rightarrow> u64 \<Rightarrow> action_t option" where
  "xlat_tables_unmap_region_action mm table_idx_va table_idx_end_va level desc_type =
     (let region_end_va = end_va_of mm in
      if base_va mm \<le> table_idx_va \<and> region_end_va \<ge> table_idx_end_va
      then if level = 3 then do { assert_c (desc_type = PAGE_DESC); Some ACTION_WRITE_BLOCK_ENTRY }
           else if desc_type = TABLE_DESC then Some ACTION_RECURSE_INTO_TABLE
           else do { assert_c (desc_type = BLOCK_DESC); Some ACTION_WRITE_BLOCK_ENTRY }
      else if base_va mm \<le> table_idx_end_va \<or> region_end_va \<ge> table_idx_va
      then do { assert_c (level < 3); assert_c (desc_type = TABLE_DESC); Some ACTION_RECURSE_INTO_TABLE }
      else Some ACTION_NONE)"

definition xlat_erase :: "table_ref \<Rightarrow> nat \<Rightarrow> u64 \<Rightarrow> xlat_ctx \<Rightarrow> xlat_ctx option" where
  "xlat_erase t table_idx table_idx_va ctx = do {
     ctx \<leftarrow> xlat_write t table_idx INVALID_DESC ctx;
     Some (xlat_emit (Ev_tlbi table_idx_va) ctx)
   }"

function xlat_tables_unmap_region ::
  "xlat_ctx \<Rightarrow> mmap_region \<Rightarrow> u64 \<Rightarrow> table_ref \<Rightarrow> nat \<Rightarrow> nat \<Rightarrow> xlat_ctx option"
and xlat_tables_unmap_loop ::
  "xlat_ctx \<Rightarrow> mmap_region \<Rightarrow> table_ref \<Rightarrow> nat \<Rightarrow> nat \<Rightarrow> nat \<Rightarrow> u64 \<Rightarrow> xlat_ctx option" where
  "xlat_tables_unmap_region ctx mm table_base_va t table_entries level = do {
     assert_c (base_level ctx \<le> level \<and> level \<le> XLAT_TABLE_LEVEL_MAX);
     let table_idx_va = xlat_tables_find_start_va mm table_base_va level;
     let table_idx = unat (xlat_tables_va_to_index table_base_va table_idx_va level);
     ctx \<leftarrow> xlat_tables_unmap_loop ctx mm t table_entries level table_idx table_idx_va;
     if level > base_level ctx then xlat_table_dec_regions_count t ctx else Some ctx
   }"
| "xlat_tables_unmap_loop ctx mm t table_entries level table_idx table_idx_va =
     (if \<not> (table_idx < table_entries \<and> level \<le> XLAT_TABLE_LEVEL_MAX) then Some ctx
      else do {
        let table_idx_end_va = table_idx_va + XLAT_BLOCK_SIZE level - 1;
        desc \<leftarrow> xlat_read t table_idx ctx;
        action \<leftarrow> xlat_tables_unmap_region_action mm table_idx_va table_idx_end_va level (desc AND DESC_MASK);
        ctx \<leftarrow> (case action of
            ACTION_WRITE_BLOCK_ENTRY \<Rightarrow> xlat_erase t table_idx table_idx_va ctx
          | ACTION_RECURSE_INTO_TABLE \<Rightarrow> do {
              subtable \<leftarrow> xlat_table_at ctx (desc AND TABLE_ADDR_MASK);
              ctx \<leftarrow> xlat_tables_unmap_region ctx mm table_idx_va subtable XLAT_TABLE_ENTRIES (level + 1);
              gone \<leftarrow> xlat_table_is_empty subtable ctx;
              if gone then xlat_erase t table_idx table_idx_va ctx else Some ctx
            }
          | _ \<Rightarrow> do { assert_c (action = ACTION_NONE); Some ctx });
        let table_idx_va = table_idx_va + XLAT_BLOCK_SIZE level;
        if end_va_of mm \<le> table_idx_va then Some ctx
        else xlat_tables_unmap_loop ctx mm t table_entries level (table_idx + 1) table_idx_va
      })"
  by pat_completeness auto
termination
  by (relation "inv_image (less_than <*lex*> less_than <*lex*> less_than)
    (\<lambda>x. case x of Inl (ctx, mm, va, t, n, level) \<Rightarrow> (4 - level, 1, 0)
                 | Inr (ctx, mm, t, n, level, idx, va) \<Rightarrow> (4 - level, 0, n - idx))")
    (auto simp: XLAT_TABLE_LEVEL_MAX_def)

subsection \<open>The list of regions\<close>

definition ERANGE :: int where "ERANGE = 34"

text \<open>The test of a new region against one that is in the list.\<close>

definition mmap_conflict :: "bool \<Rightarrow> mmap_region \<Rightarrow> mmap_region \<Rightarrow> bool" where
  "mmap_conflict dyn mm cursor =
     (let fully_overlapped_va =
            base_va mm \<ge> base_va cursor \<and> end_va_of mm \<le> end_va_of cursor \<or>
            base_va cursor \<ge> base_va mm \<and> end_va_of cursor \<le> end_va_of mm in
      if fully_overlapped_va
      then dyn \<and> (mm_attr mm AND MT_DYNAMIC \<noteq> 0 \<or> mm_attr cursor AND MT_DYNAMIC \<noteq> 0) \<or>
           base_va cursor - base_pa cursor \<noteq> base_va mm - base_pa mm \<or>
           base_va mm = base_va cursor \<and> mm_size mm = mm_size cursor
      else \<not> (end_va_of mm < base_va cursor \<or> base_va mm > end_va_of cursor) \<or>
           \<not> (end_pa_of mm < base_pa cursor \<or> base_pa mm > end_pa_of cursor))"

fun mmap_check_loop :: "bool \<Rightarrow> mmap_region \<Rightarrow> mmap_region list \<Rightarrow> int option" where
  "mmap_check_loop dyn mm [] = None"
| "mmap_check_loop dyn mm (cursor # rest) =
     (if mm_size cursor = 0 then Some 0
      else if mmap_conflict dyn mm cursor then Some (- EPERM)
      else mmap_check_loop dyn mm rest)"

definition mmap_add_region_check :: "xlat_ctx \<Rightarrow> mmap_region \<Rightarrow> int option" where
  "mmap_add_region_check ctx mm =
     (if \<not> IS_PAGE_ALIGNED (base_pa mm) \<or> \<not> IS_PAGE_ALIGNED (base_va mm) \<or> \<not> IS_PAGE_ALIGNED (mm_size mm)
      then Some (- EINVAL)
      else if granularity mm \<noteq> XLAT_BLOCK_SIZE 1 \<and> granularity mm \<noteq> XLAT_BLOCK_SIZE 2 \<and>
              granularity mm \<noteq> XLAT_BLOCK_SIZE 3
      then Some (- EINVAL)
      else if base_pa mm > end_pa_of mm \<or> base_va mm > end_va_of mm then Some (- ERANGE)
      else if end_va_of mm > va_max_address ctx then Some (- ERANGE)
      else if end_pa_of mm > pa_max_address ctx then Some (- ERANGE)
      else do {
        last \<leftarrow> (if mmap_num ctx = 0 then None else aread (mmap ctx) (mmap_num ctx - 1));
        if mm_size last \<noteq> 0 then Some (- ENOMEM) else mmap_check_loop (xc_dynamic ctx) mm (mmap ctx)
      })"

text \<open>How far a cursor moves while the region under it satisfies a condition; an error when it leaves the
  array.\<close>

fun mmap_skip :: "(mmap_region \<Rightarrow> bool) \<Rightarrow> mmap_region list \<Rightarrow> nat option" where
  "mmap_skip P [] = None"
| "mmap_skip P (mm # rest) = (if P mm then map_option Suc (mmap_skip P rest) else Some 0)"

definition mmap_find_place :: "mmap_region \<Rightarrow> mmap_region list \<Rightarrow> nat option" where
  "mmap_find_place mm regions = do {
     c1 \<leftarrow> mmap_skip (\<lambda>cursor. end_va_of cursor < end_va_of mm \<and> mm_size cursor \<noteq> 0) regions;
     c2 \<leftarrow> mmap_skip (\<lambda>cursor. end_va_of cursor = end_va_of mm \<and> mm_size cursor \<noteq> 0 \<and> mm_size cursor < mm_size mm)
             (drop c1 regions);
     Some (c1 + c2)
   }"

definition memmove :: "nat \<Rightarrow> nat \<Rightarrow> nat \<Rightarrow> 'a list \<Rightarrow> 'a list option" where
  "memmove dst src n xs =
     (if dst + n \<le> length xs \<and> src + n \<le> length xs
      then Some (take dst xs @ take n (drop src xs) @ drop (dst + n) xs) else None)"

definition mmap_note_max :: "mmap_region \<Rightarrow> xlat_ctx \<Rightarrow> xlat_ctx" where
  "mmap_note_max mm ctx = ctx\<lparr>max_pa := (if end_pa_of mm > max_pa ctx then end_pa_of mm else max_pa ctx),
     max_va := (if end_va_of mm > max_va ctx then end_va_of mm else max_va ctx)\<rparr>"

definition mmap_add_region_ctx :: "mmap_region \<Rightarrow> xlat_ctx \<Rightarrow> xlat_ctx option" where
  "mmap_add_region_ctx mm ctx =
     (if mm_size mm = 0 then Some ctx
      else do {
        assert_c (\<not> initialized ctx);
        ret \<leftarrow> mmap_add_region_check ctx mm;
        assert_c (ret = 0);
        mm_cursor \<leftarrow> mmap_find_place mm (mmap ctx);
        mm_last \<leftarrow> mmap_skip (\<lambda>cursor. mm_size cursor \<noteq> 0) (mmap ctx);
        assert_c (mm_last \<le> mmap_num ctx);
        moved \<leftarrow> memmove (mm_cursor + 1) mm_cursor (mm_last - mm_cursor) (mmap ctx);
        sentinel \<leftarrow> aread moved (mmap_num ctx);
        assert_c (mm_size sentinel = 0);
        regions \<leftarrow> awrite moved mm_cursor mm;
        Some (mmap_note_max mm (ctx\<lparr>mmap := regions\<rparr>))
      })"

definition round_up :: "u64 \<Rightarrow> u64 \<Rightarrow> u64" where
  "round_up value boundary = (((value - 1) OR (boundary - 1)) + 1)"

definition mmap_alloc_va_align_ctx :: "xlat_ctx \<Rightarrow> mmap_region \<Rightarrow> mmap_region" where
  "mmap_alloc_va_align_ctx ctx mm =
     (let align_check = base_pa mm OR mm_size mm in
      case find (\<lambda>level. align_check AND XLAT_BLOCK_MASK level = 0) [base_level ctx..<3] of
        Some level \<Rightarrow> mm\<lparr>base_va := round_up (base_va mm) (XLAT_BLOCK_SIZE level)\<rparr>
      | None \<Rightarrow> mm)"

definition mmap_add_region_alloc_va_ctx :: "mmap_region \<Rightarrow> xlat_ctx \<Rightarrow> (mmap_region \<times> xlat_ctx) option" where
  "mmap_add_region_alloc_va_ctx mm ctx = do {
     let mm = mm\<lparr>base_va := max_va ctx + 1\<rparr>;
     assert_c (mm_size mm > 0);
     let mm = mmap_alloc_va_align_ctx ctx mm;
     assert_c (base_va mm > max_va ctx);
     ctx \<leftarrow> mmap_add_region_ctx mm ctx;
     Some (mm, ctx)
   }"

fun mmap_add_ctx :: "mmap_region list \<Rightarrow> xlat_ctx \<Rightarrow> xlat_ctx option" where
  "mmap_add_ctx [] ctx = None"
| "mmap_add_ctx (mm # rest) ctx =
     (if granularity mm = 0 then Some ctx
      else do { ctx \<leftarrow> mmap_add_region_ctx mm ctx; mmap_add_ctx rest ctx })"

subsection \<open>Dynamic regions\<close>

text \<open>The result code and the region with the attribute that marks it as dynamic.\<close>

definition mmap_add_dynamic_region_ctx :: "mmap_region \<Rightarrow> xlat_ctx \<Rightarrow> (int \<times> xlat_ctx) option" where
  "mmap_add_dynamic_region_ctx mm ctx =
     (if mm_size mm = 0 then Some (0, ctx)
      else do {
        let mm = mm\<lparr>mm_attr := mm_attr mm OR MT_DYNAMIC\<rparr>;
        ret \<leftarrow> mmap_add_region_check ctx mm;
        if ret \<noteq> 0 then Some (ret, ctx)
        else do {
          mm_cursor \<leftarrow> mmap_find_place mm (mmap ctx);
          moved \<leftarrow> memmove (mm_cursor + 1) mm_cursor (mmap_num ctx - mm_cursor) (mmap ctx);
          sentinel \<leftarrow> aread moved (mmap_num ctx);
          assert_c (mm_size sentinel = 0);
          regions \<leftarrow> awrite moved mm_cursor mm;
          let ctx = ctx\<lparr>mmap := regions\<rparr>;
          if initialized ctx
          then do {
            (end_va, ctx) \<leftarrow> xlat_tables_map_region ctx mm 0 Base_table (base_table_entries ctx) (base_level ctx);
            if end_va \<noteq> end_va_of mm
            then do {
              regions \<leftarrow> memmove mm_cursor (mm_cursor + 1) (mmap_num ctx - mm_cursor) (mmap ctx);
              let ctx = ctx\<lparr>mmap := regions\<rparr>;
              if base_va mm \<ge> end_va then Some (- ENOMEM, ctx)
              else do {
                let unmap_mm = \<lparr>base_pa = 0, base_va = base_va mm, mm_size = end_va - base_va mm, mm_attr = 0, granularity = 0\<rparr>;
                ctx \<leftarrow> xlat_tables_unmap_region ctx unmap_mm 0 Base_table (base_table_entries ctx) (base_level ctx);
                Some (- ENOMEM, ctx)
              }
            }
            else Some (0, mmap_note_max mm ctx)
          }
          else Some (0, mmap_note_max mm ctx)
        }
      })"

definition mmap_add_dynamic_region_alloc_va_ctx :: "mmap_region \<Rightarrow> xlat_ctx \<Rightarrow> (int \<times> mmap_region \<times> xlat_ctx) option" where
  "mmap_add_dynamic_region_alloc_va_ctx mm ctx =
     (let mm = mm\<lparr>base_va := max_va ctx + 1\<rparr> in
      if mm_size mm = 0 then Some (0, mm, ctx)
      else let mm = mmap_alloc_va_align_ctx ctx mm in
        if base_va mm < max_va ctx then Some (- ENOMEM, mm, ctx)
        else do { (ret, ctx) \<leftarrow> mmap_add_dynamic_region_ctx mm ctx; Some (ret, mm, ctx) })"

text \<open>The highest last address of the regions before the end of the list.\<close>

fun mmap_max_loop :: "(mmap_region \<Rightarrow> u64) \<Rightarrow> u64 \<Rightarrow> mmap_region list \<Rightarrow> u64 option" where
  "mmap_max_loop last_of m [] = None"
| "mmap_max_loop last_of m (mm # rest) =
     (if mm_size mm = 0 then Some m else mmap_max_loop last_of (if last_of mm > m then last_of mm else m) rest)"

definition mmap_remove_dynamic_region_ctx :: "u64 \<Rightarrow> u64 \<Rightarrow> xlat_ctx \<Rightarrow> (int \<times> xlat_ctx) option" where
  "mmap_remove_dynamic_region_ctx va sz ctx = do {
     sentinel \<leftarrow> aread (mmap ctx) (mmap_num ctx);
     assert_c (mm_size sentinel = 0);
     i \<leftarrow> mmap_skip (\<lambda>mm. mm_size mm \<noteq> 0 \<and> \<not> (base_va mm = va \<and> mm_size mm = sz)) (mmap ctx);
     mm \<leftarrow> aread (mmap ctx) i;
     if mm_size mm = 0 then Some (- EINVAL, ctx)
     else if mm_attr mm AND MT_DYNAMIC = 0 then Some (- EPERM, ctx)
     else do {
       let update_max_va_needed = (end_va_of mm = max_va ctx);
       let update_max_pa_needed = (end_pa_of mm = max_pa ctx);
       ctx \<leftarrow> (if initialized ctx
               then do {
                 ctx \<leftarrow> xlat_tables_unmap_region ctx mm 0 Base_table (base_table_entries ctx) (base_level ctx);
                 Some (xlat_emit Ev_tlbi_sync ctx)
               }
               else Some ctx);
       regions \<leftarrow> memmove i (i + 1) (mmap_num ctx - i) (mmap ctx);
       let ctx = ctx\<lparr>mmap := regions\<rparr>;
       m_va \<leftarrow> (if update_max_va_needed then mmap_max_loop end_va_of 0 regions else Some (max_va ctx));
       m_pa \<leftarrow> (if update_max_pa_needed then mmap_max_loop end_pa_of 0 regions else Some (max_pa ctx));
       Some (0, ctx\<lparr>max_va := m_va, max_pa := m_pa\<rparr>)
     }
   }"

text \<open>A context over arrays of the caller, who also says where the tables are.\<close>

definition xlat_setup_dynamic_ctx ::
  "u64 \<Rightarrow> u64 \<Rightarrow> mmap_region list \<Rightarrow> nat \<Rightarrow> u64 list list \<Rightarrow> u64 \<Rightarrow> nat \<Rightarrow> u64 list \<Rightarrow> int \<Rightarrow> int list \<Rightarrow> xlat_ctx \<Rightarrow> xlat_ctx option" where
  "xlat_setup_dynamic_ctx pa_max va_max regions num tabs tabs_addr tabs_num base regime mapped ctx = do {
     assert_c (num \<le> length regions);
     let va_space_size = va_max + 1;
     Some (ctx\<lparr>xlat_regime := regime, pa_max_address := pa_max, va_max_address := va_max,
       mmap := replicate num zero_region @ drop num regions, mmap_num := num,
       tables := tabs, tables_num := tabs_num, xc_tables_addr := tabs_addr,
       base_level := GET_XLAT_TABLE_LEVEL_BASE va_space_size, base_table := base,
       base_table_entries := GET_NUM_BASE_LEVEL_ENTRIES va_space_size, tables_mapped_regions := mapped,
       max_pa := 0, max_va := 0, initialized := False\<rparr>)
   }"

subsection \<open>Initialisation\<close>

definition ARM_PARANGE_BITS :: "nat list" where
  "ARM_PARANGE_BITS = [32, 36, 40, 42, 44, 48, 52]"

definition xlat_arch_get_max_supported_pa :: "nat \<Rightarrow> u64 option" where
  "xlat_arch_get_max_supported_pa pa_range = do {
     bits \<leftarrow> aread ARM_PARANGE_BITS pa_range;
     Some (push_bit bits 1 - 1)
   }"

definition xlat_get_min_virt_addr_space_size :: "bool \<Rightarrow> u64" where
  "xlat_get_min_virt_addr_space_size ttst_present = push_bit (64 - (if ttst_present then 48 else 39)) 1"

definition MAX_VIRT_ADDR_SPACE_SIZE :: u64 where "MAX_VIRT_ADDR_SPACE_SIZE = push_bit (64 - 16) 1"

definition IS_POWER_OF_TWO :: "u64 \<Rightarrow> bool" where
  "IS_POWER_OF_TWO x \<longleftrightarrow> x AND (x - 1) = 0"

fun init_map_loop :: "mmap_region list \<Rightarrow> xlat_ctx \<Rightarrow> xlat_ctx option" where
  "init_map_loop [] ctx = None"
| "init_map_loop (mm # rest) ctx =
     (if mm_size mm = 0 then Some ctx
      else do {
        (end_va, ctx) \<leftarrow> xlat_tables_map_region ctx mm 0 Base_table (base_table_entries ctx) (base_level ctx);
        if end_va \<noteq> end_va_of mm then None else init_map_loop rest ctx
      })"

text \<open>The state of the MMU and what the CPU supports: whether the MMU is on, small translation tables are
  present, and the range of physical addresses.\<close>

definition init_xlat_tables_ctx :: "bool \<Rightarrow> bool \<Rightarrow> nat \<Rightarrow> xlat_ctx \<Rightarrow> xlat_ctx option" where
  "init_xlat_tables_ctx mmu_enabled ttst_present pa_range ctx = do {
     assert_c (\<not> initialized ctx);
     assert_c (xlat_regime ctx = EL3_REGIME \<or> xlat_regime ctx = EL2_REGIME \<or> xlat_regime ctx = EL1_EL0_REGIME);
     assert_c (\<not> mmu_enabled);
     assert_c (va_max_address ctx \<ge> xlat_get_min_virt_addr_space_size ttst_present - 1);
     assert_c (va_max_address ctx \<le> MAX_VIRT_ADDR_SPACE_SIZE - 1);
     assert_c (IS_POWER_OF_TWO (va_max_address ctx + 1));
     assert_c (base_table_entries ctx \<le> length (base_table ctx) \<and> tables_num ctx \<le> length (tables ctx));
     let ctx = ctx\<lparr>
       base_table := replicate (base_table_entries ctx) INVALID_DESC @ drop (base_table_entries ctx) (base_table ctx),
       tables := map (\<lambda>t. replicate XLAT_TABLE_ENTRIES INVALID_DESC) (take (tables_num ctx) (tables ctx))
                 @ drop (tables_num ctx) (tables ctx),
       tables_mapped_regions := (if xc_dynamic ctx then replicate (tables_num ctx) 0 else tables_mapped_regions ctx)\<rparr>;
     ctx \<leftarrow> init_map_loop (mmap ctx) ctx;
     supported \<leftarrow> xlat_arch_get_max_supported_pa pa_range;
     assert_c (pa_max_address ctx \<le> supported);
     assert_c (max_va ctx \<le> va_max_address ctx);
     assert_c (max_pa ctx \<le> pa_max_address ctx);
     Some (ctx\<lparr>initialized := True\<rparr>)
   }"

subsection \<open>Looking up and changing attributes\<close>

function find_xlat_table_loop :: "xlat_ctx \<Rightarrow> u64 \<Rightarrow> table_ref \<Rightarrow> nat \<Rightarrow> nat \<Rightarrow> (table_ref \<times> nat \<times> nat) option option" where
  "find_xlat_table_loop ctx virtual_addr t entries level =
     (if \<not> level \<le> XLAT_TABLE_LEVEL_MAX then None
      else let idx = unat (XLAT_TABLE_IDX virtual_addr level) in
        if idx \<ge> entries then Some None
        else do {
          desc \<leftarrow> xlat_read t idx ctx;
          let desc_type = desc AND DESC_MASK;
          if desc_type = INVALID_DESC then Some None
          else if level = XLAT_TABLE_LEVEL_MAX
          then do { assert_c (desc_type = PAGE_DESC); Some (Some (t, idx, level)) }
          else if desc_type = BLOCK_DESC then Some (Some (t, idx, level))
          else do {
            assert_c (desc_type = TABLE_DESC);
            subtable \<leftarrow> xlat_table_at ctx (desc AND TABLE_ADDR_MASK);
            find_xlat_table_loop ctx virtual_addr subtable XLAT_TABLE_ENTRIES (level + 1)
          }
        })"
  by pat_completeness auto
termination
  by (relation "measure (\<lambda>(ctx, va, t, entries, level). 4 - level)") (auto simp: XLAT_TABLE_LEVEL_MAX_def)

definition find_xlat_table_entry :: "xlat_ctx \<Rightarrow> u64 \<Rightarrow> (table_ref \<times> nat \<times> nat) option option" where
  "find_xlat_table_entry ctx virtual_addr =
     find_xlat_table_loop ctx virtual_addr Base_table (base_table_entries ctx)
       (GET_XLAT_TABLE_LEVEL_BASE (va_max_address ctx + 1))"

text \<open>The attributes that a descriptor stands for.\<close>

definition desc_attributes :: "int \<Rightarrow> u64 \<Rightarrow> u32 option" where
  "desc_attributes regime desc = do {
     let attr_index = drop_bit 2 desc AND 3;
     attr \<leftarrow> (if attr_index = ATTR_IWBWA_OWBWA_NTR_INDEX then Some MT_MEMORY
              else if attr_index = ATTR_NON_CACHEABLE_INDEX then Some MT_NON_CACHEABLE
              else do { assert_c (attr_index = ATTR_DEVICE_INDEX); Some MT_DEVICE });
     let attr = (if drop_bit 7 desc AND 1 = 0 then attr OR MT_RW else attr);
     let attr = (if regime = EL1_EL0_REGIME \<and> drop_bit 6 desc AND 1 = 1 then attr OR MT_USER else attr);
     let attr = (if drop_bit 5 desc AND 1 = 1 then attr OR MT_NS else attr);
     xn_mask \<leftarrow> xlat_arch_regime_get_xn_desc regime;
     if desc AND xn_mask = xn_mask then Some (attr OR MT_EXECUTE_NEVER)
     else do { assert_c (desc AND xn_mask = 0); Some attr }
   }"

text \<open>The entry of an address with its attributes, physical address and level; nothing when the address is
  not mapped, where the C function returns \<^verbatim>\<open>-EINVAL\<close>.\<close>

definition xlat_get_mem_attributes_internal ::
  "xlat_ctx \<Rightarrow> u64 \<Rightarrow> (u32 \<times> (table_ref \<times> nat) \<times> u64 \<times> nat) option option" where
  "xlat_get_mem_attributes_internal ctx va = do {
     assert_c (initialized ctx);
     assert_c (xlat_regime ctx = EL1_EL0_REGIME \<or> xlat_regime ctx = EL2_REGIME \<or> xlat_regime ctx = EL3_REGIME);
     assert_c (va_max_address ctx + 1 > 0);
     found \<leftarrow> find_xlat_table_entry ctx va;
     case found of None \<Rightarrow> Some None
     | Some (t, idx, level) \<Rightarrow> do {
         desc \<leftarrow> xlat_read t idx ctx;
         attr \<leftarrow> desc_attributes (xlat_regime ctx) desc;
         Some (Some (attr, (t, idx), desc AND TABLE_ADDR_MASK, level))
       }
   }"

definition xlat_get_mem_attributes_ctx :: "xlat_ctx \<Rightarrow> u64 \<Rightarrow> (int \<times> u32 option) option" where
  "xlat_get_mem_attributes_ctx ctx va = do {
     r \<leftarrow> xlat_get_mem_attributes_internal ctx va;
     Some (case r of None \<Rightarrow> (- EINVAL, None) | Some (attr, _) \<Rightarrow> (0, Some attr))
   }"

fun change_check_loop :: "nat \<Rightarrow> u32 \<Rightarrow> xlat_ctx \<Rightarrow> u64 \<Rightarrow> int option" where
  "change_check_loop 0 attr ctx va = Some 0"
| "change_check_loop (Suc n) attr ctx va = do {
     found \<leftarrow> find_xlat_table_entry ctx va;
     case found of None \<Rightarrow> Some (- EINVAL)
     | Some (t, idx, level) \<Rightarrow> do {
         desc \<leftarrow> xlat_read t idx ctx;
         if desc AND DESC_MASK \<noteq> PAGE_DESC \<or> level \<noteq> XLAT_TABLE_LEVEL_MAX then Some (- EINVAL)
         else if drop_bit 2 desc AND 3 = ATTR_DEVICE_INDEX \<and> attr AND MT_EXECUTE_NEVER = 0 then Some (- EINVAL)
         else change_check_loop n attr ctx (va + PAGE_SIZE)
       }
   }"

definition MT_CHANGEABLE :: u32 where
  "MT_CHANGEABLE = MT_RW OR MT_EXECUTE_NEVER OR MT_USER"

text \<open>The change of one page: the entry is made invalid and the TLB invalidated before the new
  descriptor is written.\<close>

definition change_page :: "u32 \<Rightarrow> u64 \<Rightarrow> xlat_ctx \<Rightarrow> xlat_ctx option" where
  "change_page attr va ctx = do {
     r \<leftarrow> xlat_get_mem_attributes_internal ctx va;
     (old_attr, (t, idx), addr_pa, level) \<leftarrow> r;
     let new_attr = (old_attr AND NOT MT_CHANGEABLE) OR (attr AND MT_CHANGEABLE);
     ctx \<leftarrow> xlat_write t idx INVALID_DESC ctx;
     let ctx = xlat_emit Ev_tlbi_sync (xlat_emit (Ev_tlbi va) ctx);
     desc \<leftarrow> xlat_desc (xlat_regime ctx) new_attr addr_pa level;
     xlat_write t idx desc ctx
   }"

fun change_loop :: "nat \<Rightarrow> u32 \<Rightarrow> u64 \<Rightarrow> xlat_ctx \<Rightarrow> xlat_ctx option" where
  "change_loop 0 attr va ctx = Some ctx"
| "change_loop (Suc n) attr va ctx = do {
     ctx \<leftarrow> change_page attr va ctx;
     change_loop n attr (va + PAGE_SIZE) ctx
   }"

definition xlat_change_mem_attributes_ctx :: "u64 \<Rightarrow> u64 \<Rightarrow> u32 \<Rightarrow> xlat_ctx \<Rightarrow> (int \<times> xlat_ctx) option" where
  "xlat_change_mem_attributes_ctx va sz attr ctx = do {
     assert_c (initialized ctx);
     assert_c (va_max_address ctx + 1 > 0);
     if \<not> IS_PAGE_ALIGNED va then Some (- EINVAL, ctx)
     else if sz = 0 then Some (- EINVAL, ctx)
     else if sz mod PAGE_SIZE \<noteq> 0 then Some (- EINVAL, ctx)
     else if attr AND MT_EXECUTE_NEVER = 0 \<and> attr AND MT_RW \<noteq> 0 then Some (- EINVAL, ctx)
     else do {
       let pages_count = unat (sz div PAGE_SIZE);
       ret \<leftarrow> change_check_loop pages_count attr ctx va;
       if ret \<noteq> 0 then Some (ret, ctx)
       else do {
         ctx \<leftarrow> change_loop pages_count attr va ctx;
         Some (0, ctx)
       }
     }
   }"

end
