(* ===== verification/Xlat_Walk.thy ===== *)
theory Xlat_Walk
  imports Xlat_Tables
begin

section \<open>Tables as trees\<close>

text \<open>
  The tables of a context seen as a tree of descriptors, with the numbers of the tables that hold
  its nodes. The predicate \<open>rep_table\<close> relates the two; \<open>look_table\<close> is the walk of an address through the
  tree. The arithmetic of levels, block sizes and alignment is done here once, on natural numbers.
\<close>

subsection \<open>Levels\<close>

definition bs :: "nat \<Rightarrow> nat" where
  "bs l = 2 ^ XLAT_ADDR_SHIFT l"

lemma bs_vals: "bs 0 = 2 ^ 39" "bs 1 = 2 ^ 30" "bs 2 = 2 ^ 21" "bs 3 = 2 ^ 12"
  by (simp_all add: bs_def XLAT_ADDR_SHIFT_def PAGE_SIZE_SHIFT_def XLAT_TABLE_LEVEL_MAX_def XLAT_TABLE_ENTRIES_SHIFT_def)

lemma level_cases: "l \<le> 3 \<Longrightarrow> l = 0 \<or> l = 1 \<or> l = 2 \<or> l = (3::nat)"
  by auto

lemma bs_pos [simp]: "0 < bs l"
  by (simp add: bs_def)

lemma bs_Suc: "l < 3 \<Longrightarrow> bs l = 512 * bs (Suc l)"
  using level_cases[of "Suc l"] by (auto simp: bs_vals[simplified] numeral_2_eq_2[symmetric] numeral_3_eq_3[symmetric])

lemma bs_bounds: "l \<le> 3 \<Longrightarrow> bs l \<le> 2 ^ 39" "4096 dvd bs l" "4096 \<le> bs l"
proof -
  show "4096 dvd bs l"
    using le_imp_power_dvd[of 12 "XLAT_ADDR_SHIFT l" "2::nat"] by (simp add: bs_def XLAT_ADDR_SHIFT_def PAGE_SIZE_SHIFT_def)
  then show "4096 \<le> bs l" by (simp add: dvd_imp_le)
  show "bs l \<le> 2 ^ 39" if "l \<le> 3"
    unfolding bs_def using that by (intro power_increasing) (auto simp: XLAT_ADDR_SHIFT_def PAGE_SIZE_SHIFT_def
        XLAT_TABLE_LEVEL_MAX_def XLAT_TABLE_ENTRIES_SHIFT_def)
qed

lemma shift_small: "XLAT_ADDR_SHIFT l < 64"
  by (simp add: XLAT_ADDR_SHIFT_def PAGE_SIZE_SHIFT_def XLAT_TABLE_LEVEL_MAX_def XLAT_TABLE_ENTRIES_SHIFT_def)

lemma unat_two_power: "k < 64 \<Longrightarrow> unat ((2 :: u64) ^ k) = 2 ^ k"
proof -
  assume "k < 64"
  then have "(2::nat) ^ k < 2 ^ 64" by (intro power_strict_increasing) simp_all
  moreover have "(2 :: u64) ^ k = of_nat (2 ^ k)" by simp
  ultimately show ?thesis by (simp only: unat_of_nat) simp
qed

lemma unat_block_size: "unat (XLAT_BLOCK_SIZE l) = bs l"
  using unat_two_power[OF shift_small[of l]] by (simp add: XLAT_BLOCK_SIZE_def push_bit_eq_mult bs_def)

lemma block_mask: "XLAT_BLOCK_MASK l = mask (XLAT_ADDR_SHIFT l)"
  by (simp add: XLAT_BLOCK_MASK_def XLAT_BLOCK_SIZE_def push_bit_eq_mult mask_eq_exp_minus_1)

lemma unat_and_mask: "unat (x AND XLAT_BLOCK_MASK l) = unat x mod bs l"
  unfolding block_mask take_bit_eq_mask[symmetric] unsigned_take_bit_eq by (simp add: take_bit_eq_mod bs_def)

lemma mask_zero: "x AND XLAT_BLOCK_MASK l = 0 \<longleftrightarrow> bs l dvd unat x"
  using unat_and_mask[of x l] by (metis dvd_eq_mod_eq_0 unat_0 unat_eq_0)

lemma unat_floor: "unat (x AND NOT (XLAT_BLOCK_MASK l)) = unat x div bs l * bs l"
proof -
  let ?m = "XLAT_BLOCK_MASK l"
  have "(x AND ?m) + (x AND NOT ?m) = (x AND ?m) OR (x AND NOT ?m)"
    by (rule disjunctive_add) (auto simp: bit_simps)
  also have "\<dots> = x" by (rule bit_word_eqI) (auto simp: bit_simps)
  finally have "x AND NOT ?m = x - (x AND ?m)" by (simp add: algebra_simps)
  then show ?thesis
    using unat_and_mask[of x l] by (simp add: unat_sub word_and_le2 minus_mod_eq_div_mult)
qed

text \<open>Addresses are treated as natural numbers.\<close>

lemma va_sub_1: "0 < unat (x :: u64) \<Longrightarrow> unat (x - 1) = unat x - 1"
  by (metis One_nat_def diff_le_self nat_less_le unat_1 unat_minus_one unat_0 neq0_conv)

lemma entry_end:
  assumes "unat va + bs l < 2 ^ 64"
  shows "unat (va + XLAT_BLOCK_SIZE l) = unat va + bs l" "unat (va + XLAT_BLOCK_SIZE l - 1) = unat va + bs l - 1"
proof -
  show *: "unat (va + XLAT_BLOCK_SIZE l) = unat va + bs l"
    using assms unat_add_lem[of va "XLAT_BLOCK_SIZE l"] by (simp add: unat_block_size)
  then show "unat (va + XLAT_BLOCK_SIZE l - 1) = unat va + bs l - 1" using va_sub_1[of "va + XLAT_BLOCK_SIZE l"] by simp
qed

lemma unat_start:
  "unat (xlat_tables_find_start_va mm B l) =
     (if unat (base_va mm) > unat B then unat (base_va mm) div bs l * bs l else unat B)"
  by (simp add: xlat_tables_find_start_va_def unat_floor word_less_nat_alt)

lemma start_index:
  assumes "B \<le> va" "(unat va - unat B) div bs l < 2 ^ 32"
  shows "unat (xlat_tables_va_to_index B va l) = (unat va - unat B) div bs l"
  using assms unat_two_power[OF shift_small[of l]]
  by (simp add: xlat_tables_va_to_index_def unsigned_ucast_eq unat_drop_bit_eq drop_bit_eq_div take_bit_eq_mod
      unat_sub bs_def unat_mod unat_div)

subsection \<open>Descriptor types\<close>

lemma desc_masks: "DESC_MASK = mask 2" "TABLE_DESC = mask 2" "PAGE_DESC = mask 2" "TABLE_ADDR_MASK = mask 48 AND NOT (mask 12)"
  by (simp_all add: DESC_MASK_def TABLE_DESC_def PAGE_DESC_def TABLE_ADDR_MASK_def mask_eq_exp_minus_1)

lemma aligned_bits: "4096 dvd unat (x :: u64) \<Longrightarrow> bit x k \<Longrightarrow> 12 \<le> k"
proof -
  assume a: "4096 dvd unat x" "bit x k"
  have "XLAT_BLOCK_MASK 3 = mask 12" by (simp add: block_mask XLAT_ADDR_SHIFT_def PAGE_SIZE_SHIFT_def XLAT_TABLE_LEVEL_MAX_def)
  moreover have "x AND XLAT_BLOCK_MASK 3 = 0" using a(1) mask_zero[of x 3] bs_vals(4) by simp
  ultimately show ?thesis using a(2) by (metis bit_0_eq bit_and_iff bit_imp_le_length bit_mask_iff bot_apply bot_bool_def linorder_not_le
    nat_less_le possible_bit_word)
qed

lemma desc_type_table:
  assumes "4096 dvd unat addr" "unat addr < 2 ^ 48"
  shows "(TABLE_DESC OR addr) AND DESC_MASK = TABLE_DESC" "(TABLE_DESC OR addr) AND TABLE_ADDR_MASK = addr"
proof -
  have lo: "bit addr k \<Longrightarrow> 12 \<le> k" for k by (rule aligned_bits[OF assms(1)])
  have "addr < 2 ^ 48" using assms(2) by (simp add: word_less_nat_alt)
  then have hi: "bit addr k \<Longrightarrow> k < 48" for k by (rule small_bit)
  show "(TABLE_DESC OR addr) AND DESC_MASK = TABLE_DESC"
    unfolding desc_masks by (rule bit_word_eqI) (auto simp: bit_and_iff bit_or_iff bit_mask_iff dest: lo)
  show "(TABLE_DESC OR addr) AND TABLE_ADDR_MASK = addr"
    unfolding desc_masks by (rule bit_word_eqI) (auto simp: bit_and_iff bit_or_iff bit_not_iff bit_mask_iff dest: lo hi)
qed

lemma attrs_low:
  "LOWER_ATTRS x AND DESC_MASK = 0" "UPPER_ATTRS x AND DESC_MASK = 0" "4096 dvd unat pa \<Longrightarrow> pa AND DESC_MASK = 0"
proof -
  show "LOWER_ATTRS x AND DESC_MASK = 0" "UPPER_ATTRS x AND DESC_MASK = 0"
    by (rule bit_word_eqI; auto simp: LOWER_ATTRS_def UPPER_ATTRS_def desc_masks bit_and_iff bit_push_bit_iff bit_mask_iff)+
  assume "4096 dvd unat pa"
  then have "bit pa k \<Longrightarrow> 12 \<le> k" for k by (rule aligned_bits)
  then show "pa AND DESC_MASK = 0"
    by (intro bit_word_eqI) (fastforce simp: desc_masks bit_and_iff bit_mask_iff)
qed

lemma xlat_desc_type:
  assumes d: "xlat_desc regime attr pa l = Some d"
  shows "d AND DESC_MASK = (if l = 3 then PAGE_DESC else BLOCK_DESC)"
proof -
  have "bs l dvd unat pa" using d by (simp add: xlat_desc_def mask_zero)
  then have pa: "pa AND DESC_MASK = 0" using attrs_low(3) bs_bounds(2) dvd_trans by blast
  have t: "PAGE_DESC AND DESC_MASK = PAGE_DESC" "BLOCK_DESC AND DESC_MASK = BLOCK_DESC"
    by (simp_all add: PAGE_DESC_def BLOCK_DESC_def DESC_MASK_def)
  have or: "(a OR b) AND DESC_MASK = (a AND DESC_MASK) OR (b AND DESC_MASK)" for a b
    by (rule bit_word_eqI) (auto simp: bit_and_iff bit_or_iff)
  from d show ?thesis
    by (auto simp: xlat_desc_def xlat_arch_regime_get_xn_desc_def bind_Some_iff Let_def XLAT_TABLE_LEVEL_MAX_def or attrs_low pa t
        split: if_split_asm)
qed

subsection \<open>Trees\<close>

text \<open>An entry of a table: a descriptor that is not a table descriptor, or the table it points to, by its
  number and its entries.\<close>

datatype xtree = Leaf u64 | Sub nat "xtree list"

fun nodes :: "xtree \<Rightarrow> nat list" where
  "nodes (Leaf d) = []"
| "nodes (Sub i us) = i # concat (map nodes us)"

text \<open>The walk of an address, given by its offset in the range of the entry at level \<open>l\<close>.\<close>

function look :: "nat \<Rightarrow> xtree \<Rightarrow> nat \<Rightarrow> (u64 \<times> nat) option" where
  "look l (Leaf d) off = (if d = INVALID_DESC then None else Some (d, l))"
| "look l (Sub i us) off =
     (if off div bs (Suc l) < length us then look (Suc l) (us ! (off div bs (Suc l))) (off mod bs (Suc l)) else None)"
  by pat_completeness auto
termination
proof (relation "measure (\<lambda>(l, t, off). size t)")
  fix l i off and us :: "xtree list" assume "off div bs (Suc l) < length us"
  then have "size (us ! (off div bs (Suc l))) \<le> size_list size us" by (rule size_list_estimation'[OF nth_mem order_refl])
  then show "((Suc l, us ! (off div bs (Suc l)), off mod bs (Suc l)), l, Sub i us, off) \<in> measure (\<lambda>(l, t, off). size t)" by simp
qed simp

definition look_table :: "nat \<Rightarrow> xtree list \<Rightarrow> nat \<Rightarrow> (u64 \<times> nat) option" where
  "look_table l ts off = (if off div bs l < length ts then look l (ts ! (off div bs l)) (off mod bs l) else None)"

lemma look_Sub: "look l (Sub i us) off = look_table (Suc l) us off"
  by (simp add: look_table_def)

subsection \<open>Trees in memory\<close>

text \<open>Descriptors that may stand in a table of a level without pointing to another table.\<close>

definition leaf_desc :: "nat \<Rightarrow> u64 \<Rightarrow> bool" where
  "leaf_desc l d \<longleftrightarrow> d = INVALID_DESC \<or> d AND DESC_MASK = (if l = 3 then PAGE_DESC else BLOCK_DESC)"

fun rep :: "xlat_ctx \<Rightarrow> nat \<Rightarrow> xtree \<Rightarrow> u64 \<Rightarrow> bool" where
  "rep ctx l (Leaf d) x \<longleftrightarrow> x = d \<and> leaf_desc l d"
| "rep ctx l (Sub i us) x \<longleftrightarrow> l < 3 \<and> x = (TABLE_DESC OR xlat_table_addr ctx i) \<and> i < tables_num ctx \<and>
     length us = XLAT_TABLE_ENTRIES \<and> list_all2 (rep ctx (Suc l)) us (tables ctx ! i)"

abbreviation rep_table :: "xlat_ctx \<Rightarrow> nat \<Rightarrow> xtree list \<Rightarrow> u64 list \<Rightarrow> bool" where
  "rep_table ctx l \<equiv> list_all2 (rep ctx l)"

fun table_of :: "table_ref \<Rightarrow> xlat_ctx \<Rightarrow> u64 list" where
  "table_of Base_table ctx = base_table ctx"
| "table_of (Sub_table i) ctx = tables ctx ! i"

text \<open>Tables that are not in use.\<close>

definition free_tables :: "xlat_ctx \<Rightarrow> nat set" where
  "free_tables ctx = (if xc_dynamic ctx then {i. i < tables_num ctx \<and> tables_mapped_regions ctx ! i = 0}
     else {next_table ctx..<tables_num ctx})"

text \<open>A context whose tables have the right sizes and alignment and whose unused tables are empty.\<close>

definition pool_ok :: "xlat_ctx \<Rightarrow> bool" where
  "pool_ok ctx \<longleftrightarrow> length (tables ctx) = tables_num ctx \<and> (\<forall>t \<in> set (tables ctx). length t = XLAT_TABLE_ENTRIES) \<and>
     length (base_table ctx) = base_table_entries ctx \<and>
     (xc_dynamic ctx \<longrightarrow> length (tables_mapped_regions ctx) = tables_num ctx \<and> (\<forall>n \<in> set (tables_mapped_regions ctx). 0 \<le> n)) \<and>
     4096 dvd unat (xc_tables_addr ctx) \<and> unat (xc_tables_addr ctx) + 4096 * tables_num ctx \<le> 2 ^ 48 \<and>
     (\<forall>i \<in> free_tables ctx. tables ctx ! i = replicate XLAT_TABLE_ENTRIES INVALID_DESC)"

text \<open>What mapping does not change.\<close>

definition same_conf :: "xlat_ctx \<Rightarrow> xlat_ctx \<Rightarrow> bool" where
  "same_conf c c' \<longleftrightarrow> tables_num c' = tables_num c \<and> xc_tables_addr c' = xc_tables_addr c \<and> xc_dynamic c' = xc_dynamic c \<and>
     base_level c' = base_level c \<and> xlat_regime c' = xlat_regime c \<and> base_table_entries c' = base_table_entries c \<and>
     mmap c' = mmap c \<and> mmap_num c' = mmap_num c \<and> max_va c' = max_va c \<and> max_pa c' = max_pa c \<and>
     va_max_address c' = va_max_address c \<and> pa_max_address c' = pa_max_address c \<and> initialized c' = initialized c"

lemma same_conf_refl [simp]: "same_conf c c"
  by (simp add: same_conf_def)

lemma same_conf_trans: "same_conf a b \<Longrightarrow> same_conf b c \<Longrightarrow> same_conf a c"
  by (simp add: same_conf_def)

text \<open>A tree depends on the tables of its nodes only.\<close>

lemma rep_frame:
  assumes "same_conf c c'" "\<And>i. i \<in> set (nodes t) \<Longrightarrow> tables c' ! i = tables c ! i"
  shows "rep c' l t x \<longleftrightarrow> rep c l t x"
  using assms(2)
proof (induction t arbitrary: l x)
  case (Sub i us)
  have "rep c' (Suc l) u y \<longleftrightarrow> rep c (Suc l) u y" if "u \<in> set us" for u y
    using Sub.IH[OF that] Sub.prems that by fastforce
  then have "list_all2 (rep c' (Suc l)) us ys \<longleftrightarrow> list_all2 (rep c (Suc l)) us ys" for ys
    by (auto simp: list_all2_conv_all_nth)
  moreover have "tables c' ! i = tables c ! i" using Sub.prems by simp
  ultimately show ?case using assms(1) by (simp add: same_conf_def xlat_table_addr_def)
qed simp

lemma table_addr_facts:
  assumes "pool_ok ctx" "i < tables_num ctx"
  shows "unat (xlat_table_addr ctx i) = unat (xc_tables_addr ctx) + 4096 * i"
    and "(TABLE_DESC OR xlat_table_addr ctx i) AND DESC_MASK = TABLE_DESC"
    and "xlat_table_at ctx ((TABLE_DESC OR xlat_table_addr ctx i) AND TABLE_ADDR_MASK) = Some (Sub_table i)"
proof -
  have b: "4096 dvd unat (xc_tables_addr ctx)" "unat (xc_tables_addr ctx) + 4096 * i < 2 ^ 48"
    using assms by (auto simp: pool_ok_def)
  have u: "unat (of_nat (4096 * i) :: u64) = 4096 * i"
    using b(2) by (simp only: unat_of_nat) simp
  then show a: "unat (xlat_table_addr ctx i) = unat (xc_tables_addr ctx) + 4096 * i"
    using b unat_add_lem[of "xc_tables_addr ctx" "of_nat (4096 * i)"] by (simp only: xlat_table_addr_def) simp
  then have c: "4096 dvd unat (xlat_table_addr ctx i)" "unat (xlat_table_addr ctx i) < 2 ^ 48" using b by simp_all
  show "(TABLE_DESC OR xlat_table_addr ctx i) AND DESC_MASK = TABLE_DESC" by (rule desc_type_table(1)[OF c])
  have o: "xlat_table_addr ctx i - xc_tables_addr ctx = of_nat (4096 * i)" by (simp add: xlat_table_addr_def)
  have m: "(0xFFF :: u64) = XLAT_BLOCK_MASK 3"
    by (simp add: XLAT_BLOCK_MASK_def XLAT_BLOCK_SIZE_def XLAT_ADDR_SHIFT_def PAGE_SIZE_SHIFT_def XLAT_TABLE_LEVEL_MAX_def)
  have "of_nat (4096 * i) AND (0xFFF :: u64) = 0" unfolding m mask_zero u by (simp add: bs_vals)
  moreover have "unat ((of_nat (4096 * i) :: u64) div 4096) = i" unfolding unat_div u by simp
  ultimately show "xlat_table_at ctx ((TABLE_DESC OR xlat_table_addr ctx i) AND TABLE_ADDR_MASK) = Some (Sub_table i)"
    unfolding desc_type_table(2)[OF c] xlat_table_at_def o Let_def using assms(2) by simp
qed

subsection \<open>The operations on the pool\<close>

definition valid_ref :: "xlat_ctx \<Rightarrow> table_ref \<Rightarrow> bool" where
  "valid_ref c t \<longleftrightarrow> (\<forall>i. t = Sub_table i \<longrightarrow> i < tables_num c \<and> i \<notin> free_tables c)"

lemma xlat_read_eq:
  assumes "pool_ok c" "valid_ref c t"
  shows "xlat_read t k c = aread (table_of t c) k"
  using assms by (cases t) (auto simp: pool_ok_def valid_ref_def)

lemma write_spec:
  assumes "xlat_write t k v c = Some c'" "pool_ok c" "valid_ref c t"
  shows "same_conf c c'" "table_of t c' = (table_of t c)[k := v]" "k < length (table_of t c)"
    and "r \<noteq> t \<Longrightarrow> table_of r c' = table_of r c" "free_tables c' = free_tables c" "pool_ok c'"
proof -
  show c: "same_conf c c'" "table_of t c' = (table_of t c)[k := v]" "k < length (table_of t c)"
      "free_tables c' = free_tables c"
    using assms by (cases t; auto simp: same_conf_def xlat_emit_def valid_ref_def pool_ok_def free_tables_def)+
  show "r \<noteq> t \<Longrightarrow> table_of r c' = table_of r c"
    using assms by (cases t; cases r) (auto simp: xlat_emit_def)
  show "pool_ok c'"
  proof (cases t)
    case Base_table
    then show ?thesis using assms by (auto simp: pool_ok_def xlat_emit_def free_tables_def)
  next
    case (Sub_table i)
    then have i: "i < tables_num c" "i \<notin> free_tables c" using assms(3) by (simp_all add: valid_ref_def)
    have t: "tables c' = (tables c)[i := (tables c ! i)[k := v]]" "base_table c' = base_table c"
      "tables_mapped_regions c' = tables_mapped_regions c"
      using assms(1) Sub_table by (auto simp: xlat_emit_def)
    have "length (tables c ! i) = XLAT_TABLE_ENTRIES" using assms(2) i(1) by (simp add: pool_ok_def)
    then have "\<forall>t \<in> set (tables c'). length t = XLAT_TABLE_ENTRIES"
      using assms(2) unfolding t pool_ok_def by (auto dest!: set_update_subset_insert[THEN subsetD])
    moreover have "\<forall>j \<in> free_tables c. tables c' ! j = replicate XLAT_TABLE_ENTRIES INVALID_DESC"
      using assms(2) i unfolding t pool_ok_def by (metis nth_list_update_neq)
    ultimately show ?thesis
      using assms(2) c(1,4) unfolding pool_ok_def same_conf_def t by simp
  qed
qed

lemma scan_spec:
  "xlat_table_scan regions i k = Some (Some j) \<Longrightarrow> i \<le> j \<and> j < i + k \<and> regions ! j = 0"
  by (induction regions i k rule: xlat_table_scan.induct) (auto split: if_split_asm)

lemma get_empty_spec:
  assumes "xlat_table_get_empty c = Some (r, c')" "pool_ok c"
  shows "same_conf c c'" "table_of t c' = table_of t c" "pool_ok c'" "r = None \<Longrightarrow> xc_dynamic c \<and> c' = c"
    and "r = Some i \<Longrightarrow> i \<in> free_tables c \<and> i < tables_num c \<and> free_tables c' = (if xc_dynamic c then free_tables c else free_tables c - {i})"
proof -
  have "c' = c \<or> \<not> xc_dynamic c \<and> c' = c\<lparr>next_table := next_table c + 1\<rparr>"
    using assms(1) by (auto simp: xlat_table_get_empty_def bind_Some_iff split: if_split_asm)
  then show "same_conf c c'" "table_of t c' = table_of t c" "pool_ok c'"
    using assms(2) by (cases t; auto simp: same_conf_def pool_ok_def free_tables_def)+
  show "r = None \<Longrightarrow> xc_dynamic c \<and> c' = c"
    using assms(1) by (auto simp: xlat_table_get_empty_def bind_Some_iff split: if_split_asm)
  show "r = Some i \<Longrightarrow> i \<in> free_tables c \<and> i < tables_num c \<and> free_tables c' = (if xc_dynamic c then free_tables c else free_tables c - {i})"
    using assms(1) by (auto simp: xlat_table_get_empty_def bind_Some_iff free_tables_def dest!: scan_spec split: if_split_asm)
qed

lemma inc_spec:
  assumes "xlat_table_inc_regions_count (Sub_table i) c = Some c'" "pool_ok c" "xc_dynamic c"
  shows "same_conf c c'" "table_of t c' = table_of t c" "pool_ok c'" "free_tables c' = free_tables c - {i}"
proof -
  have c: "c' = c\<lparr>tables_mapped_regions := (tables_mapped_regions c)[i := tables_mapped_regions c ! i + 1]\<rparr>" "i < tables_num c"
    using assms(1) by (auto simp: xlat_table_inc_regions_count_def xlat_table_get_index_def bind_Some_iff split: if_split_asm)
  have len: "length (tables_mapped_regions c) = tables_num c" "\<forall>n \<in> set (tables_mapped_regions c). 0 \<le> n"
    using assms(2,3) by (auto simp: pool_ok_def)
  have pos: "0 \<le> tables_mapped_regions c ! i" using len c(2) by (metis nth_mem)
  show "same_conf c c'" "table_of t c' = table_of t c" by (cases t; simp add: c same_conf_def)+
  show f: "free_tables c' = free_tables c - {i}"
    using assms(3) len(1) pos c(2) by (auto simp: c(1) free_tables_def nth_list_update)
  have "\<forall>n \<in> set (tables_mapped_regions c'). 0 \<le> n"
    using len(2) pos by (auto simp: c(1) dest!: set_update_subset_insert[THEN subsetD])
  then show "pool_ok c'"
    using assms(2) f by (auto simp: pool_ok_def c(1))
qed

end
