(* ===== verification/Xlat_Map.thy ===== *)
theory Xlat_Map
  imports Xlat_Walk
begin

section \<open>Mapping regions\<close>

text \<open>
  What \<^verbatim>\<open>xlat_tables_map_region()\<close> does to the tables, on the tree they represent: every address of the
  region that was not mapped before gets a descriptor of the region, all others keep theirs, and the
  only tables that change are the ones of the tree and unused ones.
\<close>

subsection \<open>Specification\<close>

abbreviation rb :: "mmap_region \<Rightarrow> nat" where "rb mm \<equiv> unat (base_va mm)"
abbreviation re :: "mmap_region \<Rightarrow> nat" where "re mm \<equiv> unat (end_va_of mm)"

definition region_ok :: "mmap_region \<Rightarrow> bool" where
  "region_ok mm \<longleftrightarrow> 4096 dvd rb mm \<and> 4096 dvd Suc (re mm) \<and> rb mm \<le> re mm \<and> re mm < 2 ^ 48"

text \<open>The first address of the block of level \<open>l\<close> that an address lies in.\<close>

definition block_of :: "nat \<Rightarrow> nat \<Rightarrow> nat" where
  "block_of l v = v div bs l * bs l"

text \<open>A descriptor of the region for an address: a whole block inside the region, of a level that allows
  blocks and within the granularity of the region.\<close>

definition maps_to :: "int \<Rightarrow> mmap_region \<Rightarrow> nat \<Rightarrow> u64 \<Rightarrow> nat \<Rightarrow> bool" where
  "maps_to regime mm v d l \<longleftrightarrow> l \<le> 3 \<and> rb mm \<le> block_of l v \<and> block_of l v + bs l \<le> Suc (re mm) \<and>
     (l < 3 \<longrightarrow> MIN_LVL_BLOCK_DESC \<le> l \<and> XLAT_BLOCK_SIZE l \<le> granularity mm) \<and>
     xlat_desc regime (mm_attr mm) (base_pa mm + of_nat (block_of l v) - base_va mm) l = Some d"

definition mapped_over :: "int \<Rightarrow> mmap_region \<Rightarrow> nat \<Rightarrow> (u64 \<times> nat) option \<Rightarrow> (u64 \<times> nat) option \<Rightarrow> bool" where
  "mapped_over regime mm v old new \<longleftrightarrow>
     (if rb mm \<le> v \<and> v \<le> re mm \<and> old = None then \<exists>d l. new = Some (d, l) \<and> maps_to regime mm v d l else new = old)"

definition entry_done :: "int \<Rightarrow> mmap_region \<Rightarrow> nat \<Rightarrow> nat \<Rightarrow> xtree \<Rightarrow> xtree \<Rightarrow> bool" where
  "entry_done regime mm l va x x' \<longleftrightarrow> (\<forall>off < bs l. mapped_over regime mm (va + off) (look l x off) (look l x' off))"

definition table_done :: "int \<Rightarrow> mmap_region \<Rightarrow> nat \<Rightarrow> nat \<Rightarrow> nat \<Rightarrow> xtree list \<Rightarrow> xtree list \<Rightarrow> bool" where
  "table_done regime mm l B lo ts ts' \<longleftrightarrow>
     (\<forall>off. lo \<le> off \<and> off < length ts * bs l \<longrightarrow> mapped_over regime mm (B + off) (look_table l ts off) (look_table l ts' off))"

abbreviation nodeset :: "xtree list \<Rightarrow> nat set" where
  "nodeset ts \<equiv> set (concat (map nodes ts))"

text \<open>The table \<open>t\<close> of level \<open>l\<close> holds the entries \<open>ts\<close>, whose tables are in use and pairwise different.\<close>

definition owned :: "xlat_ctx \<Rightarrow> nat \<Rightarrow> table_ref \<Rightarrow> xtree list \<Rightarrow> bool" where
  "owned c l t ts \<longleftrightarrow> rep_table c l ts (table_of t c) \<and> distinct (concat (map nodes ts)) \<and>
     (\<forall>i \<in> nodeset ts. i < tables_num c \<and> i \<notin> free_tables c \<and> t \<noteq> Sub_table i)"

text \<open>A change of the tables of a tree that takes new tables from the unused ones; \<open>own\<close> is the table of the
  tree itself.\<close>

definition grown :: "xlat_ctx \<Rightarrow> table_ref \<Rightarrow> nat set \<Rightarrow> xlat_ctx \<Rightarrow> nat set \<Rightarrow> bool" where
  "grown c t N c' N' \<longleftrightarrow> pool_ok c' \<and> same_conf c c' \<and> N \<subseteq> N' \<and> N' \<subseteq> N \<union> free_tables c \<and>
     free_tables c' = free_tables c - N' \<and> (\<forall>r. r \<noteq> t \<longrightarrow> r \<notin> Sub_table ` N' \<longrightarrow> table_of r c' = table_of r c)"

lemma grown_refl: "pool_ok c \<Longrightarrow> N \<inter> free_tables c = {} \<Longrightarrow> grown c t N c N"
  by (auto simp: grown_def)

lemma grown_trans:
  assumes "grown c t N c1 N1" "grown c1 t N1 c2 N2" shows "grown c t N c2 N2"
proof -
  have "r \<notin> Sub_table ` N1" if "r \<notin> Sub_table ` N2" for r using that assms unfolding grown_def by blast
  then show ?thesis using assms same_conf_trans[of c c1 c2] unfolding grown_def by auto
qed

subsection \<open>Replacing one entry\<close>

lemma concat_update:
  assumes "k < length ts"
  shows "concat (map nodes (ts[k := x])) = concat (map nodes (take k ts)) @ nodes x @ concat (map nodes (drop (Suc k) ts))"
  using assms by (simp add: upd_conv_take_nth_drop)

lemma concat_split:
  assumes "k < length ts"
  shows "concat (map nodes ts) = concat (map nodes (take k ts)) @ nodes (ts ! k) @ concat (map nodes (drop (Suc k) ts))"
  using concat_update[OF assms, of "ts ! k"] by simp

lemma entry_merge:
  assumes own: "owned c l t ts" and k: "k < length ts" and ref: "valid_ref c t" and pool: "pool_ok c'" "same_conf c c'"
    and sub: "set (nodes (ts ! k)) \<subseteq> set (nodes x)" "set (nodes x) \<subseteq> set (nodes (ts ! k)) \<union> free_tables c"
    and d: "distinct (nodes x)" and rep: "rep c' l x w" and tab: "table_of t c' = (table_of t c)[k := w]"
    and free: "free_tables c' = free_tables c - set (nodes x)"
    and frame: "\<And>r. r \<noteq> t \<Longrightarrow> r \<notin> Sub_table ` set (nodes x) \<Longrightarrow> table_of r c' = table_of r c"
  shows "owned c' l t (ts[k := x])" "grown c t (nodeset ts) c' (nodeset (ts[k := x]))"
proof -
  let ?a = "concat (map nodes (take k ts))" and ?b = "concat (map nodes (drop (Suc k) ts))"
  have old: "rep_table c l ts (table_of t c)" "distinct (?a @ nodes (ts ! k) @ ?b)"
    "\<And>i. i \<in> set ?a \<union> set ?b \<union> set (nodes (ts ! k)) \<Longrightarrow> i < tables_num c \<and> i \<notin> free_tables c \<and> t \<noteq> Sub_table i"
    using own concat_split[OF k] by (auto simp: owned_def)
  have fr: "i < tables_num c \<and> t \<noteq> Sub_table i" if "i \<in> free_tables c" for i
    using that ref by (auto simp: free_tables_def valid_ref_def split: if_split_asm)
  have set_new: "set (concat (map nodes (ts[k := x]))) = set ?a \<union> set (nodes x) \<union> set ?b"
    unfolding concat_update[OF k] by auto
  have rest: "j \<in> set ?a \<union> set ?b" if "m < length ts" "m \<noteq> k" "j \<in> set (nodes (ts ! m))" for m j
  proof (cases "m < k")
    case True
    then have "ts ! m \<in> set (take k ts)" using k by (auto simp: in_set_conv_nth)
    then show ?thesis using that by auto
  next
    case False
    then have "ts ! m \<in> set (drop (Suc k) ts)" using that k by (auto simp: in_set_conv_nth intro!: exI[of _ "m - Suc k"])
    then show ?thesis using that by auto
  qed
  have disj: "set (nodes x) \<inter> (set ?a \<union> set ?b) = {}" using sub(2) old(2,3) by fastforce
  have "rep c' l (ts[k := x] ! m) ((table_of t c)[k := w] ! m)" if "m < length ts" for m
  proof (cases "m = k")
    case True
    then show ?thesis using k rep old(1) by (simp add: list_all2_lengthD[symmetric])
  next
    case False
    have "tables c' ! j = tables c ! j" if "j \<in> set (nodes (ts ! m))" for j
      using frame[of "Sub_table j"] rest[OF \<open>m < length ts\<close> False that] disj old(3)[of j] by auto
    then show ?thesis
      using False rep_frame[OF pool(2), of "ts ! m"] old(1) \<open>m < length ts\<close> by (simp add: list_all2_conv_all_nth)
  qed
  then have rt: "rep_table c' l (ts[k := x]) (table_of t c')"
    using old(1) unfolding tab by (simp add: list_all2_conv_all_nth)
  have "distinct (concat (map nodes (ts[k := x])))"
    unfolding concat_update[OF k] using old(2) d disj by auto
  moreover have "i < tables_num c' \<and> i \<notin> free_tables c' \<and> t \<noteq> Sub_table i" if "i \<in> nodeset (ts[k := x])" for i
    using that old(3)[of i] fr[of i] sub(2) pool(2) unfolding set_new free by (auto simp: same_conf_def)
  ultimately show "owned c' l t (ts[k := x])" using rt by (simp add: owned_def)
  have os: "nodeset ts = set ?a \<union> set (nodes (ts ! k)) \<union> set ?b" using concat_split[OF k] by auto
  show "grown c t (nodeset ts) c' (nodeset (ts[k := x]))"
    unfolding grown_def set_new os
  proof (intro conjI allI impI)
    show "set ?a \<union> set (nodes (ts ! k)) \<union> set ?b \<subseteq> set ?a \<union> set (nodes x) \<union> set ?b" using sub(1) by blast
    show "set ?a \<union> set (nodes x) \<union> set ?b \<subseteq> set ?a \<union> set (nodes (ts ! k)) \<union> set ?b \<union> free_tables c" using sub(2) by blast
    show "free_tables c' = free_tables c - (set ?a \<union> set (nodes x) \<union> set ?b)" unfolding free using old(3) by blast
    show "table_of r c' = table_of r c" if "r \<noteq> t" "r \<notin> Sub_table ` (set ?a \<union> set (nodes x) \<union> set ?b)" for r
      using frame[of r] that by blast
  qed (use pool in auto)
qed

subsection \<open>One entry\<close>

lemma action_cases:
  assumes "xlat_tables_map_region_action mm ty pa va l = Some a" and l: "l \<le> 3" and va: "unat va + bs l \<le> 2 ^ 48"
    and meet: "rb mm < unat va + bs l" "unat va \<le> re mm"
  obtains "a = ACTION_WRITE_BLOCK_ENTRY" "rb mm \<le> unat va" "unat va + bs l \<le> Suc (re mm)" "ty = INVALID_DESC"
      "l < 3 \<longrightarrow> MIN_LVL_BLOCK_DESC \<le> l \<and> XLAT_BLOCK_SIZE l \<le> granularity mm"
  | "a = ACTION_NONE" "rb mm \<le> unat va" "unat va + bs l \<le> Suc (re mm)" "ty \<noteq> INVALID_DESC" "l < 3 \<longrightarrow> ty \<noteq> TABLE_DESC"
  | "a = ACTION_CREATE_NEW_TABLE" "l < 3" "ty = INVALID_DESC"
  | "a = ACTION_RECURSE_INTO_TABLE" "l < 3" "ty = TABLE_DESC"
proof -
  have e: "unat (va + XLAT_BLOCK_SIZE l - 1) = unat va + bs l - 1" using va by (intro entry_end) simp
  have p: "0 < bs l" by simp
  have cov: "(base_va mm \<le> va \<and> end_va_of mm \<ge> va + XLAT_BLOCK_SIZE l - 1) \<longleftrightarrow> rb mm \<le> unat va \<and> unat va + bs l \<le> Suc (re mm)"
    unfolding word_le_nat_alt e using p by linarith
  have "base_va mm \<le> va + XLAT_BLOCK_SIZE l - 1" using meet unfolding word_le_nat_alt e by linarith
  then show thesis
    using assms(1) that l unfolding xlat_tables_map_region_action_def Let_def cov
    by (auto split: if_split_asm simp: PAGE_DESC_def TABLE_DESC_def BLOCK_DESC_def INVALID_DESC_def)
qed

lemma block_of_entry:
  assumes "bs l dvd va" "off < bs l" shows "block_of l (va + off) = va"
  using assms by (auto simp: block_of_def elim!: dvdE)

lemma leaf_not_table: "leaf_desc l d \<Longrightarrow> d AND DESC_MASK = TABLE_DESC \<Longrightarrow> l = 3"
  by (auto simp: leaf_desc_def PAGE_DESC_def BLOCK_DESC_def TABLE_DESC_def INVALID_DESC_def split: if_split_asm)

lemma leaf_invalid: "leaf_desc l d \<Longrightarrow> d AND DESC_MASK = INVALID_DESC \<Longrightarrow> d = INVALID_DESC"
  by (auto simp: leaf_desc_def PAGE_DESC_def BLOCK_DESC_def INVALID_DESC_def split: if_split_asm)

text \<open>An entry by the type of its descriptor.\<close>

lemma rep_type:
  assumes "rep c l x w" "pool_ok c" "l \<le> 3"
  shows "w AND DESC_MASK = INVALID_DESC \<Longrightarrow> x = Leaf INVALID_DESC"
    and "w AND DESC_MASK = TABLE_DESC \<Longrightarrow> l < 3 \<Longrightarrow> \<exists>i us. x = Sub i us"
    and "w AND DESC_MASK \<noteq> INVALID_DESC \<Longrightarrow> (l < 3 \<longrightarrow> w AND DESC_MASK \<noteq> TABLE_DESC) \<Longrightarrow> x = Leaf w \<and> w \<noteq> INVALID_DESC"
proof -
  have s: "w AND DESC_MASK = TABLE_DESC" "l < 3" if "x = Sub i us" for i us
    using assms that table_addr_facts(2)[OF assms(2), of i] by simp_all
  have nt: "TABLE_DESC \<noteq> INVALID_DESC" by (simp add: TABLE_DESC_def INVALID_DESC_def)
  show "w AND DESC_MASK = INVALID_DESC \<Longrightarrow> x = Leaf INVALID_DESC"
    using assms(1) s nt leaf_invalid by (cases x) auto
  show "w AND DESC_MASK = TABLE_DESC \<Longrightarrow> l < 3 \<Longrightarrow> \<exists>i us. x = Sub i us"
    using assms(1) leaf_not_table[of l w] by (cases x) auto
  show "x = Leaf w \<and> w \<noteq> INVALID_DESC" if "w AND DESC_MASK \<noteq> INVALID_DESC" "l < 3 \<longrightarrow> w AND DESC_MASK \<noteq> TABLE_DESC"
    using assms(1) s that by (cases x) (auto simp: INVALID_DESC_def)
qed

text \<open>How a walk over a range of addresses ends: everything done, or, with a pool that can run out of
  tables, at the entry for which there was none.\<close>

definition finished :: "xlat_ctx \<Rightarrow> mmap_region \<Rightarrow> nat \<Rightarrow> u64 \<Rightarrow> bool \<Rightarrow> bool" where
  "finished c mm fin e P \<longleftrightarrow> unat e = min (re mm) fin \<and> P \<or> xc_dynamic c \<and> 4096 dvd unat e"

text \<open>The contract of the recursive call on a table of level \<open>l\<close>.\<close>

definition region_spec :: "mmap_region \<Rightarrow> nat \<Rightarrow> bool" where
  "region_spec mm l \<longleftrightarrow> (\<forall>c i us B e c'.
     pool_ok c \<longrightarrow> i < tables_num c \<longrightarrow> (\<not> xc_dynamic c \<longrightarrow> i \<notin> free_tables c) \<longrightarrow> owned c l (Sub_table i) us \<longrightarrow>
     length us = XLAT_TABLE_ENTRIES \<longrightarrow> base_level c < l \<longrightarrow> unat B + 512 * bs l \<le> 2 ^ 48 \<longrightarrow> 512 * bs l dvd unat B \<longrightarrow>
     rb mm < unat B + 512 * bs l \<longrightarrow> unat B \<le> re mm \<longrightarrow>
     xlat_tables_map_region c mm B (Sub_table i) XLAT_TABLE_ENTRIES l = Some (e, c') \<longrightarrow>
     (\<exists>us'. owned c' l (Sub_table i) us' \<and> length us' = XLAT_TABLE_ENTRIES \<and>
        grown c (Sub_table i) (insert i (nodeset us)) c' (insert i (nodeset us')) \<and>
        finished c mm (unat B + 512 * bs l - 1) e (table_done (xlat_regime c) mm l (unat B) 0 us us')))"

lemma child_merge:
  assumes own: "owned c l t ts" and k: "k < length ts" and ref: "valid_ref c t" and l: "l < 3" and i: "i < tables_num c" "t \<noteq> Sub_table i"
    and c2: "same_conf c c2" "table_of t c2 = (table_of t c)[k := TABLE_DESC OR xlat_table_addr c i]"
      "\<And>r. r \<noteq> t \<Longrightarrow> table_of r c2 = table_of r c" "free_tables c - {i} \<subseteq> free_tables c2" "free_tables c2 \<subseteq> free_tables c"
    and us: "set (nodes (ts ! k)) \<subseteq> insert i (nodeset us)" "insert i (nodeset us) \<subseteq> set (nodes (ts ! k)) \<union> free_tables c"
    and post: "owned c' (Suc l) (Sub_table i) us'" "length us' = XLAT_TABLE_ENTRIES"
      "grown c2 (Sub_table i) (insert i (nodeset us)) c' (insert i (nodeset us'))"
  shows "owned c' l t (ts[k := Sub i us'])" "grown c t (nodeset ts) c' (nodeset (ts[k := Sub i us']))"
proof -
  let ?N = "insert i (nodeset us')"
  have g: "pool_ok c'" "same_conf c2 c'" "insert i (nodeset us) \<subseteq> ?N" "?N \<subseteq> insert i (nodeset us) \<union> free_tables c2"
    "free_tables c' = free_tables c2 - ?N" "\<And>r. r \<noteq> Sub_table i \<Longrightarrow> r \<notin> Sub_table ` ?N \<Longrightarrow> table_of r c' = table_of r c2"
    using post(3) unfolding grown_def by auto
  have conf: "same_conf c c'" by (rule same_conf_trans[OF c2(1) g(2)])
  have N: "?N \<subseteq> set (nodes (ts ! k)) \<union> free_tables c" using g(4) us(2) c2(5) by blast
  have "set (nodes (ts ! k)) \<subseteq> nodeset ts" using k by (metis concat_split le_sup_iff set_append subset_refl)
  then have "t \<notin> Sub_table ` ?N" using N own ref unfolding owned_def valid_ref_def by blast
  then have tab: "table_of t c' = (table_of t c)[k := TABLE_DESC OR xlat_table_addr c i]" using g(6)[of t] i(2) c2(2) by simp
  have addr: "xlat_table_addr c' i = xlat_table_addr c i" "tables_num c' = tables_num c" using conf by (simp_all add: same_conf_def xlat_table_addr_def)
  have rep: "rep c' l (Sub i us') (TABLE_DESC OR xlat_table_addr c i)"
    using post(1,2) l i(1) by (simp add: addr owned_def)
  have d: "distinct (nodes (Sub i us'))" "set (nodes (Sub i us')) = ?N" using post(1) by (auto simp: owned_def)
  have free: "free_tables c' = free_tables c - set (nodes (Sub i us'))" unfolding g(5) d(2) using c2(4,5) by blast
  have frame: "table_of r c' = table_of r c" if "r \<noteq> t" "r \<notin> Sub_table ` set (nodes (Sub i us'))" for r
    using g(6)[of r] c2(3)[of r] that unfolding d(2) by simp
  have sub: "set (nodes (ts ! k)) \<subseteq> set (nodes (Sub i us'))" "set (nodes (Sub i us')) \<subseteq> set (nodes (ts ! k)) \<union> free_tables c"
    unfolding d(2) using us(1) g(3) N by blast+
  note M = entry_merge[OF own k ref g(1) conf sub d(1) rep tab free frame]
  show "owned c' l t (ts[k := Sub i us'])" "grown c t (nodeset ts) c' (nodeset (ts[k := Sub i us']))" by (rule M; blast)+
qed

text \<open>The range of addresses of the entries is covered by the recursive call.\<close>

lemma look_range: "l < 3 \<Longrightarrow> table_done regime mm (Suc l) va 0 us us' \<Longrightarrow> length us = XLAT_TABLE_ENTRIES \<Longrightarrow>
  entry_done regime mm l va (Sub i us) (Sub i us')"
  by (simp add: entry_done_def table_done_def look_Sub bs_Suc XLAT_TABLE_ENTRIES_def del: look.simps)

lemma look_table_invalid: "look_table l (replicate n (Leaf INVALID_DESC)) off = None"
  by (simp add: look_table_def)

text \<open>The state of an entry after the loop has dealt with it: what the loop does next, and the new entry.\<close>

definition entry_spec ::
  "mmap_region \<Rightarrow> xlat_ctx \<Rightarrow> nat \<Rightarrow> table_ref \<Rightarrow> xtree list \<Rightarrow> nat \<Rightarrow> u64 \<Rightarrow> u64 option \<Rightarrow> xlat_ctx \<Rightarrow> xtree \<Rightarrow> bool" where
  "entry_spec mm c l t ts k va early c' x \<longleftrightarrow>
     owned c' l t (ts[k := x]) \<and> grown c t (nodeset ts) c' (nodeset (ts[k := x])) \<and>
     (let P = entry_done (xlat_regime c) mm l (unat va) (ts ! k) x; fin = unat va + bs l - 1 in
      case early of None \<Rightarrow> fin \<le> re mm \<and> P
      | Some e \<Rightarrow> finished c mm fin e (re mm < fin \<and> P))"

lemma child_entry:
  assumes spec: "region_spec mm (Suc l)" and l: "l < 3" and own: "owned c l t ts" and k: "k < length ts" and ref: "valid_ref c t"
    and va: "unat va + bs l \<le> 2 ^ 48" "bs l dvd unat va" "rb mm < unat va + bs l" "unat va \<le> re mm" and lev: "base_level c \<le> l"
    and i: "i < tables_num c" "t \<noteq> Sub_table i"
    and c2: "same_conf c c2" "pool_ok c2" "table_of t c2 = (table_of t c)[k := TABLE_DESC OR xlat_table_addr c i]"
      "\<And>r. r \<noteq> t \<Longrightarrow> table_of r c2 = table_of r c" "free_tables c - {i} \<subseteq> free_tables c2" "free_tables c2 \<subseteq> free_tables c"
      "\<not> xc_dynamic c \<Longrightarrow> i \<notin> free_tables c2"
    and us: "set (nodes (ts ! k)) \<subseteq> insert i (nodeset us)" "insert i (nodeset us) \<subseteq> set (nodes (ts ! k)) \<union> free_tables c"
      "owned c2 (Suc l) (Sub_table i) us" "length us = XLAT_TABLE_ENTRIES"
      "\<And>off. off < bs l \<Longrightarrow> look_table (Suc l) us off = look l (ts ! k) off"
    and call: "xlat_tables_map_region c2 mm va (Sub_table i) XLAT_TABLE_ENTRIES (Suc l) = Some (e, c')"
  shows "\<exists>us'. entry_spec mm c l t ts k va (if e \<noteq> va + XLAT_BLOCK_SIZE l - 1 then Some e else None) c' (Sub i us')"
proof -
  have conf: "tables_num c2 = tables_num c" "xc_dynamic c2 = xc_dynamic c" "base_level c2 = base_level c" "xlat_regime c2 = xlat_regime c"
    using c2(1) by (simp_all add: same_conf_def)
  have b: "512 * bs (Suc l) = bs l" using bs_Suc[OF l] by simp
  obtain us' where post: "owned c' (Suc l) (Sub_table i) us'" "length us' = XLAT_TABLE_ENTRIES"
    "grown c2 (Sub_table i) (insert i (nodeset us)) c' (insert i (nodeset us'))"
    and fin: "finished c2 mm (unat va + bs l - 1) e (table_done (xlat_regime c) mm (Suc l) (unat va) 0 us us')"
    using spec[unfolded region_spec_def, rule_format, of c2 i us va e c'] c2(2,7) i us(3,4) va lev call by (auto simp: conf b)
  note M = child_merge[OF own k ref l i c2(1,3,4,5,6) us(1,2) post]
  have ee: "unat (va + XLAT_BLOCK_SIZE l - 1) = unat va + bs l - 1" using va(1) by (intro entry_end) simp
  have P: "entry_done (xlat_regime c) mm l (unat va) (ts ! k) (Sub i us')" if "table_done (xlat_regime c) mm (Suc l) (unat va) 0 us us'"
    using look_range[OF l that us(4), of i] us(5) by (simp add: entry_done_def look_Sub del: look.simps)
  have odd: "\<not> 4096 dvd unat va + bs l - 1"
  proof
    assume "4096 dvd unat va + bs l - 1"
    moreover have "4096 dvd unat va + bs l" using va(2) bs_bounds(2)[of l] by (meson dvd_add dvd_trans)
    ultimately have "4096 dvd (unat va + bs l) - (unat va + bs l - 1)" by (rule dvd_diff_nat[rotated])
    then show False using bs_pos[of l] by simp
  qed
  have "case (if e \<noteq> va + XLAT_BLOCK_SIZE l - 1 then Some e else None) of
      None \<Rightarrow> unat va + bs l - 1 \<le> re mm \<and> entry_done (xlat_regime c) mm l (unat va) (ts ! k) (Sub i us')
    | Some e \<Rightarrow> finished c mm (unat va + bs l - 1) e (re mm < unat va + bs l - 1 \<and> entry_done (xlat_regime c) mm l (unat va) (ts ! k) (Sub i us'))"
    using fin P odd unfolding finished_def conf word_unat_eq_iff ee by (auto simp: min_def split: if_split_asm)
  then show ?thesis using M unfolding entry_spec_def Let_def by blast
qed

lemma write_entry:
  assumes own: "owned c l t ts" and pool: "pool_ok c" and k: "k < length ts" and ref: "valid_ref c t"
    and l: "l \<le> 3" and va: "bs l dvd unat va" "rb mm \<le> unat va" "unat va + bs l \<le> Suc (re mm)"
    and old: "ts ! k = Leaf INVALID_DESC" and lev: "l < 3 \<longrightarrow> MIN_LVL_BLOCK_DESC \<le> l \<and> XLAT_BLOCK_SIZE l \<le> granularity mm"
    and d: "xlat_desc (xlat_regime c) (mm_attr mm) (base_pa mm + va - base_va mm) l = Some d" and w: "xlat_write t k d c = Some c'"
  shows "entry_spec mm c l t ts k va None c' (Leaf d)"
proof -
  note W = write_spec[OF w pool ref]
  have ty: "d AND DESC_MASK = (if l = 3 then PAGE_DESC else BLOCK_DESC)" by (rule xlat_desc_type[OF d])
  then have nz: "d \<noteq> INVALID_DESC" by (auto simp: PAGE_DESC_def BLOCK_DESC_def INVALID_DESC_def split: if_split_asm)
  have "rep c' l (Leaf d) d" using ty by (simp add: leaf_desc_def)
  note M = entry_merge[OF own k ref W(6,1) _ _ _ this W(2)]
  have m: "owned c' l t (ts[k := Leaf d])" "grown c t (nodeset ts) c' (nodeset (ts[k := Leaf d]))"
    by (rule M; use W(4,5) old in simp)+
  have "maps_to (xlat_regime c) mm (unat va + off) d l" if "off < bs l" for off
    using d va lev l by (simp add: maps_to_def block_of_entry[OF va(1) that])
  then have "entry_done (xlat_regime c) mm l (unat va) (ts ! k) (Leaf d)"
    using va nz by (auto simp: entry_done_def mapped_over_def old)
  then show ?thesis using m va by (simp add: entry_spec_def Let_def)
qed

lemma owned_fresh:
  assumes "pool_ok c" "tables c ! i = replicate XLAT_TABLE_ENTRIES INVALID_DESC"
  shows "owned c l (Sub_table i) (replicate XLAT_TABLE_ENTRIES (Leaf INVALID_DESC))"
  using assms by (auto simp: owned_def list_all2_conv_all_nth leaf_desc_def)

declare xlat_tables_map_region.simps [simp del] xlat_tables_map_loop.simps [simp del] xlat_tables_map_entry.simps [simp del]

lemma map_entry_eq:
  assumes "l \<le> 3" "xlat_read t k c = Some w"
    "xlat_tables_map_region_action mm (w AND DESC_MASK) (base_pa mm + va - base_va mm) va l = Some a"
  shows "a = ACTION_WRITE_BLOCK_ENTRY \<Longrightarrow> xlat_tables_map_entry c mm t l k va = do {
      d \<leftarrow> xlat_desc (xlat_regime c) (mm_attr mm) (base_pa mm + va - base_va mm) l;
      c \<leftarrow> xlat_write t k d c;
      Some (None, c) }"
    and "a = ACTION_NONE \<Longrightarrow> xlat_tables_map_entry c mm t l k va = Some (None, c)"
    and "a = ACTION_CREATE_NEW_TABLE \<Longrightarrow> xlat_table_get_empty c = Some (None, c1) \<Longrightarrow>
      xlat_tables_map_entry c mm t l k va = Some (Some va, c1)"
    and "a = ACTION_CREATE_NEW_TABLE \<Longrightarrow> xlat_table_get_empty c = None \<Longrightarrow> xlat_tables_map_entry c mm t l k va = None"
    and "a = ACTION_CREATE_NEW_TABLE \<Longrightarrow> xlat_table_get_empty c = Some (Some i, c1) \<Longrightarrow>
      xlat_tables_map_entry c mm t l k va = do {
        c2 \<leftarrow> xlat_write t k (TABLE_DESC OR xlat_table_addr c1 i) c1;
        (e, c) \<leftarrow> xlat_tables_map_region c2 mm va (Sub_table i) XLAT_TABLE_ENTRIES (Suc l);
        Some (if e \<noteq> va + XLAT_BLOCK_SIZE l - 1 then Some e else None, c) }"
    and "a = ACTION_RECURSE_INTO_TABLE \<Longrightarrow> xlat_table_at c (w AND TABLE_ADDR_MASK) = Some s \<Longrightarrow>
      xlat_tables_map_entry c mm t l k va = do {
        (e, c) \<leftarrow> xlat_tables_map_region c mm va s XLAT_TABLE_ENTRIES (Suc l);
        Some (if e \<noteq> va + XLAT_BLOCK_SIZE l - 1 then Some e else None, c) }"
  using assms by (simp_all add: xlat_tables_map_entry.simps Let_def XLAT_TABLE_LEVEL_MAX_def)

lemma map_entry_spec:
  assumes spec: "l < 3 \<Longrightarrow> region_spec mm (Suc l)" and l: "l \<le> 3" and own: "owned c l t ts" and pool: "pool_ok c"
    and k: "k < length ts" and ref: "valid_ref c t" and lev: "base_level c \<le> l"
    and va: "unat va + bs l \<le> 2 ^ 48" "bs l dvd unat va" "rb mm < unat va + bs l" "unat va \<le> re mm"
    and call: "xlat_tables_map_entry c mm t l k va = Some (early, c')"
  shows "\<exists>x. entry_spec mm c l t ts k va early c' x"
proof -
  let ?w = "table_of t c ! k" and ?pa = "base_pa mm + va - base_va mm"
  have len: "length (table_of t c) = length ts" using own by (auto simp: owned_def dest: list_all2_lengthD)
  have rep: "rep c l (ts ! k) ?w" using own k by (simp add: owned_def list_all2_nthD)
  have rd: "xlat_read t k c = Some ?w" using k by (simp add: xlat_read_eq[OF pool ref] len)
  obtain a where a: "xlat_tables_map_region_action mm (?w AND DESC_MASK) ?pa va l = Some a"
    using call rd by (auto simp: xlat_tables_map_entry.simps bind_Some_iff Let_def split: if_split_asm)
  note E = map_entry_eq[OF l rd a]
  show ?thesis
  proof (rule action_cases[OF a l va(1,3,4)])
    assume A: "a = ACTION_WRITE_BLOCK_ENTRY" "rb mm \<le> unat va" "unat va + bs l \<le> Suc (re mm)" "?w AND DESC_MASK = INVALID_DESC"
      "l < 3 \<longrightarrow> MIN_LVL_BLOCK_DESC \<le> l \<and> XLAT_BLOCK_SIZE l \<le> granularity mm"
    then obtain d where "xlat_desc (xlat_regime c) (mm_attr mm) ?pa l = Some d" "xlat_write t k d c = Some c'" "early = None"
      using call E(1)[OF A(1)] by (auto simp: bind_Some_iff)
    then show ?thesis using write_entry[OF own pool k ref l va(2) A(2,3) rep_type(1)[OF rep pool l A(4)] A(5)] by blast
  next
    assume A: "a = ACTION_NONE" "rb mm \<le> unat va" "unat va + bs l \<le> Suc (re mm)" "?w AND DESC_MASK \<noteq> INVALID_DESC"
      "l < 3 \<longrightarrow> ?w AND DESC_MASK \<noteq> TABLE_DESC"
    then have c: "c' = c" "early = None" using call E(2)[OF A(1)] by auto
    have x: "ts ! k = Leaf ?w" "?w \<noteq> INVALID_DESC" using rep_type(3)[OF rep pool l A(4,5)] by auto
    have "grown c t (nodeset ts) c (nodeset ts)" using own by (intro grown_refl[OF pool]) (auto simp: owned_def)
    moreover have "entry_done (xlat_regime c) mm l (unat va) (ts ! k) (ts ! k)"
      using x(2) unfolding x(1) by (simp add: entry_done_def mapped_over_def)
    ultimately show ?thesis using own A(3) by (intro exI[of _ "ts ! k"]) (simp add: entry_spec_def c Let_def)
  next
    assume A: "a = ACTION_CREATE_NEW_TABLE" "l < 3" "?w AND DESC_MASK = INVALID_DESC"
    have x: "ts ! k = Leaf INVALID_DESC" by (rule rep_type(1)[OF rep pool l A(3)])
    obtain r c1 where r: "xlat_table_get_empty c = Some (r, c1)" using call E(4)[OF A(1)] by (cases "xlat_table_get_empty c") auto
    note G = get_empty_spec[OF r pool]
    show ?thesis
    proof (cases r)
      case None
      then have "early = Some va" "c' = c" "xc_dynamic c" using call E(3)[OF A(1)] r G(4) by auto
      moreover have "grown c t (nodeset ts) c (nodeset ts)" using own by (intro grown_refl[OF pool]) (auto simp: owned_def)
      moreover have "4096 dvd unat va" using va(2) bs_bounds(2) dvd_trans by blast
      ultimately show ?thesis using own by (intro exI[of _ "ts ! k"]) (simp add: entry_spec_def finished_def Let_def)
    next
      case (Some i)
      have fi: "i \<in> free_tables c" "i < tables_num c" "free_tables c1 = (if xc_dynamic c then free_tables c else free_tables c - {i})"
        using G(5)[OF Some] by auto
      have ti: "t \<noteq> Sub_table i" using fi(1) ref by (auto simp: valid_ref_def)
      have ref1: "valid_ref c1 t" using ref fi(3) G(1) by (auto simp: valid_ref_def same_conf_def split: if_split_asm)
      have addr: "xlat_table_addr c1 i = xlat_table_addr c i" using G(1) by (simp add: same_conf_def xlat_table_addr_def)
      from call E(5)[OF A(1) r[unfolded Some]] obtain c2 e where w: "xlat_write t k (TABLE_DESC OR xlat_table_addr c i) c1 = Some c2"
        and rec: "xlat_tables_map_region c2 mm va (Sub_table i) XLAT_TABLE_ENTRIES (Suc l) = Some (e, c')"
        and early: "early = (if e \<noteq> va + XLAT_BLOCK_SIZE l - 1 then Some e else None)"
        by (auto simp: bind_Some_iff addr)
      note W = write_spec[OF w G(3) ref1]
      have "tables c2 ! i = replicate XLAT_TABLE_ENTRIES INVALID_DESC"
        using W(4)[of "Sub_table i"] G(2)[of "Sub_table i"] ti fi(1) pool by (simp add: pool_ok_def)
      then have us: "owned c2 (Suc l) (Sub_table i) (replicate XLAT_TABLE_ENTRIES (Leaf INVALID_DESC))" by (rule owned_fresh[OF W(6)])
      have "\<exists>us'. entry_spec mm c l t ts k va (if e \<noteq> va + XLAT_BLOCK_SIZE l - 1 then Some e else None) c' (Sub i us')"
        by (rule child_entry[OF spec[OF A(2)] A(2) own k ref va lev fi(2) ti same_conf_trans[OF G(1) W(1)] W(6) _ _ _ _ _ _ _ us _ _ rec])
          (use W G(2) fi x in \<open>auto simp: look_table_invalid\<close>)
      then show ?thesis unfolding early by blast
    qed
  next
    assume A: "a = ACTION_RECURSE_INTO_TABLE" "l < 3" "?w AND DESC_MASK = TABLE_DESC"
    obtain i us where x: "ts ! k = Sub i us" using rep_type(2)[OF rep pool l A(3,2)] by blast
    have i: "?w = (TABLE_DESC OR xlat_table_addr c i)" "i < tables_num c" "length us = XLAT_TABLE_ENTRIES"
      "rep_table c (Suc l) us (tables c ! i)" using rep by (simp_all add: x)
    from call E(6)[OF A(1), unfolded i(1), OF table_addr_facts(3)[OF pool i(2)]] obtain e where rec: "xlat_tables_map_region c mm va (Sub_table i) XLAT_TABLE_ENTRIES (Suc l) = Some (e, c')"
        and early: "early = (if e \<noteq> va + XLAT_BLOCK_SIZE l - 1 then Some e else None)"
      by (auto simp: bind_Some_iff)
    have s: "set (nodes (ts ! k)) \<subseteq> nodeset ts" using k by (metis concat_split le_sup_iff set_append subset_refl)
    have n: "i \<notin> free_tables c" "t \<noteq> Sub_table i" using own s by (auto simp: owned_def x)
    have "distinct (nodes (ts ! k))" using own concat_split[OF k] by (simp add: owned_def)
    then have us: "owned c (Suc l) (Sub_table i) us" using own s i(4) by (auto simp: owned_def x)
    have same: "table_of t c = (table_of t c)[k := TABLE_DESC OR xlat_table_addr c i]" using i(1) by (metis list_update_id)
    have "\<exists>us'. entry_spec mm c l t ts k va (if e \<noteq> va + XLAT_BLOCK_SIZE l - 1 then Some e else None) c' (Sub i us')"
      by (rule child_entry[OF spec[OF A(2)] A(2) own k ref va lev i(2) n(2) same_conf_refl pool same _ _ _ _ _ _ us i(3) _ rec])
        (use n in \<open>auto simp: x look_Sub simp del: look.simps\<close>)
    then show ?thesis unfolding early by blast
  qed
qed

subsection \<open>The loop\<close>

lemma table_done_step:
  assumes e: "entry_done regime mm l (B + k * bs l) (ts ! k) x" and k: "k < length ts"
    and rest: "table_done regime mm l B (Suc k * bs l) (ts[k := x]) ts'" and same: "length ts' = length ts" "ts' ! k = x"
  shows "table_done regime mm l B (k * bs l) ts ts'"
  unfolding table_done_def
proof (intro allI impI)
  fix off assume off: "k * bs l \<le> off \<and> off < length ts * bs l"
  then have d: "off div bs l < length ts" by (simp add: less_mult_imp_div_less)
  show "mapped_over regime mm (B + off) (look_table l ts off) (look_table l ts' off)"
  proof (cases "off < Suc k * bs l")
    case True
    then have q: "off div bs l = k" using off by (metis Suc_leI div_nat_eqI le_antisym less_mult_imp_div_less mult.commute not_less)
    then have eq: "B + off = B + k * bs l + off mod bs l" using div_mult_mod_eq[of off "bs l"] by simp
    have "mapped_over regime mm (B + off) (look l (ts ! k) (off mod bs l)) (look l x (off mod bs l))"
      unfolding eq using e by (simp add: entry_done_def)
    then show ?thesis using k same by (simp add: look_table_def q)
  next
    case False
    then have "k \<noteq> off div bs l" by (metis bs_pos div_less_iff_less_mult lessI)
    then have "look_table l (ts[k := x]) off = look_table l ts off" by (simp add: look_table_def)
    then show ?thesis using rest[unfolded table_done_def, rule_format, of off] False off by simp
  qed
qed

lemma table_done_beyond: "re mm < B + lo \<Longrightarrow> table_done regime mm l B lo ts ts"
  by (auto simp: table_done_def mapped_over_def)

lemma region_end:
  assumes "4096 dvd Suc r" "4096 dvd Suc f" "f \<le> r" "r \<le> Suc f" shows "r = (f :: nat)"
proof (rule ccontr)
  assume "r \<noteq> f"
  then have "Suc r = Suc f + 1" using assms by simp
  then have "4096 dvd (1::nat)" using assms(1,2) by (metis dvd_add_right_iff)
  then show False by simp
qed

lemma map_loop_spec:
  assumes spec: "l < 3 \<Longrightarrow> region_spec mm (Suc l)" and l: "l \<le> 3" and reg: "4096 dvd Suc (re mm)"
    and "owned c l t ts" "pool_ok c" "valid_ref c t" "base_level c \<le> l" "k < length ts" "unat va = B + k * bs l"
      "B + length ts * bs l \<le> 2 ^ 48" "bs l dvd B" "rb mm < unat va + bs l" "unat va \<le> re mm"
      "xlat_tables_map_loop c mm t (length ts) l k va = Some (e, c')"
  shows "\<exists>ts'. owned c' l t ts' \<and> length ts' = length ts \<and> grown c t (nodeset ts) c' (nodeset ts') \<and> (\<forall>j<k. ts' ! j = ts ! j) \<and>
    finished c mm (B + length ts * bs l - 1) e (table_done (xlat_regime c) mm l B (k * bs l) ts ts')"
  using assms(4-)
proof (induction "length ts - k" arbitrary: c ts k va)
  case (Suc m)
  note pre = Suc.prems
  have k1: "B + Suc k * bs l \<le> B + length ts * bs l" using pre(5) by (intro add_left_mono mult_le_mono1) simp
  then have va: "unat va + bs l \<le> 2 ^ 48" using pre(6,7) by simp
  have dv: "bs l dvd unat va" using pre(6,8) by simp
  obtain early c1 where en: "xlat_tables_map_entry c mm t l k va = Some (early, c1)"
    using pre(11,5) by (auto simp: xlat_tables_map_loop.simps[of c] bind_Some_iff)
  obtain x where x: "entry_spec mm c l t ts k va early c1 x"
    using map_entry_spec[OF spec l pre(1,2,5,3,4) va dv pre(9,10) en] by blast
  let ?ts = "ts[k := x]" and ?fin = "unat va + bs l - 1"
  have own: "owned c1 l t ?ts" and gr: "grown c t (nodeset ts) c1 (nodeset ?ts)" using x by (simp_all add: entry_spec_def)
  have conf: "pool_ok c1" "same_conf c c1" using gr by (simp_all add: grown_def)
  have fin: "?fin \<le> B + length ts * bs l - 1" "Suc ?fin = B + Suc k * bs l" using k1 pre(6) bs_pos[of l] by simp_all
  show ?case
  proof (cases early)
    case (Some e1)
    then have r: "e = e1" "c' = c1" using pre(11,5) en by (simp_all add: xlat_tables_map_loop.simps[of c])
    have "finished c mm ?fin e (re mm < ?fin \<and> entry_done (xlat_regime c) mm l (unat va) (ts ! k) x)"
      using x by (simp add: entry_spec_def Some r Let_def)
    then have "finished c mm (B + length ts * bs l - 1) e (table_done (xlat_regime c) mm l B (k * bs l) ts ?ts)"
      using fin table_done_step[of "xlat_regime c" mm l B k ts x ?ts] table_done_beyond[of mm B "Suc k * bs l"] pre(5,6)
      unfolding finished_def by auto
    then show ?thesis using own gr pre(5) r by (intro exI[of _ ?ts]) simp
  next
    case None
    have P: "?fin \<le> re mm" "entry_done (xlat_regime c) mm l (B + k * bs l) (ts ! k) x"
      using x pre(6) by (simp_all add: entry_spec_def None Let_def)
    have nx: "unat (va + XLAT_BLOCK_SIZE l) = Suc ?fin" "unat (va + XLAT_BLOCK_SIZE l - 1) = ?fin"
      using entry_end[of va l] va bs_pos[of l] by simp_all
    have loop: "(if end_va_of mm \<le> va + XLAT_BLOCK_SIZE l then Some (va + XLAT_BLOCK_SIZE l - 1, c1)
        else xlat_tables_map_loop c1 mm t (length ts) l (Suc k) (va + XLAT_BLOCK_SIZE l)) = Some (e, c')"
      using pre(11,5) en None by (simp add: xlat_tables_map_loop.simps[of c] Let_def split: if_split_asm)
    have stop: ?thesis if s: "min (re mm) (B + length ts * bs l - 1) = ?fin" "e = va + XLAT_BLOCK_SIZE l - 1" "c' = c1"
      "table_done (xlat_regime c) mm l B (Suc k * bs l) ?ts ?ts"
    proof -
      have "table_done (xlat_regime c) mm l B (k * bs l) ts ?ts" using table_done_step[OF P(2) pre(5) s(4)] pre(5) by simp
      then show ?thesis using own gr s nx(2) by (intro exI[of _ ?ts]) (simp add: finished_def)
    qed
    show ?thesis
    proof (cases "re mm \<le> Suc ?fin")
      case True
      have "4096 dvd Suc ?fin" unfolding fin(2) using pre(8) bs_bounds(2)[of l] by (meson dvd_add dvd_mult dvd_trans)
      then have "re mm = ?fin" using region_end[OF reg _ P(1) True] by simp
      moreover have "e = va + XLAT_BLOCK_SIZE l - 1" "c' = c1" using loop True by (simp_all add: word_le_nat_alt nx)
      moreover have "table_done (xlat_regime c) mm l B (Suc k * bs l) ?ts ?ts"
        by (rule table_done_beyond) (use \<open>re mm = ?fin\<close> fin(2) in linarith)
      ultimately show ?thesis using fin by (intro stop) simp_all
    next
      case False
      then have loop': "xlat_tables_map_loop c1 mm t (length ts) l (Suc k) (va + XLAT_BLOCK_SIZE l) = Some (e, c')"
        using loop by (simp add: word_le_nat_alt nx)
      show ?thesis
      proof (cases "Suc k < length ts")
        case False
        then have "Suc k = length ts" using pre(5) by simp
        moreover from this have "table_done (xlat_regime c) mm l B (Suc k * bs l) ?ts ?ts" by (auto simp: table_done_def)
        ultimately show ?thesis
          using loop' fin P(1) by (intro stop) (simp_all add: xlat_tables_map_loop.simps[of c1] min_def)
      next
        case True
        have lev1: "base_level c1 \<le> l" using pre(4) conf(2) by (simp add: same_conf_def)
        have va1: "unat (va + XLAT_BLOCK_SIZE l) = B + Suc k * bs l" "rb mm < unat (va + XLAT_BLOCK_SIZE l) + bs l"
            "unat (va + XLAT_BLOCK_SIZE l) \<le> re mm"
          using nx(1) fin(2) pre(9) \<open>\<not> re mm \<le> Suc ?fin\<close> by linarith+
        have ref: "valid_ref c1 t" using pre(3) gr unfolding valid_ref_def grown_def by (auto simp: same_conf_def)
        have m: "m = length ?ts - Suc k" using Suc.hyps(2) by simp
        obtain ts' where ts': "owned c' l t ts'" "length ts' = length ts" "grown c1 t (nodeset ?ts) c' (nodeset ts')"
          "\<forall>j<Suc k. ts' ! j = ?ts ! j"
          "finished c1 mm (B + length ts * bs l - 1) e (table_done (xlat_regime c1) mm l B (Suc k * bs l) ?ts ts')"
          using Suc.hyps(1)[OF m own conf(1) ref lev1 _ va1(1)] pre(7,8) True loop' va1 by auto
        have "table_done (xlat_regime c) mm l B (k * bs l) ts ts'" if "table_done (xlat_regime c) mm l B (Suc k * bs l) ?ts ts'"
          using table_done_step[OF P(2) pre(5) that] ts'(2,4) pre(5) by simp
        then have "finished c mm (B + length ts * bs l - 1) e (table_done (xlat_regime c) mm l B (k * bs l) ts ts')"
          using ts'(5) conf(2) by (auto simp: finished_def same_conf_def)
        then show ?thesis using ts'(1,2,4) grown_trans[OF gr ts'(3)] by (intro exI[of _ ts']) auto
      qed
    qed
  qed
qed simp

subsection \<open>The recursion\<close>

text \<open>The first entry of a table that the region meets.\<close>

lemma start_entry:
  assumes l: "l \<le> 3" and B: "bs l dvd unat B" "unat B + n * bs l \<le> 2 ^ 48" and meet: "rb mm < unat B + n * bs l" "unat B \<le> re mm" "0 < n" "n \<le> 512"
    and reg: "rb mm \<le> re mm"
  defines "va \<equiv> xlat_tables_find_start_va mm B l" and "k \<equiv> unat (xlat_tables_va_to_index B (xlat_tables_find_start_va mm B l) l)"
  shows "unat va = unat B + k * bs l" "k < n" "rb mm < unat va + bs l" "unat va \<le> re mm" "unat B + k * bs l \<le> rb mm \<or> k = 0"
proof -
  let ?b = "rb mm"
  obtain m where m: "unat B = m * bs l" using B(1) by (metis dvd_def mult.commute)
  have fl: "unat va = (if ?b > unat B then ?b div bs l * bs l else unat B)" by (simp add: va_def unat_start)
  have q: "?b div bs l * bs l \<le> ?b" "?b < ?b div bs l * bs l + bs l"
    using div_mult_mod_eq[of ?b "bs l"] mod_less_divisor[OF bs_pos, of ?b l] by linarith+
  have ge: "m \<le> ?b div bs l" if "?b > unat B" using that m by (simp add: less_eq_div_iff_mult_less_eq)
  have lo: "unat B \<le> unat va" using fl ge m by (auto intro: mult_le_mono1)
  have "0 < n * bs l" using meet(3) bs_pos[of l] by simp
  then have up: "unat va < unat B + n * bs l" using fl le_less_trans[OF q(1) meet(1)] by auto
  have d: "unat va - unat B = (unat va div bs l - m) * bs l" using fl m by (auto simp: diff_mult_distrib)
  have kn: "(unat va - unat B) div bs l < n" using up lo by (simp add: less_mult_imp_div_less)
  have k: "k = (unat va - unat B) div bs l"
    unfolding k_def va_def[symmetric] using kn lo meet(4) by (intro start_index) (simp_all add: word_le_nat_alt)
  show "unat va = unat B + k * bs l" using d lo k by simp
  show "k < n" using kn k by simp
  have "rb mm < unat B + bs l" if "\<not> unat B < rb mm" using that bs_pos[of l] by linarith
  then show "rb mm < unat va + bs l" "unat va \<le> re mm" using fl q(2) le_trans[OF q(1) reg] meet(2) by (auto split: if_split_asm)
  show "unat B + k * bs l \<le> rb mm \<or> k = 0" using \<open>unat va = unat B + k * bs l\<close> fl q(1) k by (auto split: if_split_asm)
qed

lemma map_region_eq:
  assumes "xlat_tables_map_region c mm B t n l = Some (e, c')"
  shows "base_level c \<le> l" "l \<le> 3"
    and "\<exists>c1. (if xc_dynamic c \<and> base_level c < l then xlat_table_inc_regions_count t c else Some c) = Some c1 \<and>
      xlat_tables_map_loop c1 mm t n l (unat (xlat_tables_va_to_index B (xlat_tables_find_start_va mm B l) l))
        (xlat_tables_find_start_va mm B l) = Some (e, c')"
  using assms by (auto simp: xlat_tables_map_region.simps Let_def bind_Some_iff XLAT_TABLE_LEVEL_MAX_def split: if_split_asm)

text \<open>Entries before the first one that the region meets have no address of the region.\<close>

lemma table_done_start:
  assumes "table_done regime mm l B (k * bs l) ts ts'" "\<forall>j<k. ts' ! j = ts ! j" "length ts' = length ts" "B + k * bs l \<le> rb mm \<or> k = 0"
  shows "table_done regime mm l B 0 ts ts'"
  unfolding table_done_def
proof (intro allI impI)
  fix off assume off: "0 \<le> off \<and> off < length ts * bs l"
  show "mapped_over regime mm (B + off) (look_table l ts off) (look_table l ts' off)"
  proof (cases "k * bs l \<le> off")
    case True
    then show ?thesis using assms(1)[unfolded table_done_def, rule_format, of off] off by simp
  next
    case False
    then have "off div bs l < k" by (simp add: less_mult_imp_div_less)
    then have "look_table l ts' off = look_table l ts off" using assms(2,3) by (simp add: look_table_def)
    moreover have "B + off < rb mm" using assms(4) False by auto
    ultimately show ?thesis by (simp add: mapped_over_def)
  qed
qed

lemma owned_mark:
  assumes own: "owned c l t ts" and conf: "same_conf c c1" "\<And>r. table_of r c1 = table_of r c" "free_tables c1 \<subseteq> free_tables c"
  shows "owned c1 l t ts"
proof -
  have "tables c1 ! i = tables c ! i" for i using conf(2)[of "Sub_table i"] by simp
  then have "rep c1 l x w = rep c l x w" for x w using rep_frame[OF conf(1)] by blast
  then have "rep_table c1 l ts (table_of t c1)" using own by (simp add: owned_def list_all2_conv_all_nth conf(2))
  then show ?thesis using own conf by (auto simp: owned_def same_conf_def)
qed

lemma region_spec_all:
  assumes reg: "region_ok mm" shows "l \<le> 3 \<Longrightarrow> region_spec mm l"
proof (induction "3 - l" arbitrary: l rule: less_induct)
  case less
  have next_level: "region_spec mm (Suc l)" if "l < 3" using less.hyps[of "Suc l"] that by simp
  show ?case
    unfolding region_spec_def
  proof (intro allI impI)
    fix c i us B e c'
    assume pool: "pool_ok c" and i: "i < tables_num c" "\<not> xc_dynamic c \<longrightarrow> i \<notin> free_tables c" and own: "owned c l (Sub_table i) us"
      and len: "length us = XLAT_TABLE_ENTRIES" and lev: "base_level c < l" and B: "unat B + 512 * bs l \<le> 2 ^ 48" "512 * bs l dvd unat B"
      and meet: "rb mm < unat B + 512 * bs l" "unat B \<le> re mm"
      and call: "xlat_tables_map_region c mm B (Sub_table i) XLAT_TABLE_ENTRIES l = Some (e, c')"
    let ?va = "xlat_tables_find_start_va mm B l" and ?k = "unat (xlat_tables_va_to_index B (xlat_tables_find_start_va mm B l) l)"
    obtain c1 where c1: "(if xc_dynamic c then xlat_table_inc_regions_count (Sub_table i) c else Some c) = Some c1"
      and loop: "xlat_tables_map_loop c1 mm (Sub_table i) (length us) l ?k ?va = Some (e, c')"
      using map_region_eq(3)[OF call] lev by (auto simp: len)
    have m: "same_conf c c1" "\<And>r. table_of r c1 = table_of r c" "pool_ok c1" "free_tables c1 = free_tables c - {i}"
      using c1 inc_spec[of i c c1] pool i(2) by (auto split: if_split_asm)
    have own1: "owned c1 l (Sub_table i) us" by (rule owned_mark[OF own m(1,2)]) (use m(4) in auto)
    have ref: "valid_ref c1 (Sub_table i)" using i(1) m(1,4) by (simp add: valid_ref_def same_conf_def)
    have Bd: "bs l dvd unat B" using B(2) by (meson dvd_mult_right)
    have n: "length us * bs l = 512 * bs l" by (simp add: len XLAT_TABLE_ENTRIES_def)
    have reg': "rb mm \<le> re mm" "4096 dvd Suc (re mm)" using reg by (simp_all add: region_ok_def)
    note S = start_entry[OF less.prems Bd B(1) meet zero_less_numeral order_refl reg'(1)]
    obtain us' where us': "owned c' l (Sub_table i) us'" "length us' = length us" "grown c1 (Sub_table i) (nodeset us) c' (nodeset us')"
      "\<forall>j<?k. us' ! j = us ! j"
      "finished c1 mm (unat B + length us * bs l - 1) e (table_done (xlat_regime c1) mm l (unat B) (?k * bs l) us us')"
      using map_loop_spec[OF next_level less.prems reg'(2) own1 m(3) ref _ _ S(1) _ Bd S(3,4) loop] S(2) lev m(1) B(1) n
      by (auto simp: len XLAT_TABLE_ENTRIES_def same_conf_def)
    have "grown c (Sub_table i) (insert i (nodeset us)) c' (insert i (nodeset us'))"
      using us'(3) m unfolding grown_def by (auto intro: same_conf_trans)
    moreover have "finished c mm (unat B + 512 * bs l - 1) e (table_done (xlat_regime c) mm l (unat B) 0 us us')"
      using us'(5) table_done_start[OF _ us'(4,2) S(5)] m(1) n unfolding finished_def by (auto simp: same_conf_def)
    ultimately show "\<exists>us'. owned c' l (Sub_table i) us' \<and> length us' = XLAT_TABLE_ENTRIES \<and>
        grown c (Sub_table i) (insert i (nodeset us)) c' (insert i (nodeset us')) \<and>
        finished c mm (unat B + 512 * bs l - 1) e (table_done (xlat_regime c) mm l (unat B) 0 us us')"
      using us'(1,2) len by auto
  qed
qed

text \<open>The call on the base table, whose addresses start at zero.\<close>

lemma map_region_base:
  assumes reg: "region_ok mm" and own: "owned c (base_level c) Base_table ts" and pool: "pool_ok c" and n: "length ts = base_table_entries c" and n512: "length ts \<le> 512"
    and sz: "base_table_entries c * bs (base_level c) \<le> 2 ^ 48" "re mm < base_table_entries c * bs (base_level c)"
    and call: "xlat_tables_map_region c mm 0 Base_table (base_table_entries c) (base_level c) = Some (e, c')"
  shows "\<exists>ts'. owned c' (base_level c) Base_table ts' \<and> length ts' = length ts \<and> grown c Base_table (nodeset ts) c' (nodeset ts') \<and>
    finished c mm (re mm) e (table_done (xlat_regime c) mm (base_level c) 0 0 ts ts')"
proof -
  let ?l = "base_level c" and ?va = "xlat_tables_find_start_va mm 0 (base_level c)"
  let ?k = "unat (xlat_tables_va_to_index 0 ?va ?l)"
  have l: "?l \<le> 3" and loop: "xlat_tables_map_loop c mm Base_table (length ts) ?l ?k ?va = Some (e, c')"
    using map_region_eq[OF call] by (auto simp: n)
  have reg': "rb mm \<le> re mm" "4096 dvd Suc (re mm)" using reg by (simp_all add: region_ok_def)
  have n0: "0 < length ts" using sz(2) n by (cases "base_table_entries c") auto
  have S': "unat ?va = ?k * bs ?l" "?k < length ts" "rb mm < unat ?va + bs ?l" "unat ?va \<le> re mm" "?k * bs ?l \<le> rb mm \<or> ?k = 0"
    using start_entry[of ?l 0 "length ts" mm] l n0 n512 sz n reg'(1) by simp_all
  obtain ts' where ts': "owned c' ?l Base_table ts'" "length ts' = length ts" "grown c Base_table (nodeset ts) c' (nodeset ts')"
      "\<forall>j<?k. ts' ! j = ts ! j"
      "finished c mm (0 + length ts * bs ?l - 1) e (table_done (xlat_regime c) mm ?l 0 (?k * bs ?l) ts ts')"
    using map_loop_spec[OF region_spec_all[OF reg] l reg'(2) own pool _ _ S'(2) _ _ _ S'(3,4) loop, of 0] S'(1) sz(1) n
    by (auto simp: valid_ref_def)
  have "min (re mm) (length ts * bs ?l - 1) = re mm" using sz(2) n by (simp add: min_def)
  then have "finished c mm (re mm) e (table_done (xlat_regime c) mm ?l 0 0 ts ts')"
    using ts'(5) table_done_start[OF _ ts'(4,2), of _ mm ?l 0] S'(5) unfolding finished_def by auto
  then show ?thesis using ts' by blast
qed

end
