(* ===== verification/Xlat_Init.thy ===== *)
theory Xlat_Init
  imports Xlat_Map
begin

section \<open>Building the tables\<close>

text \<open>
  \<^verbatim>\<open>init_xlat_tables_ctx()\<close> maps the regions of the list in order, so that every address has a descriptor of the
  first region of the list that contains it; and the walk of \<^verbatim>\<open>find_xlat_table_entry()\<close> finds it.
\<close>

subsection \<open>The regions of a list\<close>

definition regions_of :: "mmap_region list \<Rightarrow> mmap_region list" where
  "regions_of ms = takeWhile (\<lambda>mm. mm_size mm \<noteq> 0) ms"

abbreviation covers :: "nat \<Rightarrow> mmap_region \<Rightarrow> bool" where
  "covers v mm \<equiv> rb mm \<le> v \<and> v \<le> re mm"

definition first_mapped :: "int \<Rightarrow> mmap_region list \<Rightarrow> nat \<Rightarrow> (u64 \<times> nat) option \<Rightarrow> bool" where
  "first_mapped regime ms v r \<longleftrightarrow>
     (case find (covers v) ms of None \<Rightarrow> r = None | Some mm \<Rightarrow> \<exists>d l. r = Some (d, l) \<and> maps_to regime mm v d l)"

definition base_ok :: "xlat_ctx \<Rightarrow> bool" where
  "base_ok c \<longleftrightarrow> base_level c \<le> 3 \<and> base_table_entries c \<le> 512 \<and>
     base_table_entries c * bs (base_level c) = Suc (unat (va_max_address c)) \<and> unat (va_max_address c) < 2 ^ 48"

definition holds :: "xlat_ctx \<Rightarrow> xtree list \<Rightarrow> bool" where
  "holds c ts \<longleftrightarrow> pool_ok c \<and> owned c (base_level c) Base_table ts \<and> length ts = base_table_entries c"

lemma region_end_odd:
  assumes "region_ok mm" shows "\<not> 4096 dvd re mm"
proof
  assume "4096 dvd re mm"
  moreover have "4096 dvd re mm + 1" using assms by (simp add: region_ok_def)
  ultimately have "4096 dvd (1::nat)" by (metis dvd_add_right_iff)
  then show False by simp
qed

lemma init_map_loop_spec:
  assumes "init_map_loop ms c = Some c'" "holds c ts" "base_ok c"
    and "\<forall>mm \<in> set (regions_of ms). region_ok mm \<and> re mm \<le> unat (va_max_address c)"
  shows "\<exists>ts'. holds c' ts' \<and> same_conf c c' \<and> (\<forall>v \<le> unat (va_max_address c).
    if look_table (base_level c) ts v = None then first_mapped (xlat_regime c) (regions_of ms) v (look_table (base_level c) ts' v)
    else look_table (base_level c) ts' v = look_table (base_level c) ts v)"
  using assms
proof (induction ms arbitrary: c ts)
  case (Cons mm ms)
  let ?l = "base_level c"
  show ?case
  proof (cases "mm_size mm = 0")
    case True
    then show ?thesis using Cons.prems by (intro exI[of _ ts]) (auto simp: regions_of_def first_mapped_def)
  next
    case False
    obtain e c1 where call: "xlat_tables_map_region c mm 0 Base_table (base_table_entries c) ?l = Some (e, c1)"
      and e: "e = end_va_of mm" and rest: "init_map_loop ms c1 = Some c'"
      using Cons.prems(1) False by (auto simp: bind_Some_iff split: if_split_asm)
    have reg: "region_ok mm" "re mm \<le> unat (va_max_address c)"
      and regs: "\<forall>mm \<in> set (regions_of ms). region_ok mm \<and> re mm \<le> unat (va_max_address c)"
      using Cons.prems(4) False by (auto simp: regions_of_def)
    obtain ts1 where ts1: "owned c1 ?l Base_table ts1" "length ts1 = length ts" "grown c Base_table (nodeset ts) c1 (nodeset ts1)"
      "finished c mm (re mm) e (table_done (xlat_regime c) mm ?l 0 0 ts ts1)"
      using map_region_base[OF reg(1) _ _ _ _ _ _ call] Cons.prems(2,3) reg(2) by (auto simp: holds_def base_ok_def)
    have "\<not> 4096 dvd unat e" unfolding e by (rule region_end_odd[OF reg(1)])
    then have done1: "table_done (xlat_regime c) mm ?l 0 0 ts ts1" using ts1(4) by (simp add: finished_def)
    have conf: "same_conf c c1" "pool_ok c1" using ts1(3) by (simp_all add: grown_def)
    then have eqs: "base_level c1 = ?l" "xlat_regime c1 = xlat_regime c" "va_max_address c1 = va_max_address c" by (simp_all add: same_conf_def)
    have "holds c1 ts1" "base_ok c1" using conf ts1(1,2) Cons.prems(2,3) by (simp_all add: holds_def base_ok_def same_conf_def)
    then obtain ts' where ts': "holds c' ts'" "same_conf c1 c'" "\<forall>v \<le> unat (va_max_address c).
        if look_table ?l ts1 v = None then first_mapped (xlat_regime c) (regions_of ms) v (look_table ?l ts' v)
        else look_table ?l ts' v = look_table ?l ts1 v"
      using Cons.IH[OF rest, of ts1] regs unfolding eqs by blast
    have "if look_table ?l ts v = None then first_mapped (xlat_regime c) (regions_of (mm # ms)) v (look_table ?l ts' v)
        else look_table ?l ts' v = look_table ?l ts v" if v: "v \<le> unat (va_max_address c)" for v
    proof -
      have "v < length ts * bs ?l" using v Cons.prems(2,3) by (simp add: holds_def base_ok_def)
      then have "mapped_over (xlat_regime c) mm v (look_table ?l ts v) (look_table ?l ts1 v)"
        using done1[unfolded table_done_def, rule_format, of v] by simp
      then show ?thesis
        using ts'(3)[rule_format, OF v] False unfolding mapped_over_def first_mapped_def by (auto simp: regions_of_def split: if_split_asm)
    qed
    then show ?thesis using ts'(1) same_conf_trans[OF conf(1) ts'(2)] by blast
  qed
qed simp

subsection \<open>The walk of the code\<close>

definition found :: "xlat_ctx \<Rightarrow> (u64 \<times> nat) option \<Rightarrow> (table_ref \<times> nat \<times> nat) option option \<Rightarrow> bool" where
  "found c r res \<longleftrightarrow> (case r of None \<Rightarrow> res = Some None
     | Some (d, l) \<Rightarrow> \<exists>t i. res = Some (Some (t, i, l)) \<and> xlat_read t i c = Some d)"

declare find_xlat_table_loop.simps [simp del]

lemma table_idx: "unat (XLAT_TABLE_IDX v l) = unat v div bs l mod 512"
proof -
  have m: "(0x1FF :: u64) = mask 9" by (simp add: mask_eq_exp_minus_1)
  show ?thesis
    unfolding XLAT_TABLE_IDX_def m by (simp add: take_bit_eq_mask[symmetric] unsigned_take_bit_eq unat_drop_bit_eq drop_bit_eq_div bs_def take_bit_eq_mod
        unat_mod unat_div unat_two_power[OF shift_small])
qed

lemma find_loop_spec:
  assumes "rep_table c l ts (table_of t c)" "pool_ok c" "l \<le> 3" "length ts \<le> 512" "off = unat v mod (512 * bs l)" "off < length ts * bs l"
    "\<And>i. t = Sub_table i \<Longrightarrow> i < tables_num c"
  shows "found c (look_table l ts off) (find_xlat_table_loop c v t (length ts) l)"
  using assms
proof (induction "3 - l" arbitrary: l t ts off rule: less_induct)
  case less
  note pre = less.prems
  let ?k = "off div bs l"
  have k: "?k < length ts" using pre(6) by (simp add: less_mult_imp_div_less)
  have idx: "unat (XLAT_TABLE_IDX v l) = ?k" using pre(5) mod_mult2_eq[of "unat v" "bs l" 512] by (simp add: table_idx mult.commute)
  have len: "length (table_of t c) = length ts" using pre(1) by (simp add: list_all2_lengthD)
  have rd: "xlat_read t ?k c = Some (table_of t c ! ?k)"
    using k len pre(2,7) by (cases t) (auto simp: pool_ok_def)
  have rk: "rep c l (ts ! ?k) (table_of t c ! ?k)" using pre(1) k by (simp add: list_all2_conv_all_nth)
  show ?case
  proof (cases "ts ! ?k")
    case (Leaf d)
    then have d: "table_of t c ! ?k = d" "leaf_desc l d" using rk by simp_all
    show ?thesis
      unfolding find_xlat_table_loop.simps[of c v t] idx
      using k rd d pre(3) Leaf
      by (auto simp: found_def look_table_def leaf_desc_def XLAT_TABLE_LEVEL_MAX_def Let_def INVALID_DESC_def PAGE_DESC_def BLOCK_DESC_def)
  next
    case (Sub i us)
    then have r: "l < 3" "table_of t c ! ?k = TABLE_DESC OR xlat_table_addr c i" "i < tables_num c" "length us = XLAT_TABLE_ENTRIES"
      "rep_table c (Suc l) us (table_of (Sub_table i) c)" using rk by simp_all
    have "found c (look_table (Suc l) us (off mod bs l)) (find_xlat_table_loop c v (Sub_table i) (length us) (Suc l))"
    proof (rule less.hyps[OF _ r(5) pre(2)])
      have "off mod bs l = unat v mod bs l" using pre(5) by (simp add: mod_mod_cancel)
      then show "off mod bs l = unat v mod (512 * bs (Suc l))" using bs_Suc[OF r(1)] by simp
      show "off mod bs l < length us * bs (Suc l)" using bs_Suc[OF r(1)] r(4) mod_less_divisor[OF bs_pos, of off l] by (simp add: XLAT_TABLE_ENTRIES_def)
    qed (use r in \<open>simp_all add: XLAT_TABLE_ENTRIES_def\<close>)
    moreover have "find_xlat_table_loop c v t (length ts) l = find_xlat_table_loop c v (Sub_table i) (length us) (Suc l)"
      unfolding find_xlat_table_loop.simps[of c v t] idx
      using k rd r pre(3) table_addr_facts[OF pre(2) r(3)]
      by (simp add: XLAT_TABLE_LEVEL_MAX_def Let_def INVALID_DESC_def TABLE_DESC_def BLOCK_DESC_def)
    ultimately show ?thesis using k Sub by (simp add: look_table_def[of l] look_Sub del: look.simps)
  qed
qed

lemma find_entry_spec:
  assumes "holds c ts" "base_ok c" "base_level c = GET_XLAT_TABLE_LEVEL_BASE (va_max_address c + 1)" "v \<le> va_max_address c"
  shows "found c (look_table (base_level c) ts (unat v)) (find_xlat_table_entry c v)"
proof -
  let ?l = "base_level c"
  have v: "unat v < length ts * bs ?l" using assms by (simp add: holds_def base_ok_def word_le_nat_alt)
  moreover have "length ts * bs ?l \<le> 512 * bs ?l" using assms(1,2) by (intro mult_le_mono1) (simp add: holds_def base_ok_def)
  ultimately have "unat v < 512 * bs ?l" by (rule less_le_trans)
  then have "unat v = unat v mod (512 * bs ?l)" by simp
  then show ?thesis
    using find_loop_spec[of c ?l ts Base_table "unat v" v] assms(1,2) v
    by (simp add: find_xlat_table_entry_def assms(3)[symmetric] holds_def base_ok_def owned_def)
qed

subsection \<open>The registered context\<close>

lemma nat_power_of_two: "0 < n \<Longrightarrow> n AND (n - 1) = 0 \<Longrightarrow> \<exists>k. n = 2 ^ k" for n :: nat
proof (induction n rule: less_induct)
  case (less n)
  have rec: "n AND (n - 1) = of_bool (odd n \<and> odd (n - 1)) + 2 * ((n div 2) AND ((n - 1) div 2))" by (rule and_rec)
  show ?case
  proof (cases "even n")
    case True
    then obtain a where a: "n = 2 * a" by blast
    then have "(n - 1) div 2 = a - 1" using less.prems(1) by (cases a) simp_all
    then have "a AND (a - 1) = 0" using rec less.prems(2) a by simp
    then obtain k where "a = 2 ^ k" using less.IH[of a] less.prems(1) a by auto
    then show ?thesis using a by (intro exI[of _ "Suc k"]) simp
  next
    case False
    then have "(n - 1) div 2 = n div 2" by (auto elim: oddE)
    then have "n div 2 = 0" using rec less.prems(2) by simp
    then show ?thesis using less.prems(1) False by (intro exI[of _ 0]) simp
  qed
qed

lemma word_power_of_two:
  assumes "IS_POWER_OF_TWO x" "x \<noteq> 0" shows "\<exists>k. unat x = 2 ^ k"
proof -
  have "unat (x - 1) = unat x - 1" using assms(2) by (simp add: unat_minus_one)
  moreover have "unat x AND unat (x - 1) = 0" using assms(1) by (simp add: IS_POWER_OF_TWO_def unsigned_and_eq[symmetric])
  ultimately show ?thesis using nat_power_of_two[of "unat x"] assms(2) by (simp add: unat_gt_0)
qed

lemma level_base_bounds:
  assumes "2 ^ 16 \<le> unat s" "unat s \<le> 2 ^ 48"
  shows "GET_XLAT_TABLE_LEVEL_BASE s \<le> 3" "bs (GET_XLAT_TABLE_LEVEL_BASE s) \<le> unat s" "unat s \<le> 512 * bs (GET_XLAT_TABLE_LEVEL_BASE s)"
proof -
  have b: "push_bit (XLAT_ADDR_SHIFT l) 1 < s \<longleftrightarrow> bs l < unat s" for l
    using unat_block_size[of l] by (simp add: XLAT_BLOCK_SIZE_def word_less_nat_alt)
  show "GET_XLAT_TABLE_LEVEL_BASE s \<le> 3" by (simp add: GET_XLAT_TABLE_LEVEL_BASE_def)
  show "bs (GET_XLAT_TABLE_LEVEL_BASE s) \<le> unat s" "unat s \<le> 512 * bs (GET_XLAT_TABLE_LEVEL_BASE s)"
    unfolding GET_XLAT_TABLE_LEVEL_BASE_def b using assms bs_vals(1,2,3,4) by auto
qed

lemma base_ok_registered:
  assumes "IS_POWER_OF_TWO (va_max_address c + 1)" "2 ^ 16 \<le> Suc (unat (va_max_address c))" "unat (va_max_address c) < 2 ^ 48"
    and "base_level c = GET_XLAT_TABLE_LEVEL_BASE (va_max_address c + 1)"
    and "base_table_entries c = GET_NUM_BASE_LEVEL_ENTRIES (va_max_address c + 1)"
  shows "base_ok c"
proof -
  let ?s = "va_max_address c + 1" and ?l = "base_level c"
  have s: "unat ?s = Suc (unat (va_max_address c))" using unat_add_lem[of "va_max_address c" 1] assms(3) by simp
  have l: "?l \<le> 3" "bs ?l \<le> unat ?s" "unat ?s \<le> 512 * bs ?l"
    using level_base_bounds[of ?s] assms(2,3) unfolding s assms(4) by auto
  have "?s \<noteq> 0" using s by auto
  then obtain k where k: "unat ?s = 2 ^ k" using word_power_of_two[OF assms(1)] by blast
  have "XLAT_ADDR_SHIFT ?l \<le> k" using l(2) unfolding k bs_def by simp
  then have "bs ?l dvd unat ?s" unfolding k bs_def by (rule le_imp_power_dvd)
  moreover have n: "base_table_entries c = unat ?s div bs ?l"
    by (simp add: assms(5) GET_NUM_BASE_LEVEL_ENTRIES_def assms(4)[symmetric] unat_drop_bit_eq drop_bit_eq_div bs_def
        unat_div unat_two_power[OF shift_small])
  ultimately have e: "base_table_entries c * bs ?l = unat ?s" by simp
  then have "base_table_entries c * bs ?l \<le> 512 * bs ?l" using l(3) by simp
  then have "base_table_entries c \<le> 512" by simp
  then show ?thesis using l(1) e s assms(3) by (simp add: base_ok_def)
qed

subsection \<open>Initialisation\<close>

text \<open>What registration fixes of a context.\<close>

definition registered_ctx :: "xlat_ctx \<Rightarrow> bool" where
  "registered_ctx c \<longleftrightarrow> length (tables c) = tables_num c \<and> length (base_table c) = base_table_entries c \<and>
     4096 dvd unat (xc_tables_addr c) \<and> unat (xc_tables_addr c) + 4096 * tables_num c \<le> 2 ^ 48 \<and> next_table c = 0 \<and>
     base_level c = GET_XLAT_TABLE_LEVEL_BASE (va_max_address c + 1) \<and>
     base_table_entries c = GET_NUM_BASE_LEVEL_ENTRIES (va_max_address c + 1)"

text \<open>What the tree of a context depends on.\<close>

lemma rep_cong:
  assumes "tables c' = tables c" "tables_num c' = tables_num c" "xc_tables_addr c' = xc_tables_addr c" shows "rep c' = rep c"
proof -
  have "rep c' l x w = rep c l x w" for l x w
  proof (induction x arbitrary: l w)
    case (Sub i us)
    then have "list_all2 (rep c' (Suc l)) us ys = list_all2 (rep c (Suc l)) us ys" for ys
      by (auto simp: list_all2_conv_all_nth)
    then show ?case using assms by (simp add: xlat_table_addr_def)
  qed simp
  then show ?thesis by (intro ext)
qed

lemma holds_cong:
  assumes "tables c' = tables c" "tables_num c' = tables_num c" "xc_tables_addr c' = xc_tables_addr c"
    and "base_table c' = base_table c" "base_table_entries c' = base_table_entries c" "base_level c' = base_level c"
    and "xc_dynamic c' = xc_dynamic c" "tables_mapped_regions c' = tables_mapped_regions c" "next_table c' = next_table c"
  shows "holds c' ts = holds c ts"
  using rep_cong[OF assms(1-3)] assms by (simp add: holds_def owned_def pool_ok_def free_tables_def)

text \<open>The context with its tables cleared.\<close>

definition cleared :: "xlat_ctx \<Rightarrow> xlat_ctx" where
  "cleared ctx = ctx\<lparr>
     base_table := replicate (base_table_entries ctx) INVALID_DESC @ drop (base_table_entries ctx) (base_table ctx),
     tables := map (\<lambda>t. replicate XLAT_TABLE_ENTRIES INVALID_DESC) (take (tables_num ctx) (tables ctx))
               @ drop (tables_num ctx) (tables ctx),
     tables_mapped_regions := (if xc_dynamic ctx then replicate (tables_num ctx) 0 else tables_mapped_regions ctx)\<rparr>"

lemma cleared_holds:
  assumes "registered_ctx c" shows "holds (cleared c) (replicate (base_table_entries c) (Leaf INVALID_DESC))"
proof -
  have p: "pool_ok (cleared c)"
    using assms by (auto simp: registered_ctx_def pool_ok_def cleared_def free_tables_def)
  have n: "concat (map nodes (replicate k (Leaf d))) = []" for k d by (induction k) simp_all
  have "rep_table (cleared c) (base_level c) (replicate (base_table_entries c) (Leaf INVALID_DESC)) (base_table (cleared c))"
    using assms by (simp add: registered_ctx_def cleared_def list_all2_conv_all_nth leaf_desc_def)
  then show ?thesis using p n unfolding holds_def owned_def by (simp add: cleared_def)
qed

lemma init_spec:
  assumes init: "init_xlat_tables_ctx mmu ttst par c = Some c'" and c: "registered_ctx c"
    and regs: "\<forall>mm \<in> set (regions_of (mmap c)). region_ok mm \<and> re mm \<le> unat (va_max_address c)"
  shows "\<exists>ts. holds c' ts \<and> base_ok c' \<and> same_conf (c\<lparr>initialized := True\<rparr>) c' \<and>
    (\<forall>v \<le> unat (va_max_address c). first_mapped (xlat_regime c) (regions_of (mmap c)) v (look_table (base_level c) ts v))"
proof -
  have g: "xlat_get_min_virt_addr_space_size ttst - 1 \<le> va_max_address c" "va_max_address c \<le> MAX_VIRT_ADDR_SPACE_SIZE - 1"
      "IS_POWER_OF_TWO (va_max_address c + 1)"
    and ex: "\<exists>c1. init_map_loop (mmap c) (cleared c) = Some c1 \<and> c' = c1\<lparr>initialized := True\<rparr>"
    using init unfolding init_xlat_tables_ctx_def by (auto simp: Let_def bind_Some_iff cleared_def)
  then obtain c1 where c1: "init_map_loop (mmap c) (cleared c) = Some c1" "c' = c1\<lparr>initialized := True\<rparr>" by blast
  have b: "2 ^ 16 \<le> Suc (unat (va_max_address c))" "unat (va_max_address c) < 2 ^ 48"
    using g(1,2) by (auto simp: xlat_get_min_virt_addr_space_size_def MAX_VIRT_ADDR_SPACE_SIZE_def word_le_nat_alt split: if_split_asm)
  have ok: "base_ok c" using base_ok_registered[OF g(3) b] c by (simp add: registered_ctx_def)
  have eqs: "base_level (cleared c) = base_level c" "xlat_regime (cleared c) = xlat_regime c" "va_max_address (cleared c) = va_max_address c"
      "mmap (cleared c) = mmap c" "same_conf c (cleared c)"
    by (simp_all add: cleared_def same_conf_def)
  let ?ts = "replicate (base_table_entries c) (Leaf INVALID_DESC)"
  have "look_table (base_level c) ?ts v = None" for v by (simp add: look_table_def)
  then obtain ts where ts: "holds c1 ts" "same_conf (cleared c) c1"
      "\<forall>v \<le> unat (va_max_address c). first_mapped (xlat_regime c) (regions_of (mmap c)) v (look_table (base_level c) ts v)"
    using init_map_loop_spec[OF c1(1) cleared_holds[OF c]] ok regs unfolding eqs
    by (auto simp: base_ok_def cleared_def)
  have "same_conf c c1" using same_conf_trans[OF eqs(5) ts(2)] .
  then have "base_ok c1" "same_conf (c\<lparr>initialized := True\<rparr>) c'" using ok c1(2) by (simp_all add: base_ok_def same_conf_def)
  then show ?thesis using ts c1(2) holds_cong[of c' c1] by (auto simp: base_ok_def)
qed

end
