(* ===== verification/Xlat_Mmap.thy ===== *)
theory Xlat_Mmap
  imports Xlat_Init
begin

section \<open>The list of regions\<close>

text \<open>
  \<^verbatim>\<open>mmap_add_region_ctx()\<close> keeps the list sorted by last address and size, with regions that are nested at the same
  displacement or apart both in virtual and in physical addresses.
\<close>

definition mmap_before :: "mmap_region \<Rightarrow> mmap_region \<Rightarrow> bool" where
  "mmap_before a b \<longleftrightarrow> end_va_of a < end_va_of b \<or> end_va_of a = end_va_of b \<and> mm_size a < mm_size b"

definition inside :: "mmap_region \<Rightarrow> mmap_region \<Rightarrow> bool" where
  "inside a b \<longleftrightarrow> base_va b \<le> base_va a \<and> end_va_of a \<le> end_va_of b"

definition compatible :: "mmap_region \<Rightarrow> mmap_region \<Rightarrow> bool" where
  "compatible a b \<longleftrightarrow>
     (if inside a b \<or> inside b a then base_va a - base_pa a = base_va b - base_pa b
      else (end_va_of a < base_va b \<or> end_va_of b < base_va a) \<and> (end_pa_of a < base_pa b \<or> end_pa_of b < base_pa a))"

definition region_fits :: "xlat_ctx \<Rightarrow> mmap_region \<Rightarrow> bool" where
  "region_fits c mm \<longleftrightarrow> mm_size mm \<noteq> 0 \<and> IS_PAGE_ALIGNED (base_pa mm) \<and> IS_PAGE_ALIGNED (base_va mm) \<and> IS_PAGE_ALIGNED (mm_size mm) \<and>
     base_pa mm \<le> end_pa_of mm \<and> base_va mm \<le> end_va_of mm \<and> end_va_of mm \<le> va_max_address c \<and> end_pa_of mm \<le> pa_max_address c"

definition mmap_inv :: "xlat_ctx \<Rightarrow> bool" where
  "mmap_inv c \<longleftrightarrow> (let rs = regions_of (mmap c) in
     mmap c = rs @ replicate (Suc (mmap_num c) - length rs) zero_region \<and> length rs \<le> mmap_num c \<and>
     list_all (region_fits c) rs \<and> sorted_wrt mmap_before rs \<and> sorted_wrt compatible rs)"

lemma mmap_before_trans: "mmap_before a b \<Longrightarrow> mmap_before b c \<Longrightarrow> mmap_before a c"
  by (auto simp: mmap_before_def)

lemma compatible_sym: "compatible a b \<Longrightarrow> compatible b a"
  by (auto simp: compatible_def)

lemma mmap_skip_Some:
  "mmap_skip P xs = Some k \<longleftrightarrow> k < length xs \<and> (\<forall>i<k. P (xs ! i)) \<and> \<not> P (xs ! k)"
proof (induction xs arbitrary: k)
  case (Cons x xs)
  show ?case by (cases k) (auto simp: Cons.IH less_Suc_eq_0_disj)
qed simp

lemma mmap_check_0:
  assumes "mmap_check_loop dyn mm ms = Some 0" shows "\<forall>m \<in> set (regions_of ms). \<not> mmap_conflict dyn mm m"
  using assms by (induction ms) (auto simp: regions_of_def EPERM_def split: if_split_asm)

lemma no_conflict:
  assumes "\<not> mmap_conflict dyn mm m"
  shows "compatible m mm" "base_va mm = base_va m \<Longrightarrow> mm_size mm \<noteq> mm_size m"
  using assms by (auto simp: mmap_conflict_def compatible_def inside_def Let_def end_va_of_def split: if_split_asm)

text \<open>Where the new region goes.\<close>

lemma find_place_Some:
  assumes "mmap_find_place mm xs = Some i"
  shows "\<exists>k k'. i = k + k' \<and> k + k' < length xs \<and> (\<forall>j<k. end_va_of (xs ! j) < end_va_of mm \<and> mm_size (xs ! j) \<noteq> 0) \<and>
    \<not> (end_va_of (xs ! k) < end_va_of mm \<and> mm_size (xs ! k) \<noteq> 0) \<and>
    (\<forall>j<k'. end_va_of (xs ! (k + j)) = end_va_of mm \<and> mm_size (xs ! (k + j)) \<noteq> 0 \<and> mm_size (xs ! (k + j)) < mm_size mm) \<and>
    \<not> (end_va_of (xs ! i) = end_va_of mm \<and> mm_size (xs ! i) \<noteq> 0 \<and> mm_size (xs ! i) < mm_size mm)"
proof -
  obtain k k' where *: "mmap_skip (\<lambda>cursor. end_va_of cursor < end_va_of mm \<and> mm_size cursor \<noteq> 0) xs = Some k"
    "mmap_skip (\<lambda>cursor. end_va_of cursor = end_va_of mm \<and> mm_size cursor \<noteq> 0 \<and> mm_size cursor < mm_size mm) (drop k xs) = Some k'"
    "i = k + k'"
    using assms by (auto simp: mmap_find_place_def bind_Some_iff)
  then show ?thesis by (intro exI[of _ k] exI[of _ k']) (auto simp: mmap_skip_Some)
qed

lemma find_place_spec:
  assumes place: "mmap_find_place mm (rs @ z # zs) = Some i" and z: "mm_size z = 0" and sorted: "sorted_wrt mmap_before rs"
    and fits: "\<forall>m \<in> set rs. mm_size m \<noteq> 0" and new: "\<forall>m \<in> set rs. end_va_of m = end_va_of mm \<longrightarrow> mm_size m \<noteq> mm_size mm"
  shows "i \<le> length rs" "\<forall>j<i. mmap_before (rs ! j) mm" "\<forall>j<length rs. i \<le> j \<longrightarrow> mmap_before mm (rs ! j)"
proof -
  let ?xs = "rs @ z # zs"
  obtain k k' where i: "i = k + k'" and k: "\<forall>j<k. end_va_of (?xs ! j) < end_va_of mm \<and> mm_size (?xs ! j) \<noteq> 0"
      "\<not> (end_va_of (?xs ! k) < end_va_of mm \<and> mm_size (?xs ! k) \<noteq> 0)"
    and k': "\<forall>j<k'. end_va_of (?xs ! (k + j)) = end_va_of mm \<and> mm_size (?xs ! (k + j)) \<noteq> 0 \<and> mm_size (?xs ! (k + j)) < mm_size mm"
      "\<not> (end_va_of (?xs ! i) = end_va_of mm \<and> mm_size (?xs ! i) \<noteq> 0 \<and> mm_size (?xs ! i) < mm_size mm)"
    using find_place_Some[OF place] by blast
  have before: "end_va_of (?xs ! j) < end_va_of mm \<and> mm_size (?xs ! j) \<noteq> 0 \<or>
      end_va_of (?xs ! j) = end_va_of mm \<and> mm_size (?xs ! j) \<noteq> 0 \<and> mm_size (?xs ! j) < mm_size mm" if "j < i" for j
    using k(1) k'(1)[rule_format, of "j - k"] that i by (cases "j < k") auto
  show le: "i \<le> length rs"
  proof (rule ccontr)
    assume "\<not> i \<le> length rs"
    then show False using before[of "length rs"] z by (simp add: nth_append)
  qed
  show "\<forall>j<i. mmap_before (rs ! j) mm" using before le by (auto simp: mmap_before_def nth_append)
  show "\<forall>j<length rs. i \<le> j \<longrightarrow> mmap_before mm (rs ! j)"
  proof (intro allI impI)
    fix j assume j: "j < length rs" "i \<le> j"
    then have at: "?xs ! i = rs ! i" "mm_size (rs ! i) \<noteq> 0" "rs ! i \<in> set rs" using fits by (simp_all add: nth_append)
    have "end_va_of mm \<le> end_va_of (rs ! i)"
    proof (cases "k' = 0")
      case True
      then show ?thesis using k(2) i at by auto
    next
      case False
      then have "mmap_before (rs ! (i - 1)) (rs ! i)" using sorted_wrt_nth_less[OF sorted, of "i - 1" i] j i by simp
      moreover have "end_va_of (rs ! (i - 1)) = end_va_of mm"
        using before[of "i - 1"] k'(1)[rule_format, of "k' - 1"] False i j by (auto simp: nth_append split: if_split_asm)
      ultimately show ?thesis by (auto simp: mmap_before_def)
    qed
    then have "mmap_before mm (rs ! i)" using k'(2) at new[rule_format, OF at(3)] by (auto simp: mmap_before_def)
    moreover have "i < j \<Longrightarrow> mmap_before (rs ! i) (rs ! j)" using sorted j by (intro sorted_wrt_nth_less) auto
    ultimately show "mmap_before mm (rs ! j)" using j(2) mmap_before_trans by (cases "i = j") auto
  qed
qed

lemma insert_region:
  assumes "i \<le> length rs"
  shows "memmove (i + 1) i (length rs - i) (rs @ z # zs) = Some (take (Suc i) (rs @ z # zs) @ drop i rs @ zs)"
    and "(take (Suc i) (rs @ z # zs) @ drop i rs @ zs)[i := mm] = (take i rs @ mm # drop i rs) @ zs"
  using assms by (simp_all add: memmove_def take_Suc_conv_app_nth list_update_append)

lemma sorted_insert:
  assumes "sorted_wrt P rs" "i \<le> length rs" "\<forall>j<i. P (rs ! j) x" "\<forall>j<length rs. i \<le> j \<longrightarrow> P x (rs ! j)"
  shows "sorted_wrt P (take i rs @ x # drop i rs)"
proof -
  have s: "sorted_wrt P (take i rs @ drop i rs)" using assms(1) by simp
  have "\<forall>y \<in> set (take i rs). P y x" using assms(2,3) by (auto simp: in_set_conv_nth)
  moreover have "\<forall>y \<in> set (drop i rs). P x y" using assms(2,4) by (auto simp: in_set_conv_nth)
  ultimately show ?thesis using s unfolding sorted_wrt_append by auto
qed

lemma regions_of_append: "\<forall>m \<in> set rs. mm_size m \<noteq> 0 \<Longrightarrow> regions_of (rs @ replicate n zero_region) = rs"
  by (cases n) (auto simp: regions_of_def zero_region_def takeWhile_append)

lemma regions_nonzero: "m \<in> set (regions_of ms) \<Longrightarrow> mm_size m \<noteq> 0"
  unfolding regions_of_def by (rule set_takeWhileD[THEN conjunct2])

lemma regions_skip:
  assumes "mmap_skip (\<lambda>cursor. mm_size cursor \<noteq> 0) ms = Some n" shows "n = length (regions_of ms)"
proof -
  have n: "\<forall>i<n. mm_size (ms ! i) \<noteq> 0" "n < length ms" "mm_size (ms ! n) = 0" using assms by (auto simp: mmap_skip_Some)
  have "takeWhile (\<lambda>m. mm_size m \<noteq> 0) ms = take n ms" using n by (intro takeWhile_eq_take_P_nth) auto
  then show ?thesis using n(2) by (simp add: regions_of_def)
qed

lemma region_fits_frame: "region_fits (c\<lparr>mmap := rs\<rparr>) = region_fits c" "region_fits (mmap_note_max mm c) = region_fits c"
  by (auto simp: region_fits_def mmap_note_max_def)

lemma check_fits:
  assumes "mmap_add_region_check c mm = Some 0" "mm_size mm \<noteq> 0"
  shows "region_fits c mm" "\<forall>m \<in> set (regions_of (mmap c)). \<not> mmap_conflict (xc_dynamic c) mm m"
    and "0 < mmap_num c" "mm_size (mmap c ! (mmap_num c - 1)) = 0"
  using assms by (auto simp: mmap_add_region_check_def region_fits_def EINVAL_def ERANGE_def ENOMEM_def bind_Some_iff not_less
      dest!: mmap_check_0 split: if_split_asm)

lemma mmap_add_region_regions:
  assumes add: "mmap_add_region_ctx mm c = Some c'" and inv: "mmap_inv c" and sz: "mm_size mm \<noteq> 0"
  defines "rs \<equiv> regions_of (mmap c)"
  shows "\<exists>i \<le> length rs. regions_of (mmap c') = take i rs @ mm # drop i rs \<and> mmap_inv c' \<and>
    (\<exists>ms. c' = mmap_note_max mm (c\<lparr>mmap := ms\<rparr>))"
proof -
  have I: "mmap c = rs @ replicate (Suc (mmap_num c) - length rs) zero_region" "length rs \<le> mmap_num c" "list_all (region_fits c) rs"
      "sorted_wrt mmap_before rs" "sorted_wrt compatible rs" and nz: "\<forall>m \<in> set rs. mm_size m \<noteq> 0"
    using inv regions_nonzero unfolding mmap_inv_def rs_def Let_def by auto
  let ?n = "mmap_num c - length rs"
  have ms: "mmap c = rs @ zero_region # replicate ?n zero_region" unfolding I(1) using I(2) by (simp add: Suc_diff_le)
  obtain i where chk: "mmap_add_region_check c mm = Some 0" and place: "mmap_find_place mm (mmap c) = Some i"
    and moved: "\<exists>moved regions. memmove (i + 1) i (length rs - i) (mmap c) = Some moved \<and> mmap_num c < length moved \<and>
      mm_size (moved ! mmap_num c) = 0 \<and> regions = moved[i := mm] \<and> c' = mmap_note_max mm (c\<lparr>mmap := regions\<rparr>)"
    using add sz regions_skip unfolding mmap_add_region_ctx_def rs_def by (auto simp: bind_Some_iff)
  note fit = check_fits[OF chk sz]
  have comp: "compatible m mm" if "m \<in> set rs" for m using no_conflict(1) fit(2) that unfolding rs_def by blast
  have new: "\<forall>m \<in> set rs. end_va_of m = end_va_of mm \<longrightarrow> mm_size m \<noteq> mm_size mm"
    using fit(2) no_conflict(2) unfolding rs_def end_va_of_def by (metis add_diff_cancel_right' diff_add_cancel)
  have zs: "mm_size zero_region = 0" by (simp add: zero_region_def)
  note P = find_place_spec[OF place[unfolded ms] zs I(4) nz new]
  let ?rs = "take i rs @ mm # drop i rs"
  have c': "c' = mmap_note_max mm (c\<lparr>mmap := ?rs @ replicate ?n zero_region\<rparr>)"
    using moved insert_region(1)[OF P(1), of zero_region "replicate ?n zero_region"]
      insert_region(2)[OF P(1), of zero_region "replicate ?n zero_region" mm] unfolding ms by auto
  have set: "set ?rs = insert mm (set rs)" by (metis Un_insert_right append_take_drop_id list.set(2) set_append)
  have nz': "\<forall>m \<in> set ?rs. mm_size m \<noteq> 0" using nz sz unfolding set by auto
  have reg: "regions_of (mmap c') = ?rs" using regions_of_append[OF nz'] unfolding c' by (simp add: mmap_note_max_def)
  have "\<not> mmap_num c - 1 < length rs" using fit(4) nz unfolding ms by (auto simp: nth_append)
  then have "length rs < mmap_num c" using fit(3) by simp
  have "sorted_wrt mmap_before ?rs" using sorted_insert[OF I(4) P] .
  moreover have "sorted_wrt compatible ?rs"
    by (rule sorted_insert[OF I(5) P(1)]) (use comp compatible_sym P(1) in auto)
  moreover have "list_all (region_fits c') ?rs"
    using I(3) fit(1) unfolding c' region_fits_frame list_all_iff set by auto
  ultimately have "mmap_inv c'"
    using \<open>length rs < mmap_num c\<close> P(1) unfolding mmap_inv_def Let_def reg by (auto simp: c' mmap_note_max_def)
  then show ?thesis using P(1) reg c' by blast
qed

lemma add_region_keeps_inv: "mmap_add_region_ctx mm c = Some c' \<Longrightarrow> mmap_inv c \<Longrightarrow> mmap_inv c'"
  using mmap_add_region_regions[of mm c c'] by (cases "mm_size mm = 0") (auto simp: mmap_add_region_ctx_def[of mm])

lemma registered_mmap: "mmap_inv (REGISTER_XLAT_CONTEXT_FULL_SPEC dyn addr n k virt phy regime)"
  by (simp add: mmap_inv_def REGISTER_XLAT_CONTEXT_FULL_SPEC_def regions_of_def zero_region_def)

text \<open>What adding regions does not change.\<close>

definition same_tables :: "xlat_ctx \<Rightarrow> xlat_ctx \<Rightarrow> bool" where
  "same_tables c c' \<longleftrightarrow> c' = c\<lparr>mmap := mmap c', max_pa := max_pa c', max_va := max_va c'\<rparr>"

lemma same_tables_trans: "same_tables a b \<Longrightarrow> same_tables b c \<Longrightarrow> same_tables a c"
  unfolding same_tables_def by (cases a, cases b, cases c) simp

lemma mmap_add_region_spec:
  assumes "mmap_add_region_ctx mm c = Some c'" "mmap_inv c"
  shows "mmap_inv c' \<and> same_tables c c' \<and>
    set (regions_of (mmap c')) = set (regions_of (mmap c)) \<union> {m. m = mm \<and> mm_size m \<noteq> 0}"
proof (cases "mm_size mm = 0")
  case True
  then show ?thesis using assms by (auto simp: mmap_add_region_ctx_def same_tables_def)
next
  case False
  obtain i ms where "regions_of (mmap c') = take i (regions_of (mmap c)) @ mm # drop i (regions_of (mmap c))" "mmap_inv c'"
    "c' = mmap_note_max mm (c\<lparr>mmap := ms\<rparr>)"
    using mmap_add_region_regions[OF assms False] by blast
  moreover have "set (take i rs @ mm # drop i rs) = insert mm (set rs)" for rs by (metis Un_insert_right append_take_drop_id list.set(2) set_append)
  ultimately show ?thesis using False by (auto simp: same_tables_def mmap_note_max_def)
qed

lemma mmap_add_ctx_spec:
  assumes "mmap_add_ctx ms c = Some c'" "mmap_inv c"
  shows "mmap_inv c' \<and> same_tables c c' \<and> set (regions_of (mmap c')) =
    set (regions_of (mmap c)) \<union> {m \<in> set (takeWhile (\<lambda>m. granularity m \<noteq> 0) ms). mm_size m \<noteq> 0}"
  using assms
proof (induction ms arbitrary: c)
  case (Cons mm ms)
  show ?case
  proof (cases "granularity mm = 0")
    case True
    then show ?thesis using Cons.prems by (auto simp: same_tables_def)
  next
    case False
    then obtain c1 where c1: "mmap_add_region_ctx mm c = Some c1" "mmap_add_ctx ms c1 = Some c'" using Cons.prems(1) by (auto simp: bind_Some_iff)
    note s = mmap_add_region_spec[OF c1(1) Cons.prems(2)]
    then have "mmap_inv c1" by simp
    note t = Cons.IH[OF c1(2) this]
    have "same_tables c c'" using s t same_tables_trans by blast
    then show ?thesis using s t False by auto
  qed
qed simp

lemma size_unat:
  assumes "region_fits c m" shows "unat (mm_size m) = Suc (re m - rb m)"
proof -
  have z: "1 + (end_va_of m - base_va m) = mm_size m" by (simp add: end_va_of_def)
  then have "1 + (end_va_of m - base_va m) \<noteq> 0" using assms by (simp add: region_fits_def)
  then have "unat (1 + (end_va_of m - base_va m)) = Suc (unat (end_va_of m - base_va m))" by (rule unatSuc)
  moreover have "unat (end_va_of m - base_va m) = re m - rb m" using assms by (intro unat_sub) (simp add: region_fits_def)
  ultimately show ?thesis unfolding z by simp
qed

text \<open>The first region of the list that has an address is the innermost one.\<close>

lemma first_innermost:
  assumes sorted: "sorted_wrt mmap_before rs" "sorted_wrt compatible rs" and f: "find (covers v) rs = Some mm"
    and fits: "list_all (region_fits c) rs" and m: "m \<in> set rs" "covers v m"
  shows "inside mm m"
proof -
  obtain i where i: "i < length rs" "covers v (rs ! i)" "mm = rs ! i" "\<forall>j<i. \<not> covers v (rs ! j)" using f by (auto simp: find_Some_iff)
  obtain j where j: "j < length rs" "m = rs ! j" using m(1) by (auto simp: in_set_conv_nth)
  show ?thesis
  proof (cases "i = j")
    case True
    then show ?thesis using i j by (simp add: inside_def)
  next
    case False
    then have "i < j" using i(4) j m(2) by (metis linorder_neqE_nat)
    then have b: "mmap_before mm m" "compatible mm m" using sorted_wrt_nth_less[OF sorted(1) \<open>i < j\<close>] sorted_wrt_nth_less[OF sorted(2) \<open>i < j\<close>] i j by auto
    have "\<not> end_va_of mm < base_va m" "\<not> end_va_of m < base_va mm" using i(2,3) m(2) by (auto simp: word_less_nat_alt)
    then have "inside mm m \<or> inside m mm" using b(2) by (auto simp: compatible_def split: if_split_asm)
    moreover have "inside mm m" if "inside m mm"
      using that b(1) size_unat[of c mm] size_unat[of c m] fits i(1,3) m(1) j
      by (auto simp: inside_def mmap_before_def list_all_iff word_less_nat_alt word_le_nat_alt)
    ultimately show ?thesis by blast
  qed
qed

end
