(* ===== verification/Xlat_Translate.thy ===== *)
theory Xlat_Translate
  imports Xlat_Mmap
begin

section \<open>Translation\<close>

text \<open>
  The output address of a descriptor, and what the tables built from a list of regions make of an address: the
  innermost region that contains it.
\<close>

subsection \<open>Output addresses\<close>

text \<open>The address that the architecture makes of a block or page descriptor and an address in its range.\<close>

definition desc_output :: "u64 \<Rightarrow> nat \<Rightarrow> u64 \<Rightarrow> u64" where
  "desc_output d l v = ((d AND TABLE_ADDR_MASK) AND NOT (XLAT_BLOCK_MASK l)) OR (v AND XLAT_BLOCK_MASK l)"

definition translate :: "xlat_ctx \<Rightarrow> u64 \<Rightarrow> u64 option" where
  "translate c v = (case find_xlat_table_entry c v of
       Some (Some (t, i, l)) \<Rightarrow> map_option (\<lambda>d. desc_output d l v) (xlat_read t i c)
     | _ \<Rightarrow> None)"

lemma u64_bound: "unat (x :: u64) < 2 ^ 64"
  by (rule less_le_trans[OF unsigned_less]) simp

lemma page_mask:
  assumes "4096 dvd unat pa" "unat pa < 2 ^ 48" shows "pa AND TABLE_ADDR_MASK = pa"
proof -
  have lo: "bit pa k \<Longrightarrow> 12 \<le> k" for k by (rule aligned_bits[OF assms(1)])
  have "pa < 2 ^ 48" using assms(2) by (simp add: word_less_nat_alt)
  then have hi: "bit pa k \<Longrightarrow> k < 48" for k by (rule small_bit)
  show ?thesis unfolding desc_masks by (rule bit_word_eqI) (auto simp: bit_and_iff bit_not_iff bit_mask_iff dest: lo hi)
qed

lemma attrs_outside:
  "LOWER_ATTRS ACCESS_FLAG AND TABLE_ADDR_MASK = 0" "LOWER_ATTRS NS AND TABLE_ADDR_MASK = 0" "LOWER_ATTRS AP_RW AND TABLE_ADDR_MASK = 0"
  "LOWER_ATTRS AP_RO AND TABLE_ADDR_MASK = 0" "LOWER_ATTRS AP_ACCESS_UNPRIVILEGED AND TABLE_ADDR_MASK = 0"
  "LOWER_ATTRS AP_NO_ACCESS_UNPRIVILEGED AND TABLE_ADDR_MASK = 0" "LOWER_ATTRS AP_ONE_VA_RANGE_RES1 AND TABLE_ADDR_MASK = 0"
  "LOWER_ATTRS (ATTR_DEVICE_INDEX OR OSH) AND TABLE_ADDR_MASK = 0" "LOWER_ATTRS (ATTR_NON_CACHEABLE_INDEX OR OSH) AND TABLE_ADDR_MASK = 0"
  "LOWER_ATTRS (ATTR_IWBWA_OWBWA_NTR_INDEX OR ISH) AND TABLE_ADDR_MASK = 0"
  "UPPER_ATTRS XN AND TABLE_ADDR_MASK = 0" "UPPER_ATTRS UXN AND TABLE_ADDR_MASK = 0" "UPPER_ATTRS PXN AND TABLE_ADDR_MASK = 0"
  "PAGE_DESC AND TABLE_ADDR_MASK = 0" "BLOCK_DESC AND TABLE_ADDR_MASK = 0"
  by (simp_all add: LOWER_ATTRS_def UPPER_ATTRS_def TABLE_ADDR_MASK_def ACCESS_FLAG_def NS_def AP_RW_def AP_RO_def
      AP_ACCESS_UNPRIVILEGED_def AP_NO_ACCESS_UNPRIVILEGED_def AP_ONE_VA_RANGE_RES1_def ATTR_DEVICE_INDEX_def OSH_def
      ATTR_NON_CACHEABLE_INDEX_def ATTR_IWBWA_OWBWA_NTR_INDEX_def ISH_def XN_def UXN_def PXN_def PAGE_DESC_def BLOCK_DESC_def)

lemma xlat_desc_addr:
  assumes d: "xlat_desc regime attr pa l = Some d" and pa: "unat pa < 2 ^ 48"
  shows "d AND TABLE_ADDR_MASK = pa"
proof -
  have "bs l dvd unat pa" using d by (simp add: xlat_desc_def mask_zero)
  then have p: "pa AND TABLE_ADDR_MASK = pa" using page_mask[OF _ pa] bs_bounds(2) dvd_trans by blast
  have or: "(a OR b) AND TABLE_ADDR_MASK = (a AND TABLE_ADDR_MASK) OR (b AND TABLE_ADDR_MASK)" for a b
    by (rule bit_word_eqI) (auto simp: bit_and_iff bit_or_iff)
  from d show ?thesis
    by (auto simp: xlat_desc_def xlat_arch_regime_get_xn_desc_def bind_Some_iff Let_def or attrs_outside p split: if_split_asm)
qed

lemma desc_output_eq:
  assumes "xlat_desc regime attr pa l = Some d" "unat pa < 2 ^ 48"
  shows "desc_output d l v = pa + (v AND XLAT_BLOCK_MASK l)"
proof -
  have z: "pa AND XLAT_BLOCK_MASK l = 0" using assms(1) by (simp add: xlat_desc_def)
  then have b: "\<not> (bit pa k \<and> bit (XLAT_BLOCK_MASK l) k)" for k by (metis bit_0_eq bit_and_iff bot_apply bot_bool_def)
  have "pa AND NOT (XLAT_BLOCK_MASK l) = pa" by (rule bit_word_eqI) (use b in \<open>auto simp: bit_and_iff bit_not_iff dest: bit_imp_le_length\<close>)
  then have "desc_output d l v = pa OR (v AND XLAT_BLOCK_MASK l)" by (simp add: desc_output_def xlat_desc_addr[OF assms])
  also have "\<dots> = pa + (v AND XLAT_BLOCK_MASK l)" by (rule disjunctive_add[symmetric]) (use b in \<open>auto simp: bit_and_iff\<close>)
  finally show ?thesis .
qed

text \<open>Physical addresses of a region do not wrap around.\<close>

lemma region_pa:
  assumes fit: "region_fits c m" and v: "covers (unat v) m"
  shows "unat (base_pa m + (v - base_va m)) = unat (base_pa m) + (unat v - rb m)" "base_pa m + (v - base_va m) \<le> end_pa_of m"
proof -
  have "end_pa_of m = base_pa m + (end_va_of m - base_va m)" by (simp add: end_pa_of_def end_va_of_def)
  moreover have "base_pa m \<le> end_pa_of m" using fit by (simp add: region_fits_def)
  moreover have "unat (end_va_of m - base_va m) = re m - rb m" using fit by (intro unat_sub) (simp add: region_fits_def)
  ultimately have e: "unat (end_pa_of m) = unat (base_pa m) + (re m - rb m)" using unat_plus_simple[of "base_pa m" "end_va_of m - base_va m"] by simp
  have d: "unat (v - base_va m) = unat v - rb m" using v by (intro unat_sub) (simp add: word_le_nat_alt)
  have le: "unat (base_pa m) + unat (v - base_va m) \<le> unat (end_pa_of m)" unfolding d e using v by (intro add_left_mono diff_le_mono) simp
  then have "unat (base_pa m) + unat (v - base_va m) < 2 ^ 64" using u64_bound[of "end_pa_of m"] by simp
  then show a: "unat (base_pa m + (v - base_va m)) = unat (base_pa m) + (unat v - rb m)"
    using unat_add_lem[of "base_pa m" "v - base_va m"] d by simp
  then show "base_pa m + (v - base_va m) \<le> end_pa_of m" using le d by (simp add: word_le_nat_alt)
qed

text \<open>The first address of the block of an address: its physical address lies in the region.\<close>

lemma block_pa:
  fixes v :: u64
  assumes m: "maps_to regime mm (unat v) d l" and fit: "region_fits c mm" and pa: "unat (pa_max_address c) < 2 ^ 48"
  defines "b \<equiv> of_nat (block_of l (unat v)) :: u64"
  shows "unat (base_pa mm + b - base_va mm) < 2 ^ 48" "xlat_desc regime (mm_attr mm) (base_pa mm + b - base_va mm) l = Some d"
proof -
  have low: "block_of l (unat v) = unat v - unat v mod bs l" by (simp add: block_of_def minus_mod_eq_div_mult)
  have m': "rb mm \<le> block_of l (unat v)" "block_of l (unat v) + bs l \<le> Suc (re mm)" using m by (simp_all add: maps_to_def)
  show "xlat_desc regime (mm_attr mm) (base_pa mm + b - base_va mm) l = Some d" using m by (simp add: maps_to_def b_def)
  have "block_of l (unat v) < 2 ^ 64" unfolding low using u64_bound[of v] by simp
  then have ub: "unat b = block_of l (unat v)" unfolding b_def by (simp only: unat_of_nat) simp
  have "covers (unat b) mm" unfolding ub using m'(1,2) bs_pos[of l] by linarith
  then have "base_pa mm + (b - base_va mm) \<le> end_pa_of mm" by (rule region_pa(2)[OF fit])
  then show "unat (base_pa mm + b - base_va mm) < 2 ^ 48"
    using fit pa unfolding region_fits_def word_le_nat_alt add_diff_eq by linarith
qed

lemma maps_to_output:
  assumes "maps_to regime mm (unat v) d l" "region_fits c mm" "unat (pa_max_address c) < 2 ^ 48"
  shows "desc_output d l v = base_pa mm + (v - base_va mm)"
proof -
  let ?b = "of_nat (block_of l (unat v)) :: u64"
  have "desc_output d l v = base_pa mm + ?b - base_va mm + (v AND XLAT_BLOCK_MASK l)"
    using desc_output_eq[OF block_pa(2,1)[OF assms]] .
  moreover have "?b + (v AND XLAT_BLOCK_MASK l) = v"
  proof -
    have "of_nat (unat (v AND XLAT_BLOCK_MASK l)) = v AND XLAT_BLOCK_MASK l" by simp
    then have "v AND XLAT_BLOCK_MASK l = of_nat (unat v mod bs l)" unfolding unat_and_mask by simp
    then have "?b + (v AND XLAT_BLOCK_MASK l) = of_nat (block_of l (unat v) + unat v mod bs l)" by simp
    also have "\<dots> = v" by (simp add: block_of_def)
    finally show ?thesis .
  qed
  ultimately show ?thesis by (simp add: algebra_simps)
qed

subsection \<open>Tables built from a list of regions\<close>

text \<open>The regions that a call of \<^verbatim>\<open>mmap_add_ctx()\<close> adds.\<close>

definition given_regions :: "mmap_region list \<Rightarrow> mmap_region list" where
  "given_regions ms = filter (\<lambda>m. mm_size m \<noteq> 0) (takeWhile (\<lambda>m. granularity m \<noteq> 0) ms)"

lemma registered_ok:
  assumes "4096 dvd unat addr" "unat addr + 4096 * k \<le> 2 ^ 48" "same_tables (REGISTER_XLAT_CONTEXT_FULL_SPEC dyn addr n k virt phy regime) c"
  shows "registered_ctx c" "va_max_address c = virt - 1" "pa_max_address c = phy - 1" "xlat_regime c = regime"
  by (subst assms(3)[unfolded same_tables_def], use assms(1,2) in \<open>simp add: registered_ctx_def REGISTER_XLAT_CONTEXT_FULL_SPEC_def\<close>)+

lemma page_aligned: "IS_PAGE_ALIGNED x \<longleftrightarrow> 4096 dvd unat x"
  using mask_zero[of x 3] bs_vals(4) by (simp add: IS_PAGE_ALIGNED_def PAGE_SIZE_def XLAT_BLOCK_MASK_def XLAT_BLOCK_SIZE_def XLAT_ADDR_SHIFT_def
      PAGE_SIZE_SHIFT_def XLAT_TABLE_LEVEL_MAX_def)

lemma fits_region_ok:
  assumes "region_fits c m" "unat (va_max_address c) < 2 ^ 48" shows "region_ok m"
proof -
  have f: "4096 dvd rb m" "4096 dvd unat (mm_size m)" "rb m \<le> re m" "re m < 2 ^ 48" "Suc (re m) = rb m + unat (mm_size m)"
    using assms size_unat[OF assms(1)] unfolding region_fits_def page_aligned word_le_nat_alt by auto
  then show ?thesis unfolding region_ok_def f(5) by simp
qed

lemma init_va_max:
  assumes "init_xlat_tables_ctx mmu ttst par c = Some c'" shows "unat (va_max_address c) < 2 ^ 48"
proof -
  have "va_max_address c \<le> MAX_VIRT_ADDR_SPACE_SIZE - 1" using assms unfolding init_xlat_tables_ctx_def by (auto simp: bind_Some_iff)
  then show ?thesis by (simp add: MAX_VIRT_ADDR_SPACE_SIZE_def word_le_nat_alt)
qed

lemma built_tables:
  assumes addr: "4096 dvd unat addr" "unat addr + 4096 * k \<le> 2 ^ 48"
    and add: "mmap_add_ctx ms (REGISTER_XLAT_CONTEXT_FULL_SPEC dyn addr n k virt phy regime) = Some c"
    and init: "init_xlat_tables_ctx mmu ttst par c = Some c'" and v: "v \<le> virt - 1"
  shows "\<exists>r. found c' r (find_xlat_table_entry c' v) \<and> first_mapped regime (regions_of (mmap c)) (unat v) r"
    and "set (regions_of (mmap c)) = set (given_regions ms)" "mmap_inv c" "pa_max_address c = phy - 1"
proof -
  note A = mmap_add_ctx_spec[OF add registered_mmap]
  then have inv: "mmap_inv c" and st: "same_tables (REGISTER_XLAT_CONTEXT_FULL_SPEC dyn addr n k virt phy regime) c" by simp_all
  note R = registered_ok[OF addr st]
  show "mmap_inv c" "pa_max_address c = phy - 1" using inv R(3) by simp_all
  show "set (regions_of (mmap c)) = set (given_regions ms)"
    using A by (auto simp: given_regions_def REGISTER_XLAT_CONTEXT_FULL_SPEC_def regions_of_def zero_region_def)
  have regs: "\<forall>mm \<in> set (regions_of (mmap c)). region_ok mm \<and> re mm \<le> unat (va_max_address c)"
    using inv fits_region_ok[OF _ init_va_max[OF init]] by (auto simp: mmap_inv_def Let_def list_all_iff region_fits_def word_le_nat_alt)
  obtain ts where ts: "holds c' ts" "base_ok c'" "same_conf (c\<lparr>initialized := True\<rparr>) c'"
    "\<forall>v \<le> unat (va_max_address c). first_mapped (xlat_regime c) (regions_of (mmap c)) v (look_table (base_level c) ts v)"
    using init_spec[OF init R(1) regs] by blast
  have eqs: "base_level c' = base_level c" "va_max_address c' = va_max_address c" using ts(3) by (simp_all add: same_conf_def)
  have "found c' (look_table (base_level c) ts (unat v)) (find_xlat_table_entry c' v)"
    using find_entry_spec[OF ts(1,2)] v R(1,2) unfolding eqs registered_ctx_def by simp
  moreover have "first_mapped regime (regions_of (mmap c)) (unat v) (look_table (base_level c) ts (unat v))"
    using ts(4)[rule_format, of "unat v"] v R(2,4) by (simp add: word_le_nat_alt)
  ultimately show "\<exists>r. found c' r (find_xlat_table_entry c' v) \<and> first_mapped regime (regions_of (mmap c)) (unat v) r" by blast
qed

lemma compatible_regions:
  assumes "mmap_inv c" "a \<in> set (regions_of (mmap c))" "b \<in> set (regions_of (mmap c))" shows "compatible a b"
proof -
  let ?rs = "regions_of (mmap c)"
  obtain i j where ij: "i < length ?rs" "j < length ?rs" "a = ?rs ! i" "b = ?rs ! j" using assms(2,3) by (auto simp: in_set_conv_nth)
  have s: "sorted_wrt compatible ?rs" using assms(1) by (simp add: mmap_inv_def Let_def)
  show ?thesis
    using sorted_wrt_nth_less[OF s, of i j] sorted_wrt_nth_less[OF s, of j i] ij compatible_sym
    by (cases i j rule: linorder_cases) (auto simp: compatible_def inside_def)
qed

lemma translate_region:
  assumes addr: "4096 dvd unat addr" "unat addr + 4096 * k \<le> 2 ^ 48"
    and add: "mmap_add_ctx ms (REGISTER_XLAT_CONTEXT_FULL_SPEC dyn addr n k virt phy regime) = Some c"
    and init: "init_xlat_tables_ctx mmu ttst par c = Some c'" and phy: "unat (phy - 1) < 2 ^ 48"
    and v: "v \<le> virt - 1" and pa: "translate c' v = Some pa"
  shows "\<exists>mm \<in> set (regions_of (mmap c)). region_fits c mm \<and> covers (unat v) mm \<and> pa = base_pa mm + (v - base_va mm)"
proof -
  note B = built_tables[OF addr add init v]
  obtain r where r: "found c' r (find_xlat_table_entry c' v)" "first_mapped regime (regions_of (mmap c)) (unat v) r" using B(1) by blast
  obtain d l where d: "r = Some (d, l)" "pa = desc_output d l v" using r(1) pa by (auto simp: found_def translate_def split: option.splits)
  then obtain mm where mm: "find (covers (unat v)) (regions_of (mmap c)) = Some mm" "maps_to regime mm (unat v) d l"
    using r(2) by (auto simp: first_mapped_def split: option.splits)
  have "mm \<in> set (regions_of (mmap c))" "covers (unat v) mm" using mm(1) by (auto simp: find_Some_iff)
  moreover have "region_fits c mm" using calculation(1) B(3) by (simp add: mmap_inv_def Let_def list_all_iff)
  moreover have "pa = base_pa mm + (v - base_va mm)" using maps_to_output[OF mm(2) calculation(3)] B(4) phy d(2) by simp
  ultimately show ?thesis by blast
qed

end
