(* ===== verification/Xlat_Change.thy ===== *)
theory Xlat_Change
  imports Xlat_Translate
begin

section \<open>Changing attributes\<close>

text \<open>
  \<^verbatim>\<open>xlat_change_mem_attributes_ctx()\<close> replaces the page descriptors of a range of addresses, each by way of an invalid
  entry and a TLB invalidation; no other address is affected.
\<close>

subsection \<open>Replacing a descriptor\<close>

lemma block_split:
  assumes "a = b * m" "0 < b"
  shows "x div b = y div b \<longleftrightarrow> x div a = y div a \<and> (x mod a) div b = (y mod a) div (b::nat)"
proof -
  have d: "z div a = z div b div m" "(z mod a) div b = z div b mod m" for z
    using assms by (simp_all add: div_mult2_eq mod_mult2_eq)
  show ?thesis unfolding d by (metis div_mult_mod_eq)
qed

lemma bs_dvd: "l \<le> l' \<Longrightarrow> bs l' dvd bs l"
  unfolding bs_def by (intro le_imp_power_dvd) (auto simp: XLAT_ADDR_SHIFT_def intro: diff_le_mono2)

definition replaced :: "nat \<Rightarrow> nat \<Rightarrow> nat \<Rightarrow> u64 \<Rightarrow> xtree list \<Rightarrow> xtree list \<Rightarrow> bool" where
  "replaced l l' off d ts ts' \<longleftrightarrow> (\<forall>x < length ts * bs l.
     look_table l ts' x = (if x div bs l' = off div bs l' then Some (d, l') else look_table l ts x))"

lemma replaced_entry:
  assumes k: "off div bs l < length ts" and l: "l \<le> l'"
    and e: "\<forall>x < bs l. look l u' x = (if x div bs l' = (off mod bs l) div bs l' then Some (d, l') else look l (ts ! (off div bs l)) x)"
  shows "replaced l l' off d ts (ts[off div bs l := u'])"
  unfolding replaced_def
proof (intro allI impI)
  fix x assume "x < length ts * bs l"
  then have x: "x div bs l < length ts" by (simp add: less_mult_imp_div_less)
  obtain m where "bs l = bs l' * m" using bs_dvd[OF l] by blast
  note s = block_split[OF this bs_pos, of x off]
  show "look_table l (ts[off div bs l := u']) x = (if x div bs l' = off div bs l' then Some (d, l') else look_table l ts x)"
    using x k e[rule_format, of "x mod bs l"] unfolding s by (auto simp: look_table_def nth_list_update)
qed

lemma leaf_write:
  assumes "owned c l t ts" "pool_ok c" "valid_ref c t" "l \<le> 3" "length ts \<le> 512" "off = unat v mod (512 * bs l)" "off < length ts * bs l"
    "find_xlat_table_loop c v t (length ts) l = Some (Some (t', i, l'))" "xlat_write t' i d c = Some c'" "leaf_desc l' d" "d \<noteq> INVALID_DESC"
  shows "l \<le> l' \<and> l' \<le> 3 \<and> (\<exists>ts'. owned c' l t ts' \<and> length ts' = length ts \<and> grown c t (nodeset ts) c' (nodeset ts') \<and> replaced l l' off d ts ts')"
  using assms
proof (induction "3 - l" arbitrary: l t ts off rule: less_induct)
  case less
  note pre = less.prems
  let ?k = "off div bs l"
  have k: "?k < length ts" using pre(7) by (simp add: less_mult_imp_div_less)
  have idx: "unat (XLAT_TABLE_IDX v l) = ?k" using pre(6) mod_mult2_eq[of "unat v" "bs l" 512] by (simp add: table_idx mult.commute)
  have rk: "rep c l (ts ! ?k) (table_of t c ! ?k)" "length (table_of t c) = length ts" using pre(1) k by (auto simp: owned_def list_all2_conv_all_nth)
  have rd: "xlat_read t ?k c = Some (table_of t c ! ?k)" using k rk(2) by (simp add: xlat_read_eq[OF pre(2,3)])
  show ?case
  proof (cases "ts ! ?k")
    case (Leaf d0)
    then have r: "t' = t" "i = ?k" "l' = l"
      using pre(8) rk(1) rd k pre(4) unfolding find_xlat_table_loop.simps[of c v t] idx
      by (auto simp: leaf_desc_def XLAT_TABLE_LEVEL_MAX_def Let_def bind_Some_iff INVALID_DESC_def PAGE_DESC_def BLOCK_DESC_def split: if_split_asm)
    note W = write_spec[OF pre(9)[unfolded r] pre(2,3)]
    have rep: "rep c' l (Leaf d) d" using pre(10) r by simp
    note M = entry_merge[OF pre(1) k pre(3) W(6,1) _ _ _ rep W(2)]
    have m: "owned c' l t (ts[?k := Leaf d])" "grown c t (nodeset ts) c' (nodeset (ts[?k := Leaf d]))"
      by (rule M; use W(4,5) Leaf in simp)+
    have "replaced l l' off d ts (ts[?k := Leaf d])"
      using pre(11) by (intro replaced_entry[OF k]) (auto simp: r)
    then show ?thesis using m pre(4) r by (auto intro!: exI[of _ "ts[?k := Leaf d]"])
  next
    case (Sub j us)
    have r: "l < 3" "table_of t c ! ?k = TABLE_DESC OR xlat_table_addr c j" "j < tables_num c" "length us = XLAT_TABLE_ENTRIES"
      "rep_table c (Suc l) us (table_of (Sub_table j) c)" using rk(1) by (simp_all add: Sub)
    have s: "set (nodes (ts ! ?k)) \<subseteq> nodeset ts" using k by (metis concat_split le_sup_iff set_append subset_refl)
    have n: "j \<notin> free_tables c" "t \<noteq> Sub_table j" using pre(1) s by (auto simp: owned_def Sub)
    have "distinct (nodes (ts ! ?k))" using pre(1) concat_split[OF k] by (simp add: owned_def)
    then have us: "owned c (Suc l) (Sub_table j) us" using pre(1) s r(5) by (auto simp: owned_def Sub)
    have "off mod bs l = unat v mod bs l" using pre(6) by (simp add: mod_mod_cancel)
    then have o: "off mod bs l = unat v mod (512 * bs (Suc l))" "off mod bs l < length us * bs (Suc l)"
      using bs_Suc[OF r(1)] r(4) mod_less_divisor[OF bs_pos, of off l] by (simp_all add: XLAT_TABLE_ENTRIES_def)
    have find: "find_xlat_table_loop c v (Sub_table j) (length us) (Suc l) = Some (Some (t', i, l'))"
      using pre(8) k rd r pre(4) table_addr_facts[OF pre(2) r(3)] unfolding find_xlat_table_loop.simps[of c v t] idx
      by (simp add: XLAT_TABLE_LEVEL_MAX_def Let_def INVALID_DESC_def TABLE_DESC_def BLOCK_DESC_def)
    have ref: "valid_ref c (Sub_table j)" using n r(3) by (simp add: valid_ref_def)
    have "3 - Suc l < 3 - l" "Suc l \<le> 3" "length us \<le> 512" using r(1,4) by (simp_all add: XLAT_TABLE_ENTRIES_def)
    from less.hyps[OF this(1) us pre(2) ref this(2,3) o find pre(9-11)]
    obtain us' where us': "Suc l \<le> l'" "l' \<le> 3" "owned c' (Suc l) (Sub_table j) us'" "length us' = length us"
      "grown c (Sub_table j) (nodeset us) c' (nodeset us')" "replaced (Suc l) l' (off mod bs l) d us us'" by blast
    have g: "grown c (Sub_table j) (insert j (nodeset us)) c' (insert j (nodeset us'))"
      using us'(5) n(1) unfolding grown_def by auto
    have same: "table_of t c = (table_of t c)[?k := TABLE_DESC OR xlat_table_addr c j]" using r(2) by (metis list_update_id)
    note C = child_merge[OF pre(1) k pre(3) r(1,3) n(2) same_conf_refl same _ _ _ _ _ us'(3) _ g]
    have m: "owned c' l t (ts[?k := Sub j us'])" "grown c t (nodeset ts) c' (nodeset (ts[?k := Sub j us']))"
      by (rule C; use us'(4) r(4) in \<open>auto simp: Sub\<close>)+
    have "\<forall>x < bs l. look l (Sub j us') x = (if x div bs l' = (off mod bs l) div bs l' then Some (d, l') else look l (Sub j us) x)"
      using us'(6) r(4) bs_Suc[OF r(1)] by (simp add: replaced_def look_Sub XLAT_TABLE_ENTRIES_def del: look.simps)
    then have "replaced l l' off d ts (ts[?k := Sub j us'])" using us'(1) by (intro replaced_entry[OF k]) (simp_all add: Sub)
    then show ?thesis using m us'(1,2) by (auto intro!: exI[of _ "ts[?k := Sub j us']"])
  qed
qed

subsection \<open>Walks\<close>

text \<open>The descriptor that translates an address, with its level.\<close>

definition walk :: "xlat_ctx \<Rightarrow> u64 \<Rightarrow> (u64 \<times> nat) option" where
  "walk c v = (case find_xlat_table_entry c v of
       Some (Some (t, i, l)) \<Rightarrow> map_option (\<lambda>d. (d, l)) (xlat_read t i c)
     | _ \<Rightarrow> None)"

definition xlat_ok :: "xlat_ctx \<Rightarrow> bool" where
  "xlat_ok c \<longleftrightarrow> base_ok c \<and> base_level c = GET_XLAT_TABLE_LEVEL_BASE (va_max_address c + 1) \<and> (\<exists>ts. holds c ts)"

lemma walk_look:
  assumes "holds c ts" "base_ok c" "base_level c = GET_XLAT_TABLE_LEVEL_BASE (va_max_address c + 1)" "v \<le> va_max_address c"
  shows "walk c v = look_table (base_level c) ts (unat v)"
  using find_entry_spec[OF assms] by (auto simp: walk_def found_def split: option.splits)

lemma find_loop_cong:
  assumes "\<And>l'. l \<le> l' \<Longrightarrow> l' \<le> 3 \<Longrightarrow> XLAT_TABLE_IDX v l' = XLAT_TABLE_IDX v' l'"
  shows "find_xlat_table_loop c v t n l = find_xlat_table_loop c v' t n l"
  using assms
proof (induction "4 - l" arbitrary: l t n rule: less_induct)
  case less
  show ?case
  proof (cases "l \<le> 3")
    case True
    have idx: "XLAT_TABLE_IDX v l = XLAT_TABLE_IDX v' l" using less.prems True by simp
    have "find_xlat_table_loop c v s m (l + 1) = find_xlat_table_loop c v' s m (l + 1)" for s m
      by (rule less.hyps) (use less.prems True in auto)
    then show ?thesis unfolding find_xlat_table_loop.simps[of c v t] find_xlat_table_loop.simps[of c v' t] idx by presburger
  qed (simp add: find_xlat_table_loop.simps XLAT_TABLE_LEVEL_MAX_def)
qed

lemma index_page:
  assumes "unat v div 4096 = unat v' div 4096" "l \<le> 3" shows "XLAT_TABLE_IDX v l = XLAT_TABLE_IDX v' l"
proof -
  obtain m where m: "bs l = 4096 * m" using bs_bounds(2)[of l] by blast
  have "unat (XLAT_TABLE_IDX v l) = unat (XLAT_TABLE_IDX v' l)" unfolding table_idx m by (simp add: div_mult2_eq assms(1))
  then show ?thesis by (simp add: word_unat_eq_iff)
qed

lemma walk_page: "unat v div 4096 = unat v' div 4096 \<Longrightarrow> walk c v = walk c v'"
  unfolding walk_def find_xlat_table_entry_def using find_loop_cong[of _ v v'] index_page[of v v'] by simp

subsection \<open>One page\<close>

definition changed_desc :: "int \<Rightarrow> u32 \<Rightarrow> u64 \<Rightarrow> u64 option" where
  "changed_desc regime attr d = do {
     a \<leftarrow> desc_attributes regime d;
     xlat_desc regime ((a AND NOT MT_CHANGEABLE) OR (attr AND MT_CHANGEABLE)) (d AND TABLE_ADDR_MASK) 3
   }"

text \<open>The entry is invalid and the invalidation of the TLB complete before the new descriptor is written.\<close>

definition break_before_make :: "u64 \<Rightarrow> xlat_event list \<Rightarrow> bool" where
  "break_before_make va es \<longleftrightarrow> (\<exists>t i d. es = [Ev_entry t i INVALID_DESC, Ev_tlbi va, Ev_tlbi_sync, Ev_entry t i d])"

lemma write_twice:
  assumes "xlat_write t i INVALID_DESC c = Some c1" "xlat_write t i d (c1\<lparr>xlat_log := xlat_log c1 @ es\<rparr>) = Some c2"
  shows "\<exists>c3. xlat_write t i d c = Some c3 \<and> c2 = c3\<lparr>xlat_log := xlat_log c @ Ev_entry t i INVALID_DESC # es @ [Ev_entry t i d]\<rparr>"
  using assms by (cases t) (auto simp: xlat_emit_def)

lemma change_page_spec:
  assumes ok: "xlat_ok c" and va: "va \<le> va_max_address c" and call: "change_page attr va c = Some c'" and old: "walk c va = Some (d0, 3)"
  shows "\<exists>d es. changed_desc (xlat_regime c) attr d0 = Some d \<and> xlat_ok c' \<and> same_conf c c' \<and>
    (\<forall>v \<le> va_max_address c. walk c' v = (if unat v div 4096 = unat va div 4096 then Some (d, 3) else walk c v)) \<and>
    xlat_log c' = xlat_log c @ es \<and> break_before_make va es"
proof -
  obtain t i l d0' where f: "find_xlat_table_entry c va = Some (Some (t, i, l))" "xlat_read t i c = Some d0'" "l = 3" "d0' = d0"
    using old by (auto simp: walk_def split: option.splits prod.splits)
  obtain a c1 d where a: "desc_attributes (xlat_regime c) d0 = Some a" and w1: "xlat_write t i INVALID_DESC c = Some c1"
    and d: "xlat_desc (xlat_regime c1) ((a AND NOT MT_CHANGEABLE) OR (attr AND MT_CHANGEABLE)) (d0 AND TABLE_ADDR_MASK) 3 = Some d"
    and w2: "xlat_write t i d (c1\<lparr>xlat_log := xlat_log c1 @ [Ev_tlbi va, Ev_tlbi_sync]\<rparr>) = Some c'"
    using call f by (auto simp: change_page_def xlat_get_mem_attributes_internal_def bind_Some_iff Let_def xlat_emit_def)
  have reg: "xlat_regime c1 = xlat_regime c" using w1 by (cases t) (auto simp: xlat_emit_def)
  obtain c2 where c2: "xlat_write t i d c = Some c2" "c' = c2\<lparr>xlat_log := xlat_log c @ [Ev_entry t i INVALID_DESC, Ev_tlbi va, Ev_tlbi_sync, Ev_entry t i d]\<rparr>"
    using write_twice[OF w1 w2] by auto
  obtain ts where ts: "holds c ts" "base_ok c" "base_level c = GET_XLAT_TABLE_LEVEL_BASE (va_max_address c + 1)" using ok by (auto simp: xlat_ok_def)
  let ?l = "base_level c"
  have h: "owned c ?l Base_table ts" "pool_ok c" "length ts = base_table_entries c" "length ts * bs ?l = Suc (unat (va_max_address c))"
    "length ts \<le> 512" "?l \<le> 3" using ts(1,2) by (simp_all add: holds_def base_ok_def)
  have lt: "unat va < length ts * bs ?l" using va h(4) by (simp add: word_le_nat_alt)
  moreover have "length ts * bs ?l \<le> 512 * bs ?l" using h(5) by (rule mult_le_mono1)
  ultimately have "unat va < 512 * bs ?l" by (rule less_le_trans)
  then have "unat va = unat va mod (512 * bs ?l)" by simp
  have ty: "d AND DESC_MASK = PAGE_DESC" using xlat_desc_type[OF d] by simp
  then have ld: "leaf_desc 3 d" "d \<noteq> INVALID_DESC" by (auto simp: leaf_desc_def PAGE_DESC_def INVALID_DESC_def)
  have "valid_ref c Base_table" by (simp add: valid_ref_def)
  from leaf_write[OF h(1,2) this h(6,5) \<open>unat va = _\<close> lt _ c2(1)] f ld h(3) ts(3)
  obtain ts' where ts': "owned c2 ?l Base_table ts'" "length ts' = length ts" "grown c Base_table (nodeset ts) c2 (nodeset ts')"
    "replaced ?l 3 (unat va) d ts ts'" by (auto simp: find_xlat_table_entry_def)
  have conf: "same_conf c c2" "pool_ok c2" using ts'(3) by (simp_all add: grown_def)
  have "holds c2 ts'" using ts'(1,2) conf h(3) by (simp add: holds_def same_conf_def)
  moreover have "holds c' ts' = holds c2 ts'" by (rule holds_cong) (simp_all add: c2(2))
  ultimately have c': "holds c' ts'" "same_conf c c'" using conf c2(2) by (simp_all add: same_conf_def)
  have e: "base_ok c'" "base_level c' = ?l" "va_max_address c' = va_max_address c" using ts(2) c'(2) by (simp_all add: base_ok_def same_conf_def)
  have "walk c' v = (if unat v div 4096 = unat va div 4096 then Some (d, 3) else walk c v)" if v: "v \<le> va_max_address c" for v
  proof -
    have "walk c' v = look_table ?l ts' (unat v)" using walk_look[OF c'(1) e(1), of v] v ts(3) e(2,3) by simp
    then show ?thesis
      using ts'(4)[unfolded replaced_def, rule_format, of "unat v"] v h(4) walk_look[OF ts v] bs_vals(4) by (simp add: word_le_nat_alt)
  qed
  moreover have "xlat_ok c'" using e c'(1) ts(3) by (auto simp: xlat_ok_def)
  moreover have "changed_desc (xlat_regime c) attr d0 = Some d" using a d reg by (simp add: changed_desc_def)
  ultimately show ?thesis using c'(2) c2(2) by (auto simp: break_before_make_def)
qed

subsection \<open>A range of pages\<close>

abbreviation within :: "u64 \<Rightarrow> nat \<Rightarrow> u64 \<Rightarrow> bool" where
  "within va n v \<equiv> unat va \<le> unat v \<and> unat v < unat va + n * 4096"

definition pages_fit :: "xlat_ctx \<Rightarrow> u64 \<Rightarrow> nat \<Rightarrow> bool" where
  "pages_fit c va n \<longleftrightarrow> 4096 dvd unat va \<and> unat va + n * 4096 \<le> Suc (unat (va_max_address c)) \<and> unat (va_max_address c) < 2 ^ 48"

lemma next_page:
  assumes "pages_fit c va (Suc n)"
  shows "unat (va + PAGE_SIZE) = unat va + 4096" "pages_fit c (va + PAGE_SIZE) n" "va \<le> va_max_address c"
    and "within va (Suc n) v \<longleftrightarrow> unat v div 4096 = unat va div 4096 \<or> within (va + PAGE_SIZE) n v"
    and "within (va + PAGE_SIZE) n v \<Longrightarrow> unat v div 4096 \<noteq> unat va div 4096"
proof -
  have p: "PAGE_SIZE = XLAT_BLOCK_SIZE 3" "bs 3 = 4096"
    using bs_vals(4) by (simp_all add: PAGE_SIZE_def PAGE_SIZE_SHIFT_def XLAT_BLOCK_SIZE_def XLAT_ADDR_SHIFT_def XLAT_TABLE_LEVEL_MAX_def)
  have f: "4096 dvd unat va" "unat va + 4096 + n * 4096 \<le> Suc (unat (va_max_address c))" "unat (va_max_address c) < 2 ^ 48"
    using assms by (simp_all add: pages_fit_def)
  show u: "unat (va + PAGE_SIZE) = unat va + 4096" using entry_end(1)[of va 3] f unfolding p by simp
  show "pages_fit c (va + PAGE_SIZE) n" using f u by (simp add: pages_fit_def)
  show "va \<le> va_max_address c" using f(2) by (simp add: word_le_nat_alt)
  obtain m where m: "unat va = 4096 * m" using f(1) by blast
  have page: "unat v div 4096 = unat va div 4096 \<longleftrightarrow> unat va \<le> unat v \<and> unat v < unat va + 4096" unfolding m by auto
  show "within va (Suc n) v \<longleftrightarrow> unat v div 4096 = unat va div 4096 \<or> within (va + PAGE_SIZE) n v" unfolding page u by auto
  show "within (va + PAGE_SIZE) n v \<Longrightarrow> unat v div 4096 \<noteq> unat va div 4096" unfolding page u by auto
qed

lemma change_check_spec:
  assumes "change_check_loop n attr c va = Some 0" "pages_fit c va n" "within va n v"
  shows "\<exists>d. walk c v = Some (d, 3)"
  using assms
proof (induction n arbitrary: va)
  case (Suc n)
  note N = next_page[OF Suc.prems(2)]
  obtain d where d: "walk c va = Some (d, 3)" and rest: "change_check_loop n attr c (va + PAGE_SIZE) = Some 0"
    using Suc.prems(1) by (auto simp: walk_def bind_Some_iff EINVAL_def XLAT_TABLE_LEVEL_MAX_def split: option.splits prod.splits if_split_asm)
  show ?case using N(4)[of v] Suc.prems(3) walk_page[of v va c] d Suc.IH[OF rest N(2)] by auto
qed auto

definition changed :: "u32 \<Rightarrow> u64 \<Rightarrow> nat \<Rightarrow> xlat_ctx \<Rightarrow> xlat_ctx \<Rightarrow> u64 \<Rightarrow> bool" where
  "changed attr va n c c' v \<longleftrightarrow>
     (if within va n v then \<exists>d0 d. walk c v = Some (d0, 3) \<and> changed_desc (xlat_regime c) attr d0 = Some d \<and> walk c' v = Some (d, 3)
      else walk c' v = walk c v)"

lemma change_loop_spec:
  assumes "change_loop n attr va c = Some c'" "xlat_ok c" "pages_fit c va n" "\<And>v. within va n v \<Longrightarrow> \<exists>d. walk c v = Some (d, 3)"
  shows "xlat_ok c' \<and> same_conf c c' \<and> (\<forall>v \<le> va_max_address c. changed attr va n c c' v) \<and>
    (\<exists>es. length es = n \<and> xlat_log c' = xlat_log c @ concat es \<and> (\<forall>k<n. break_before_make (va + of_nat k * PAGE_SIZE) (es ! k)))"
  using assms
proof (induction n arbitrary: va c)
  case 0
  then show ?case by (auto simp: changed_def)
next
  case (Suc n)
  note N = next_page[OF Suc.prems(3)]
  obtain c1 where c1: "change_page attr va c = Some c1" "change_loop n attr (va + PAGE_SIZE) c1 = Some c'"
    using Suc.prems(1) by (auto simp: bind_Some_iff)
  obtain d0 where d0: "walk c va = Some (d0, 3)" using Suc.prems(4)[of va] by auto
  obtain d es0 where P: "changed_desc (xlat_regime c) attr d0 = Some d" "xlat_ok c1" "same_conf c c1"
    "\<forall>v \<le> va_max_address c. walk c1 v = (if unat v div 4096 = unat va div 4096 then Some (d, 3) else walk c v)"
    "xlat_log c1 = xlat_log c @ es0" "break_before_make va es0"
    using change_page_spec[OF Suc.prems(2) N(3) c1(1) d0] by blast
  have e: "va_max_address c1 = va_max_address c" "xlat_regime c1 = xlat_regime c" using P(3) by (simp_all add: same_conf_def)
  have in_range: "v \<le> va_max_address c" if "within (va + PAGE_SIZE) n v" for v
    using that N(2) by (simp add: pages_fit_def word_le_nat_alt)
  have "\<exists>d. walk c1 v = Some (d, 3)" if "within (va + PAGE_SIZE) n v" for v
    using P(4)[rule_format, OF in_range[OF that]] N(5)[OF that] Suc.prems(4)[of v] N(4)[of v] that by auto
  note R = Suc.IH[OF c1(2) P(2) _ this]
  have fit1: "pages_fit c1 (va + PAGE_SIZE) n" using N(2) by (simp add: pages_fit_def e)
  have ch: "changed attr va (Suc n) c c' v" if v: "v \<le> va_max_address c" for v
    using R[OF fit1] P(1,4) v N(4,5)[of v] walk_page[of v va c] d0 unfolding changed_def e by (auto split: if_split_asm)
  obtain es where es: "length es = n" "xlat_log c' = xlat_log c1 @ concat es" "\<forall>k<n. break_before_make (va + PAGE_SIZE + of_nat k * PAGE_SIZE) (es ! k)"
    using R[OF fit1] by blast
  have "break_before_make (va + of_nat k * PAGE_SIZE) ((es0 # es) ! k)" if "k < Suc n" for k
    using that es(3) P(6) by (cases k) (auto simp: algebra_simps)
  then have "\<exists>es. length es = Suc n \<and> xlat_log c' = xlat_log c @ concat es \<and> (\<forall>k<Suc n. break_before_make (va + of_nat k * PAGE_SIZE) (es ! k))"
    using es(1,2) P(5) by (intro exI[of _ "es0 # es"]) simp
  then show ?case using R[OF fit1] ch same_conf_trans[OF P(3)] by blast
qed

end
