(* ===== verification/Xlat_Attr.thy ===== *)
theory Xlat_Attr
  imports Xlat_Change
begin

section \<open>Reading attributes back\<close>

text \<open>
  \<^verbatim>\<open>xlat_get_mem_attributes_ctx()\<close> decodes what \<^verbatim>\<open>xlat_desc()\<close> encodes, up to the attributes that the code
  forces: device memory and writable memory are never executable.
\<close>

definition effective_attr :: "int \<Rightarrow> u32 \<Rightarrow> u32" where
  "effective_attr regime attr = (((MT_TYPE attr OR (attr AND MT_RW)) OR (if regime = EL1_EL0_REGIME then attr AND MT_USER else 0)) OR
     (attr AND MT_NS)) OR
     (if MT_TYPE attr = MT_DEVICE \<or> attr AND MT_RW \<noteq> 0 \<or> attr AND MT_EXECUTE_NEVER \<noteq> 0 then MT_EXECUTE_NEVER else 0)"

text \<open>The part of a descriptor that does not hold the address.\<close>

abbreviation attr_bits :: "u64 \<Rightarrow> u64" where
  "attr_bits d \<equiv> d AND NOT TABLE_ADDR_MASK"

lemma attr_bits_or: "attr_bits (a OR b) = attr_bits a OR attr_bits b"
  by (rule bit_word_eqI) (auto simp: bit_and_iff bit_or_iff)

lemma low_field:
  assumes "n + k \<le> 12" shows "drop_bit n (attr_bits d) AND mask k = drop_bit n d AND mask k"
proof (rule bit_word_eqI)
  fix j :: nat assume j: "j < LENGTH(64)"
  then show "bit (drop_bit n (attr_bits d) AND mask k) j = bit (drop_bit n d AND mask k) j"
    using assms by (auto simp: bit_and_iff bit_drop_bit_eq bit_not_iff desc_masks(4) bit_mask_iff bit_or_iff dest: bit_imp_le_length)
qed

lemma outside_and:
  assumes "m AND TABLE_ADDR_MASK = 0" shows "attr_bits d AND m = d AND m"
proof (rule bit_word_eqI)
  fix j :: nat assume j: "j < LENGTH(64)"
  have "\<not> (bit m j \<and> bit TABLE_ADDR_MASK j)" using arg_cong[OF assms, of "\<lambda>x. bit x j"] by (simp add: bit_and_iff)
  then show "bit (attr_bits d AND m) j = bit (d AND m) j" using j by (auto simp: bit_and_iff bit_not_iff)
qed

lemma xn_outside: "xlat_arch_regime_get_xn_desc regime = Some xn \<Longrightarrow> xn AND TABLE_ADDR_MASK = 0"
  by (auto simp: xlat_arch_regime_get_xn_desc_def UPPER_ATTRS_def UXN_def PXN_def XN_def TABLE_ADDR_MASK_def bind_Some_iff split: if_split_asm)

lemma desc_attributes_bits: "desc_attributes regime (attr_bits d) = desc_attributes regime d"
proof -
  have m: "mask 2 = (3 :: u64)" "mask (Suc 0) = (1 :: u64)" by (simp_all add: mask_eq_exp_minus_1)
  have f: "drop_bit 2 (attr_bits d) AND 3 = drop_bit 2 d AND 3" "drop_bit 7 (attr_bits d) AND 1 = drop_bit 7 d AND 1"
    "drop_bit 6 (attr_bits d) AND 1 = drop_bit 6 d AND 1" "drop_bit 5 (attr_bits d) AND 1 = drop_bit 5 d AND 1"
    using low_field[of 2 2 d] low_field[of 7 1 d] low_field[of 6 1 d] low_field[of 5 1 d] by (simp_all only: m One_nat_def)
  show ?thesis
  proof (cases "xlat_arch_regime_get_xn_desc regime")
    case (Some xn)
    have "attr_bits d AND xn = d AND xn" by (rule outside_and[OF xn_outside[OF Some]])
    then show ?thesis unfolding desc_attributes_def f Some by (simp only: Option.bind.simps)
  qed (simp add: desc_attributes_def f)
qed

lemma flag_cases:
  fixes attr :: u32
  shows "attr AND MT_RW = 0 \<or> attr AND MT_RW = MT_RW" "attr AND MT_NS = 0 \<or> attr AND MT_NS = MT_NS"
    and "attr AND MT_USER = 0 \<or> attr AND MT_USER = MT_USER" "attr AND MT_EXECUTE_NEVER = 0 \<or> attr AND MT_EXECUTE_NEVER = MT_EXECUTE_NEVER"
proof -
  have c: "attr AND push_bit k 1 = 0 \<or> attr AND push_bit k 1 = push_bit k 1" for k
    by (cases "bit attr k") (auto intro!: bit_word_eqI simp: bit_and_iff bit_push_bit_iff bit_1_iff bit_exp_iff)
  show "attr AND MT_RW = 0 \<or> attr AND MT_RW = MT_RW" "attr AND MT_NS = 0 \<or> attr AND MT_NS = MT_NS"
      "attr AND MT_USER = 0 \<or> attr AND MT_USER = MT_USER" "attr AND MT_EXECUTE_NEVER = 0 \<or> attr AND MT_EXECUTE_NEVER = MT_EXECUTE_NEVER"
    using c[of 3] c[of 4] c[of 6] c[of 5] by (simp_all add: MT_RW_def MT_NS_def MT_USER_def MT_EXECUTE_NEVER_def)
qed

lemma attr_bits_const: "x AND TABLE_ADDR_MASK = 0 \<Longrightarrow> attr_bits x = x"
  using outside_and[of x "- 1"] by (metis and.right_neutral and.commute outside_and and.idem)

lemmas attr_const_defs = LOWER_ATTRS_def UPPER_ATTRS_def ACCESS_FLAG_def NS_def AP_RW_def AP_RO_def
  AP_ACCESS_UNPRIVILEGED_def AP_NO_ACCESS_UNPRIVILEGED_def AP_ONE_VA_RANGE_RES1_def ATTR_DEVICE_INDEX_def OSH_def
  ATTR_NON_CACHEABLE_INDEX_def ATTR_IWBWA_OWBWA_NTR_INDEX_def ISH_def XN_def UXN_def PXN_def PAGE_DESC_def BLOCK_DESC_def
  MT_RW_def MT_NS_def MT_USER_def MT_EXECUTE_NEVER_def MT_MEMORY_def MT_DEVICE_def MT_NON_CACHEABLE_def

text \<open>The descriptor without its address, by attributes.\<close>

definition attr_word :: "int \<Rightarrow> u64 \<Rightarrow> u32 \<Rightarrow> bool \<Rightarrow> bool \<Rightarrow> bool \<Rightarrow> bool \<Rightarrow> nat \<Rightarrow> u64" where
  "attr_word regime xn ty ns rw user nx l =
     (if l = 3 then PAGE_DESC else BLOCK_DESC) OR LOWER_ATTRS ACCESS_FLAG OR (if ns then LOWER_ATTRS NS else 0) OR
     (if rw then LOWER_ATTRS AP_RW else LOWER_ATTRS AP_RO) OR
     (if regime = EL1_EL0_REGIME then if user then LOWER_ATTRS AP_ACCESS_UNPRIVILEGED else LOWER_ATTRS AP_NO_ACCESS_UNPRIVILEGED
      else LOWER_ATTRS AP_ONE_VA_RANGE_RES1) OR
     (if ty = MT_DEVICE \<or> rw \<or> nx then xn else 0) OR
     LOWER_ATTRS (if ty = MT_DEVICE then ATTR_DEVICE_INDEX OR OSH else if ty = MT_MEMORY then ATTR_IWBWA_OWBWA_NTR_INDEX OR ISH
       else ATTR_NON_CACHEABLE_INDEX OR OSH)"

lemma xlat_desc_bits:
  assumes d: "xlat_desc regime attr pa l = Some d" and pa: "unat pa < 2 ^ 48"
  shows "\<exists>xn. xlat_arch_regime_get_xn_desc regime = Some xn \<and> MT_TYPE attr \<in> {MT_DEVICE, MT_MEMORY, MT_NON_CACHEABLE} \<and>
    attr_bits d = attr_word regime xn (MT_TYPE attr) (attr AND MT_NS \<noteq> 0) (attr AND MT_RW \<noteq> 0) (attr AND MT_USER \<noteq> 0)
      (attr AND MT_EXECUTE_NEVER \<noteq> 0) l"
proof -
  have "bs l dvd unat pa" using d by (simp add: xlat_desc_def mask_zero)
  then have "pa AND TABLE_ADDR_MASK = pa" using page_mask[OF _ pa] bs_bounds(2) dvd_trans by blast
  then have p: "attr_bits pa = 0" by (metis and_zero_eq bit.conj_cancel_right and.assoc)
  obtain xn where xn: "xlat_arch_regime_get_xn_desc regime = Some xn" using d by (auto simp: xlat_desc_def bind_Some_iff Let_def)
  have x: "attr_bits xn = xn" by (rule attr_bits_const[OF xn_outside[OF xn]])
  show ?thesis
    using d xn by (auto simp: xlat_desc_def bind_Some_iff Let_def XLAT_TABLE_LEVEL_MAX_def attr_bits_or p x attr_bits_const[OF attrs_outside(1)]
      attr_bits_const[OF attrs_outside(2)] attr_bits_const[OF attrs_outside(3)] attr_bits_const[OF attrs_outside(4)]
      attr_bits_const[OF attrs_outside(5)] attr_bits_const[OF attrs_outside(6)] attr_bits_const[OF attrs_outside(7)]
      attr_bits_const[OF attrs_outside(8)] attr_bits_const[OF attrs_outside(9)] attr_bits_const[OF attrs_outside(10)]
      attr_bits_const[OF attrs_outside(14)] attr_bits_const[OF attrs_outside(15)] attr_word_def or.assoc or.commute or.left_commute
      split: if_split_asm)
qed

lemma xn_cases:
  assumes "xlat_arch_regime_get_xn_desc regime = Some xn"
  shows "regime = EL1_EL0_REGIME \<and> xn = 0x60000000000000 \<or> regime \<noteq> EL1_EL0_REGIME \<and> xn = 0x40000000000000"
  using assms by (auto simp: xlat_arch_regime_get_xn_desc_def UPPER_ATTRS_def UXN_def PXN_def XN_def bind_Some_iff split: if_split_asm)

lemma attr_word_fields:
  fixes ns rw user nx :: bool and l :: nat
  assumes "xlat_arch_regime_get_xn_desc regime = Some xn" "ty \<in> {MT_DEVICE, MT_MEMORY, MT_NON_CACHEABLE}"
  defines "w \<equiv> attr_word regime xn ty ns rw user nx l"
  shows "drop_bit 2 w AND 3 = (if ty = MT_DEVICE then ATTR_DEVICE_INDEX else if ty = MT_MEMORY then ATTR_IWBWA_OWBWA_NTR_INDEX else ATTR_NON_CACHEABLE_INDEX)"
    and "drop_bit 7 w AND 1 = (if rw then 0 else 1)" "regime = EL1_EL0_REGIME \<Longrightarrow> drop_bit 6 w AND 1 = (if user then 1 else 0)"
    and "drop_bit 5 w AND 1 = (if ns then 1 else 0)"
    and "w AND xn = (if ty = MT_DEVICE \<or> rw \<or> nx then xn else 0)" "xn \<noteq> 0"
  using assms(2) xn_cases[OF assms(1)] unfolding w_def attr_word_def
  by (cases ns; cases rw; cases user; auto simp: attr_const_defs EL1_EL0_REGIME_def)+

lemma desc_attributes_xlat_desc:
  assumes "xlat_desc regime attr pa l = Some d" "unat pa < 2 ^ 48"
  shows "desc_attributes regime d = Some (effective_attr regime attr)"
proof -
  obtain xn where xn: "xlat_arch_regime_get_xn_desc regime = Some xn" and ty: "MT_TYPE attr \<in> {MT_DEVICE, MT_MEMORY, MT_NON_CACHEABLE}"
    and w: "attr_bits d = attr_word regime xn (MT_TYPE attr) (attr AND MT_NS \<noteq> 0) (attr AND MT_RW \<noteq> 0) (attr AND MT_USER \<noteq> 0)
      (attr AND MT_EXECUTE_NEVER \<noteq> 0) l"
    using xlat_desc_bits[OF assms] by blast
  note F = attr_word_fields(1-5)[OF xn ty, of "attr AND MT_NS \<noteq> 0" "attr AND MT_RW \<noteq> 0" "attr AND MT_USER \<noteq> 0" "attr AND MT_EXECUTE_NEVER \<noteq> 0" l]
  let ?w = "attr_bits d"
  have i: "ATTR_DEVICE_INDEX \<noteq> ATTR_IWBWA_OWBWA_NTR_INDEX" "ATTR_DEVICE_INDEX \<noteq> ATTR_NON_CACHEABLE_INDEX"
    "ATTR_NON_CACHEABLE_INDEX \<noteq> ATTR_IWBWA_OWBWA_NTR_INDEX" "MT_DEVICE \<noteq> MT_MEMORY" "MT_DEVICE \<noteq> MT_NON_CACHEABLE" "MT_MEMORY \<noteq> MT_NON_CACHEABLE"
    by (simp_all add: attr_const_defs)
  have h1: "(if drop_bit 2 ?w AND 3 = ATTR_IWBWA_OWBWA_NTR_INDEX then Some MT_MEMORY
      else if drop_bit 2 ?w AND 3 = ATTR_NON_CACHEABLE_INDEX then Some MT_NON_CACHEABLE
      else do { assert_c (drop_bit 2 ?w AND 3 = ATTR_DEVICE_INDEX); Some MT_DEVICE }) = Some (MT_TYPE attr)"
    unfolding w F(1) using ty i by auto
  have h2: "(if drop_bit 7 ?w AND 1 = 0 then x OR MT_RW else x) = x OR (attr AND MT_RW)" for x
    unfolding w F(2) using flag_cases(1)[of attr] by auto
  have h3: "(if regime = EL1_EL0_REGIME \<and> drop_bit 6 ?w AND 1 = 1 then x OR MT_USER else x) =
      x OR (if regime = EL1_EL0_REGIME then attr AND MT_USER else 0)" for x
    unfolding w using F(3) flag_cases(3)[of attr] by auto
  have h4: "(if drop_bit 5 ?w AND 1 = 1 then x OR MT_NS else x) = x OR (attr AND MT_NS)" for x
    unfolding w F(4) using flag_cases(2)[of attr] by auto
  have h5: "(if ?w AND xn = xn then Some (x OR MT_EXECUTE_NEVER) else do { assert_c (?w AND xn = 0); Some x }) =
      Some (x OR (if MT_TYPE attr = MT_DEVICE \<or> attr AND MT_RW \<noteq> 0 \<or> attr AND MT_EXECUTE_NEVER \<noteq> 0 then MT_EXECUTE_NEVER else 0))" for x
    unfolding w F(5) using attr_word_fields(6)[OF xn ty] by auto
  have "desc_attributes regime ?w = Some (effective_attr regime attr)"
    unfolding desc_attributes_def Let_def h1 effective_attr_def by (simp only: Option.bind.simps h2 h3 h4 xn h5)
  then show ?thesis by (simp add: desc_attributes_bits)
qed

lemma maps_to_attr:
  fixes v :: u64
  assumes "maps_to regime mm (unat v) d l" "region_fits c mm" "unat (pa_max_address c) < 2 ^ 48"
  shows "desc_attributes regime d = Some (effective_attr regime (mm_attr mm))"
  using desc_attributes_xlat_desc[OF block_pa(2,1)[OF assms]] .

end
