(* ===== verification/Xlat_Properties.thy ===== *)
theory Xlat_Properties
  imports Xlat_Attr
begin

section \<open>Properties of the translation tables\<close>

text \<open>
  What a context that was registered, filled with regions and initialised translates an address to, and what
  the operations on an initialised context change.
\<close>

subsection \<open>Shared facts\<close>

lemma regions_antisym:
  assumes "mmap_inv c" "a \<in> set (regions_of (mmap c))" "b \<in> set (regions_of (mmap c))" "inside a b" "inside b a"
  shows "a = b"
proof (rule ccontr)
  let ?rs = "regions_of (mmap c)"
  assume ne: "a \<noteq> b"
  obtain i j where ij: "i < length ?rs" "j < length ?rs" "a = ?rs ! i" "b = ?rs ! j" using assms(2,3) by (auto simp: in_set_conv_nth)
  have s: "sorted_wrt mmap_before ?rs" using assms(1) by (simp add: mmap_inv_def Let_def)
  have "mmap_before a b \<or> mmap_before b a"
    using sorted_wrt_nth_less[OF s, of i j] sorted_wrt_nth_less[OF s, of j i] ij ne by (cases i j rule: linorder_cases) auto
  moreover have e: "base_va a = base_va b" "end_va_of a = end_va_of b" using assms(4,5) by (auto simp: inside_def)
  moreover have "mm_size a = mm_size b" using e by (simp add: end_va_of_def)
  ultimately show False by (auto simp: mmap_before_def)
qed

lemma init_conf:
  assumes "init_xlat_tables_ctx mmu ttst par c = Some c'" "registered_ctx c"
    "\<forall>mm \<in> set (regions_of (mmap c)). region_ok mm \<and> re mm \<le> unat (va_max_address c)"
  shows "initialized c'" "xlat_regime c' = xlat_regime c" "va_max_address c' = va_max_address c" "xlat_ok c'"
    and "xlat_regime c \<in> {EL1_EL0_REGIME, EL2_REGIME, EL3_REGIME}"
proof -
  obtain ts where ts: "holds c' ts" "base_ok c'" "same_conf (c\<lparr>initialized := True\<rparr>) c'" using init_spec[OF assms] by blast
  show "initialized c'" "xlat_regime c' = xlat_regime c" "va_max_address c' = va_max_address c" using ts(3) by (simp_all add: same_conf_def)
  show "xlat_ok c'" using ts assms(2) by (auto simp: xlat_ok_def same_conf_def registered_ctx_def)
  show "xlat_regime c \<in> {EL1_EL0_REGIME, EL2_REGIME, EL3_REGIME}"
    using assms(1) by (auto simp: init_xlat_tables_ctx_def bind_Some_iff)
qed

lemma built_conf:
  assumes addr: "4096 dvd unat addr" "unat addr + 4096 * k \<le> 2 ^ 48"
    and add: "mmap_add_ctx ms (REGISTER_XLAT_CONTEXT_FULL_SPEC dyn addr n k virt phy regime) = Some c"
    and init: "init_xlat_tables_ctx mmu ttst par c = Some c'"
  shows "initialized c'" "xlat_regime c' = regime" "va_max_address c' = virt - 1" "xlat_ok c'"
    "regime \<in> {EL1_EL0_REGIME, EL2_REGIME, EL3_REGIME}" "unat (va_max_address c') < 2 ^ 48"
proof -
  note A = mmap_add_ctx_spec[OF add registered_mmap]
  then have inv: "mmap_inv c" and st: "same_tables (REGISTER_XLAT_CONTEXT_FULL_SPEC dyn addr n k virt phy regime) c" by simp_all
  note R = registered_ok[OF addr st]
  have regs: "\<forall>mm \<in> set (regions_of (mmap c)). region_ok mm \<and> re mm \<le> unat (va_max_address c)"
    using inv fits_region_ok[OF _ init_va_max[OF init]] by (auto simp: mmap_inv_def Let_def list_all_iff region_fits_def word_le_nat_alt)
  show "initialized c'" "xlat_regime c' = regime" "va_max_address c' = virt - 1" "xlat_ok c'"
    "regime \<in> {EL1_EL0_REGIME, EL2_REGIME, EL3_REGIME}" "unat (va_max_address c') < 2 ^ 48"
    using init_conf[OF init R(1) regs] R(2,4) init_va_max[OF init] by simp_all
qed

lemma built_innermost:
  assumes addr: "4096 dvd unat addr" "unat addr + 4096 * k \<le> 2 ^ 48"
    and add: "mmap_add_ctx ms (REGISTER_XLAT_CONTEXT_FULL_SPEC dyn addr n k virt phy regime) = Some c"
    and init: "init_xlat_tables_ctx mmu ttst par c = Some c'" and v: "v \<le> virt - 1"
    and mm: "find (covers (unat v)) (regions_of (mmap c)) = Some mm" and m: "m \<in> set (given_regions ms)" "covers (unat v) m"
  shows "inside mm m"
proof -
  note B = built_tables[OF addr add init v]
  show ?thesis
    by (rule first_innermost[of "regions_of (mmap c)" "unat v" mm c m]) (use B(2,3) mm m in \<open>auto simp: mmap_inv_def Let_def\<close>)
qed

subsection \<open>An example\<close>

text \<open>Eight pages of writable memory with a read-only page among them, in a space of sixteen pages.\<close>

definition example_regions :: "mmap_region list" where
  "example_regions = [\<lparr>base_pa = 0x80000000, base_va = 0, mm_size = 0x8000, mm_attr = MT_MEMORY OR MT_RW, granularity = 0x1000\<rparr>,
     \<lparr>base_pa = 0x80002000, base_va = 0x2000, mm_size = 0x1000, mm_attr = MT_MEMORY, granularity = 0x1000\<rparr>, zero_region]"

definition example_page :: mmap_region where
  "example_page = \<lparr>base_pa = 0x90000000, base_va = 0x9000, mm_size = 0x1000, mm_attr = MT_DEVICE, granularity = 0x1000\<rparr>"

lemma xlat_example_run:
  "(do { c \<leftarrow> mmap_add_ctx example_regions (REGISTER_XLAT_CONTEXT_FULL_SPEC True 0x10000 4 1 0x10000 0x100000000 EL3_REGIME);
         c' \<leftarrow> init_xlat_tables_ctx False True 0 c;
         pa \<leftarrow> translate c' 0x2000;
         (ret1, c1) \<leftarrow> xlat_change_mem_attributes_ctx 0x3000 0x1000 MT_EXECUTE_NEVER c';
         (ret2, c2) \<leftarrow> mmap_add_dynamic_region_ctx example_page c';
         Some (pa, walk c' 0x9000, ret1, ret2) }) = Some (0x80002000, None, 0, 0)"
  by code_simp

lemma example_states:
  obtains c c' c1 c2 where
    "mmap_add_ctx example_regions (REGISTER_XLAT_CONTEXT_FULL_SPEC True 0x10000 4 1 0x10000 0x100000000 EL3_REGIME) = Some c"
    "init_xlat_tables_ctx False True 0 c = Some c'" "translate c' 0x2000 = Some 0x80002000" "walk c' 0x9000 = None"
    "xlat_change_mem_attributes_ctx 0x3000 0x1000 MT_EXECUTE_NEVER c' = Some (0, c1)" "mmap_add_dynamic_region_ctx example_page c' = Some (0, c2)"
  using xlat_example_run by (auto simp: bind_Some_iff)

lemma example_covers:
  "set (given_regions example_regions) = {example_regions ! 0, example_regions ! 1}"
  "covers 0x2000 (example_regions ! 0)" "covers 0x2000 (example_regions ! 1)" "inside (example_regions ! 1) (example_regions ! 0)"
  "\<not> inside (example_regions ! 0) (example_regions ! 1)" "mm_attr (example_regions ! 1) = MT_MEMORY"
  by (simp_all add: given_regions_def example_regions_def zero_region_def end_va_of_def inside_def)

subsection \<open>Initialisation\<close>

text \<open>(C10) Tables built by registering a context, adding regions and initialising it: a walk never fails an
  assertion; an address in no region has no entry; any other address has a block or page descriptor of the
  innermost region that contains it, with the physical address and the attributes of that region.\<close>

theorem xlat_init_innermost:
  assumes "4096 dvd unat addr" "unat addr + 4096 * k \<le> 2 ^ 48"
    and "mmap_add_ctx ms (REGISTER_XLAT_CONTEXT_FULL_SPEC dyn addr n k virt phy regime) = Some c"
    and "init_xlat_tables_ctx mmu ttst par c = Some c'" "v \<le> virt - 1"
  shows "case find_xlat_table_entry c' v of None \<Rightarrow> False
    | Some None \<Rightarrow> \<forall>m \<in> set (given_regions ms). \<not> covers (unat v) m
    | Some (Some (t, i, l)) \<Rightarrow> \<exists>d. xlat_read t i c' = Some d \<and> (\<exists>mm \<in> set (given_regions ms). covers (unat v) mm \<and>
        (\<forall>m \<in> set (given_regions ms). covers (unat v) m \<longrightarrow> inside mm m) \<and> maps_to regime mm (unat v) d l)"
proof -
  note B = built_tables[OF assms]
  obtain r where r: "found c' r (find_xlat_table_entry c' v)" "first_mapped regime (regions_of (mmap c)) (unat v) r" using B(1) by blast
  show ?thesis
  proof (cases "find (covers (unat v)) (regions_of (mmap c))")
    case None
    then have "\<forall>m \<in> set (given_regions ms). \<not> covers (unat v) m" using B(2) by (simp add: find_None_iff)
    then show ?thesis using r None by (simp add: first_mapped_def found_def)
  next
    case (Some mm)
    then obtain d l where d: "r = Some (d, l)" "maps_to regime mm (unat v) d l" using r(2) by (auto simp: first_mapped_def)
    have "mm \<in> set (given_regions ms)" "covers (unat v) mm" using Some B(2) by (auto simp: find_Some_iff)
    moreover have "\<forall>m \<in> set (given_regions ms). covers (unat v) m \<longrightarrow> inside mm m" using built_innermost[OF assms Some] by blast
    ultimately show ?thesis using r(1) d by (auto simp: found_def intro!: bexI[of _ mm])
  qed
qed

theorem xlat_init_innermost_witness:
  "\<exists>c c' t i l d. mmap_add_ctx example_regions (REGISTER_XLAT_CONTEXT_FULL_SPEC True 0x10000 4 1 0x10000 0x100000000 EL3_REGIME) = Some c \<and>
     init_xlat_tables_ctx False True 0 c = Some c' \<and> find_xlat_table_entry c' 0x2000 = Some (Some (t, i, l)) \<and>
     xlat_read t i c' = Some d \<and> maps_to EL3_REGIME (example_regions ! 1) 0x2000 d l"
proof -
  obtain c c' where *: "mmap_add_ctx example_regions (REGISTER_XLAT_CONTEXT_FULL_SPEC True 0x10000 4 1 0x10000 0x100000000 EL3_REGIME) = Some c"
    "init_xlat_tables_ctx False True 0 c = Some c'" by (rule example_states)
  show ?thesis
    using xlat_init_innermost[OF _ _ *, of "0x2000"] * example_covers by (auto split: option.splits)
qed

text \<open>(C11) No two virtual addresses of such tables translate to the same physical address.\<close>

theorem xlat_no_alias:
  assumes "4096 dvd unat addr" "unat addr + 4096 * k \<le> 2 ^ 48"
    and "mmap_add_ctx ms (REGISTER_XLAT_CONTEXT_FULL_SPEC dyn addr n k virt phy regime) = Some c"
    and "init_xlat_tables_ctx mmu ttst par c = Some c'" "unat (phy - 1) < 2 ^ 48"
    and v: "v \<le> virt - 1" "v' \<le> virt - 1" and pa: "translate c' v = Some pa" "translate c' v' = Some pa"
  shows "v = v'"
proof -
  obtain a where a: "a \<in> set (regions_of (mmap c))" "region_fits c a" "covers (unat v) a" "pa = base_pa a + (v - base_va a)"
    using translate_region[OF assms(1-5) v(1) pa(1)] by blast
  obtain b where b: "b \<in> set (regions_of (mmap c))" "region_fits c b" "covers (unat v') b" "pa = base_pa b + (v' - base_va b)"
    using translate_region[OF assms(1-5) v(2) pa(2)] by blast
  have comp: "compatible a b" using compatible_regions[OF built_tables(3)[OF assms(1-4) v(1)] a(1) b(1)] .
  have ra: "base_pa a \<le> pa" "pa \<le> end_pa_of a" using region_pa[OF a(2,3)] a(4) by (simp_all add: word_le_nat_alt)
  have rb: "base_pa b \<le> pa" "pa \<le> end_pa_of b" using region_pa[OF b(2,3)] b(4) by (simp_all add: word_le_nat_alt)
  have "base_va a - base_pa a = base_va b - base_pa b"
    using comp ra rb by (auto simp: compatible_def split: if_split_asm)
  then show ?thesis using a(4) b(4) by (simp add: algebra_simps)
qed

theorem xlat_no_alias_witness:
  "\<exists>c c'. mmap_add_ctx example_regions (REGISTER_XLAT_CONTEXT_FULL_SPEC True 0x10000 4 1 0x10000 0x100000000 EL3_REGIME) = Some c \<and>
     init_xlat_tables_ctx False True 0 c = Some c' \<and> translate c' 0x2000 = Some 0x80002000 \<and> translate c' 0x3000 \<noteq> translate c' 0x2000"
proof -
  obtain c c' where *: "mmap_add_ctx example_regions (REGISTER_XLAT_CONTEXT_FULL_SPEC True 0x10000 4 1 0x10000 0x100000000 EL3_REGIME) = Some c"
    "init_xlat_tables_ctx False True 0 c = Some c'" "translate c' 0x2000 = Some 0x80002000" by (rule example_states)
  have "0x2000 = v" if "translate c' v = Some 0x80002000" "v \<le> 0xFFFF" for v
    using xlat_no_alias[OF _ _ *(1,2) _ _ _ *(3) that(1)] that(2) by simp
  from this[of "0x2000"] this[of "0x3000"] show ?thesis using * by auto
qed

text \<open>(C19) The attributes that the library reports for an address of such tables are the ones of the innermost
  region, with execute-never added for device and for writable memory.\<close>

theorem xlat_attributes_innermost:
  assumes "4096 dvd unat addr" "unat addr + 4096 * k \<le> 2 ^ 48"
    and "mmap_add_ctx ms (REGISTER_XLAT_CONTEXT_FULL_SPEC dyn addr n k virt phy regime) = Some c"
    and "init_xlat_tables_ctx mmu ttst par c = Some c'" "unat (phy - 1) < 2 ^ 48" and v: "v \<le> virt - 1"
    and mm: "mm \<in> set (given_regions ms)" "covers (unat v) mm" "\<forall>m \<in> set (given_regions ms). covers (unat v) m \<longrightarrow> inside mm m"
  shows "xlat_get_mem_attributes_ctx c' v = Some (0, Some (effective_attr regime (mm_attr mm)))"
proof -
  note B = built_tables[OF assms(1-4) v] and C = built_conf[OF assms(1-4)]
  obtain r where r: "found c' r (find_xlat_table_entry c' v)" "first_mapped regime (regions_of (mmap c)) (unat v) r" using B(1) by blast
  obtain f where f: "find (covers (unat v)) (regions_of (mmap c)) = Some f"
    using mm(1,2) B(2) by (cases "find (covers (unat v)) (regions_of (mmap c))") (auto simp: find_None_iff)
  have "f \<in> set (regions_of (mmap c))" "covers (unat v) f" using f by (auto simp: find_Some_iff)
  then have "f = mm" using regions_antisym[OF B(3), of f mm] built_innermost[OF assms(1-4) v f mm(1,2)] mm B(2) by auto
  then obtain d l where d: "r = Some (d, l)" "maps_to regime mm (unat v) d l" using r(2) f by (auto simp: first_mapped_def)
  have fit: "region_fits c mm" using \<open>f \<in> _\<close> \<open>f = mm\<close> B(3) by (simp add: mmap_inv_def Let_def list_all_iff)
  have "desc_attributes regime d = Some (effective_attr regime (mm_attr mm))" using maps_to_attr[OF d(2) fit] B(4) assms(5) by simp
  moreover have "va_max_address c' + 1 > 0" using C(6) unat_add_lem[of "va_max_address c'" 1] by (simp add: word_less_nat_alt)
  ultimately show ?thesis
    using r(1) d(1) C(1,2,5) by (auto simp: found_def xlat_get_mem_attributes_ctx_def xlat_get_mem_attributes_internal_def)
qed

theorem xlat_attributes_innermost_witness:
  "\<exists>c c'. mmap_add_ctx example_regions (REGISTER_XLAT_CONTEXT_FULL_SPEC True 0x10000 4 1 0x10000 0x100000000 EL3_REGIME) = Some c \<and>
     init_xlat_tables_ctx False True 0 c = Some c' \<and>
     xlat_get_mem_attributes_ctx c' 0x2000 = Some (0, Some (effective_attr EL3_REGIME MT_MEMORY))"
proof -
  obtain c c' where *: "mmap_add_ctx example_regions (REGISTER_XLAT_CONTEXT_FULL_SPEC True 0x10000 4 1 0x10000 0x100000000 EL3_REGIME) = Some c"
    "init_xlat_tables_ctx False True 0 c = Some c'" by (rule example_states)
  show ?thesis
    using xlat_attributes_innermost[OF _ _ *, of "0x2000" "example_regions ! 1"] * example_covers
    by (auto simp: inside_def)
qed

subsection \<open>Changes of an initialised context\<close>

lemma changed_attributes:
  assumes "changed_desc regime attr d0 = Some d"
  shows "\<exists>a. desc_attributes regime d0 = Some a \<and>
    desc_attributes regime d = Some (effective_attr regime ((a AND NOT MT_CHANGEABLE) OR (attr AND MT_CHANGEABLE)))"
    and "desc_output d 3 v = desc_output d0 3 v"
proof -
  obtain a where a: "desc_attributes regime d0 = Some a"
    and d: "xlat_desc regime ((a AND NOT MT_CHANGEABLE) OR (attr AND MT_CHANGEABLE)) (d0 AND TABLE_ADDR_MASK) 3 = Some d"
    using assms by (auto simp: changed_desc_def bind_Some_iff)
  have "d0 AND TABLE_ADDR_MASK \<le> TABLE_ADDR_MASK" by (rule word_and_le1)
  then have lt: "unat (d0 AND TABLE_ADDR_MASK) < 2 ^ 48" by (simp add: TABLE_ADDR_MASK_def word_le_nat_alt)
  show "\<exists>a. desc_attributes regime d0 = Some a \<and>
    desc_attributes regime d = Some (effective_attr regime ((a AND NOT MT_CHANGEABLE) OR (attr AND MT_CHANGEABLE)))"
    using a desc_attributes_xlat_desc[OF d lt] by blast
  show "desc_output d 3 v = desc_output d0 3 v" using xlat_desc_addr[OF d lt] by (simp add: desc_output_def)
qed

lemma change_call:
  assumes ok: "xlat_ok c" and call: "xlat_change_mem_attributes_ctx va sz attr c = Some (0, c')"
    and fit: "unat va + unat sz \<le> Suc (unat (va_max_address c))"
  shows "change_loop (unat sz div 4096) attr va c = Some c'" "pages_fit c va (unat sz div 4096)"
    and "\<And>v. within va (unat sz div 4096) v \<Longrightarrow> \<exists>d. walk c v = Some (d, 3)" "unat sz div 4096 * 4096 = unat sz"
proof -
  have p: "unat PAGE_SIZE = 4096" by (simp add: PAGE_SIZE_def PAGE_SIZE_SHIFT_def)
  have n: "unat (sz div PAGE_SIZE) = unat sz div 4096" by (simp add: unat_div p)
  have z: "IS_PAGE_ALIGNED va" "sz mod PAGE_SIZE = 0" "change_check_loop (unat sz div 4096) attr c va = Some 0"
    "change_loop (unat sz div 4096) attr va c = Some c'"
    using call by (auto simp: xlat_change_mem_attributes_ctx_def bind_Some_iff Let_def n EINVAL_def split: if_split_asm)
  have "unat (sz mod PAGE_SIZE) = 0" using z(2) by simp
  then have "4096 dvd unat sz" by (simp add: unat_mod p dvd_eq_mod_eq_0)
  then show d: "unat sz div 4096 * 4096 = unat sz" by simp
  show f: "pages_fit c va (unat sz div 4096)"
    using z(1) fit ok d unfolding page_aligned pages_fit_def by (simp add: xlat_ok_def base_ok_def)
  show "change_loop (unat sz div 4096) attr va c = Some c'" by (rule z(4))
  show "\<exists>d. walk c v = Some (d, 3)" if "within va (unat sz div 4096) v" for v by (rule change_check_spec[OF z(3) f that])
qed

lemma translate_walk: "translate c v = map_option (\<lambda>(d, l). desc_output d l v) (walk c v)"
  by (auto simp: translate_def walk_def option.map_comp comp_def split: option.splits)

text \<open>(C12) A successful change of attributes gives every page of the range the requested permissions, never
  writable and executable at once, and keeps its physical address; it leaves every other address alone.\<close>

theorem change_attributes_exact:
  assumes "xlat_ok c" "xlat_change_mem_attributes_ctx va sz attr c = Some (0, c')"
    and "unat va + unat sz \<le> Suc (unat (va_max_address c))" "v \<le> va_max_address c"
  shows "xlat_ok c' \<and> translate c' v = translate c v \<and>
    (if unat va \<le> unat v \<and> unat v < unat va + unat sz
     then \<exists>d0 d a. walk c v = Some (d0, 3) \<and> walk c' v = Some (d, 3) \<and> desc_attributes (xlat_regime c) d0 = Some a \<and>
       desc_attributes (xlat_regime c) d = Some (effective_attr (xlat_regime c) ((a AND NOT MT_CHANGEABLE) OR (attr AND MT_CHANGEABLE)))
     else walk c' v = walk c v)"
proof -
  note C = change_call[OF assms(1-3)]
  note L = change_loop_spec[OF C(1) assms(1) C(2,3)]
  then have ch: "changed attr va (unat sz div 4096) c c' v" using assms(4) by blast
  have "translate c' v = translate c v" using ch changed_attributes(2) by (auto simp: changed_def translate_walk split: if_split_asm)
  then show ?thesis using ch L changed_attributes(1) unfolding changed_def C(4) by (auto split: if_split_asm)
qed

theorem change_attributes_exact_witness:
  "\<exists>c c' d. xlat_ok c \<and> xlat_change_mem_attributes_ctx 0x3000 0x1000 MT_EXECUTE_NEVER c = Some (0, c') \<and>
     walk c' 0x3000 = Some (d, 3) \<and> translate c' 0x3000 = translate c 0x3000 \<and> walk c' 0x2000 = walk c 0x2000"
proof -
  obtain c0 c c' where *: "mmap_add_ctx example_regions (REGISTER_XLAT_CONTEXT_FULL_SPEC True 0x10000 4 1 0x10000 0x100000000 EL3_REGIME) = Some c0"
    "init_xlat_tables_ctx False True 0 c0 = Some c" "xlat_change_mem_attributes_ctx 0x3000 0x1000 MT_EXECUTE_NEVER c = Some (0, c')"
    by (rule example_states)
  have ok: "xlat_ok c" "va_max_address c = 0xFFFF" using built_conf[OF _ _ *(1,2)] by simp_all
  show ?thesis
    using change_attributes_exact[OF ok(1) *(3), of "0x3000"] change_attributes_exact[OF ok(1) *(3), of "0x2000"] ok *(3) by auto
qed

text \<open>(C21) Every page of such a change goes through an invalid entry: the entry is cleared, the TLB invalidated for
  the address and the invalidation completed before the new descriptor is written.\<close>

theorem change_breaks_before_make:
  assumes "xlat_ok c" "xlat_change_mem_attributes_ctx va sz attr c = Some (0, c')"
    and "unat va + unat sz \<le> Suc (unat (va_max_address c))"
  shows "\<exists>es. length es = unat sz div 4096 \<and> xlat_log c' = xlat_log c @ concat es \<and>
    (\<forall>k < unat sz div 4096. break_before_make (va + of_nat k * PAGE_SIZE) (es ! k))"
  using change_loop_spec[OF change_call(1)[OF assms] assms(1) change_call(2,3)[OF assms]] by blast

theorem change_breaks_before_make_witness:
  "\<exists>c c' t i d. xlat_ok c \<and> xlat_change_mem_attributes_ctx 0x3000 0x1000 MT_EXECUTE_NEVER c = Some (0, c') \<and>
     xlat_log c' = xlat_log c @ [Ev_entry t i INVALID_DESC, Ev_tlbi 0x3000, Ev_tlbi_sync, Ev_entry t i d]"
proof -
  obtain c0 c c' where *: "mmap_add_ctx example_regions (REGISTER_XLAT_CONTEXT_FULL_SPEC True 0x10000 4 1 0x10000 0x100000000 EL3_REGIME) = Some c0"
    "init_xlat_tables_ctx False True 0 c0 = Some c" "xlat_change_mem_attributes_ctx 0x3000 0x1000 MT_EXECUTE_NEVER c = Some (0, c')"
    by (rule example_states)
  have ok: "xlat_ok c" "va_max_address c = 0xFFFF" using built_conf[OF _ _ *(1,2)] by simp_all
  show ?thesis
    using change_breaks_before_make[OF ok(1) *(3)] ok *(3) by (auto simp: break_before_make_def length_Suc_conv)
qed

text \<open>(C20) A dynamic region that is added to an initialised context gives its addresses a descriptor of the
  region, where they had none, and leaves all others alone.\<close>

theorem dynamic_region_maps:
  assumes ok: "xlat_ok c" and init: "initialized c" and sz: "mm_size mm \<noteq> 0"
    and call: "mmap_add_dynamic_region_ctx mm c = Some (0, c')" and v: "v \<le> va_max_address c"
  shows "xlat_ok c' \<and> mapped_over (xlat_regime c) (mm\<lparr>mm_attr := mm_attr mm OR MT_DYNAMIC\<rparr>) (unat v) (walk c v) (walk c' v)"
proof -
  let ?mm = "mm\<lparr>mm_attr := mm_attr mm OR MT_DYNAMIC\<rparr>"
  obtain ts where ts: "holds c ts" "base_ok c" "base_level c = GET_XLAT_TABLE_LEVEL_BASE (va_max_address c + 1)"
    using ok by (auto simp: xlat_ok_def)
  obtain ms c1 where chk: "mmap_add_region_check c ?mm = Some 0"
    and map: "xlat_tables_map_region (c\<lparr>mmap := ms\<rparr>) ?mm 0 Base_table (base_table_entries c) (base_level c) = Some (end_va_of ?mm, c1)"
    and c': "c' = mmap_note_max ?mm c1"
    using call sz init by (auto simp: mmap_add_dynamic_region_ctx_def Let_def bind_Some_iff ENOMEM_def split: if_split_asm)
  let ?c = "c\<lparr>mmap := ms\<rparr>"
  have h: "holds ?c ts" using ts(1) holds_cong[of ?c c] by simp
  have b: "base_ok ?c" using ts(2) by (simp add: base_ok_def)
  have fit: "region_fits c ?mm" using check_fits(1)[OF chk] sz by simp
  have reg: "region_ok ?mm" "re ?mm < base_table_entries ?c * bs (base_level ?c)"
    using fits_region_ok[OF fit] fit ts(2) by (auto simp: base_ok_def region_fits_def word_le_nat_alt)
  obtain ts' where ts': "owned c1 (base_level ?c) Base_table ts'" "length ts' = length ts" "grown ?c Base_table (nodeset ts) c1 (nodeset ts')"
    "finished ?c ?mm (re ?mm) (end_va_of ?mm) (table_done (xlat_regime ?c) ?mm (base_level ?c) 0 0 ts ts')"
    using map_region_base[OF reg(1), of ?c ts "end_va_of ?mm" c1] h b reg(2) map by (auto simp: holds_def base_ok_def)
  have dn: "table_done (xlat_regime c) ?mm (base_level c) 0 0 ts ts'"
    using ts'(4) region_end_odd[OF reg(1)] by (simp add: finished_def)
  have conf: "same_conf ?c c1" "pool_ok c1" using ts'(3) by (simp_all add: grown_def)
  have "holds c1 ts'" using ts'(1,2) conf ts(1) by (simp add: holds_def same_conf_def)
  then have h': "holds c' ts'" using holds_cong[of c' c1] by (simp add: c' mmap_note_max_def)
  have e: "base_level c' = base_level c" "va_max_address c' = va_max_address c" "base_ok c'"
    using conf(1) ts(2) by (simp_all add: c' mmap_note_max_def same_conf_def base_ok_def)
  have "unat v < length ts * bs (base_level c)" using v ts(1,2) by (simp add: holds_def base_ok_def word_le_nat_alt)
  then have "mapped_over (xlat_regime c) ?mm (unat v) (look_table (base_level c) ts (unat v)) (look_table (base_level c) ts' (unat v))"
    using dn[unfolded table_done_def, rule_format, of "unat v"] by simp
  moreover have "walk c v = look_table (base_level c) ts (unat v)" using walk_look[OF ts v] .
  moreover have "walk c' v = look_table (base_level c) ts' (unat v)" using walk_look[OF h' e(3), of v] v ts(3) e by simp
  moreover have "xlat_ok c'" using h' e ts(3) by (auto simp: xlat_ok_def)
  ultimately show ?thesis by simp
qed

theorem dynamic_region_maps_witness:
  "\<exists>c c' d l. xlat_ok c \<and> mmap_add_dynamic_region_ctx example_page c = Some (0, c') \<and> xlat_ok c' \<and>
     walk c 0x9000 = None \<and> walk c' 0x9000 = Some (d, l) \<and>
     maps_to EL3_REGIME (example_page\<lparr>mm_attr := MT_DEVICE OR MT_DYNAMIC\<rparr>) 0x9000 d l"
proof -
  obtain c0 c c' where *: "mmap_add_ctx example_regions (REGISTER_XLAT_CONTEXT_FULL_SPEC True 0x10000 4 1 0x10000 0x100000000 EL3_REGIME) = Some c0"
    "init_xlat_tables_ctx False True 0 c0 = Some c" "walk c 0x9000 = None" "mmap_add_dynamic_region_ctx example_page c = Some (0, c')"
    by (rule example_states)
  note B = built_conf[OF _ _ *(1,2)]
  have "mm_size example_page \<noteq> 0" "mm_attr example_page = MT_DEVICE" by (simp_all add: example_page_def)
  then have "xlat_ok c' \<and> mapped_over EL3_REGIME (example_page\<lparr>mm_attr := MT_DEVICE OR MT_DYNAMIC\<rparr>) 0x9000 (walk c 0x9000) (walk c' 0x9000)"
    using dynamic_region_maps[OF B(4,1) _ *(4), of "0x9000"] B(2,3) by simp
  moreover have "covers 0x9000 (example_page\<lparr>mm_attr := a\<rparr>)" for a by (simp add: example_page_def end_va_of_def)
  ultimately show ?thesis using * B(4) by (auto simp: mapped_over_def)
qed

lemma index_span:
  assumes "l0 \<le> l" "l \<le> 3" shows "XLAT_TABLE_IDX (v + 512 * XLAT_BLOCK_SIZE l0) l = XLAT_TABLE_IDX v l"
proof -
  have i: "unat (XLAT_TABLE_IDX w l) = unat w mod (512 * bs l) div bs l" for w
    using mod_mult2_eq[of "unat w" "bs l" 512] by (simp add: table_idx mult.commute)
  have "bs l dvd bs l0" by (rule bs_dvd[OF assms(1)])
  have "512 * bs l = 2 ^ (9 + XLAT_ADDR_SHIFT l)" by (simp add: bs_def power_add)
  moreover have "9 + XLAT_ADDR_SHIFT l \<le> 64"
    by (simp add: XLAT_ADDR_SHIFT_def PAGE_SIZE_SHIFT_def XLAT_TABLE_LEVEL_MAX_def XLAT_TABLE_ENTRIES_SHIFT_def)
  ultimately have p: "512 * bs l dvd 2 ^ 64" by (simp only: le_imp_power_dvd)
  have "unat (v + 512 * XLAT_BLOCK_SIZE l0) = (unat v + (512 * bs l0) mod 2 ^ 64) mod 2 ^ 64"
    by (simp add: unat_word_ariths unat_block_size)
  then have "unat (v + 512 * XLAT_BLOCK_SIZE l0) mod (512 * bs l) = (unat v + (512 * bs l0) mod 2 ^ 64) mod (512 * bs l)"
    by (simp only: mod_mod_cancel[OF p])
  also have "\<dots> = (unat v + 512 * bs l0) mod (512 * bs l)" by (metis mod_add_right_eq mod_mod_cancel[OF p])
  also have "\<dots> = unat v mod (512 * bs l)" using \<open>bs l dvd bs l0\<close> by (auto simp: mult.assoc[symmetric])
  finally have "unat (v + 512 * XLAT_BLOCK_SIZE l0) mod (512 * bs l) = unat v mod (512 * bs l)" .
  then show ?thesis using i by (simp add: word_unat_eq_iff)
qed

text \<open>(C40) The lookup uses nine bits of the address per level and no more, so an address beyond the range of
  the context is taken for the one below it that differs by a multiple of 512 base entries.\<close>

theorem lookup_ignores_high_bits:
  "find_xlat_table_entry c (v + 512 * XLAT_BLOCK_SIZE (GET_XLAT_TABLE_LEVEL_BASE (va_max_address c + 1))) = find_xlat_table_entry c v \<and>
   xlat_get_mem_attributes_ctx c (v + 512 * XLAT_BLOCK_SIZE (GET_XLAT_TABLE_LEVEL_BASE (va_max_address c + 1))) =
     xlat_get_mem_attributes_ctx c v"
proof -
  have "find_xlat_table_entry c (v + 512 * XLAT_BLOCK_SIZE (GET_XLAT_TABLE_LEVEL_BASE (va_max_address c + 1))) = find_xlat_table_entry c v"
    unfolding find_xlat_table_entry_def by (intro find_loop_cong index_span)
  then show ?thesis by (simp add: xlat_get_mem_attributes_ctx_def xlat_get_mem_attributes_internal_def)
qed


end
