(* ===== verification/Auth_Mod.thy ===== *)
theory Auth_Mod
  imports TF_Arch
begin

section \<open>Image authentication\<close>

text \<open>
  \<^verbatim>\<open>drivers/auth/auth_mod.c\<close> with the checks of \<^verbatim>\<open>img_parser_mod.c\<close> and \<^verbatim>\<open>crypto_mod.c\<close> that it goes through, and the
  counters of the FVP (\<^verbatim>\<open>plat/arm/board/common/board_arm_trusted_boot.c\<close>, \<^verbatim>\<open>plat/arm/board/fvp/fvp_trusted_boot.c\<close>).
  The parsers and the cryptographic library, which are reached through registered function pointers, are
  parameters. A parameter of an image is the list of its bytes. The buffers for authenticated data, which
  descriptors may share, are a store indexed by the pointer. A cookie is the string it points to, empty
  for a null pointer.
\<close>

subsection \<open>Data\<close>

datatype auth_param_type = AUTH_PARAM_NONE | AUTH_PARAM_RAW_DATA | AUTH_PARAM_SIG | AUTH_PARAM_SIG_ALG
  | AUTH_PARAM_HASH | AUTH_PARAM_PUB_KEY | AUTH_PARAM_NV_CTR

record auth_param_type_desc =
  pt_type :: auth_param_type
  pt_cookie :: string

record auth_param_desc =
  pd_type_desc :: "auth_param_type_desc option"
  pd_ptr :: nat
  pd_len :: u32

datatype auth_method_desc =
    AUTH_METHOD_NONE
  | AUTH_METHOD_HASH (hash_data: auth_param_type_desc) (hash_hash: auth_param_type_desc)
  | AUTH_METHOD_SIG (sig_pk: auth_param_type_desc) (sig_sig: auth_param_type_desc) (sig_alg: auth_param_type_desc) (sig_data: auth_param_type_desc)
  | AUTH_METHOD_NV_CTR (cert_nv_ctr: auth_param_type_desc) (plat_nv_ctr: auth_param_type_desc)
  | AUTH_METHOD_UNKNOWN

definition AUTH_METHOD_NUM :: nat where "AUTH_METHOD_NUM = 4"
definition COT_MAX_VERIFIED_PARAMS :: nat where "COT_MAX_VERIFIED_PARAMS = 4"
definition IMG_FLAG_AUTHENTICATED :: u32 where "IMG_FLAG_AUTHENTICATED = 1"
definition ROTPK_IS_HASH :: u32 where "ROTPK_IS_HASH = 1"
definition ROTPK_NOT_DEPLOYED :: u32 where "ROTPK_NOT_DEPLOYED = 2"

datatype img_type = IMG_RAW | IMG_PLAT | IMG_CERT

datatype auth_img_desc = Auth_Img_Desc (img_id: u32) (img_type_f: img_type) (img_parent: "auth_img_desc option")
  (img_auth_methods: "auth_method_desc list option") (authenticated_data: "auth_param_desc list option")

record img_parser_lib =
  lib_check_integrity :: "u8 list \<Rightarrow> int"
  lib_get_auth_param :: "auth_param_type_desc \<Rightarrow> u8 list \<Rightarrow> int \<times> u8 list"

type_synonym nv_regs = "u64 \<Rightarrow> u32"

record auth_env =
  cot_desc_ptr :: "auth_img_desc option list"
  parser_libs :: "img_type \<Rightarrow> img_parser_lib option"
  lib_verify_signature :: "u8 list \<Rightarrow> u8 list \<Rightarrow> u8 list \<Rightarrow> u8 list \<Rightarrow> int"
  lib_verify_hash :: "u8 list \<Rightarrow> u8 list \<Rightarrow> int"
  plat_get_rotpk_info :: "string \<Rightarrow> int \<times> u8 list \<times> u32"
  plat_get_nv_ctr :: "nv_regs \<Rightarrow> string \<Rightarrow> (int \<times> u32) option"
  plat_set_nv_ctr :: "nv_regs \<Rightarrow> string \<Rightarrow> u32 \<Rightarrow> (int \<times> nv_regs) option"

record auth_state =
  auth_img_flags :: "u32 list"
  auth_bufs :: "u8 list list"
  auth_nv_regs :: nv_regs

subsection \<open>Parsers and cryptography\<close>

definition img_parser_check_integrity :: "auth_env \<Rightarrow> img_type \<Rightarrow> u8 list \<Rightarrow> int option" where
  "img_parser_check_integrity e t img = do {
     assert_c (img \<noteq> []);
     if t = IMG_RAW then Some 0
     else do { lib \<leftarrow> parser_libs e t; Some (lib_check_integrity lib img) }
   }"

definition img_parser_get_auth_param :: "auth_env \<Rightarrow> img_type \<Rightarrow> auth_param_type_desc \<Rightarrow> u8 list \<Rightarrow> (int \<times> u8 list) option" where
  "img_parser_get_auth_param e t type_desc img = do {
     assert_c (img \<noteq> []);
     if t = IMG_RAW then do { assert_c (pt_type type_desc = AUTH_PARAM_RAW_DATA); Some (0, img) }
     else do { lib \<leftarrow> parser_libs e t; Some (lib_get_auth_param lib type_desc img) }
   }"

definition crypto_mod_verify_signature :: "auth_env \<Rightarrow> u8 list \<Rightarrow> u8 list \<Rightarrow> u8 list \<Rightarrow> u8 list \<Rightarrow> int option" where
  "crypto_mod_verify_signature e data sig alg pk = do {
     assert_c (data \<noteq> []); assert_c (sig \<noteq> []); assert_c (alg \<noteq> []); assert_c (pk \<noteq> []);
     Some (lib_verify_signature e data sig alg pk)
   }"

definition crypto_mod_verify_hash :: "auth_env \<Rightarrow> u8 list \<Rightarrow> u8 list \<Rightarrow> int option" where
  "crypto_mod_verify_hash e data digest_info = do {
     assert_c (data \<noteq> []); assert_c (digest_info \<noteq> []);
     Some (lib_verify_hash e data digest_info)
   }"

subsection \<open>The methods\<close>

definition cmp_auth_param_type_desc :: "auth_param_type_desc \<Rightarrow> auth_param_type_desc \<Rightarrow> int" where
  "cmp_auth_param_type_desc a b = (if pt_type a = pt_type b \<and> pt_cookie a = pt_cookie b then 0 else 1)"

text \<open>The search dereferences the type of every entry it passes, which an unused one does not have.\<close>

fun auth_get_param_loop :: "auth_param_type_desc \<Rightarrow> auth_state \<Rightarrow> auth_param_desc list \<Rightarrow> (int \<times> u8 list) option" where
  "auth_get_param_loop t st [] = Some (1, [])"
| "auth_get_param_loop t st (p # ps) = do {
     td \<leftarrow> pd_type_desc p;
     if cmp_auth_param_type_desc t td = 0 then do { buf \<leftarrow> aread (auth_bufs st) (pd_ptr p); Some (0, take (unat (pd_len p)) buf) }
     else auth_get_param_loop t st ps
   }"

definition auth_get_param :: "auth_param_type_desc \<Rightarrow> auth_img_desc \<Rightarrow> auth_state \<Rightarrow> (int \<times> u8 list) option" where
  "auth_get_param t d st =
     (case authenticated_data d of None \<Rightarrow> Some (1, [])
      | Some ps \<Rightarrow> do { assert_c (length ps = COT_MAX_VERIFIED_PARAMS); auth_get_param_loop t st ps })"

definition auth_hash :: "auth_env \<Rightarrow> auth_param_type_desc \<Rightarrow> auth_param_type_desc \<Rightarrow> auth_img_desc \<Rightarrow> u8 list \<Rightarrow> auth_state \<Rightarrow> int option" where
  "auth_hash e p_data p_hash d img st = do {
     parent \<leftarrow> img_parent d;
     (rc, hash_der) \<leftarrow> auth_get_param p_hash parent st;
     if rc \<noteq> 0 then Some rc else do {
       (rc, data) \<leftarrow> img_parser_get_auth_param e (img_type_f d) p_data img;
       if rc \<noteq> 0 then Some rc else crypto_mod_verify_hash e data hash_der
     }
   }"

definition auth_signature :: "auth_env \<Rightarrow> auth_param_type_desc \<Rightarrow> auth_param_type_desc \<Rightarrow> auth_param_type_desc \<Rightarrow> auth_param_type_desc \<Rightarrow>
    auth_img_desc \<Rightarrow> u8 list \<Rightarrow> auth_state \<Rightarrow> int option" where
  "auth_signature e p_pk p_sig p_alg p_data d img st = do {
     (rc, data) \<leftarrow> img_parser_get_auth_param e (img_type_f d) p_data img;
     if rc \<noteq> 0 then Some rc else do {
     (rc, sig) \<leftarrow> img_parser_get_auth_param e (img_type_f d) p_sig img;
     if rc \<noteq> 0 then Some rc else do {
     (rc, alg) \<leftarrow> img_parser_get_auth_param e (img_type_f d) p_alg img;
     if rc \<noteq> 0 then Some rc else do {
     (rc, pk, flags) \<leftarrow> (case img_parent d of
         Some parent \<Rightarrow> do { (rc, pk) \<leftarrow> auth_get_param p_pk parent st; Some (rc, pk, 0) }
       | None \<Rightarrow> Some (plat_get_rotpk_info e (pt_cookie p_pk)));
     if rc \<noteq> 0 then Some rc
     else if flags AND (ROTPK_IS_HASH OR ROTPK_NOT_DEPLOYED) \<noteq> 0 then do {
       let pk_hash = pk;
       (rc, pk) \<leftarrow> img_parser_get_auth_param e (img_type_f d) p_pk img;
       if rc \<noteq> 0 then Some rc else do {
         rc \<leftarrow> crypto_mod_verify_signature e data sig alg pk;
         if rc \<noteq> 0 then Some rc
         else if flags AND ROTPK_NOT_DEPLOYED \<noteq> 0 then Some rc
         else crypto_mod_verify_hash e pk pk_hash
       }
     }
     else crypto_mod_verify_signature e data sig alg pk }}}
   }"

text \<open>The value of a counter of up to four bytes; the length of the parameter is not looked at.\<close>

fun der_bytes :: "nat \<Rightarrow> nat \<Rightarrow> u8 list \<Rightarrow> u32 \<Rightarrow> u32 option" where
  "der_bytes 0 i data acc = Some acc"
| "der_bytes (Suc n) i data acc = do { b \<leftarrow> aread data i; der_bytes n (Suc i) data (push_bit 8 acc OR ucast b) }"

definition der_counter :: "u8 list \<Rightarrow> u32 option option" where
  "der_counter data = do {
     p0 \<leftarrow> aread data 0;
     if p0 \<noteq> 2 then Some None else do {
     p1 \<leftarrow> aread data 1;
     let len = unat (p1 AND 0x7f);
     if p1 AND 0x80 \<noteq> 0 \<or> len > 4 then Some None else do {
     p2 \<leftarrow> aread data 2;
     if p2 AND 0x80 \<noteq> 0 then Some None else do { v \<leftarrow> der_bytes len 2 data 0; Some (Some v) } }}
   }"

definition auth_nvctr :: "auth_env \<Rightarrow> auth_param_type_desc \<Rightarrow> auth_param_type_desc \<Rightarrow> auth_img_desc \<Rightarrow> u8 list \<Rightarrow> auth_state \<Rightarrow> (int \<times> auth_state) option" where
  "auth_nvctr e p_cert p_plat d img st = do {
     (rc, data) \<leftarrow> img_parser_get_auth_param e (img_type_f d) p_cert img;
     if rc \<noteq> 0 then Some (rc, st) else do {
       parsed \<leftarrow> der_counter data;
       case parsed of None \<Rightarrow> Some (1, st)
       | Some cert_ctr \<Rightarrow> do {
           (rc, plat_ctr) \<leftarrow> plat_get_nv_ctr e (auth_nv_regs st) (pt_cookie p_plat);
           if rc \<noteq> 0 then Some (rc, st)
           else if cert_ctr < plat_ctr then Some (1, st)
           else if cert_ctr > plat_ctr
           then do { (rc, regs) \<leftarrow> plat_set_nv_ctr e (auth_nv_regs st) (pt_cookie p_plat) cert_ctr; Some (rc, st\<lparr>auth_nv_regs := regs\<rparr>) }
           else Some (0, st)
         }
     }
   }"

subsection \<open>Verification of an image\<close>

definition auth_method_run :: "auth_env \<Rightarrow> auth_img_desc \<Rightarrow> u8 list \<Rightarrow> auth_method_desc \<Rightarrow> auth_state \<Rightarrow> (int \<times> auth_state) option" where
  "auth_method_run e d img m st =
     (case m of AUTH_METHOD_NONE \<Rightarrow> Some (0, st)
      | AUTH_METHOD_HASH p_data p_hash \<Rightarrow> do { rc \<leftarrow> auth_hash e p_data p_hash d img st; Some (rc, st) }
      | AUTH_METHOD_SIG p_pk p_sig p_alg p_data \<Rightarrow> do { rc \<leftarrow> auth_signature e p_pk p_sig p_alg p_data d img st; Some (rc, st) }
      | AUTH_METHOD_NV_CTR p_cert p_plat \<Rightarrow> auth_nvctr e p_cert p_plat d img st
      | AUTH_METHOD_UNKNOWN \<Rightarrow> Some (1, st))"

fun auth_methods_loop :: "auth_env \<Rightarrow> auth_img_desc \<Rightarrow> u8 list \<Rightarrow> auth_method_desc list \<Rightarrow> auth_state \<Rightarrow> (int \<times> auth_state) option" where
  "auth_methods_loop e d img [] st = Some (0, st)"
| "auth_methods_loop e d img (m # ms) st = do {
     (rc, st) \<leftarrow> auth_method_run e d img m st;
     if rc \<noteq> 0 then Some (rc, st) else auth_methods_loop e d img ms st
   }"

fun auth_extract_loop :: "auth_env \<Rightarrow> auth_img_desc \<Rightarrow> u8 list \<Rightarrow> auth_param_desc list \<Rightarrow> auth_state \<Rightarrow> (int \<times> auth_state) option" where
  "auth_extract_loop e d img [] st = Some (0, st)"
| "auth_extract_loop e d img (p # ps) st =
     (case pd_type_desc p of None \<Rightarrow> auth_extract_loop e d img ps st
      | Some td \<Rightarrow> do {
          (rc, param) \<leftarrow> img_parser_get_auth_param e (img_type_f d) td img;
          if rc \<noteq> 0 then Some (rc, st)
          else if length param > unat (pd_len p) then Some (1, st)
          else do {
            buf \<leftarrow> aread (auth_bufs st) (pd_ptr p);
            bufs \<leftarrow> awrite (auth_bufs st) (pd_ptr p) (param @ drop (length param) buf);
            auth_extract_loop e d img ps (st\<lparr>auth_bufs := bufs\<rparr>)
          }
        })"

definition auth_extract :: "auth_env \<Rightarrow> auth_img_desc \<Rightarrow> u8 list \<Rightarrow> auth_state \<Rightarrow> (int \<times> auth_state) option" where
  "auth_extract e d img st = (case authenticated_data d of None \<Rightarrow> Some (0, st)
     | Some ps \<Rightarrow> do { assert_c (length ps = COT_MAX_VERIFIED_PARAMS); auth_extract_loop e d img ps st })"

definition auth_mod_verify_img :: "auth_env \<Rightarrow> u32 \<Rightarrow> u8 list \<Rightarrow> auth_state \<Rightarrow> (int \<times> auth_state) option" where
  "auth_mod_verify_img e image_id img st = do {
     entry \<leftarrow> aread (cot_desc_ptr e) (unat image_id);
     d \<leftarrow> entry;
     rc \<leftarrow> img_parser_check_integrity e (img_type_f d) img;
     if rc \<noteq> 0 then Some (rc, st)
     else case img_auth_methods d of None \<Rightarrow> Some (1, st)
     | Some ms \<Rightarrow> do {
         assert_c (length ms = AUTH_METHOD_NUM);
         (rc, st) \<leftarrow> auth_methods_loop e d img ms st;
         if rc \<noteq> 0 then Some (rc, st)
         else do {
           (rc, st) \<leftarrow> auth_extract e d img st;
           if rc \<noteq> 0 then Some (rc, st)
           else do {
             f \<leftarrow> aread (auth_img_flags st) (unat (img_id d));
             flags \<leftarrow> awrite (auth_img_flags st) (unat (img_id d)) (f OR IMG_FLAG_AUTHENTICATED);
             Some (0, st\<lparr>auth_img_flags := flags\<rparr>)
           }
         }
       }
   }"

definition auth_mod_get_parent_id :: "auth_env \<Rightarrow> u32 \<Rightarrow> auth_state \<Rightarrow> (int \<times> u32) option" where
  "auth_mod_get_parent_id e image_id st = do {
     entry \<leftarrow> aread (cot_desc_ptr e) (unat image_id);
     d \<leftarrow> entry;
     case img_parent d of None \<Rightarrow> Some (1, 0)
     | Some parent \<Rightarrow> do {
         f \<leftarrow> aread (auth_img_flags st) (unat (img_id parent));
         if f AND IMG_FLAG_AUTHENTICATED \<noteq> 0 then Some (1, 0) else Some (0, img_id parent)
       }
   }"

subsection \<open>Counters of the FVP\<close>

definition TRUSTED_FW_NVCOUNTER_OID :: string where "TRUSTED_FW_NVCOUNTER_OID = ''1.3.6.1.4.1.4128.2100.1''"
definition NON_TRUSTED_FW_NVCOUNTER_OID :: string where "NON_TRUSTED_FW_NVCOUNTER_OID = ''1.3.6.1.4.1.4128.2100.2''"
definition TFW_NVCTR_BASE :: u64 where "TFW_NVCTR_BASE = 0x7fe70000"
definition NTFW_CTR_BASE :: u64 where "NTFW_CTR_BASE = 0x7fe70004"

definition nv_ctr_addr :: "string \<Rightarrow> u64 option" where
  "nv_ctr_addr oid = (if oid = TRUSTED_FW_NVCOUNTER_OID then Some TFW_NVCTR_BASE
     else if oid = NON_TRUSTED_FW_NVCOUNTER_OID then Some NTFW_CTR_BASE else None)"

definition board_get_nv_ctr :: "nv_regs \<Rightarrow> string \<Rightarrow> (int \<times> u32) option" where
  "board_get_nv_ctr regs oid = do {
     assert_c (oid \<noteq> []);
     case nv_ctr_addr oid of None \<Rightarrow> Some (1, 0) | Some a \<Rightarrow> Some (0, regs a)
   }"

text \<open>On some versions of the model the registers are read only: a write has no effect.\<close>

definition fvp_set_nv_ctr :: "bool \<Rightarrow> nv_regs \<Rightarrow> string \<Rightarrow> u32 \<Rightarrow> (int \<times> nv_regs) option" where
  "fvp_set_nv_ctr read_only regs oid nv_ctr = do {
     assert_c (oid \<noteq> []);
     case nv_ctr_addr oid of None \<Rightarrow> Some (1, regs)
     | Some a \<Rightarrow> let regs = (if read_only then regs else regs(a := nv_ctr)) in
         if nv_ctr \<noteq> regs a then Some (1, regs) else Some (0, regs)
   }"

subsection \<open>What verification changes\<close>

lemma auth_nvctr_frame:
  "auth_nvctr e p q d img st = Some (rc, st') \<Longrightarrow> auth_img_flags st' = auth_img_flags st \<and> auth_bufs st' = auth_bufs st"
  by (auto simp: auth_nvctr_def bind_Some_iff Let_def split: prod.splits if_splits option.splits)

lemma auth_method_run_frame:
  "auth_method_run e d img m st = Some (rc, st') \<Longrightarrow> auth_img_flags st' = auth_img_flags st \<and> auth_bufs st' = auth_bufs st"
  by (cases m) (auto simp: auth_method_run_def bind_Some_iff dest: auth_nvctr_frame)

lemma auth_methods_loop_frame:
  "auth_methods_loop e d img ms st = Some (rc, st') \<Longrightarrow> auth_img_flags st' = auth_img_flags st \<and> auth_bufs st' = auth_bufs st"
proof (induction ms arbitrary: st)
  case (Cons m ms)
  then obtain rc1 st1 where 1: "auth_method_run e d img m st = Some (rc1, st1)" by (auto simp: bind_Some_iff)
  then show ?case
    using Cons.prems Cons.IH [of st1] auth_method_run_frame [OF 1] by (cases "rc1 = 0") simp_all
qed simp

lemma auth_extract_loop_frame:
  "auth_extract_loop e d img ps st = Some (rc, st') \<Longrightarrow> auth_img_flags st' = auth_img_flags st \<and> auth_nv_regs st' = auth_nv_regs st"
proof (induction ps arbitrary: st)
  case (Cons p ps)
  show ?case
  proof (cases "pd_type_desc p")
    case (Some td)
    then obtain rc1 v where 1: "img_parser_get_auth_param e (img_type_f d) td img = Some (rc1, v)"
      using Cons.prems by (auto simp: bind_Some_iff)
    show ?thesis
      using Cons.prems Some 1 by (auto split: if_split_asm dest: Cons.IH)
  qed (use Cons in simp)
qed simp

text \<open>A verification in three stages: the methods, the parameters for the children, the flag.\<close>

lemma auth_extract_frame:
  "auth_extract e d img st = Some (rc, st') \<Longrightarrow> auth_img_flags st' = auth_img_flags st \<and> auth_nv_regs st' = auth_nv_regs st"
  unfolding auth_extract_def by (cases "authenticated_data d") (auto dest!: auth_extract_loop_frame)

lemma verify_img_stages:
  assumes "auth_mod_verify_img e i img st = Some (rc, st')"
  obtains (refused) "rc \<noteq> 0" "st' = st"
  | (bad_method) d ms where "rc \<noteq> 0" "auth_methods_loop e d img ms st = Some (rc, st')"
  | (bad_param) d ms st1 where "rc \<noteq> 0" "auth_methods_loop e d img ms st = Some (0, st1)" "auth_extract e d img st1 = Some (rc, st')"
  | (accepted) d ms st1 st2 where "rc = 0" "unat i < length (cot_desc_ptr e)" "cot_desc_ptr e ! unat i = Some d" "img_auth_methods d = Some ms"
      "auth_methods_loop e d img ms st = Some (0, st1)" "auth_extract e d img st1 = Some (0, st2)"
      "unat (img_id d) < length (auth_img_flags st2)"
      "st' = st2\<lparr>auth_img_flags := (auth_img_flags st2)[unat (img_id d) := auth_img_flags st2 ! unat (img_id d) OR IMG_FLAG_AUTHENTICATED]\<rparr>"
proof -
  obtain d r where d: "unat i < length (cot_desc_ptr e)" "cot_desc_ptr e ! unat i = Some d"
    and r: "img_parser_check_integrity e (img_type_f d) img = Some r"
    using assms by (auto simp: auth_mod_verify_img_def bind_Some_iff)
  note run = assms [unfolded auth_mod_verify_img_def aread_in [OF d(1)] d(2) Option.bind.bind_lunit r]
  show thesis
  proof (cases "r \<noteq> 0 \<or> img_auth_methods d = None")
    case True
    then have "rc \<noteq> 0 \<and> st' = st" using run by (cases "r = 0") simp_all
    then show thesis using refused by blast
  next
    case False
    then obtain ms where ms: "img_auth_methods d = Some ms" and r0: "r = 0" by auto
    note run = run [unfolded r0 ms, simplified]
    obtain rc1 st1 where 1: "auth_methods_loop e d img ms st = Some (rc1, st1)"
      using run by (cases "auth_methods_loop e d img ms st") auto
    show thesis
    proof (cases "rc1 = 0")
      case False
      then show thesis using run 1 bad_method [of d ms] by simp
    next
      case True
      note run = run [unfolded 1 True, simplified]
      obtain rc2 st2 where 2: "auth_extract e d img st1 = Some (rc2, st2)"
        using run by (cases "auth_extract e d img st1") auto
      show thesis
      proof (cases "rc2 = 0")
        case False
        then show thesis using run 1 2 True bad_param [of d ms st1] by simp
      next
        case 3: True
        show thesis
          by (rule accepted [OF _ d ms 1 [unfolded True] 2 [unfolded 3]]) (use run 2 3 in simp_all)
      qed
    qed
  qed
qed

lemma verify_img_success:
  assumes "auth_mod_verify_img e i img st = Some (0, st')"
  obtains d ms st1 where "unat i < length (cot_desc_ptr e)" "cot_desc_ptr e ! unat i = Some d" "img_auth_methods d = Some ms"
    "auth_methods_loop e d img ms st = Some (0, st1)" "auth_nv_regs st' = auth_nv_regs st1"
    "unat (img_id d) < length (auth_img_flags st)"
    "auth_img_flags st' = (auth_img_flags st)[unat (img_id d) := auth_img_flags st ! unat (img_id d) OR IMG_FLAG_AUTHENTICATED]"
  using assms
proof (cases rule: verify_img_stages)
  case (accepted d ms st1 st2)
  have "auth_img_flags st2 = auth_img_flags st" "auth_nv_regs st2 = auth_nv_regs st1"
    using auth_methods_loop_frame [OF accepted(5)] auth_extract_frame [OF accepted(6)] by simp_all
  then show thesis using accepted by (intro that [of d ms st1]) simp_all
qed simp_all

lemma verify_img_failure:
  assumes "auth_mod_verify_img e i img st = Some (rc, st')" "rc \<noteq> 0"
  shows "auth_img_flags st' = auth_img_flags st"
  using assms(1)
  by (cases rule: verify_img_stages) (use assms(2) in \<open>auto dest!: auth_methods_loop_frame auth_extract_frame\<close>)

subsection \<open>Rollback protection\<close>

lemma auth_nvctr_cases:
  assumes "auth_nvctr e p q d img st = Some (rc, st')"
  obtains (refused) "rc \<noteq> 0" "st' = st"
  | (same) data x where "img_parser_get_auth_param e (img_type_f d) p img = Some (0, data)" "der_counter data = Some (Some x)"
      "plat_get_nv_ctr e (auth_nv_regs st) (pt_cookie q) = Some (0, x)" "rc = 0" "st' = st"
  | (larger) data x v r' where "img_parser_get_auth_param e (img_type_f d) p img = Some (0, data)" "der_counter data = Some (Some x)"
      "plat_get_nv_ctr e (auth_nv_regs st) (pt_cookie q) = Some (0, v)" "v < x"
      "plat_set_nv_ctr e (auth_nv_regs st) (pt_cookie q) x = Some (rc, r')" "st' = st\<lparr>auth_nv_regs := r'\<rparr>"
proof -
  obtain rc1 data where 1: "img_parser_get_auth_param e (img_type_f d) p img = Some (rc1, data)"
    using assms by (auto simp: auth_nvctr_def bind_Some_iff)
  note run = assms [unfolded auth_nvctr_def 1, simplified]
  show thesis
  proof (cases "rc1 \<noteq> 0 \<or> der_counter data = Some None")
    case True
    then have "rc \<noteq> 0 \<and> st' = st" using run by (cases "rc1 = 0") simp_all
    then show thesis using refused by blast
  next
    case False
    then obtain x where 2: "der_counter data = Some (Some x)" and r: "rc1 = 0"
      using run by (cases "der_counter data") auto
    note run = run [unfolded 2 r, simplified]
    obtain rc2 v where 3: "plat_get_nv_ctr e (auth_nv_regs st) (pt_cookie q) = Some (rc2, v)"
      using run by (cases "plat_get_nv_ctr e (auth_nv_regs st) (pt_cookie q)") auto
    note run = run [unfolded 3, simplified]
    show thesis
    proof (cases "rc2 \<noteq> 0 \<or> x < v")
      case True
      then have "rc \<noteq> 0 \<and> st' = st" using run by (cases "rc2 = 0") simp_all
      then show thesis using refused by blast
    next
      case 4: False
      show thesis
      proof (cases "v < x")
        case True
        then obtain r' where "plat_set_nv_ctr e (auth_nv_regs st) (pt_cookie q) x = Some (rc, r')" "st' = st\<lparr>auth_nv_regs := r'\<rparr>"
          using run 4 by (auto simp: bind_Some_iff)
        then show thesis using larger [of data x v r'] 1 2 3 4 r True by simp
      next
        case False
        then show thesis using same [of data x] 1 2 3 4 r run by (simp add: not_less)
      qed
    qed
  qed
qed

text \<open>
  What verification relies on of the counters of the platform: a write that succeeds is read back, one that
  fails leaves either value, and the other counters are not touched.
\<close>

locale nv_counter =
  fixes get_ctr :: "nv_regs \<Rightarrow> string \<Rightarrow> (int \<times> u32) option"
    and set_ctr :: "nv_regs \<Rightarrow> string \<Rightarrow> u32 \<Rightarrow> (int \<times> nv_regs) option"
  assumes set_get: "set_ctr r c x = Some (0, r') \<Longrightarrow> get_ctr r' c = Some (0, x)"
    and set_either: "set_ctr r c x = Some (rc, r') \<Longrightarrow> get_ctr r c = Some (0, v) \<Longrightarrow> get_ctr r' c = Some (0, v) \<or> get_ctr r' c = Some (0, x)"
    and set_other: "set_ctr r c x = Some (rc, r') \<Longrightarrow> c' \<noteq> c \<Longrightarrow> get_ctr r' c' = get_ctr r c'"
begin

definition ctrs_le :: "nv_regs \<Rightarrow> nv_regs \<Rightarrow> bool" where
  "ctrs_le r r' \<longleftrightarrow> (\<forall>c v. get_ctr r c = Some (0, v) \<longrightarrow> (\<exists>v'. get_ctr r' c = Some (0, v') \<and> v \<le> v'))"

lemma ctrs_le_refl: "ctrs_le r r"
  by (simp add: ctrs_le_def)

lemma ctrs_le_trans: "ctrs_le r r' \<Longrightarrow> ctrs_le r' r'' \<Longrightarrow> ctrs_le r r''"
  unfolding ctrs_le_def by (meson order_trans)

lemma ctrs_leD: "ctrs_le r r' \<Longrightarrow> get_ctr r c = Some (0, v) \<Longrightarrow> \<exists>v'. get_ctr r' c = Some (0, v') \<and> v \<le> v'"
  by (simp add: ctrs_le_def)

lemma set_larger:
  assumes "set_ctr r c x = Some (rc, r')" "get_ctr r c = Some (0, v)" "v < x"
  shows "ctrs_le r r'"
  unfolding ctrs_le_def
proof (intro allI impI)
  fix c' w assume w: "get_ctr r c' = Some (0, w)"
  show "\<exists>v'. get_ctr r' c' = Some (0, v') \<and> w \<le> v'"
  proof (cases "c' = c")
    case True
    then have "w = v" using w assms(2) by simp
    then show ?thesis using set_either [OF assms(1,2)] assms(3) True by (auto intro: less_imp_le)
  next
    case False
    then show ?thesis using set_other [OF assms(1) False] w by simp
  qed
qed

lemma nvctr_ctrs:
  assumes "auth_nvctr e p q d img st = Some (rc, st')" "plat_get_nv_ctr e = get_ctr" "plat_set_nv_ctr e = set_ctr"
  shows "ctrs_le (auth_nv_regs st) (auth_nv_regs st')"
  using assms(1)
proof (cases rule: auth_nvctr_cases)
  case (larger data x v r')
  then show ?thesis using set_larger [OF larger(5) [unfolded assms(3)] larger(3) [unfolded assms(2)] larger(4)] by simp
qed (simp_all add: ctrs_le_refl)

lemma nvctr_accepted:
  assumes "auth_nvctr e p q d img st = Some (0, st')" "plat_get_nv_ctr e = get_ctr" "plat_set_nv_ctr e = set_ctr"
  obtains data x v where "img_parser_get_auth_param e (img_type_f d) p img = Some (0, data)" "der_counter data = Some (Some x)"
    "get_ctr (auth_nv_regs st) (pt_cookie q) = Some (0, v)" "v \<le> x" "get_ctr (auth_nv_regs st') (pt_cookie q) = Some (0, x)"
  using assms(1)
proof (cases rule: auth_nvctr_cases)
  case (larger data x v r')
  then show thesis
    using that [of data x v] set_get [OF larger(5) [unfolded assms(3)]] larger(3) [unfolded assms(2)] by simp
next
  case (same data x)
  then show thesis using that [of data x x] same(3) [unfolded assms(2)] by simp
qed simp

lemma methods_ctrs:
  assumes "auth_methods_loop e d img ms st = Some (rc, st')" "plat_get_nv_ctr e = get_ctr" "plat_set_nv_ctr e = set_ctr"
  shows "ctrs_le (auth_nv_regs st) (auth_nv_regs st')"
  using assms(1)
proof (induction ms arbitrary: st)
  case (Cons m ms)
  then obtain rc1 st1 where 1: "auth_method_run e d img m st = Some (rc1, st1)" by (auto simp: bind_Some_iff)
  have "ctrs_le (auth_nv_regs st) (auth_nv_regs st1)"
    using 1 by (cases m) (auto simp: auth_method_run_def bind_Some_iff ctrs_le_refl intro: nvctr_ctrs [OF _ assms(2,3)])
  then show ?case using Cons.prems Cons.IH [of st1] 1 by (cases "rc1 = 0") (auto intro: ctrs_le_trans)
qed (simp add: ctrs_le_refl)

lemma methods_nvctr:
  assumes "auth_methods_loop e d img ms st = Some (0, st')" "plat_get_nv_ctr e = get_ctr" "plat_set_nv_ctr e = set_ctr"
    "AUTH_METHOD_NV_CTR p q \<in> set ms" "get_ctr (auth_nv_regs st) (pt_cookie q) = Some (0, v)"
  shows "\<exists>data x v'. img_parser_get_auth_param e (img_type_f d) p img = Some (0, data) \<and> der_counter data = Some (Some x)
     \<and> v \<le> x \<and> get_ctr (auth_nv_regs st') (pt_cookie q) = Some (0, v') \<and> x \<le> v'"
  using assms(1,4,5)
proof (induction ms arbitrary: st v)
  case (Cons m ms)
  then obtain st1 where 1: "auth_method_run e d img m st = Some (0, st1)" and 2: "auth_methods_loop e d img ms st1 = Some (0, st')"
    by (auto simp: bind_Some_iff split: if_split_asm)
  show ?case
  proof (cases "m = AUTH_METHOD_NV_CTR p q")
    case True
    then have n: "auth_nvctr e p q d img st = Some (0, st1)" using 1 by (simp add: auth_method_run_def)
    obtain data x where x: "img_parser_get_auth_param e (img_type_f d) p img = Some (0, data)" "der_counter data = Some (Some x)"
        "v \<le> x" "get_ctr (auth_nv_regs st1) (pt_cookie q) = Some (0, x)"
      by (rule nvctr_accepted [OF n assms(2,3)]) (use Cons.prems(3) in simp)
    then show ?thesis using ctrs_leD [OF methods_ctrs [OF 2 assms(2,3)] x(4)] by blast
  next
    case False
    have "auth_methods_loop e d img [m] st = Some (0, st1)" using 1 by simp
    then obtain w where w: "get_ctr (auth_nv_regs st1) (pt_cookie q) = Some (0, w)" "v \<le> w"
      using ctrs_leD [OF methods_ctrs [OF _ assms(2,3)] Cons.prems(3)] by blast
    show ?thesis using Cons.IH [OF 2 _ w(1)] Cons.prems(2) False w(2) by (force intro: order_trans)
  qed
qed simp

end

lemma nv_ctr_addr_inj: "nv_ctr_addr a = Some x \<Longrightarrow> nv_ctr_addr b = Some x \<Longrightarrow> a = b"
  by (auto simp: nv_ctr_addr_def TFW_NVCTR_BASE_def NTFW_CTR_BASE_def split: if_split_asm)

interpretation fvp_nv: nv_counter board_get_nv_ctr "fvp_set_nv_ctr read_only" for read_only
  by unfold_locales
    (auto simp: board_get_nv_ctr_def fvp_set_nv_ctr_def bind_Some_iff Let_def assert_c_def dest: nv_ctr_addr_inj
      split: option.splits if_split_asm)

end
