(* ===== verification/Tbbr_Cot.thy ===== *)
theory Tbbr_Cot
  imports Auth_Mod
begin

section \<open>The chain of trust of BL1\<close>

text \<open>
  \<^verbatim>\<open>drivers/auth/tbbr/tbbr_cot.c\<close> as it is compiled into BL1: the two certificates that the root key signs, and the
  images whose hashes they hold. A pointer to a buffer is its number; the buffer for the hash of BL2 is
  also the one for the hash of BL2U.
\<close>

subsection \<open>Images and buffers\<close>

definition BL2_IMAGE_ID :: u32 where "BL2_IMAGE_ID = 1"
definition TRUSTED_BOOT_FW_CERT_ID :: u32 where "TRUSTED_BOOT_FW_CERT_ID = 6"
definition FWU_CERT_ID :: u32 where "FWU_CERT_ID = 17"
definition SCP_BL2U_IMAGE_ID :: u32 where "SCP_BL2U_IMAGE_ID = 18"
definition BL2U_IMAGE_ID :: u32 where "BL2U_IMAGE_ID = 19"
definition NS_BL2U_IMAGE_ID :: u32 where "NS_BL2U_IMAGE_ID = 20"
definition HW_CONFIG_ID :: u32 where "HW_CONFIG_ID = 23"
definition TB_FW_CONFIG_ID :: u32 where "TB_FW_CONFIG_ID = 24"
definition MAX_NUMBER_IDS :: nat where "MAX_NUMBER_IDS = 30"
definition HASH_DER_LEN :: u32 where "HASH_DER_LEN = 83"

lemmas image_id_defs = BL2_IMAGE_ID_def TRUSTED_BOOT_FW_CERT_ID_def FWU_CERT_ID_def SCP_BL2U_IMAGE_ID_def BL2U_IMAGE_ID_def
  NS_BL2U_IMAGE_ID_def HW_CONFIG_ID_def TB_FW_CONFIG_ID_def

definition tb_fw_hash_buf :: nat where "tb_fw_hash_buf = 0"
definition tb_fw_config_hash_buf :: nat where "tb_fw_config_hash_buf = 1"
definition hw_config_hash_buf :: nat where "hw_config_hash_buf = 2"
definition scp_fw_hash_buf :: nat where "scp_fw_hash_buf = 3"
definition nt_world_bl_hash_buf :: nat where "nt_world_bl_hash_buf = 4"

lemmas buf_defs = tb_fw_hash_buf_def tb_fw_config_hash_buf_def hw_config_hash_buf_def scp_fw_hash_buf_def nt_world_bl_hash_buf_def

definition trusted_nv_ctr :: auth_param_type_desc where
  "trusted_nv_ctr = \<lparr>pt_type = AUTH_PARAM_NV_CTR, pt_cookie = TRUSTED_FW_NVCOUNTER_OID\<rparr>"
definition subject_pk :: auth_param_type_desc where "subject_pk = \<lparr>pt_type = AUTH_PARAM_PUB_KEY, pt_cookie = []\<rparr>"
definition sig_desc :: auth_param_type_desc where "sig_desc = \<lparr>pt_type = AUTH_PARAM_SIG, pt_cookie = []\<rparr>"
definition sig_alg_desc :: auth_param_type_desc where "sig_alg_desc = \<lparr>pt_type = AUTH_PARAM_SIG_ALG, pt_cookie = []\<rparr>"
definition raw_data :: auth_param_type_desc where "raw_data = \<lparr>pt_type = AUTH_PARAM_RAW_DATA, pt_cookie = []\<rparr>"

definition hash_desc :: "string \<Rightarrow> auth_param_type_desc" where "hash_desc oid = \<lparr>pt_type = AUTH_PARAM_HASH, pt_cookie = oid\<rparr>"

definition tb_fw_hash :: auth_param_type_desc where "tb_fw_hash = hash_desc ''1.3.6.1.4.1.4128.2100.201''"
definition tb_fw_config_hash :: auth_param_type_desc where "tb_fw_config_hash = hash_desc ''1.3.6.1.4.1.4128.2100.202''"
definition hw_config_hash :: auth_param_type_desc where "hw_config_hash = hash_desc ''1.3.6.1.4.1.4128.2100.203''"
definition bl2u_hash :: auth_param_type_desc where "bl2u_hash = hash_desc ''1.3.6.1.4.1.4128.2100.101''"
definition scp_bl2u_hash :: auth_param_type_desc where "scp_bl2u_hash = hash_desc ''1.3.6.1.4.1.4128.2100.102''"
definition ns_bl2u_hash :: auth_param_type_desc where "ns_bl2u_hash = hash_desc ''1.3.6.1.4.1.4128.2100.103''"

lemmas hash_desc_defs = tb_fw_hash_def tb_fw_config_hash_def hw_config_hash_def bl2u_hash_def scp_bl2u_hash_def ns_bl2u_hash_def hash_desc_def

definition hash_param :: "auth_param_type_desc \<Rightarrow> nat \<Rightarrow> auth_param_desc" where
  "hash_param t buf = \<lparr>pd_type_desc = Some t, pd_ptr = buf, pd_len = HASH_DER_LEN\<rparr>"
definition no_param :: auth_param_desc where
  "no_param = \<lparr>pd_type_desc = None, pd_ptr = 0, pd_len = 0\<rparr>"

subsection \<open>Descriptors\<close>

definition trusted_boot_fw_cert :: auth_img_desc where
  "trusted_boot_fw_cert = Auth_Img_Desc TRUSTED_BOOT_FW_CERT_ID IMG_CERT None
     (Some [AUTH_METHOD_SIG subject_pk sig_desc sig_alg_desc raw_data, AUTH_METHOD_NV_CTR trusted_nv_ctr trusted_nv_ctr,
            AUTH_METHOD_NONE, AUTH_METHOD_NONE])
     (Some [hash_param tb_fw_hash tb_fw_hash_buf, hash_param tb_fw_config_hash tb_fw_config_hash_buf,
            hash_param hw_config_hash hw_config_hash_buf, no_param])"

text \<open>An image in the form of raw data that is authenticated by a hash of its parent.\<close>

definition hashed_image :: "u32 \<Rightarrow> auth_img_desc \<Rightarrow> auth_param_type_desc \<Rightarrow> auth_img_desc" where
  "hashed_image i parent h = Auth_Img_Desc i IMG_RAW (Some parent)
     (Some [AUTH_METHOD_HASH raw_data h, AUTH_METHOD_NONE, AUTH_METHOD_NONE, AUTH_METHOD_NONE]) None"

definition bl2_image :: auth_img_desc where "bl2_image = hashed_image BL2_IMAGE_ID trusted_boot_fw_cert tb_fw_hash"
definition hw_config :: auth_img_desc where "hw_config = hashed_image HW_CONFIG_ID trusted_boot_fw_cert hw_config_hash"
definition tb_fw_config :: auth_img_desc where "tb_fw_config = hashed_image TB_FW_CONFIG_ID trusted_boot_fw_cert tb_fw_config_hash"

definition fwu_cert :: auth_img_desc where
  "fwu_cert = Auth_Img_Desc FWU_CERT_ID IMG_CERT None
     (Some [AUTH_METHOD_SIG subject_pk sig_desc sig_alg_desc raw_data, AUTH_METHOD_NONE, AUTH_METHOD_NONE, AUTH_METHOD_NONE])
     (Some [hash_param scp_bl2u_hash scp_fw_hash_buf, hash_param bl2u_hash tb_fw_hash_buf,
            hash_param ns_bl2u_hash nt_world_bl_hash_buf, no_param])"

definition scp_bl2u_image :: auth_img_desc where "scp_bl2u_image = hashed_image SCP_BL2U_IMAGE_ID fwu_cert scp_bl2u_hash"
definition bl2u_image :: auth_img_desc where "bl2u_image = hashed_image BL2U_IMAGE_ID fwu_cert bl2u_hash"
definition ns_bl2u_image :: auth_img_desc where "ns_bl2u_image = hashed_image NS_BL2U_IMAGE_ID fwu_cert ns_bl2u_hash"

definition cot_desc :: "auth_img_desc option list" where
  "cot_desc = (replicate 25 None)[6 := Some trusted_boot_fw_cert, 1 := Some bl2_image, 23 := Some hw_config, 24 := Some tb_fw_config,
     17 := Some fwu_cert, 18 := Some scp_bl2u_image, 19 := Some bl2u_image, 20 := Some ns_bl2u_image]"

lemma cot_desc_length [simp]: "length cot_desc = 25"
  by (simp add: cot_desc_def)

lemma cot_desc_nth [simp]:
  "cot_desc ! 6 = Some trusted_boot_fw_cert" "cot_desc ! Suc 0 = Some bl2_image" "cot_desc ! 23 = Some hw_config"
  "cot_desc ! 24 = Some tb_fw_config" "cot_desc ! 17 = Some fwu_cert" "cot_desc ! 18 = Some scp_bl2u_image"
  "cot_desc ! 19 = Some bl2u_image" "cot_desc ! 20 = Some ns_bl2u_image"
  by (simp_all add: cot_desc_def)

subsection \<open>Rollback\<close>

text \<open>(C1) An accepted certificate is not older than the platform: on the FVP, whenever verification answers 0, each
  counter that the descriptor checks had a value \<open>v\<close> that the counter \<open>x\<close> in the certificate reaches, and
  afterwards the counter of the platform is at least \<open>x\<close>, so that no older certificate is accepted from then on.\<close>

theorem verify_refuses_rollback:
  assumes "plat_get_nv_ctr e = board_get_nv_ctr" "plat_set_nv_ctr e = fvp_set_nv_ctr read_only"
    "auth_mod_verify_img e i img st = Some (0, st')" "cot_desc_ptr e ! unat i = Some d" "img_auth_methods d = Some ms"
    "AUTH_METHOD_NV_CTR p q \<in> set ms" "board_get_nv_ctr (auth_nv_regs st) (pt_cookie q) = Some (0, v)"
  shows "\<exists>data x v'. img_parser_get_auth_param e (img_type_f d) p img = Some (0, data) \<and> der_counter data = Some (Some x)
     \<and> v \<le> x \<and> board_get_nv_ctr (auth_nv_regs st') (pt_cookie q) = Some (0, v') \<and> x \<le> v'"
proof -
  obtain st1 where 1: "auth_methods_loop e d img ms st = Some (0, st1)" "auth_nv_regs st' = auth_nv_regs st1"
    by (rule verify_img_success [OF assms(3)]) (use assms(4,5) in simp)
  show ?thesis unfolding 1(2) by (rule fvp_nv.methods_nvctr [OF 1(1) assms(1,2,6,7)])
qed

text \<open>A certificate with counter 5 on a platform whose counter is 3.\<close>

definition demo_parser :: img_parser_lib where
  "demo_parser = \<lparr>lib_check_integrity = (\<lambda>_. 0),
     lib_get_auth_param = (\<lambda>t img. (0, if pt_type t = AUTH_PARAM_NV_CTR then [2, 1, 5] else if t = bl2u_hash then replicate 83 7 else [1]))\<rparr>"

definition demo_env :: auth_env where
  "demo_env = \<lparr>cot_desc_ptr = cot_desc, parser_libs = (\<lambda>t. if t = IMG_CERT then Some demo_parser else None),
     lib_verify_signature = (\<lambda>data sig alg pk. 0), lib_verify_hash = (\<lambda>data digest. if data = take (length data) digest then 0 else 1),
     plat_get_rotpk_info = (\<lambda>_. (0, [1], ROTPK_IS_HASH)), plat_get_nv_ctr = board_get_nv_ctr, plat_set_nv_ctr = fvp_set_nv_ctr False\<rparr>"

definition demo_auth :: auth_state where
  "demo_auth = \<lparr>auth_img_flags = replicate MAX_NUMBER_IDS 0, auth_bufs = replicate 5 (replicate 83 0), auth_nv_regs = (\<lambda>_. 3)\<rparr>"

lemma demo_verify_run: "map_option fst (auth_mod_verify_img demo_env TRUSTED_BOOT_FW_CERT_ID [9] demo_auth) = Some 0"
  by code_simp

lemma demo_verify: "\<exists>st'. auth_mod_verify_img demo_env TRUSTED_BOOT_FW_CERT_ID [9] demo_auth = Some (0, st')"
  using demo_verify_run by (auto simp: map_option_case split: option.split_asm)

theorem verify_refuses_rollback_witness:
  "\<exists>st'. auth_mod_verify_img demo_env TRUSTED_BOOT_FW_CERT_ID [9] demo_auth = Some (0, st') \<and>
     (\<exists>data x v'. img_parser_get_auth_param demo_env IMG_CERT trusted_nv_ctr [9] = Some (0, data) \<and> der_counter data = Some (Some x)
        \<and> 3 \<le> x \<and> board_get_nv_ctr (auth_nv_regs st') (pt_cookie trusted_nv_ctr) = Some (0, v') \<and> x \<le> v')"
proof -
  obtain st' where st': "auth_mod_verify_img demo_env TRUSTED_BOOT_FW_CERT_ID [9] demo_auth = Some (0, st')"
    using demo_verify by blast
  show ?thesis
    using verify_refuses_rollback [of demo_env False TRUSTED_BOOT_FW_CERT_ID "[9]" demo_auth st' trusted_boot_fw_cert _ trusted_nv_ctr trusted_nv_ctr 3] st'
    by (simp add: demo_env_def TRUSTED_BOOT_FW_CERT_ID_def trusted_boot_fw_cert_def demo_auth_def board_get_nv_ctr_def nv_ctr_addr_def
      trusted_nv_ctr_def TRUSTED_FW_NVCOUNTER_OID_def)
qed

subsection \<open>A buffer with two uses\<close>

lemma fwu_cert_extract:
  assumes "auth_extract e fwu_cert cert st = Some (0, st')" "img_parser_get_auth_param e IMG_CERT bl2u_hash cert = Some (0, h)"
  shows "tb_fw_hash_buf < length (auth_bufs st')" "take (length h) (auth_bufs st' ! tb_fw_hash_buf) = h" "length h \<le> 83"
proof -
  obtain b c where "st' = st\<lparr>auth_bufs := (auth_bufs st)[3 := b, 0 := h @ drop (length h) (auth_bufs st ! 0), 4 := c]\<rparr>"
      and "4 < length (auth_bufs st)" "length h \<le> 83"
    using assms
    by (atomize_elim, auto simp: auth_extract_def fwu_cert_def hash_param_def no_param_def bind_Some_iff buf_defs HASH_DER_LEN_def
        split: if_split_asm) (metis not_less)+
  moreover from this(2) have "auth_bufs st \<noteq> []" by auto
  ultimately show "tb_fw_hash_buf < length (auth_bufs st')" "take (length h) (auth_bufs st' ! tb_fw_hash_buf) = h" "length h \<le> 83"
    by (auto simp: buf_defs nth_list_update)
qed

lemma verify_bl2_image:
  assumes "cot_desc_ptr e = cot_desc" "img \<noteq> []" "tb_fw_hash_buf < length (auth_bufs st)" "take 83 (auth_bufs st ! tb_fw_hash_buf) = h" "h \<noteq> []"
    "length (auth_img_flags st) = MAX_NUMBER_IDS"
  shows "map_option fst (auth_mod_verify_img e BL2_IMAGE_ID img st) = Some (lib_verify_hash e img h)"
  using assms
  by (simp add: auth_mod_verify_img_def BL2_IMAGE_ID_def bl2_image_def hashed_image_def img_parser_check_integrity_def
      AUTH_METHOD_NUM_def auth_method_run_def auth_hash_def auth_get_param_def trusted_boot_fw_cert_def COT_MAX_VERIFIED_PARAMS_def
      hash_param_def cmp_auth_param_type_desc_def img_parser_get_auth_param_def raw_data_def crypto_mod_verify_hash_def HASH_DER_LEN_def
      auth_extract_def MAX_NUMBER_IDS_def)

text \<open>(C2) The buffer for the hash of BL2 also holds that of BL2U: once the certificate for firmware updates was accepted, an
  image offered as BL2 is checked against the hash of BL2U, and not against one of the certificate of BL2.\<close>

theorem bl2_checked_against_bl2u_hash:
  assumes "cot_desc_ptr e = cot_desc" "auth_mod_verify_img e FWU_CERT_ID cert st = Some (0, st')"
    "img_parser_get_auth_param e IMG_CERT bl2u_hash cert = Some (0, h)" "length h = 83" "img \<noteq> []"
    "length (auth_img_flags st) = MAX_NUMBER_IDS"
  shows "map_option fst (auth_mod_verify_img e BL2_IMAGE_ID img st') = Some (lib_verify_hash e img h)"
  using assms(2)
proof (cases rule: verify_img_stages)
  case (accepted d ms st1 st2)
  have d: "d = fwu_cert" using accepted(2,3) assms(1) by (simp add: FWU_CERT_ID_def)
  note x = fwu_cert_extract [OF accepted(6) [unfolded d] assms(3)]
  have "length (auth_img_flags st2) = MAX_NUMBER_IDS"
    using auth_methods_loop_frame [OF accepted(5)] auth_extract_frame [OF accepted(6)] assms(6) by simp
  then show ?thesis
    using x assms(1,4,5) accepted(8) by (intro verify_bl2_image) auto
qed simp_all

theorem bl2_checked_against_bl2u_hash_witness:
  "\<exists>st'. auth_mod_verify_img demo_env FWU_CERT_ID [9] demo_auth = Some (0, st') \<and>
     map_option fst (auth_mod_verify_img demo_env BL2_IMAGE_ID [7, 7] st') = Some 0"
proof -
  have "map_option fst (auth_mod_verify_img demo_env FWU_CERT_ID [9] demo_auth) = Some 0" by code_simp
  then obtain st' where st': "auth_mod_verify_img demo_env FWU_CERT_ID [9] demo_auth = Some (0, st')"
    by (auto simp: map_option_case split: option.split_asm)
  have "map_option fst (auth_mod_verify_img demo_env BL2_IMAGE_ID [7, 7] st') = Some (lib_verify_hash demo_env [7, 7] (replicate 83 7))"
    by (rule bl2_checked_against_bl2u_hash [OF _ st'])
      (simp_all add: demo_env_def demo_auth_def img_parser_get_auth_param_def demo_parser_def bl2u_hash_def hash_desc_def)
  then show ?thesis using st' by (simp add: demo_env_def numeral_eq_Suc)
qed

end
