(* ===== verification/Spec2Isabelle.thy ===== *)
theory Spec2Isabelle
  imports PSCI_Properties Runtime_Svc SDEI_Dispatch Bakery_Lock Xlat_Properties Tbbr_Cot
begin

text \<open>
  Verification development for Trusted Firmware-A with the Alif Ensemble board port.

  \<^bold>\<open>The program.\<close> The firmware runs at EL3. At run time a secure monitor call traps into it, the
  runtime service table (\<^verbatim>\<open>common/runtime_svc.c\<close>) picks the service that owns the function number, and the
  service answers. PSCI (\<^verbatim>\<open>lib/psci\<close>) turns CPUs on and off and negotiates the states of the power domains
  above them; it holds bakery locks (\<^verbatim>\<open>lib/locks/bakery\<close>) while it does, and calls the hooks of a platform
  port (\<^verbatim>\<open>plat/arm\<close>). SDEI (\<^verbatim>\<open>services/std_svc/sdei\<close>) delivers events to the normal world from interrupts;
  it sits on the exception handling framework (\<^verbatim>\<open>bl31/ehf.c\<close>), which manages the priority mask of the
  interrupt controller (\<^verbatim>\<open>plat/common/plat_gicv3.c\<close>) and gets its interrupts from the interrupt management
  (\<^verbatim>\<open>bl31/interrupt_mgmt.c\<close>). The translation table library (\<^verbatim>\<open>lib/xlat_tables_v2\<close>) gives the firmware its
  own view of memory.

  \<^bold>\<open>Conventions.\<close> Machine integers keep their width (\<open>u8\<close> to \<open>u64\<close>). Operations are functions in the option
  monad on an explicit state: \<^term>\<open>None\<close> is an execution that does not go on (\<^verbatim>\<open>panic()\<close>, a failed assertion,
  a null hook, an access outside an array), so a statement that an operation returns a value says that
  none of these happens. Error codes are values. A C function that ends in a wait for interrupt returns
  \<^const>\<open>No_Return\<close>. What the platform or the hardware decides is a field of an environment record.
  Calls of hooks and writes of registers that nothing reads back are events of a log.

  \<^bold>\<open>Foundations.\<close> \<open>TF_Prelude\<close>: checked primitives, searches, and the locale \<open>step_invariant\<close> for
  invariants of step relations. \<open>TF_Arch\<close>: constants of the architecture and of the calling convention.
  \<open>Mem_Region\<close>: \<^verbatim>\<open>lib/utils/mem_region.c\<close>; the coverage check is exact and clearing zeroes exactly the
  regions.

  \<^bold>\<open>PSCI.\<close> \<open>PSCI_Types\<close> has the data of \<^verbatim>\<open>psci.h\<close> and \<^verbatim>\<open>psci_private.h\<close>; \<open>PSCI_Common\<close>, \<open>PSCI_Stat\<close>, \<open>PSCI_Power\<close>,
  \<open>PSCI_Main\<close> and \<open>PSCI_Setup\<close> follow the C files of the same names (\<open>PSCI_Power\<close> holds \<^verbatim>\<open>psci_on.c\<close>,
  \<^verbatim>\<open>psci_off.c\<close>, \<^verbatim>\<open>psci_suspend.c\<close> and the warm boot), and \<open>Plat_Arm\<close> the FVP and devkit ports. \<open>PSCI_Tree\<close> reads
  the arrays of nodes as a tree and shows that state coordination computes the negotiation of the
  requests; the platform's choice function has the contract \<open>pwr_coordinator\<close>. \<open>PSCI_Effects\<close> gives the
  exact effect of every operation, \<open>PSCI_Levels\<close> that of the level searches. \<open>PSCI_System\<close> is the system of
  all CPUs, whose steps are the sections of the calls that run under the locks, with the invariant that
  every step keeps. \<open>PSCI_Properties\<close> states the results: running CPUs have their domains on,
  \<^verbatim>\<open>AFFINITY_INFO\<close> is right in every reachable state, CPU_OFF and the warm boot never fail an assertion.
  \<open>E7_Run\<close> is the concrete devkit state at which the hypotheses are shown to hold.

  \<^bold>\<open>Locks.\<close> \<open>Bakery_Lock\<close> is the lock in coherent memory, one step per access to the shared words, for any
  interleaving of up to 256 CPUs: mutual exclusion and absence of deadlock while tickets fit in 15
  bits, and the run that loses exclusion when one wraps.

  \<^bold>\<open>Interrupts.\<close> \<open>Runtime_Svc\<close>, \<open>Interrupt_Mgmt\<close>, \<open>GICv3\<close> and \<open>EHF\<close> model the files named above; the
  state of the framework extends that of the controller. Shown: which service an SMC reaches, the
  routing bits after any sequence of registrations, and that an active priority level keeps out less
  urgent interrupts.

  \<^bold>\<open>SDEI.\<close> \<open>SDEI\<close> has the data, \<open>SDEI_Main\<close> the calls and the SMC handler, \<open>SDEI_Intr\<close> dispatch and
  completion, split where the C code waits in \<^verbatim>\<open>setjmp()\<close>. \<open>SDEI_Facts\<close>, \<open>SDEI_Inv\<close> and \<open>SDEI_Calls\<close> show that
  every call keeps the invariant; \<open>SDEI_Properties\<close> and \<open>SDEI_Dispatch\<close> state the round trips and the races.

  \<^bold>\<open>Translation tables.\<close> \<open>Xlat_Tables\<close> models \<^verbatim>\<open>xlat_tables_core.c\<close>, \<^verbatim>\<open>xlat_tables_utils.c\<close> and the AArch64
  \<^verbatim>\<open>xlat_tables_arch.c\<close>. \<open>Xlat_Walk\<close> reads the tables in memory as a tree, \<open>Xlat_Map\<close> shows what mapping a
  region does to it, \<open>Xlat_Mmap\<close> the order of the list of regions, \<open>Xlat_Init\<close> the initialisation,
  \<open>Xlat_Translate\<close>, \<open>Xlat_Attr\<close> and \<open>Xlat_Change\<close> the translation of an address and its attributes.
  \<open>Xlat_Properties\<close> states that every address is translated by the innermost region that contains it,
  that no two addresses share a physical one, and that a change of attributes is exact and breaks
  before it makes.

  \<^bold>\<open>Bounds and fuel.\<close> Loops over levels, CPUs, tables or list entries are structural recursions over what
  is left, so no fuel is needed for them. Recursion over translation levels counts the levels to the
  last one, at most three below the base. The retry loop of the SDEI bind takes the list of what other
  CPUs do, one element per attempt; that as many elements as there are free slots are enough is a
  theorem. Ticket numbers, counters and addresses wrap as words do.

  \<^bold>\<open>Not modelled.\<close> Assembly, and code that only programs devices (timers, consoles, set-up of the
  interrupt controller, flash and memory controllers of the devkit), which has no state the C code
  computes with. Cache maintenance, barriers and log messages: the memory of the model is coherent.
  Where the code differs between AArch64 and AArch32 the AArch64 variant is modelled; the devkit builds
  the other one, and its port enters through the hooks and the topology, which do not depend on it. Of
  the translation tables, version 1, the AArch32 registers and page sizes other than 4 KiB; unmapping and
  removing dynamic regions is modelled, but no theorem is stated about it. The first boot stages, image
  authentication, the secure partition manager and the dispatchers for trusted operating systems; their
  hooks into PSCI are parameters. Other boards, and libraries imported from other projects.
\<close>

end
